(* ===== verification/Prelude.thy ===== *)
theory Prelude
  imports Complex_Main "HOL-Library.Multiset" "HOL-Library.Product_Lexorder"
    "HOL-Library.List_Lexorder" "HOL-Library.Char_ord"
begin

text \<open>
  The shared ground of the development: the types every component uses (dates, wall clock
  times, instants and half-open spans of instants), the result type of fallible code with
  its bind and its loop, the queries over a table (a list of rows), and the lemmas on them
  that the components' proofs rest on.

  A date is the proleptic Gregorian ordinal of \<^verbatim>\<open>datetime.date\<close>, a time of day the number of
  microseconds since midnight (the resolution of \<^verbatim>\<open>datetime.time\<close>), and a naive datetime the
  number of microseconds since midnight of ordinal 0. Python bounds dates to the years 1 to
  9999; the model leaves them unbounded, so no operation here raises OverflowError.
\<close>

named_theorems span_simps \<open>spans of instants unfolded to inequalities\<close>
named_theorems result_simps \<open>the result type's bind and loops\<close>

section \<open>Dates, times, instants\<close>

type_synonym date = int
type_synonym time_of_day = int
type_synonym instant = int
type_synonym span = "instant \<times> instant"

definition day_us :: int where
  "day_us = 86400000000"

definition minute_us :: int where
  "minute_us = 60000000"

lemma day_us_pos [simp]: "0 < day_us" "day_us \<noteq> 0" "0 \<le> day_us"
  by (simp_all add: day_us_def)

text \<open>\<^verbatim>\<open>datetime.combine(day, t)\<close>, \<^verbatim>\<open>.date()\<close> and \<^verbatim>\<open>.time()\<close>.\<close>

definition combine :: "date \<Rightarrow> time_of_day \<Rightarrow> instant" where
  "combine d t = d * day_us + t"

definition date_of :: "instant \<Rightarrow> date" where
  "date_of i = i div day_us"

definition time_of :: "instant \<Rightarrow> time_of_day" where
  "time_of i = i mod day_us"

definition valid_time :: "time_of_day \<Rightarrow> bool" where
  "valid_time t \<longleftrightarrow> 0 \<le> t \<and> t < day_us"

lemma date_of_combine [simp]: "valid_time t \<Longrightarrow> date_of (combine d t) = d"
  by (simp add: date_of_def combine_def valid_time_def)

lemma time_of_combine [simp]: "valid_time t \<Longrightarrow> time_of (combine d t) = t"
  by (simp add: time_of_def combine_def valid_time_def)

lemma combine_date_time [simp]: "combine (date_of i) (time_of i) = i"
  by (simp add: date_of_def combine_def time_of_def)

lemma valid_time_of [simp]: "valid_time (time_of i)"
  by (simp add: time_of_def valid_time_def)

lemma combine_mono_day: "valid_time t \<Longrightarrow> valid_time u \<Longrightarrow> d < e \<Longrightarrow> combine d t < combine e u"
proof -
  assume t: "valid_time t" and u: "valid_time u" and "d < e"
  then have "d + 1 \<le> e" by simp
  then have "(d + 1) * day_us \<le> e * day_us" by (rule mult_right_mono) simp
  with t u show ?thesis by (simp add: combine_def valid_time_def algebra_simps)
qed

lemma combine_less_iff:
  "valid_time t \<Longrightarrow> valid_time u \<Longrightarrow>
   combine d t < combine e u \<longleftrightarrow> d < e \<or> (d = e \<and> t < u)"
  using combine_mono_day[of t u d e] combine_mono_day[of u t e d]
  by (cases d e rule: linorder_cases) (auto simp: combine_def)

lemma combine_step: "combine (d + k) t = combine d t + k * day_us"
  by (simp add: combine_def algebra_simps)

lemma combine_eq_iff [simp]:
  "valid_time t \<Longrightarrow> valid_time u \<Longrightarrow> combine d t = combine e u \<longleftrightarrow> d = e \<and> t = u"
  by (metis date_of_combine time_of_combine)

lemma date_of_mono: "i \<le> j \<Longrightarrow> date_of i \<le> date_of j"
  by (simp add: date_of_def zdiv_mono1)

text \<open>Two spans overlap as half-open intervals: the test every component writes.\<close>

definition meets :: "span \<Rightarrow> span \<Rightarrow> bool" where
  [span_simps]: "meets a b \<longleftrightarrow> fst a < snd b \<and> fst b < snd a"

definition in_span :: "instant \<Rightarrow> span \<Rightarrow> bool" where
  [span_simps]: "in_span i s \<longleftrightarrow> fst s \<le> i \<and> i < snd s"

lemma meets_sym: "meets a b \<longleftrightarrow> meets b a"
  by (auto simp: span_simps)

text \<open>For spans that hold something, the test says exactly that they share an instant.\<close>

lemma meets_iff_common:
  assumes "fst a < snd a" and "fst b < snd b"
  shows "meets a b \<longleftrightarrow> (\<exists>i. in_span i a \<and> in_span i b)"
proof
  assume "meets a b"
  with assms have "in_span (max (fst a) (fst b)) a \<and> in_span (max (fst a) (fst b)) b"
    by (auto simp: span_simps)
  then show "\<exists>i. in_span i a \<and> in_span i b" by blast
qed (auto simp: span_simps)

section \<open>Results of fallible code\<close>

text \<open>\<^verbatim>\<open>raise e\<close> is \<open>Inl e\<close>; \<open>bind_result\<close> is a call whose exception is not caught.\<close>

definition bind_result :: "'e + 'a \<Rightarrow> ('a \<Rightarrow> 'e + 'b) \<Rightarrow> 'e + 'b" where
  "bind_result m f = (case m of Inl e \<Rightarrow> Inl e | Inr a \<Rightarrow> f a)"

lemma bind_result_simps [simp, result_simps]:
  "bind_result (Inl e) f = Inl e"
  "bind_result (Inr a) f = f a"
  by (simp_all add: bind_result_def)

lemma bind_result_Inr_iff [result_simps]:
  "bind_result m f = Inr b \<longleftrightarrow> (\<exists>a. m = Inr a \<and> f a = Inr b)"
  by (cases m) auto

lemma bind_result_Inl_iff [result_simps]:
  "bind_result m f = Inl e \<longleftrightarrow> m = Inl e \<or> (\<exists>a. m = Inr a \<and> f a = Inl e)"
  by (cases m) auto

text \<open>A \<^verbatim>\<open>for\<close> loop whose body may raise.\<close>

fun fold_result :: "('a \<Rightarrow> 's \<Rightarrow> 'e + 's) \<Rightarrow> 'a list \<Rightarrow> 's \<Rightarrow> 'e + 's" where
  "fold_result f [] s = Inr s"
| "fold_result f (x # xs) s = bind_result (f x s) (fold_result f xs)"

lemma fold_result_inv:
  assumes "fold_result f xs s = Inr t" and "P s"
    and "\<And>x s t. x \<in> set xs \<Longrightarrow> P s \<Longrightarrow> f x s = Inr t \<Longrightarrow> P t"
  shows "P t"
  using assms
proof (induction xs arbitrary: s)
  case (Cons x xs)
  from Cons.prems(1) obtain u where "f x s = Inr u" "fold_result f xs u = Inr t"
    by (auto simp: result_simps)
  with Cons show ?case by (metis list.set_intros)
qed simp

lemma fold_result_Inr:
  assumes "\<And>x s. x \<in> set xs \<Longrightarrow> P s \<Longrightarrow> \<exists>t. f x s = Inr t \<and> P t" and "P s"
  shows "\<exists>t. fold_result f xs s = Inr t \<and> P t"
  using assms
proof (induction xs arbitrary: s)
  case (Cons x xs)
  obtain u where "f x s = Inr u" "P u" using Cons.prems by force
  with Cons show ?case by (metis bind_result_simps(2) fold_result.simps(2) list.set_intros(2))
qed simp

text \<open>A list comprehension whose element may raise.\<close>

fun map_result :: "('a \<Rightarrow> 'e + 'b) \<Rightarrow> 'a list \<Rightarrow> 'e + 'b list" where
  "map_result f [] = Inr []"
| "map_result f (x # xs) = bind_result (f x) (\<lambda>y. bind_result (map_result f xs) (\<lambda>ys. Inr (y # ys)))"

lemma map_result_Inr: "(\<And>x. x \<in> set xs \<Longrightarrow> f x = Inr (g x)) \<Longrightarrow> map_result f xs = Inr (map g xs)"
  by (induction xs) auto

section \<open>Tables\<close>

text \<open>
  A table is the list of its rows; \<^verbatim>\<open>query(...).filter(P).all()\<close> is \<open>filter P\<close>,
  \<^verbatim>\<open>.first()\<close> is \<open>find P\<close>. A new row takes an id above every id in the table.
\<close>

definition fresh_id :: "int list \<Rightarrow> int" where
  "fresh_id ids = foldr max ids 0 + 1"

lemma foldr_max_ge: "x \<in> set xs \<Longrightarrow> x \<le> foldr max xs (0::int)"
  by (induction xs) auto

lemma fresh_id_notin [simp]: "fresh_id ids \<notin> set ids"
  using foldr_max_ge[of "fresh_id ids" ids] by (auto simp: fresh_id_def)

lemma fresh_id_greater: "x \<in> set ids \<Longrightarrow> x < fresh_id ids"
  using foldr_max_ge[of x ids] by (auto simp: fresh_id_def)

lemma find_Some_iff_first:
  "find P xs = Some x \<Longrightarrow> x \<in> set xs \<and> P x"
  by (auto simp: find_Some_iff)

lemma find_append: "find P (xs @ ys) = (case find P xs of None \<Rightarrow> find P ys | Some x \<Rightarrow> Some x)"
  by (induction xs) auto

lemma find_None_filter: "find P xs = None \<longleftrightarrow> filter P xs = []"
  by (auto simp: find_None_iff filter_empty_conv)

lemma find_by_id: "distinct (map k xs) \<Longrightarrow> x \<in> set xs \<Longrightarrow> find (\<lambda>y. k y = k x) xs = Some x"
  by (induction xs) auto

text \<open>\<^verbatim>\<open>UPDATE ... WHERE P\<close>, or an attribute set on every row a query returned.\<close>

definition update_rows :: "('a \<Rightarrow> bool) \<Rightarrow> ('a \<Rightarrow> 'a) \<Rightarrow> 'a list \<Rightarrow> 'a list" where
  "update_rows P f = map (\<lambda>x. if P x then f x else x)"

lemma length_update_rows [simp]: "length (update_rows P f xs) = length xs"
  by (simp add: update_rows_def)

lemma map_update_rows_id: "(\<And>x. g (f x) = g x) \<Longrightarrow> map g (update_rows P f xs) = map g xs"
  by (simp add: update_rows_def)

lemma set_update_rows: "set (update_rows P f xs) = f ` {x \<in> set xs. P x} \<union> {x \<in> set xs. \<not> P x}"
  by (auto simp: update_rows_def)

section \<open>Pairs of a list\<close>

text \<open>The ordered pairs of positions of a list: every pair of elements, each once.\<close>

fun pairs :: "'a list \<Rightarrow> ('a \<times> 'a) list" where
  "pairs [] = []"
| "pairs (x # xs) = map (Pair x) xs @ pairs xs"

lemma sorted_wrt_iff_pairs: "sorted_wrt R xs \<longleftrightarrow> (\<forall>(x, y) \<in> set (pairs xs). R x y)"
  by (induction xs) auto

lemma pairs_append: "mset (pairs (xs @ ys)) = mset (pairs xs) + mset (pairs ys) + mset (List.product xs ys)"
  by (induction xs) (auto simp: ac_simps)

lemma set_pairs_subset: "(x, y) \<in> set (pairs xs) \<Longrightarrow> x \<in> set xs \<and> y \<in> set xs"
  by (induction xs) auto

end
