(* ===== verification/Datamodel.thy ===== *)
theory Datamodel
  imports Prelude
begin

text \<open>
  The tables of \<^verbatim>\<open>backend/app/models/db.py\<close> the scheduling core reads and writes: one
  datatype per enum, one record per mapped class (the columns the modelled code reads or writes, under a
  two-letter prefix because several classes share column names), and the database as a
  record of tables.

  A database value is what one session sees. \<^verbatim>\<open>core/organization.py\<close> adds the caller's
  organization to every statement, so a request works on its own organization's rows; the
  scheduled jobs run with no organization and see every row. The \<^verbatim>\<open>organization_id\<close> column is
  kept on the rows the code itself copies it between.

  A session holds the committed tables and the working tables of the open transaction:
  \<^verbatim>\<open>db.commit()\<close> publishes the working tables, \<^verbatim>\<open>db.rollback()\<close> forgets them. What a handler
  leaves uncommitted is lost when the request ends.
\<close>

section \<open>Enumerations\<close>

datatype institutional_role = ORG_ADMIN | UNIT_ADMIN | STAFF | MEMBER

datatype dynamic_state =
  SCHEDULED | ON_LEAVE | PROXY_SUBSTITUTE | LUNCH | INTERNAL_MEETING | ADHOC_EVENT

datatype verification_metric = PRESENT | ABSENT | LATE

datatype execution_mode = PHYSICAL | ONLINE_STREAM

datatype access_readiness = OPEN_AD_HOC | BUSY | CRITICAL_DO_NOT_DISTURB | VERY_FREE

datatype log_verification_state = PENDING_VERIFICATION | VERIFIED_APPROVED | VERIFIED_DENIED

datatype resource_mode = EXCLUSIVE | POOLED | SHARED

datatype reservation_status = HELD | CANCELLED

datatype requirement_owner = RESOURCE | ACTIVITY

datatype requirement_enforcement = REQUIRED | ADVISORY

section \<open>Rows\<close>

type_synonym decimal = rat

record organization =
  og_id :: string
  og_default_requirement_enforcement :: requirement_enforcement

record planning_cycle =
  cy_id :: int
  cy_cycle_label :: string
  cy_date_bounds_start :: date
  cy_date_bounds_end :: date
  cy_operational_status :: bool

record user =
  us_id :: string
  us_full_name :: string
  us_role_type :: institutional_role
  us_unit_code :: "string option"
  us_assigned_base_station :: "string option"
  us_current_occupancy_index :: access_readiness
  us_reporting_line_manager :: "string option"
  us_deactivated_at :: "instant option"

record activity =
  ac_id :: int
  ac_activity_code :: string
  ac_activity_title :: string
  ac_unit_code :: string
  ac_cycle_id :: int
  ac_retired_at :: "instant option"

record activity_enrollment =
  en_id :: int
  en_activity_id :: int
  en_member_id :: string

record resource_class =
  rc_id :: int
  rc_code :: string
  rc_name :: string
  rc_active :: bool

record resource =
  re_id :: int
  re_code :: string
  re_label :: string
  re_resource_type :: string
  re_unit_code :: "string option"
  re_capacity :: "int option"
  re_mode :: resource_mode
  re_user_id :: "string option"
  re_latitude :: "decimal option"
  re_longitude :: "decimal option"
  re_altitude_target :: "decimal option"
  re_active :: bool

record master_slot =
  sl_id :: int
  sl_rrule :: string
  sl_dtstart :: date
  sl_time_window_start :: time_of_day
  sl_time_window_end :: time_of_day
  sl_activity_id :: int
  sl_primary_lead_id :: "string option"
  sl_resource_id :: "int option"
  sl_retired_at :: "instant option"
  sl_organization_id :: string

record daily_ledger =
  dl_id :: int
  dl_target_date :: date
  dl_time_window_start :: "time_of_day option"
  dl_time_window_end :: "time_of_day option"
  dl_master_slot_id :: "int option"
  dl_activity_id :: int
  dl_active_lead_id :: "string option"
  dl_substitute_lead_id :: "string option"
  dl_resource_id :: "int option"
  dl_delivery_format :: execution_mode
  dl_virtual_connection_string :: "string option"
  dl_latitude_target :: "decimal option"
  dl_longitude_target :: "decimal option"
  dl_altitude_target :: "decimal option"
  dl_precision_radius_meters :: "int option"
  dl_operational_state :: dynamic_state
  dl_organization_id :: string

record reservation =
  rv_id :: int
  rv_resource_id :: int
  rv_reserved_date :: date
  rv_time_window_start :: time_of_day
  rv_time_window_end :: time_of_day
  rv_purpose :: string
  rv_requested_by_id :: "string option"
  rv_idempotency_key :: string
  rv_request_fingerprint :: string
  rv_external_ref :: "string option"
  rv_quantity :: int
  rv_mode :: resource_mode
  rv_status :: reservation_status
  rv_created_at :: instant
  rv_cancelled_at :: "instant option"
  rv_parent_reservation_id :: "int option"

record resource_requirement =
  rq_id :: int
  rq_owner_kind :: requirement_owner
  rq_owner_id :: int
  rq_target_resource_id :: "int option"
  rq_target_kind :: "string option"
  rq_quantity :: int
  rq_before_minutes :: int
  rq_after_minutes :: int
  rq_enforcement :: "requirement_enforcement option"

record rsvp_log =
  lg_id :: int
  lg_submitting_user_id :: string
  lg_target_absence_date :: date
  lg_end_date :: "date option"
  lg_context_justification :: string
  lg_approval_state :: log_verification_state
  lg_authorized_by_user_id :: "string option"

record verification_row =
  vl_id :: int
  vl_ledger_instance_id :: int
  vl_member_id :: string
  vl_marking_status :: verification_metric
  vl_authorizing_agent_id :: "string option"
  vl_modification_timestamp :: instant

record ledger_annotation =
  an_id :: int
  an_ledger_instance_id :: int
  an_creator_id :: string
  an_classification_tag :: string
  an_annotation_payload :: string
  an_distribution_timestamp :: instant

record change_marker =
  cm_id :: int
  cm_entity_kind :: string
  cm_entity_id :: int
  cm_change_kind :: string
  cm_at :: instant

section \<open>The database and a session on it\<close>

record database =
  organization_row :: "organization option"
  planning_cycles :: "planning_cycle list"
  users :: "user list"
  activities :: "activity list"
  activity_enrollments :: "activity_enrollment list"
  resource_classes :: "resource_class list"
  resources :: "resource list"
  structural_master_slots :: "master_slot list"
  daily_ledger_rows :: "daily_ledger list"
  reservations :: "reservation list"
  resource_requirements :: "resource_requirement list"
  reverse_rsvp_logs :: "rsvp_log list"
  verification_ledger :: "verification_row list"
  ledger_annotations :: "ledger_annotation list"
  change_markers :: "change_marker list"

definition empty_db :: database where
  "empty_db = \<lparr>organization_row = None, planning_cycles = [], users = [], activities = [],
     activity_enrollments = [], resource_classes = [], resources = [],
     structural_master_slots = [], daily_ledger_rows = [], reservations = [],
     resource_requirements = [], reverse_rsvp_logs = [], verification_ledger = [],
     ledger_annotations = [], change_markers = []\<rparr>"

record session =
  committed :: database
  working :: database

definition open_session :: "database \<Rightarrow> session" where
  "open_session d = \<lparr>committed = d, working = d\<rparr>"

definition db_commit :: "session \<Rightarrow> session" where
  "db_commit s = s\<lparr>committed := working s\<rparr>"

definition db_rollback :: "session \<Rightarrow> session" where
  "db_rollback s = s\<lparr>working := committed s\<rparr>"

lemma session_simps [simp]:
  "committed (open_session d) = d" "working (open_session d) = d"
  "committed (db_commit s) = working s" "working (db_commit s) = working s"
  "committed (db_rollback s) = committed s" "working (db_rollback s) = committed s"
  by (simp_all add: open_session_def db_commit_def db_rollback_def)

text \<open>Which database server the tables live in: the exclusion constraints exist on PostgreSQL only.\<close>

datatype backend = PostgreSQL | SQLite

section \<open>Lookups by primary key\<close>

definition get_resource :: "database \<Rightarrow> int \<Rightarrow> resource option" where
  "get_resource db rid = find (\<lambda>r. re_id r = rid) (resources db)"

definition get_activity_row :: "database \<Rightarrow> int \<Rightarrow> activity option" where
  "get_activity_row db aid = find (\<lambda>a. ac_id a = aid) (activities db)"

definition get_cycle_row :: "database \<Rightarrow> int \<Rightarrow> planning_cycle option" where
  "get_cycle_row db cid = find (\<lambda>c. cy_id c = cid) (planning_cycles db)"

definition get_user :: "database \<Rightarrow> string \<Rightarrow> user option" where
  "get_user db uid = find (\<lambda>u. us_id u = uid) (users db)"

text \<open>\<^verbatim>\<open>slot.activity\<close> and \<^verbatim>\<open>slot.activity.cycle\<close>, the loaded relationships.\<close>

definition slot_activity :: "database \<Rightarrow> master_slot \<Rightarrow> activity option" where
  "slot_activity db s = get_activity_row db (sl_activity_id s)"

definition slot_cycle :: "database \<Rightarrow> master_slot \<Rightarrow> planning_cycle option" where
  "slot_cycle db s = Option.bind (slot_activity db s) (\<lambda>a. get_cycle_row db (ac_cycle_id a))"

text \<open>\<^verbatim>\<open>target_room_identifier\<close> of a slot or a day: the code of its resource.\<close>

definition room_identifier :: "database \<Rightarrow> int option \<Rightarrow> string option" where
  "room_identifier db rid = map_option re_code (Option.bind rid (get_resource db))"

lemma get_resource_Some: "get_resource db rid = Some r \<Longrightarrow> r \<in> set (resources db) \<and> re_id r = rid"
  by (auto simp: get_resource_def dest: find_Some_iff_first)

lemma get_activity_row_Some:
  "get_activity_row db i = Some a \<Longrightarrow> a \<in> set (activities db) \<and> ac_id a = i"
  by (auto simp: get_activity_row_def dest: find_Some_iff_first)

lemma get_cycle_row_Some:
  "get_cycle_row db i = Some c \<Longrightarrow> c \<in> set (planning_cycles db) \<and> cy_id c = i"
  by (auto simp: get_cycle_row_def dest: find_Some_iff_first)

lemma lookup_frame [simp]:
  "get_resource (db\<lparr>reservations := x\<rparr>) = get_resource db"
  "get_resource (db\<lparr>change_markers := y\<rparr>) = get_resource db"
  "get_resource (db\<lparr>daily_ledger_rows := z\<rparr>) = get_resource db"
  "get_cycle_row (db\<lparr>reservations := x\<rparr>) = get_cycle_row db"
  "get_cycle_row (db\<lparr>change_markers := y\<rparr>) = get_cycle_row db"
  "get_cycle_row (db\<lparr>daily_ledger_rows := z\<rparr>) = get_cycle_row db"
  "slot_activity (db\<lparr>reservations := x\<rparr>) = slot_activity db"
  "slot_activity (db\<lparr>change_markers := y\<rparr>) = slot_activity db"
  "slot_activity (db\<lparr>daily_ledger_rows := z\<rparr>) = slot_activity db"
  "slot_cycle (db\<lparr>reservations := x\<rparr>) = slot_cycle db"
  "slot_cycle (db\<lparr>change_markers := y\<rparr>) = slot_cycle db"
  "slot_cycle (db\<lparr>daily_ledger_rows := z\<rparr>) = slot_cycle db"
  by (auto simp: get_resource_def slot_activity_def slot_cycle_def get_activity_row_def
      get_cycle_row_def fun_eq_iff cong: Option.bind_cong)

section \<open>Errors\<close>

text \<open>
  A route raises \<^verbatim>\<open>ChronosError(status_code, detail, code)\<close>. The detail is kept as the data it
  carries: the message, and the rows or intervals it names (of a type the component chooses). The
  codes are those the modelled routes raise.
\<close>

datatype error_code =
    NOT_FOUND | FORBIDDEN | INVALID_VALUE | STATE_CONFLICT | INSUFFICIENT_ROLE | OUTSIDE_UNIT
  | RESOURCE_CONFLICT | ALREADY_EXISTS | IDEMPOTENCY_KEY_REUSED
  | RESERVATION_EXTERNAL_REF_TAKEN | RESOURCE_CAPACITY_EXCEEDED
  | RESOURCE_BOOKINGS_WOULD_NOT_FIT | REQUIREMENT_UNSATISFIED | UNKNOWN_RESOURCE_CLASS
  | MANAGER_NOT_SET | USER_DEACTIVATED | LOCATION_REQUIRED | LOCATION_TOO_COARSE | OUTSIDE_GEOFENCE
  | IDEMPOTENCY_KEY_IN_PROGRESS | RESOURCE_CLASS_IN_USE | RESOURCE_CLASS_PROTECTED
  | CHANGE_FEED_DISABLED | EMAIL_TAKEN | PAYLOAD_TOO_LARGE | IMPORT_REJECTED

record 'd chronos_error =
  status_code :: int
  error_code_of :: error_code
  detail_of :: 'd

definition chronos_error :: "int \<Rightarrow> error_code \<Rightarrow> 'd \<Rightarrow> 'd chronos_error" where
  "chronos_error s c d = \<lparr>status_code = s, error_code_of = c, detail_of = d\<rparr>"

end
