(* ===== verification/Org_Time.thy ===== *)
theory Org_Time
  imports Prelude
begin

text \<open>
  \<^verbatim>\<open>backend/app/core/time.py\<close> and \<^verbatim>\<open>backend/app/core/clock.py\<close>: the rule that turns a date and
  two wall clock readings into the two instants of a window, and the application clock.

  The clock module keeps one global, \<^verbatim>\<open>_clock\<close>, installed on first use. Its state here is the
  optional installed clock; every function that may build it returns the new state. The
  reading of real time and the ISO parser of \<^verbatim>\<open>datetime.fromisoformat\<close> are parameters, and so
  is the offset of the organization's zone at an instant, which \<^verbatim>\<open>zoneinfo\<close> supplies.
\<close>

section \<open>Windows\<close>

definition window_span :: "date \<Rightarrow> time_of_day \<Rightarrow> time_of_day \<Rightarrow> span" where
  "window_span day start stop =
     (let ends_on = (if stop < start then day + 1 else day)
      in (combine day start, combine ends_on stop))"

lemma window_span_simps [span_simps]:
  "fst (window_span day s e) = combine day s"
  "snd (window_span day s e) = combine (if e < s then day + 1 else day) e"
  by (simp_all add: window_span_def Let_def)

text \<open>A window with two different times is never empty and always shorter than a day.\<close>

lemma window_span_length:
  assumes "valid_time s" and "valid_time e" and "s \<noteq> e"
  shows "fst (window_span d s e) < snd (window_span d s e)"
    and "snd (window_span d s e) < fst (window_span d s e) + day_us"
  using assms by (auto simp: span_simps combine_def valid_time_def algebra_simps)

lemma window_span_end_date:
  "valid_time e \<Longrightarrow> date_of (snd (window_span d s e)) = (if e < s then d + 1 else d)"
  by (simp add: span_simps)

lemma window_span_shift: "window_span (d + k) s e =
    (fst (window_span d s e) + k * day_us, snd (window_span d s e) + k * day_us)"
  by (auto simp: window_span_def Let_def combine_def algebra_simps)

text \<open>
  Two windows that meet were opened at most a day apart: the reason three dates, or one day
  either side of a range, are all that ever has to be looked at.
\<close>

lemma meets_window_dates:
  assumes "valid_time s" "valid_time e" "valid_time s'" "valid_time e'"
    and "meets (window_span d s e) (window_span d' s' e')"
  shows "d - 1 \<le> d' \<and> d' \<le> d + 1"
proof -
  from assms(5) have *: "combine d s < combine (if e' < s' then d' + 1 else d') e'"
    "combine d' s' < combine (if e < s then d + 1 else d) e"
    by (simp_all add: span_simps)
  then have "d \<le> (if e' < s' then d' + 1 else d')" "d' \<le> (if e < s then d + 1 else d)"
    using assms(1-4) by (auto simp: combine_less_iff split: if_splits)
  then show ?thesis by (auto split: if_splits)
qed

text \<open>
  The rule as the exclusion constraints write it in SQL (\<^verbatim>\<open>_no_overlap\<close> in
  \<^verbatim>\<open>models/db.py\<close>): the end is moved a day when it is at or before the start.
\<close>

definition sql_window :: "date \<Rightarrow> time_of_day \<Rightarrow> time_of_day \<Rightarrow> span" where
  "sql_window day start stop =
     (combine day start, combine day stop + (if stop \<le> start then day_us else 0))"

text \<open>The PostgreSQL operator on two ranges closed below and open above; an empty range meets nothing.\<close>

definition ranges_overlap :: "span \<Rightarrow> span \<Rightarrow> bool" where
  "ranges_overlap a b \<longleftrightarrow> fst a < snd a \<and> fst b < snd b \<and> meets a b"

lemma sql_window_eq: "s \<noteq> e \<Longrightarrow> sql_window d s e = window_span d s e"
  by (auto simp: sql_window_def window_span_def combine_def algebra_simps)

lemma sql_overlap_iff_meets:
  assumes "valid_time s" "valid_time e" "s \<noteq> e" "valid_time s'" "valid_time e'" "s' \<noteq> e'"
  shows "ranges_overlap (sql_window d s e) (sql_window d' s' e') \<longleftrightarrow>
    meets (window_span d s e) (window_span d' s' e')"
  using window_span_length(1)[of s e d] window_span_length(1)[of s' e' d'] assms
  by (simp add: sql_window_eq ranges_overlap_def)

section \<open>The application clock\<close>

text \<open>A \<^verbatim>\<open>datetime\<close>: its wall clock reading and, when aware, its offset from UTC in microseconds.\<close>

record py_datetime =
  dt_local :: instant
  dt_utcoffset :: "int option"

datatype clock_error = Value_Error string | Runtime_Error string

datatype app_clock = SystemClock | HostClock instant

definition as_utc :: "py_datetime \<Rightarrow> string \<Rightarrow> clock_error + instant" where
  "as_utc i label = (case dt_utcoffset i of
     None \<Rightarrow> Inl (Value_Error (label @ '' must be timezone-aware''))
   | Some off \<Rightarrow> Inr (dt_local i - off))"

definition host_clock :: "py_datetime \<Rightarrow> clock_error + app_clock" where
  "host_clock start = bind_result (as_utc start ''CLOCK_START'') (\<lambda>i. Inr (HostClock i))"

fun clock_reads :: "instant \<Rightarrow> app_clock \<Rightarrow> instant" where
  "clock_reads wall SystemClock = wall"
| "clock_reads wall (HostClock i) = i"

fun clock_advance :: "app_clock \<Rightarrow> py_datetime \<Rightarrow> clock_error + app_clock" where
  "clock_advance SystemClock i =
     Inl (Runtime_Error ''the system clock cannot be advanced; set CLOCK_MODE=host'')"
| "clock_advance (HostClock now) i = bind_result (as_utc i ''instant'') (\<lambda>j.
     if j < now then Inl (Value_Error ''the clock does not go backwards'')
     else Inr (HostClock j))"

record clock_settings =
  clock_mode :: string
  clock_start :: string

definition clock_from_settings ::
  "(string \<Rightarrow> clock_error + py_datetime) \<Rightarrow> clock_settings \<Rightarrow> clock_error + app_clock" where
  "clock_from_settings fromisoformat st =
     (if clock_mode st = ''host''
      then bind_result (fromisoformat (clock_start st)) host_clock
      else Inr SystemClock)"

text \<open>The module's functions over the global: the result and the installed clock after the call.\<close>

definition clock_current ::
  "(string \<Rightarrow> clock_error + py_datetime) \<Rightarrow> clock_settings \<Rightarrow> app_clock option
   \<Rightarrow> clock_error + app_clock" where
  "clock_current fromisoformat st g = (case g of
     None \<Rightarrow> clock_from_settings fromisoformat st
   | Some c \<Rightarrow> Inr c)"

definition clock_install :: "app_clock \<Rightarrow> app_clock option \<Rightarrow> app_clock option" where
  "clock_install c g = Some c"

definition clock_reset :: "app_clock option \<Rightarrow> app_clock option" where
  "clock_reset g = None"

definition clock_is_host :: "app_clock \<Rightarrow> bool" where
  "clock_is_host c = (case c of HostClock _ \<Rightarrow> True | SystemClock \<Rightarrow> False)"

definition clock_now ::
  "(string \<Rightarrow> clock_error + py_datetime) \<Rightarrow> clock_settings \<Rightarrow> instant \<Rightarrow> app_clock option
   \<Rightarrow> clock_error + (instant \<times> app_clock option)" where
  "clock_now fromisoformat st wall g =
     bind_result (clock_current fromisoformat st g) (\<lambda>c. Inr (clock_reads wall c, Some c))"

definition clock_advance_to ::
  "(string \<Rightarrow> clock_error + py_datetime) \<Rightarrow> clock_settings \<Rightarrow> py_datetime \<Rightarrow> app_clock option
   \<Rightarrow> clock_error + app_clock option" where
  "clock_advance_to fromisoformat st i g =
     bind_result (clock_current fromisoformat st g) (\<lambda>c.
       bind_result (clock_advance c i) (\<lambda>c'. Inr (Some c')))"

subsection \<open>The organization's calendar\<close>

definition org_now :: "(instant \<Rightarrow> int) \<Rightarrow> instant \<Rightarrow> instant" where
  "org_now offset now = now + offset now"

definition org_today :: "(instant \<Rightarrow> int) \<Rightarrow> instant \<Rightarrow> date" where
  "org_today offset now = date_of (org_now offset now)"

definition org_tomorrow :: "(instant \<Rightarrow> int) \<Rightarrow> instant \<Rightarrow> date" where
  "org_tomorrow offset now = org_today offset now + 1"

subsection \<open>The host clock never goes back\<close>

text \<open>One move of an installed clock: an accepted or a refused request of the host.\<close>

inductive clock_step :: "app_clock \<Rightarrow> app_clock \<Rightarrow> bool" where
  advanced: "clock_advance c i = Inr c' \<Longrightarrow> clock_step c c'"
| refused: "clock_advance c i = Inl e \<Longrightarrow> clock_step c c"

inductive_cases clock_stepE [elim]: "clock_step c c'"

lemma clock_advance_Inr:
  "clock_advance c i = Inr c' \<Longrightarrow>
   \<exists>now off. c = HostClock now \<and> dt_utcoffset i = Some off \<and> now \<le> dt_local i - off \<and>
     c' = HostClock (dt_local i - off)"
  by (cases c) (auto simp: as_utc_def result_simps split: option.splits if_splits)

lemma clock_step_monotone: "clock_step c c' \<Longrightarrow> clock_reads wall c \<le> clock_reads wall c'"
  by (auto dest!: clock_advance_Inr)

lemma clock_steps_monotone:
  "clock_step\<^sup>*\<^sup>* c c' \<Longrightarrow> clock_reads wall c \<le> clock_reads wall c'"
  by (induction rule: rtranclp_induct) (auto dest: clock_step_monotone intro: order_trans)

end
