(* ===== verification/Py_Strings.thy ===== *)
theory Py_Strings
  imports Prelude
begin

text \<open>
  What the sources use of Python's strings: \<^verbatim>\<open>strip\<close>, \<^verbatim>\<open>upper\<close>, \<^verbatim>\<open>lower\<close>, \<^verbatim>\<open>startswith\<close>,
  \<^verbatim>\<open>endswith\<close>, \<^verbatim>\<open>split\<close> and \<^verbatim>\<open>partition\<close> on one character, \<^verbatim>\<open>join\<close>, \<^verbatim>\<open>str\<close> of an integer and
  \<^verbatim>\<open>isoformat\<close> of dates and times. A string is a list of characters; case conversion and
  white space are those of ASCII.
\<close>

definition is_space :: "char \<Rightarrow> bool" where
  "is_space c \<longleftrightarrow> (let n = of_char c :: nat in n = 32 \<or> (9 \<le> n \<and> n \<le> 13) \<or> (28 \<le> n \<and> n \<le> 31))"

definition strip :: "string \<Rightarrow> string" where
  "strip s = rev (dropWhile is_space (rev (dropWhile is_space s)))"

definition upper_char :: "char \<Rightarrow> char" where
  "upper_char c = (let n = of_char c :: nat in if 97 \<le> n \<and> n \<le> 122 then char_of (n - 32) else c)"

definition lower_char :: "char \<Rightarrow> char" where
  "lower_char c = (let n = of_char c :: nat in if 65 \<le> n \<and> n \<le> 90 then char_of (n + 32) else c)"

definition upper :: "string \<Rightarrow> string" where
  "upper s = map upper_char s"

definition lower :: "string \<Rightarrow> string" where
  "lower s = map lower_char s"

definition startswith :: "string \<Rightarrow> string \<Rightarrow> bool" where
  "startswith s p \<longleftrightarrow> take (length p) s = p"

definition endswith :: "string \<Rightarrow> string \<Rightarrow> bool" where
  "endswith s p \<longleftrightarrow> length p \<le> length s \<and> drop (length s - length p) s = p"

fun split_on :: "char \<Rightarrow> string \<Rightarrow> string list" where
  "split_on c [] = [[]]"
| "split_on c (x # xs) = (if x = c then [] # split_on c xs
     else (case split_on c xs of [] \<Rightarrow> [[x]] | w # ws \<Rightarrow> (x # w) # ws))"

fun partition_on :: "char \<Rightarrow> string \<Rightarrow> string \<times> bool \<times> string" where
  "partition_on c [] = ([], False, [])"
| "partition_on c (x # xs) = (if x = c then ([], True, xs)
     else (case partition_on c xs of (a, b, r) \<Rightarrow> (x # a, b, r)))"

fun join_with :: "string \<Rightarrow> string list \<Rightarrow> string" where
  "join_with sep [] = []"
| "join_with sep [w] = w"
| "join_with sep (w # ws) = w @ sep @ join_with sep ws"

lemma split_on_nonempty [simp]: "split_on c s \<noteq> []"
  by (cases s) (auto split: list.splits)

lemma split_on_append: "c \<notin> set w \<Longrightarrow> split_on c (w @ c # s) = w # split_on c s"
  by (induction w) auto

lemma split_on_word: "c \<notin> set w \<Longrightarrow> split_on c w = [w]"
  by (induction w) auto

lemma join_split: "join_with [c] (split_on c s) = s"
proof (induction s)
  case (Cons x xs)
  obtain w ws where w: "split_on c xs = w # ws" by (meson neq_Nil_conv split_on_nonempty)
  with Cons show ?case by (cases ws) auto
qed simp

lemma split_join:
  "ws \<noteq> [] \<Longrightarrow> \<forall>w \<in> set ws. c \<notin> set w \<Longrightarrow> split_on c (join_with [c] ws) = ws"
proof (induction "[c]" ws rule: join_with.induct)
  case (2 w)
  then have "c \<notin> set w" by simp
  then show ?case by (induction w) auto
next
  case (3 w v ws)
  then have IH: "split_on c (join_with [c] (v # ws)) = v # ws" and w: "c \<notin> set w" by auto
  from w show ?case by (induction w) (auto simp: IH)
qed simp

lemma of_upper_char:
  "(of_char (upper_char c) :: nat) =
   (let n = of_char c in if 97 \<le> n \<and> n \<le> 122 then n - 32 else n)"
  by (auto simp: upper_char_def Let_def)

lemma of_lower_char:
  "(of_char (lower_char c) :: nat) =
   (let n = of_char c in if 65 \<le> n \<and> n \<le> 90 then n + 32 else n)"
  by (simp add: lower_char_def Let_def)

lemma upper_char_idem [simp]: "upper_char (upper_char c) = upper_char c"
  unfolding upper_char_def[of "upper_char c"] by (auto simp: of_upper_char Let_def)

lemma lower_char_idem [simp]: "lower_char (lower_char c) = lower_char c"
  unfolding lower_char_def[of "lower_char c"] by (auto simp: of_lower_char Let_def)

lemma is_space_upper_char [simp]: "is_space (upper_char c) = is_space c"
  by (auto simp: is_space_def of_upper_char Let_def)

lemma is_space_lower_char [simp]: "is_space (lower_char c) = is_space c"
  by (auto simp: is_space_def of_lower_char Let_def)

lemma dropWhile_map_inv: "(\<And>x. P (f x) = P x) \<Longrightarrow> dropWhile P (map f xs) = map f (dropWhile P xs)"
  by (induction xs) auto

lemma strip_map: "(\<And>c. is_space (f c) = is_space c) \<Longrightarrow> strip (map f s) = map f (strip s)"
  by (simp add: strip_def dropWhile_map_inv rev_map)

lemma dropWhile_rev_dropWhile_idem:
  "dropWhile P (rev (dropWhile P (rev (dropWhile P xs)))) = rev (dropWhile P (rev (dropWhile P xs)))"
proof (cases "dropWhile P (rev (dropWhile P xs))")
  case Nil
  then show ?thesis by (simp only: rev.simps dropWhile.simps)
next
  case (Cons y ys)
  let ?d = "dropWhile P xs"
  have "rev (dropWhile P (rev ?d)) \<noteq> []" using Cons by simp
  moreover have "?d = rev (dropWhile P (rev ?d)) @ rev (takeWhile P (rev ?d))"
    by (metis rev_append rev_rev_ident takeWhile_dropWhile_id)
  ultimately have hd: "hd (rev (dropWhile P (rev ?d))) = hd ?d"
    by (metis hd_append2)
  have "?d \<noteq> []"
  proof
    assume "?d = []"
    with Cons show False by simp
  qed
  then have "\<not> P (hd ?d)" by (rule hd_dropWhile)
  then show ?thesis by (simp add: dropWhile_eq_self_iff hd)
qed

lemma strip_idem [simp]: "strip (strip s) = strip s"
  by (simp add: strip_def dropWhile_rev_dropWhile_idem)

section \<open>Decimal and ISO renderings\<close>

definition digit :: "nat \<Rightarrow> char" where
  "digit n = char_of (48 + n mod 10)"

fun show_nat :: "nat \<Rightarrow> string" where
  "show_nat n = (if n < 10 then [digit n] else show_nat (n div 10) @ [digit n])"

declare show_nat.simps [simp del]

definition show_int :: "int \<Rightarrow> string" where
  "show_int i = (if i < 0 then CHR ''-'' # show_nat (nat (- i)) else show_nat (nat i))"

fun pad_nat :: "nat \<Rightarrow> nat \<Rightarrow> string" where
  "pad_nat 0 n = []"
| "pad_nat (Suc w) n = pad_nat w (n div 10) @ [digit n]"

text \<open>The civil date of an ordinal, in the proleptic Gregorian calendar (ordinal 1 is 1 January of year 1).\<close>

definition civil :: "date \<Rightarrow> int \<times> int \<times> int" where
  "civil ord = (let z = ord + 305;
       era = z div 146097;
       doe = z mod 146097;
       yoe = (doe - doe div 1460 + doe div 36524 - doe div 146096) div 365;
       doy = doe - (365 * yoe + yoe div 4 - yoe div 100);
       mp = (5 * doy + 2) div 153;
       d = doy - (153 * mp + 2) div 5 + 1;
       m = (if mp < 10 then mp + 3 else mp - 9);
       y = yoe + era * 400 + (if m \<le> 2 then 1 else 0)
     in (y, m, d))"

definition iso_date :: "date \<Rightarrow> string" where
  "iso_date ord = (case civil ord of (y, m, d) \<Rightarrow>
     pad_nat 4 (nat y) @ ''-'' @ pad_nat 2 (nat m) @ ''-'' @ pad_nat 2 (nat d))"

definition iso_time :: "time_of_day \<Rightarrow> string" where
  "iso_time t = (let sec = t div 1000000; us = t mod 1000000 in
     pad_nat 2 (nat (sec div 3600)) @ '':'' @ pad_nat 2 (nat (sec div 60 mod 60)) @ '':'' @
     pad_nat 2 (nat (sec mod 60)) @ (if us = 0 then [] else ''.'' @ pad_nat 6 (nat us)))"

section \<open>Digits read\<close>

definition is_digit :: "char \<Rightarrow> bool" where
  "is_digit c \<longleftrightarrow> (let n = of_char c :: nat in 48 \<le> n \<and> n \<le> 57)"

definition digit_val :: "char \<Rightarrow> nat" where
  "digit_val c = of_char c - 48"

definition digits_value :: "string \<Rightarrow> nat" where
  "digits_value = foldl (\<lambda>n c. 10 * n + digit_val c) 0"

lemma is_digit_digit [simp]: "is_digit (digit n)"
  by (simp add: is_digit_def digit_def Let_def)

lemma digit_val_digit [simp]: "digit_val (digit n) = n mod 10"
  by (simp add: digit_val_def digit_def)

lemma pad_digits: "\<forall>c \<in> set (pad_nat w n). is_digit c"
  by (induction w arbitrary: n) auto

end
