(* ===== verification/Recurrence.thy ===== *)
theory Recurrence
  imports Py_Strings
begin

text \<open>
  \<^verbatim>\<open>backend/app/core/recurrence.py\<close>: which dates a slot runs on, from its RFC 5545 rule.

  The expansion of a rule is \<^verbatim>\<open>dateutil\<close>'s, which is not part of the repository: it is the
  parameter \<open>rrule_lib\<close>. \<open>rr_error\<close> is the message of the exception \<^verbatim>\<open>rrulestr\<close> raises on a rule
  and a start, if any; \<open>rr_between\<close> and \<open>rr_after\<close> are the two methods the module calls on the
  parsed rule. \<open>rrule_lib_ok\<close> states what the code relies on: \<^verbatim>\<open>between\<close> lists, in order, the
  instants of the rule in a closed range, \<^verbatim>\<open>after\<close> finds the first one from an instant on,
  and a rule that does not repeat within a day keeps the time of day of its start.

  The locale \<open>slot_dates\<close> is the contract the rest of the program uses: the dates of a rule in
  a range are exactly the dates it occurs on, in order. Its interpretation on the module's
  own functions closes the theory.
\<close>

section \<open>The expansion library\<close>

record rrule_lib =
  rr_error :: "string \<Rightarrow> instant \<Rightarrow> string option"
  rr_between :: "string \<Rightarrow> instant \<Rightarrow> instant \<Rightarrow> instant \<Rightarrow> instant list"
  rr_after :: "string \<Rightarrow> instant \<Rightarrow> instant \<Rightarrow> instant option"

section \<open>Rules as they are stored\<close>

definition MAX_RULE_LENGTH :: nat where
  "MAX_RULE_LENGTH = 255"

definition DAY_CODES :: "string list" where
  "DAY_CODES = [''MO'', ''TU'', ''WE'', ''TH'', ''FR'', ''SA'', ''SU'']"

definition FREQUENCIES :: "string list" where
  "FREQUENCIES = [''DAILY'', ''WEEKLY'', ''MONTHLY'', ''YEARLY'']"

definition WITHIN_A_DAY :: "string list" where
  "WITHIN_A_DAY = [''BYHOUR'', ''BYMINUTE'', ''BYSECOND'']"

text \<open>The loop over the parts of a rule: the settings by name, or the first part that is not NAME=VALUE.\<close>

fun rule_parts :: "string list \<Rightarrow> (string \<rightharpoonup> string) \<Rightarrow> string + (string \<rightharpoonup> string)" where
  "rule_parts [] parts = Inr parts"
| "rule_parts (part # rest) parts = (case partition_on (CHR ''='') part of
     (name, sep, setting) \<Rightarrow>
       if \<not> sep \<or> name = [] \<or> setting = []
       then Inl (''rrule part '' @ part @ '' is not NAME=VALUE'')
       else rule_parts rest (parts(name \<mapsto> setting)))"

definition drop_property_name :: "string \<Rightarrow> string" where
  "drop_property_name rule = (if startswith rule ''RRULE:'' then drop 6 rule else rule)"

definition normalize :: "rrule_lib \<Rightarrow> string \<Rightarrow> string + string" where
  "normalize L value =
     (let rule = drop_property_name (upper (strip value)) in
      if rule = [] then Inl ''rrule must not be empty''
      else if length rule > MAX_RULE_LENGTH
        then Inl ''rrule must not be longer than 255 characters''
      else if list_ex (\<lambda>ch. ch = char_of (13::nat) \<or> ch = char_of (10::nat) \<or> ch = CHR '':'') rule
        then Inl ''rrule is the value of one RRULE property''
      else bind_result (rule_parts (split_on (CHR '';'') rule) Map.empty) (\<lambda>parts.
        if \<not> (case parts ''FREQ'' of None \<Rightarrow> False | Some f \<Rightarrow> f \<in> set FREQUENCIES)
          then Inl ''rrule FREQ must be DAILY, WEEKLY, MONTHLY or YEARLY''
        else if filter (\<lambda>n. parts n \<noteq> None) WITHIN_A_DAY \<noteq> []
          then Inl (''rrule must not repeat within a day ('' @
            join_with '', '' (filter (\<lambda>n. parts n \<noteq> None) WITHIN_A_DAY) @ '')'')
        else if endswith (case parts ''UNTIL'' of None \<Rightarrow> [] | Some u \<Rightarrow> u) ''Z''
          then Inl ''rrule UNTIL must be a local date or date-time, without Z''
        else (case rr_error L rule (combine 730122 0) of
            Some exc \<Rightarrow> Inl (''rrule is not a valid RFC 5545 rule: '' @ exc)
          | None \<Rightarrow> Inr rule)))"

text \<open>A rule as the database stores it: one that \<open>normalize\<close> returned.\<close>

definition stored_rule :: "rrule_lib \<Rightarrow> string \<Rightarrow> bool" where
  "stored_rule L rule \<longleftrightarrow> (\<exists>value. normalize L value = Inr rule)"

lemma normalize_Inr:
  assumes "normalize L value = Inr rule"
  shows "rule = drop_property_name (upper (strip value))" and "rule \<noteq> []"
    and "length rule \<le> MAX_RULE_LENGTH" and "CHR '':'' \<notin> set rule"
    and "rr_error L rule (combine 730122 0) = None"
    and "\<exists>parts. rule_parts (split_on (CHR '';'') rule) Map.empty = Inr parts \<and>
           parts ''BYHOUR'' = None \<and> parts ''BYMINUTE'' = None \<and> parts ''BYSECOND'' = None \<and>
           (\<exists>f \<in> set FREQUENCIES. parts ''FREQ'' = Some f)"
  using assms
  by (auto simp: normalize_def Let_def result_simps WITHIN_A_DAY_def list_ex_iff
      split: if_splits option.splits)

section \<open>Dates\<close>

definition occurrences :: "rrule_lib \<Rightarrow> string \<Rightarrow> date \<Rightarrow> date \<Rightarrow> date \<Rightarrow> date list" where
  "occurrences L rule dtstart first final =
     (let first' = max first dtstart in
      if first' > final then []
      else map date_of (rr_between L rule (combine dtstart 0) (combine first' 0) (combine final 0)))"

definition occurs_on :: "rrule_lib \<Rightarrow> string \<Rightarrow> date \<Rightarrow> date \<Rightarrow> bool" where
  "occurs_on L rule dtstart day \<longleftrightarrow> occurrences L rule dtstart day day \<noteq> []"

definition first_occurrence :: "rrule_lib \<Rightarrow> string \<Rightarrow> date \<Rightarrow> date option" where
  "first_occurrence L rule on_or_after =
     map_option date_of (rr_after L rule (combine on_or_after 0) (combine on_or_after 0))"

definition anchor :: "rrule_lib \<Rightarrow> string \<Rightarrow> date \<Rightarrow> string + date" where
  "anchor L rule on_or_after = (case first_occurrence L rule on_or_after of
     None \<Rightarrow> Inl (''rrule produces no date on or after '' @ iso_date on_or_after)
   | Some found \<Rightarrow> Inr found)"

text \<open>
  \<^verbatim>\<open>_DAY_CODES[weekday - 1]\<close>: Python reads an index from -7 to -1 from the end and raises
  IndexError past either end.
\<close>

definition weekly_rule :: "int \<Rightarrow> string + string" where
  "weekly_rule weekday =
     (let i = weekday - 1; j = (if i < 0 then i + 7 else i) in
      if 0 \<le> j \<and> j < 7 then Inr (''FREQ=WEEKLY;BYDAY='' @ DAY_CODES ! nat j)
      else Inl ''tuple index out of range'')"

definition weekly :: "rrule_lib \<Rightarrow> int \<Rightarrow> date \<Rightarrow> string + (string \<times> date)" where
  "weekly L weekday on_or_after =
     bind_result (weekly_rule weekday) (\<lambda>rule.
       bind_result (anchor L rule on_or_after) (\<lambda>d. Inr (rule, d)))"

section \<open>What the code relies on of the library\<close>

definition rr_hit :: "rrule_lib \<Rightarrow> string \<Rightarrow> instant \<Rightarrow> instant \<Rightarrow> bool" where
  "rr_hit L rule start h \<longleftrightarrow> h \<in> set (rr_between L rule start h h)"

definition rrule_lib_ok :: "rrule_lib \<Rightarrow> bool" where
  "rrule_lib_ok L \<longleftrightarrow>
     (\<forall>rule start a b. stored_rule L rule \<longrightarrow>
        sorted_wrt (<) (rr_between L rule start a b) \<and>
        set (rr_between L rule start a b) = {h. a \<le> h \<and> h \<le> b \<and> rr_hit L rule start h}) \<and>
     (\<forall>rule start h. stored_rule L rule \<longrightarrow> rr_hit L rule start h \<longrightarrow>
        start \<le> h \<and> time_of h = time_of start) \<and>
     (\<forall>rule start x. stored_rule L rule \<longrightarrow>
        (case rr_after L rule start x of
           None \<Rightarrow> (\<forall>h. rr_hit L rule start h \<longrightarrow> h < x)
         | Some h \<Rightarrow> rr_hit L rule start h \<and> x \<le> h \<and>
             (\<forall>g. rr_hit L rule start g \<longrightarrow> x \<le> g \<longrightarrow> h \<le> g)))"

lemma rrule_lib_okD:
  assumes "rrule_lib_ok L" and "stored_rule L rule"
  shows "sorted_wrt (<) (rr_between L rule start a b)"
    and "set (rr_between L rule start a b) = {h. a \<le> h \<and> h \<le> b \<and> rr_hit L rule start h}"
    and "rr_hit L rule start h \<Longrightarrow> start \<le> h \<and> time_of h = time_of start"
    and "rr_after L rule start x = None \<Longrightarrow> rr_hit L rule start h \<Longrightarrow> h < x"
    and "rr_after L rule start x = Some y \<Longrightarrow> rr_hit L rule start y \<and> x \<le> y"
    and "rr_after L rule start x = Some y \<Longrightarrow> rr_hit L rule start h \<Longrightarrow> x \<le> h \<Longrightarrow> y \<le> h"
proof -
  note ok = assms(1)[unfolded rrule_lib_ok_def]
  show "sorted_wrt (<) (rr_between L rule start a b)"
    using conjunct1[OF ok] assms(2) by simp
  show "set (rr_between L rule start a b) = {h. a \<le> h \<and> h \<le> b \<and> rr_hit L rule start h}"
    using conjunct1[OF ok] assms(2) by simp
  show "rr_hit L rule start h \<Longrightarrow> start \<le> h \<and> time_of h = time_of start"
    using conjunct1[OF conjunct2[OF ok]] assms(2) by simp
  have aft: "case rr_after L rule start x of
           None \<Rightarrow> (\<forall>h. rr_hit L rule start h \<longrightarrow> h < x)
         | Some h \<Rightarrow> rr_hit L rule start h \<and> x \<le> h \<and>
             (\<forall>g. rr_hit L rule start g \<longrightarrow> x \<le> g \<longrightarrow> h \<le> g)"
    using conjunct2[OF conjunct2[OF ok]] assms(2) by simp
  show "rr_after L rule start x = None \<Longrightarrow> rr_hit L rule start h \<Longrightarrow> h < x"
    using aft by simp
  show "rr_after L rule start x = Some y \<Longrightarrow> rr_hit L rule start y \<and> x \<le> y"
    using aft by simp
  show "rr_after L rule start x = Some y \<Longrightarrow> rr_hit L rule start h \<Longrightarrow> x \<le> h \<Longrightarrow> y \<le> h"
    using aft by simp
qed

lemma rr_hit_midnight:
  assumes "rrule_lib_ok L" and "stored_rule L rule" and "rr_hit L rule (combine ds 0) h"
  shows "h = combine (date_of h) 0"
proof -
  have "time_of h = 0"
    using rrule_lib_okD(3)[OF assms] by (simp add: valid_time_def)
  then show ?thesis using combine_date_time[of h] by simp
qed

lemma combine_midnight_le [simp]: "combine a 0 \<le> combine b 0 \<longleftrightarrow> a \<le> b"
  by (simp add: combine_def)

lemma date_of_midnight [simp]: "date_of (combine a 0) = a"
  by (simp add: valid_time_def)

lemma set_occurrences:
  assumes "rrule_lib_ok L" and "stored_rule L rule"
  shows "set (occurrences L rule ds a b) =
    {d. a \<le> d \<and> d \<le> b \<and> rr_hit L rule (combine ds 0) (combine d 0)}"
    (is "?l = ?r")
proof -
  have start: "rr_hit L rule (combine ds 0) h \<Longrightarrow> ds \<le> date_of h" for h
    using rrule_lib_okD(3)[OF assms] date_of_mono[of "combine ds 0" h] by simp
  show ?thesis
  proof (cases "max a ds > b")
    case True
    then have "?r = {}" using start[of "combine d 0" for d] by force
    with True show ?thesis by (simp add: occurrences_def)
  next
    case False
    then have "?l = date_of ` {h. combine (max a ds) 0 \<le> h \<and> h \<le> combine b 0 \<and>
        rr_hit L rule (combine ds 0) h}"
      by (auto simp: occurrences_def Let_def rrule_lib_okD(2)[OF assms])
    also have "\<dots> = ?r"
    proof (intro set_eqI iffI)
      fix d assume "d \<in> date_of ` {h. combine (max a ds) 0 \<le> h \<and> h \<le> combine b 0 \<and>
        rr_hit L rule (combine ds 0) h}"
      then obtain h where h: "d = date_of h" "combine (max a ds) 0 \<le> h" "h \<le> combine b 0"
        "rr_hit L rule (combine ds 0) h" by blast
      then show "d \<in> ?r"
        using rr_hit_midnight[OF assms h(4)] by (metis (mono_tags, lifting) combine_midnight_le
            max.bounded_iff mem_Collect_eq)
    next
      fix d assume "d \<in> ?r"
      then show "d \<in> date_of ` {h. combine (max a ds) 0 \<le> h \<and> h \<le> combine b 0 \<and>
        rr_hit L rule (combine ds 0) h}"
        using start[of "combine d 0"] by (intro image_eqI[of _ _ "combine d 0"]) auto
    qed
    finally show ?thesis .
  qed
qed

lemma occurs_on_iff:
  assumes "rrule_lib_ok L" and "stored_rule L rule"
  shows "occurs_on L rule ds d \<longleftrightarrow> rr_hit L rule (combine ds 0) (combine d 0)"
  using set_occurrences[OF assms, of ds d d] unfolding occurs_on_def
  by (auto simp: set_empty[symmetric] simp del: set_empty)

lemma sorted_occurrences:
  assumes "rrule_lib_ok L" and "stored_rule L rule"
  shows "sorted_wrt (<) (occurrences L rule ds a b)"
proof -
  let ?xs = "rr_between L rule (combine ds 0) (combine (max a ds) 0) (combine b 0)"
  have "sorted_wrt (\<lambda>x y. date_of x < date_of y) ?xs"
  proof (rule sorted_wrt_mono_rel[OF _ rrule_lib_okD(1)[OF assms]])
    fix x y assume "x \<in> set ?xs" "y \<in> set ?xs" "x < y"
    then have "x = combine (date_of x) 0" "y = combine (date_of y) 0"
      using rr_hit_midnight[OF assms] rrule_lib_okD(2)[OF assms] by auto
    with \<open>x < y\<close> show "date_of x < date_of y"
      by (metis combine_midnight_le linorder_not_less)
  qed
  then show ?thesis by (simp add: occurrences_def Let_def sorted_wrt_map)
qed

section \<open>The contract of the module\<close>

locale slot_dates =
  fixes ok :: "'l \<Rightarrow> 'r \<Rightarrow> bool"
    and occ :: "'l \<Rightarrow> 'r \<Rightarrow> date \<Rightarrow> date \<Rightarrow> date \<Rightarrow> date list"
    and on :: "'l \<Rightarrow> 'r \<Rightarrow> date \<Rightarrow> date \<Rightarrow> bool"
  assumes occ_set: "ok L r \<Longrightarrow> set (occ L r ds a b) = {d. a \<le> d \<and> d \<le> b \<and> on L r ds d}"
    and occ_sorted: "ok L r \<Longrightarrow> sorted_wrt (<) (occ L r ds a b)"
begin

lemma occ_distinct: "ok L r \<Longrightarrow> distinct (occ L r ds a b)"
  using occ_sorted strict_sorted_iff by blast

lemma occ_narrow:
  assumes "ok L r" and "a \<le> a'" and "b' \<le> b"
  shows "set (occ L r ds a' b') = {d \<in> set (occ L r ds a b). a' \<le> d \<and> d \<le> b'}"
  using assms(2,3) by (auto simp: occ_set[OF assms(1)])

lemma occ_hd:
  assumes "ok L r" and "occ L r ds a b = d # rest"
  shows "on L r ds d \<and> a \<le> d \<and> d \<le> b \<and> (\<forall>e. on L r ds e \<longrightarrow> a \<le> e \<longrightarrow> e < d \<longrightarrow> False)"
proof -
  have d: "d \<in> set (occ L r ds a b)" and lt: "\<forall>e \<in> set rest. d < e"
    using assms(2) occ_sorted[OF assms(1), of ds a b] by auto
  moreover have "False" if "on L r ds e" "a \<le> e" "e < d" for e
  proof -
    have "e \<in> set (occ L r ds a b)" using that d by (auto simp: occ_set[OF assms(1)])
    with assms(2) lt \<open>e < d\<close> show False by auto
  qed
  ultimately show ?thesis by (auto simp: occ_set[OF assms(1)])
qed

end

definition rule_ok :: "rrule_lib \<Rightarrow> string \<Rightarrow> bool" where
  "rule_ok L rule \<longleftrightarrow> rrule_lib_ok L \<and> stored_rule L rule"

interpretation rec: slot_dates rule_ok occurrences occurs_on
  by unfold_locales (auto simp: rule_ok_def set_occurrences occurs_on_iff sorted_occurrences)

section \<open>A concrete library\<close>

text \<open>
  An expansion for closed examples: every rule repeats every seven days from its start.
  It satisfies \<open>rrule_lib_ok\<close>, so the hypothesis can be met.
\<close>

definition week_us :: int where
  "week_us = 7 * day_us"

definition weekly_lib :: rrule_lib where
  "weekly_lib = \<lparr>rr_error = (\<lambda>_ _. None),
     rr_between = (\<lambda>_ start a b.
       let k = (max a start - start + (week_us - 1)) div week_us;
           n = (b - start) div week_us
       in map (\<lambda>i. start + i * week_us) [k..n]),
     rr_after = (\<lambda>_ start x.
       Some (start + ((max x start - start + (week_us - 1)) div week_us) * week_us))\<rparr>"

lemma week_us_pos [simp]: "0 < week_us"
  by (simp add: week_us_def)

lemma le_int_div_iff:
  assumes "0 < w"
  shows "i \<le> x div w \<longleftrightarrow> i * w \<le> (x::int)"
proof
  assume "i \<le> x div w"
  then have "i * w \<le> x div w * w" using assms by (simp add: mult_right_mono)
  also have "\<dots> \<le> x" using assms by (simp add: minus_mod_eq_div_mult[symmetric])
  finally show "i * w \<le> x" .
next
  assume "i * w \<le> x"
  then have "i * w div w \<le> x div w" using assms by (rule zdiv_mono1)
  then show "i \<le> x div w" using assms by simp
qed

lemma ceil_div_le_iff: "0 < w \<Longrightarrow> (x + (w - 1)) div w \<le> i \<longleftrightarrow> x \<le> i * (w::int)"
  using le_int_div_iff[of w "i + 1" "x + (w - 1)"] by (auto simp: algebra_simps)

lemma set_weekly_between:
  "set (rr_between weekly_lib r start a b) =
   {h. a \<le> h \<and> h \<le> b \<and> start \<le> h \<and> (\<exists>i. h = start + i * week_us)}"
proof -
  have "h \<in> set (rr_between weekly_lib r start a b) \<longleftrightarrow>
      (\<exists>i. h = start + i * week_us \<and> max a start - start \<le> i * week_us \<and> i * week_us \<le> b - start)" for h
    by (auto simp: weekly_lib_def Let_def ceil_div_le_iff le_int_div_iff image_iff)
  moreover have "(\<exists>i. h = start + i * week_us \<and> max a start - start \<le> i * week_us \<and>
        i * week_us \<le> b - start) \<longleftrightarrow>
      a \<le> h \<and> h \<le> b \<and> start \<le> h \<and> (\<exists>i. h = start + i * week_us)" for h
    by (rule iffI; elim exE conjE; simp add: le_diff_eq diff_le_eq algebra_simps; blast?)
  ultimately show ?thesis by blast
qed

lemma rr_hit_weekly: "rr_hit weekly_lib r start h \<longleftrightarrow> start \<le> h \<and> (\<exists>i. h = start + i * week_us)"
  by (auto simp: rr_hit_def set_weekly_between)

lemma sorted_weekly_between: "sorted_wrt (<) (rr_between weekly_lib r start a b)"
proof -
  have "sorted_wrt (\<lambda>i j. start + i * week_us < start + j * week_us) [k..n]" for k n
    using sorted_wrt_mono_rel[of "[k..n]" "(<)"] by simp
  then show ?thesis by (simp add: weekly_lib_def Let_def sorted_wrt_map)
qed

lemma weekly_lib_ok: "rrule_lib_ok weekly_lib"
proof -
  have hit: "time_of (start + i * week_us) = time_of start" for start i
    by (simp add: time_of_def week_us_def) (metis mod_mult_self1 mult.assoc mult.commute)
  have aft: "rr_hit weekly_lib r start y \<and> x \<le> y \<and>
      (\<forall>g. rr_hit weekly_lib r start g \<longrightarrow> x \<le> g \<longrightarrow> y \<le> g)"
    if "rr_after weekly_lib r start x = Some y" for r start x y
  proof -
    define k where "k = (max x start - start + (week_us - 1)) div week_us"
    have y: "y = start + k * week_us" using that by (simp add: weekly_lib_def k_def)
    have k: "k \<le> i \<longleftrightarrow> max x start - start \<le> i * week_us" for i
      by (simp add: k_def ceil_div_le_iff)
    have "max x start - start \<le> k * week_us" using k[of k] by simp
    moreover have "start + k * week_us \<le> start + i * week_us" if "max x start - start \<le> i * week_us" for i
      using that k[of i] by simp
    ultimately show ?thesis unfolding rr_hit_weekly y by (auto simp: max_def split: if_splits)
  qed
  have some: "\<exists>y. rr_after weekly_lib r start x = Some y" for r start x
    by (simp add: weekly_lib_def)
  have "case rr_after weekly_lib r start x of
       None \<Rightarrow> (\<forall>h. rr_hit weekly_lib r start h \<longrightarrow> h < x)
     | Some h \<Rightarrow> rr_hit weekly_lib r start h \<and> x \<le> h \<and>
         (\<forall>g. rr_hit weekly_lib r start g \<longrightarrow> x \<le> g \<longrightarrow> h \<le> g)" for r start x
    using aft[of r start x] some[of r start x] by (cases "rr_after weekly_lib r start x") simp_all
  then show ?thesis
    unfolding rrule_lib_ok_def
    by (auto simp: set_weekly_between sorted_weekly_between rr_hit_weekly hit)
qed

lemma weekly_lib_stored: "stored_rule weekly_lib ''FREQ=WEEKLY;BYDAY=MO''"
proof -
  have "normalize weekly_lib ''FREQ=WEEKLY;BYDAY=MO'' = Inr ''FREQ=WEEKLY;BYDAY=MO''"
    by code_simp
  then show ?thesis unfolding stored_rule_def by blast
qed

end
