(* ===== verification/Availability.thy ===== *)
theory Availability
  imports Datamodel Org_Time Recurrence
begin

text \<open>
  \<^verbatim>\<open>backend/app/services/availability.py\<close>: when a resource is already spoken for.

  Three things occupy a resource: a slot of the timetable on the dates its rule gives inside
  its open cycle, a reservation that is still held, and a generated day. The definitions
  follow the module function by function; queries are filters over the tables of the
  database, in the order the code asks for. The proofs about them are in
  \<^verbatim>\<open>Availability_Props\<close> and \<^verbatim>\<open>Pool\<close>.
\<close>

section \<open>Busy intervals\<close>

record busy_interval =
  bi_date :: date
  bi_start :: time_of_day
  bi_end_date :: date
  bi_end :: time_of_day
  bi_activity_id :: "int option"
  bi_activity_code :: "string option"
  bi_master_slot_id :: "int option"
  bi_reservation_id :: "int option"

definition MAX_RANGE_DAYS :: int where
  "MAX_RANGE_DAYS = 366"

definition bounds :: "busy_interval \<Rightarrow> span" where
  "bounds e = (combine (bi_date e) (bi_start e), combine (bi_end_date e) (bi_end e))"

definition overlaps :: "span \<Rightarrow> span \<Rightarrow> bool" where
  "overlaps first second \<longleftrightarrow> fst first < snd second \<and> fst second < snd first"

definition within_cycle :: "planning_cycle option \<Rightarrow> date \<Rightarrow> bool" where
  "within_cycle cycle day = (case cycle of None \<Rightarrow> True
     | Some c \<Rightarrow> cy_date_bounds_start c \<le> day \<and> day \<le> cy_date_bounds_end c)"

section \<open>The three queries\<close>

text \<open>The joins and filters that decide which slots count: an open cycle, neither slot nor activity retired.\<close>

definition slot_counts :: "database \<Rightarrow> master_slot \<Rightarrow> bool" where
  "slot_counts db s \<longleftrightarrow> sl_retired_at s = None \<and>
     (case slot_activity db s of None \<Rightarrow> False
      | Some a \<Rightarrow> ac_retired_at a = None \<and>
          (case get_cycle_row db (ac_cycle_id a) of None \<Rightarrow> False
           | Some c \<Rightarrow> cy_operational_status c))"

definition booked_slots :: "database \<Rightarrow> int \<Rightarrow> master_slot list" where
  "booked_slots db resource_id =
     filter (\<lambda>s. sl_resource_id s = Some resource_id \<and> slot_counts db s)
       (structural_master_slots db)"

definition held_reservations :: "database \<Rightarrow> int \<Rightarrow> date \<Rightarrow> date \<Rightarrow> reservation list" where
  "held_reservations db resource_id from_date to_date =
     filter (\<lambda>r. rv_resource_id r = resource_id \<and> rv_status r = HELD \<and>
         rv_reserved_date r \<ge> from_date - 1 \<and> rv_reserved_date r \<le> to_date)
       (reservations db)"

definition held_span :: "reservation \<Rightarrow> span" where
  "held_span held =
     window_span (rv_reserved_date held) (rv_time_window_start held) (rv_time_window_end held)"

definition held_interval :: "reservation \<Rightarrow> busy_interval" where
  "held_interval held =
     (let ends = snd (window_span (rv_reserved_date held) (rv_time_window_start held)
                        (rv_time_window_end held))
      in \<lparr>bi_date = rv_reserved_date held, bi_start = rv_time_window_start held,
          bi_end_date = date_of ends, bi_end = rv_time_window_end held,
          bi_activity_id = None, bi_activity_code = None, bi_master_slot_id = None,
          bi_reservation_id = Some (rv_id held)\<rparr>)"

text \<open>A generated day's own window; \<open>dated_days\<close> returns only rows that have one.\<close>

definition has_window :: "daily_ledger \<Rightarrow> bool" where
  "has_window d \<longleftrightarrow> dl_time_window_start d \<noteq> None \<and> dl_time_window_end d \<noteq> None"

definition dl_start :: "daily_ledger \<Rightarrow> time_of_day" where
  "dl_start d = the (dl_time_window_start d)"

definition dl_end :: "daily_ledger \<Rightarrow> time_of_day" where
  "dl_end d = the (dl_time_window_end d)"

definition day_span :: "daily_ledger \<Rightarrow> span" where
  "day_span d = window_span (dl_target_date d) (dl_start d) (dl_end d)"

definition day_interval :: "database \<Rightarrow> daily_ledger \<Rightarrow> busy_interval" where
  "day_interval db day =
     (let ends = snd (window_span (dl_target_date day) (dl_start day) (dl_end day))
      in \<lparr>bi_date = dl_target_date day, bi_start = dl_start day,
          bi_end_date = date_of ends, bi_end = dl_end day,
          bi_activity_id = Some (dl_activity_id day),
          bi_activity_code = map_option ac_activity_code (get_activity_row db (dl_activity_id day)),
          bi_master_slot_id = dl_master_slot_id day, bi_reservation_id = None\<rparr>)"

definition dated_days :: "database \<Rightarrow> int \<Rightarrow> date \<Rightarrow> date option \<Rightarrow> daily_ledger list" where
  "dated_days db resource_id since until =
     sort_key (\<lambda>d. (dl_target_date d, dl_start d))
       (filter (\<lambda>d. dl_resource_id d = Some resource_id \<and> dl_target_date d \<ge> since \<and>
            has_window d \<and> (case until of None \<Rightarrow> True | Some u \<Rightarrow> dl_target_date d \<le> u))
          (daily_ledger_rows db))"

definition booked_days :: "database \<Rightarrow> int \<Rightarrow> date \<Rightarrow> date \<Rightarrow> daily_ledger list" where
  "booked_days db resource_id from_date to_date =
     dated_days db resource_id (from_date - 1) (Some to_date)"

section \<open>What a new slot or a new day would sit on\<close>

text \<open>The three dates a window opened on a date could touch, in the order they are tried.\<close>

definition three_dates :: "date \<Rightarrow> date list" where
  "three_dates d = [d + (-1), d + 0, d + 1]"

definition held_against_slot ::
  "rrule_lib \<Rightarrow> date \<Rightarrow> database \<Rightarrow> int \<Rightarrow> string \<Rightarrow> date \<Rightarrow> time_of_day \<Rightarrow> time_of_day
   \<Rightarrow> planning_cycle option \<Rightarrow> busy_interval list" where
  "held_against_slot L today db resource_id rule dtstart start stop cycle =
     map held_interval
       (filter (\<lambda>held.
          let taken = window_span (rv_reserved_date held) (rv_time_window_start held)
                        (rv_time_window_end held)
          in list_ex (\<lambda>slot_date. within_cycle cycle slot_date \<and>
                 occurs_on L rule dtstart slot_date \<and>
                 overlaps (window_span slot_date start stop) taken)
               (three_dates (rv_reserved_date held)))
         (filter (\<lambda>r. rv_resource_id r = resource_id \<and> rv_status r = HELD \<and>
              rv_mode r \<noteq> SHARED \<and> rv_reserved_date r \<ge> today)
            (reservations db)))"

text \<open>\<^verbatim>\<open>_first_meeting\<close>: over our dates in order, the first of the three dates around each that is theirs and overlaps.\<close>

fun first_meeting ::
  "date list \<Rightarrow> time_of_day \<Rightarrow> time_of_day \<Rightarrow> date list \<Rightarrow> time_of_day \<Rightarrow> time_of_day
   \<Rightarrow> date option" where
  "first_meeting [] start stop theirs their_start their_end = None"
| "first_meeting (day # ours) start stop theirs their_start their_end =
     (case find (\<lambda>their_day. their_day \<in> set theirs \<and>
               overlaps (window_span day start stop) (window_span their_day their_start their_end))
             (three_dates day) of
        Some their_day \<Rightarrow> Some their_day
      | None \<Rightarrow> first_meeting ours start stop theirs their_start their_end)"

definition slot_clash ::
  "rrule_lib \<Rightarrow> date \<Rightarrow> database \<Rightarrow> string \<Rightarrow> date \<Rightarrow> time_of_day \<Rightarrow> time_of_day
   \<Rightarrow> planning_cycle option \<Rightarrow> master_slot \<Rightarrow> busy_interval option" where
  "slot_clash L today db rule dtstart start stop cycle slot =
     (case (slot_activity db slot, slot_cycle db slot) of
        (Some act, Some other) \<Rightarrow>
          (let tomorrow = today + 1;
               first0 = max tomorrow (cy_date_bounds_start other - 1);
               final0 = cy_date_bounds_end other + 1;
               first = (case cycle of None \<Rightarrow> first0 | Some c \<Rightarrow> max first0 (cy_date_bounds_start c));
               final = (case cycle of None \<Rightarrow> final0 | Some c \<Rightarrow> min final0 (cy_date_bounds_end c))
           in if first > final then None
              else
                let theirs = occurrences L (sl_rrule slot) (sl_dtstart slot)
                      (max (first - 1) (cy_date_bounds_start other))
                      (min (final + 1) (cy_date_bounds_end other))
                in if theirs = [] then None
                   else case first_meeting (occurrences L rule dtstart first final) start stop
                               theirs (sl_time_window_start slot) (sl_time_window_end slot) of
                     None \<Rightarrow> None
                   | Some met \<Rightarrow>
                       (let ends = snd (window_span met (sl_time_window_start slot)
                                          (sl_time_window_end slot))
                        in Some \<lparr>bi_date = met, bi_start = sl_time_window_start slot,
                             bi_end_date = date_of ends, bi_end = sl_time_window_end slot,
                             bi_activity_id = Some (sl_activity_id slot),
                             bi_activity_code = Some (ac_activity_code act),
                             bi_master_slot_id = Some (sl_id slot), bi_reservation_id = None\<rparr>))
      | _ \<Rightarrow> None)"

definition slots_against_slot ::
  "rrule_lib \<Rightarrow> date \<Rightarrow> database \<Rightarrow> int \<Rightarrow> string \<Rightarrow> date \<Rightarrow> time_of_day \<Rightarrow> time_of_day
   \<Rightarrow> int option \<Rightarrow> planning_cycle option \<Rightarrow> busy_interval list" where
  "slots_against_slot L today db resource_id rule dtstart start stop exclude_slot_id cycle =
     List.map_filter (slot_clash L today db rule dtstart start stop cycle)
       (filter (\<lambda>slot. Some (sl_id slot) \<noteq> exclude_slot_id) (booked_slots db resource_id))"

definition excluded_day :: "int option \<Rightarrow> daily_ledger \<Rightarrow> bool" where
  "excluded_day exclude_slot_id row \<longleftrightarrow>
     exclude_slot_id \<noteq> None \<and> dl_master_slot_id row = exclude_slot_id"

definition days_against_window ::
  "database \<Rightarrow> int \<Rightarrow> date \<Rightarrow> time_of_day \<Rightarrow> time_of_day \<Rightarrow> int option \<Rightarrow> busy_interval list" where
  "days_against_window db resource_id day start stop exclude_slot_id =
     (let window = window_span day start stop in
      filter (\<lambda>entry. overlaps (bounds entry) window)
        (map (day_interval db)
          (filter (\<lambda>row. \<not> dl_target_date row > day + 1 \<and> \<not> excluded_day exclude_slot_id row)
             (dated_days db resource_id (day - 1) None))))"

definition days_against_slot ::
  "rrule_lib \<Rightarrow> date \<Rightarrow> database \<Rightarrow> int \<Rightarrow> string \<Rightarrow> date \<Rightarrow> time_of_day \<Rightarrow> time_of_day
   \<Rightarrow> int option \<Rightarrow> planning_cycle option \<Rightarrow> busy_interval list" where
  "days_against_slot L today db resource_id rule dtstart start stop exclude_slot_id cycle =
     map (day_interval db)
       (filter (\<lambda>row. \<not> excluded_day exclude_slot_id row \<and>
           list_ex (\<lambda>slot_date. within_cycle cycle slot_date \<and>
               occurs_on L rule dtstart slot_date \<and>
               overlaps (bounds (day_interval db row)) (window_span slot_date start stop))
             (three_dates (dl_target_date row)))
         (dated_days db resource_id today None))"

section \<open>The expansion over a range\<close>

definition slot_interval :: "database \<Rightarrow> master_slot \<Rightarrow> date \<Rightarrow> busy_interval" where
  "slot_interval db slot day =
     (let ends = snd (window_span day (sl_time_window_start slot) (sl_time_window_end slot))
      in \<lparr>bi_date = day, bi_start = sl_time_window_start slot, bi_end_date = date_of ends,
          bi_end = sl_time_window_end slot, bi_activity_id = Some (sl_activity_id slot),
          bi_activity_code = map_option ac_activity_code (slot_activity db slot),
          bi_master_slot_id = Some (sl_id slot), bi_reservation_id = None\<rparr>)"

definition busy_key :: "busy_interval \<Rightarrow> date \<times> time_of_day \<times> date \<times> time_of_day" where
  "busy_key e = (bi_date e, bi_start e, bi_end_date e, bi_end e)"

definition range_span :: "date \<Rightarrow> date \<Rightarrow> span" where
  "range_span from_date to_date = (combine from_date 0, combine (to_date + 1) 0)"

definition settled :: "daily_ledger list \<Rightarrow> (date \<times> int) set" where
  "settled days = {(dl_target_date row, sid) |row sid.
     row \<in> set days \<and> dl_master_slot_id row = Some sid}"

lemma settled_code [code]:
  "settled days = set (List.map_filter (\<lambda>row. map_option (Pair (dl_target_date row))
     (dl_master_slot_id row)) days)"
  by (force simp: settled_def List.map_filter_def image_iff)

definition slot_entries ::
  "rrule_lib \<Rightarrow> database \<Rightarrow> daily_ledger list \<Rightarrow> date \<Rightarrow> date \<Rightarrow> master_slot \<Rightarrow> busy_interval list" where
  "slot_entries L db days from_date to_date slot =
     map (slot_interval db slot)
       (filter (\<lambda>day. (day, sl_id slot) \<notin> settled days \<and>
           (case slot_activity db slot of None \<Rightarrow> True
            | Some a \<Rightarrow> within_cycle (get_cycle_row db (ac_cycle_id a)) day))
         (occurrences L (sl_rrule slot) (sl_dtstart slot) (from_date - 1) to_date))"

definition occupied ::
  "rrule_lib \<Rightarrow> database \<Rightarrow> master_slot list \<Rightarrow> reservation list \<Rightarrow> daily_ledger list
   \<Rightarrow> date \<Rightarrow> date \<Rightarrow> busy_interval list" where
  "occupied L db slots holds days from_date to_date =
     (let asked = range_span from_date to_date in
      sort_key busy_key
        (filter (\<lambda>entry. overlaps (bounds entry) asked)
          (concat (map (slot_entries L db days from_date to_date) slots) @
           map (day_interval db) days @ map held_interval holds)))"

section \<open>Pools\<close>

type_synonym load = "instant \<times> instant \<times> int"

text \<open>\<^verbatim>\<open>deltas[k] = deltas.get(k, 0) + v\<close> on a dict.\<close>

fun add_delta :: "instant \<Rightarrow> int \<Rightarrow> (instant \<times> int) list \<Rightarrow> (instant \<times> int) list" where
  "add_delta k v [] = [(k, 0 + v)]"
| "add_delta k v ((k', v') # d) = (if k' = k then (k', v' + v) # d else (k', v') # add_delta k v d)"

definition deltas :: "load list \<Rightarrow> (instant \<times> int) list" where
  "deltas spans = fold (\<lambda>(starts, ends, units) d. add_delta ends (- units) (add_delta starts units d))
     spans []"

fun running_totals :: "int \<Rightarrow> (instant \<times> int) list \<Rightarrow> (instant \<times> int) list" where
  "running_totals tot [] = []"
| "running_totals tot ((i, v) # d) = (i, tot + v) # running_totals (tot + v) d"

definition levels :: "load list \<Rightarrow> (instant \<times> int) list" where
  "levels spans = running_totals 0 (sort_key fst (deltas spans))"

definition peak_loads :: "reservation list \<Rightarrow> span option \<Rightarrow> load list" where
  "peak_loads holds window =
     filter (\<lambda>(starts, ends, q). starts < ends)
       (map (\<lambda>held. case (held_span held, window) of
           ((starts, ends), None) \<Rightarrow> (starts, ends, rv_quantity held)
         | ((starts, ends), Some (w0, w1)) \<Rightarrow> (max starts w0, min ends w1, rv_quantity held)) holds)"

definition max_default :: "int list \<Rightarrow> int" where
  "max_default xs = (case xs of [] \<Rightarrow> 0 | x # r \<Rightarrow> foldl max x r)"

definition pool_peak :: "reservation list \<Rightarrow> span option \<Rightarrow> int" where
  "pool_peak holds window = max_default (map snd (levels (peak_loads holds window)))"

fun stretches_from :: "int \<Rightarrow> instant option \<Rightarrow> (instant \<times> int) list \<Rightarrow> span list" where
  "stretches_from at_least opened [] = []"
| "stretches_from at_least opened ((i, tot) # r) =
     (case opened of
        None \<Rightarrow> if tot \<ge> at_least then stretches_from at_least (Some i) r
                else stretches_from at_least None r
      | Some s \<Rightarrow> if tot < at_least then (s, i) # stretches_from at_least None r
                  else stretches_from at_least opened r)"

definition pool_stretches :: "reservation list \<Rightarrow> int \<Rightarrow> span list" where
  "pool_stretches holds at_least = stretches_from at_least None
     (levels (map (\<lambda>held. (fst (held_span held), snd (held_span held), rv_quantity held)) holds))"

definition full_intervals :: "reservation list \<Rightarrow> int \<Rightarrow> date \<Rightarrow> date \<Rightarrow> busy_interval list" where
  "full_intervals holds capacity from_date to_date =
     (case range_span from_date to_date of (range_from, range_to) \<Rightarrow>
      map (\<lambda>(starts, ends). \<lparr>bi_date = date_of starts, bi_start = time_of starts,
             bi_end_date = date_of ends, bi_end = time_of ends, bi_activity_id = None,
             bi_activity_code = None, bi_master_slot_id = None, bi_reservation_id = None\<rparr>)
        (filter (\<lambda>(starts, ends). starts < ends)
          (map (\<lambda>(starts, ends). (max starts range_from, min ends range_to))
             (pool_stretches holds capacity))))"

section \<open>What stands in the way of a window\<close>

definition clashing :: "busy_interval list \<Rightarrow> date \<Rightarrow> time_of_day \<Rightarrow> time_of_day \<Rightarrow> busy_interval list" where
  "clashing busy day start stop =
     (let window = window_span day start stop
      in filter (\<lambda>entry. overlaps (bounds entry) window) busy)"

definition last_date :: "date \<Rightarrow> time_of_day \<Rightarrow> time_of_day \<Rightarrow> date" where
  "last_date day start stop = (if stop < start then day + 1 else day)"

definition window_conflicts ::
  "rrule_lib \<Rightarrow> database \<Rightarrow> int \<Rightarrow> date \<Rightarrow> time_of_day \<Rightarrow> time_of_day \<Rightarrow> bool \<Rightarrow> busy_interval list" where
  "window_conflicts L db resource_id day start stop holds =
     (let final = last_date day start stop in
      clashing
        (occupied L db (booked_slots db resource_id)
           (if holds then held_reservations db resource_id day final else [])
           (booked_days db resource_id day final) day final)
        day start stop)"

definition overlaps_span :: "span \<Rightarrow> span \<Rightarrow> bool" where
  "overlaps_span first second \<longleftrightarrow> fst first < snd second \<and> fst second < snd first"

definition pool_state ::
  "database \<Rightarrow> int \<Rightarrow> date \<Rightarrow> time_of_day \<Rightarrow> time_of_day \<Rightarrow> int \<times> reservation list" where
  "pool_state db resource_id day start stop =
     (let window = window_span day start stop;
          holds = filter (\<lambda>held. overlaps_span (held_span held) window)
                    (held_reservations db resource_id day (last_date day start stop))
      in (pool_peak holds (Some window), holds))"

end
