(* ===== verification/Pool.thy ===== *)
theory Pool
  imports Availability
begin

text \<open>
  The pool arithmetic of \<^verbatim>\<open>services/availability.py\<close> against its specification: how many
  units of a pool are held at an instant is the sum over the holds open at it. \<open>levels\<close> lists
  that sum at every instant where it changes, \<open>pool_peak\<close> is its maximum and \<open>pool_stretches\<close>
  are the maximal spans where it reaches a bound.
\<close>

section \<open>Units held at an instant\<close>

definition held_at :: "load list \<Rightarrow> instant \<Rightarrow> int" where
  "held_at spans i = (\<Sum>(s, e, u) \<leftarrow> spans. if s \<le> i \<and> i < e then u else 0)"

definition units_held :: "reservation list \<Rightarrow> instant \<Rightarrow> int" where
  "units_held holds i = (\<Sum>h \<leftarrow> holds. if in_span i (held_span h) then rv_quantity h else 0)"

definition delta_sum :: "(instant \<times> int) list \<Rightarrow> instant \<Rightarrow> int" where
  "delta_sum d i = (\<Sum>(k, v) \<leftarrow> d. if k \<le> i then v else 0)"

definition proper_loads :: "load list \<Rightarrow> bool" where
  "proper_loads spans \<longleftrightarrow> (\<forall>(s, e, u) \<in> set spans. s \<le> e)"

lemma delta_sum_simps [simp]:
  "delta_sum [] i = 0"
  "delta_sum ((k, v) # d) i = (if k \<le> i then v else 0) + delta_sum d i"
  by (simp_all add: delta_sum_def)

lemma held_at_simps [simp]:
  "held_at [] i = 0"
  "held_at ((s, e, u) # spans) i = (if s \<le> i \<and> i < e then u else 0) + held_at spans i"
  by (simp_all add: held_at_def)

lemma delta_sum_add_delta: "delta_sum (add_delta k v d) i = delta_sum d i + (if k \<le> i then v else 0)"
  by (induction k v d rule: add_delta.induct) auto

lemma keys_add_delta: "set (map fst (add_delta k v d)) = insert k (set (map fst d))"
  by (induction k v d rule: add_delta.induct) auto

lemma distinct_add_delta: "distinct (map fst d) \<Longrightarrow> distinct (map fst (add_delta k v d))"
  by (induction k v d rule: add_delta.induct) (auto simp: keys_add_delta simp del: set_map)

lemma deltas_fold:
  assumes "proper_loads spans"
  shows "delta_sum (fold (\<lambda>(s, e, u) d. add_delta e (- u) (add_delta s u d)) spans d) i =
    delta_sum d i + held_at spans i"
  using assms
  by (induction spans arbitrary: d) (auto simp: proper_loads_def delta_sum_add_delta)

lemma delta_sum_deltas: "proper_loads spans \<Longrightarrow> delta_sum (deltas spans) i = held_at spans i"
  using deltas_fold[of spans "[]" i] by (simp add: deltas_def)

lemma distinct_deltas_fold:
  "distinct (map fst d) \<Longrightarrow>
   distinct (map fst (fold (\<lambda>(s, e, u) d. add_delta e (- u) (add_delta s u d)) spans d))"
  by (induction spans arbitrary: d) (auto simp: distinct_add_delta)

lemma sorted_deltas: "sorted_wrt (<) (map fst (sort_key fst (deltas spans)))"
proof -
  have "distinct (map fst (deltas spans))"
    using distinct_deltas_fold[of "[]" spans] by (simp add: deltas_def)
  then have "distinct (map fst (sort_key fst (deltas spans)))"
    by (metis distinct_map distinct_sort set_sort)
  then show ?thesis by (simp add: strict_sorted_iff)
qed

lemma delta_sum_sort: "delta_sum (sort_key fst d) i = delta_sum d i"
proof -
  have "mset (map (\<lambda>(k, v). if k \<le> i then v else (0::int)) (sort_key fst d)) =
    mset (map (\<lambda>(k, v). if k \<le> i then v else 0) d)" by simp
  then show ?thesis unfolding delta_sum_def by (metis sum_mset_sum_list)
qed

section \<open>The level list as a step function\<close>

fun value_at :: "int \<Rightarrow> (instant \<times> int) list \<Rightarrow> instant \<Rightarrow> int" where
  "value_at t [] i = t"
| "value_at t ((k, u) # r) i = (if i < k then t else value_at u r i)"

lemma fst_running_totals [simp]: "map fst (running_totals t d) = map fst d"
  by (induction t d rule: running_totals.induct) auto

lemma delta_sum_before: "\<forall>k \<in> fst ` set d. i < k \<Longrightarrow> delta_sum d i = 0"
  by (induction d) auto

lemma value_at_running_totals:
  "sorted_wrt (<) (map fst d) \<Longrightarrow> value_at t (running_totals t d) i = t + delta_sum d i"
proof (induction t d rule: running_totals.induct)
  case (2 t k v d)
  then show ?case using delta_sum_before[of d i] by force
qed simp

lemma value_at_levels: "proper_loads spans \<Longrightarrow> value_at 0 (levels spans) i = held_at spans i"
  by (simp add: levels_def value_at_running_totals sorted_deltas delta_sum_sort delta_sum_deltas)

lemma sorted_levels: "sorted_wrt (<) (map fst (levels spans))"
  by (simp add: levels_def sorted_deltas)

lemma value_at_member:
  "sorted_wrt (<) (map fst d) \<Longrightarrow> (k, u) \<in> set d \<Longrightarrow> value_at t d k = u"
proof (induction t d k rule: value_at.induct)
  case (2 t k' u' r i)
  then show ?case by (cases "(i, u) = (k', u')") (cases r, auto)
qed simp

lemma value_at_cases:
  "value_at t d i = t \<or> (\<exists>k \<le> i. (k, value_at t d i) \<in> set d)"
proof (induction t d i rule: value_at.induct)
  case (2 t k u r i)
  then show ?case by (cases "i < k") (auto simp: not_less)
qed simp

section \<open>The peak\<close>

lemma foldl_max:
  "(x::int) \<le> foldl max x r \<and> (\<forall>y \<in> set r. y \<le> foldl max x r) \<and> foldl max x r \<in> insert x (set r)"
proof (induction r arbitrary: x)
  case (Cons a r)
  from Cons.IH[of "max x a"] show ?case by (auto simp: max_def split: if_splits)
qed simp

lemma max_default_ge: "y \<in> set xs \<Longrightarrow> y \<le> max_default xs"
  using foldl_max by (auto simp: max_default_def split: list.splits)

lemma max_default_mem: "xs \<noteq> [] \<Longrightarrow> max_default xs \<in> set xs"
  using foldl_max by (cases xs) (auto simp: max_default_def)

lemma pool_peak_levels:
  assumes "proper_loads spans"
  shows "held_at spans i \<le> 0 \<or> held_at spans i \<le> max_default (map snd (levels spans))"
    and "levels spans \<noteq> [] \<Longrightarrow> \<exists>k. held_at spans k = max_default (map snd (levels spans))"
proof -
  have v: "value_at 0 (levels spans) j = held_at spans j" for j
    by (rule value_at_levels[OF assms])
  show "held_at spans i \<le> 0 \<or> held_at spans i \<le> max_default (map snd (levels spans))"
    using value_at_cases[of 0 "levels spans" i] by (force simp: v intro: max_default_ge)
  assume "levels spans \<noteq> []"
  then have "max_default (map snd (levels spans)) \<in> snd ` set (levels spans)"
    using max_default_mem[of "map snd (levels spans)"] by simp
  then obtain k where "(k, max_default (map snd (levels spans))) \<in> set (levels spans)" by force
  then have "held_at spans k = max_default (map snd (levels spans))"
    using value_at_member[OF sorted_levels, of k _ spans 0] v by simp
  then show "\<exists>k. held_at spans k = max_default (map snd (levels spans))" ..
qed

lemma levels_member: "proper_loads spans \<Longrightarrow> (k, u) \<in> set (levels spans) \<Longrightarrow> u = held_at spans k"
  using value_at_member[OF sorted_levels, of k u spans 0] value_at_levels[of spans k] by simp

lemma held_at_nonneg: "\<forall>(s, e, u) \<in> set spans. 0 \<le> u \<Longrightarrow> 0 \<le> held_at spans i"
  by (induction spans) auto

lemma max_default_levels_nonneg:
  assumes "proper_loads spans" and "\<forall>(s, e, u) \<in> set spans. 0 \<le> u"
  shows "0 \<le> max_default (map snd (levels spans))"
proof (cases "levels spans = []")
  case True
  then show ?thesis by (simp add: max_default_def)
next
  case False
  then obtain k where "held_at spans k = max_default (map snd (levels spans))"
    using pool_peak_levels(2)[OF assms(1)] by blast
  with held_at_nonneg[OF assms(2), of k] show ?thesis by simp
qed

lemma held_at_peak_loads:
  "held_at (peak_loads holds (Some w)) i = (if in_span i w then units_held holds i else 0)"
  by (cases w, induction holds)
     (auto simp: peak_loads_def units_held_def span_simps split: prod.splits)

lemma proper_peak_loads: "proper_loads (peak_loads holds w)"
  by (auto simp: peak_loads_def proper_loads_def)

lemma peak_loads_quantity:
  "\<forall>h \<in> set holds. 0 \<le> rv_quantity h \<Longrightarrow> \<forall>(s, e, u) \<in> set (peak_loads holds w). 0 \<le> u"
  by (auto simp: peak_loads_def split: prod.splits option.splits)

text \<open>The peak bounds the load at every instant of the window, and is reached unless it is 0.\<close>

lemma pool_peak_exact:
  assumes "\<forall>h \<in> set holds. 0 \<le> rv_quantity h"
  shows "in_span i w \<Longrightarrow> units_held holds i \<le> pool_peak holds (Some w)"
    and "pool_peak holds (Some w) = 0 \<or>
      (\<exists>i. in_span i w \<and> units_held holds i = pool_peak holds (Some w))"
proof -
  let ?L = "peak_loads holds (Some w)"
  note nn = max_default_levels_nonneg[OF proper_peak_loads peak_loads_quantity[OF assms], of "Some w"]
  show "in_span i w \<Longrightarrow> units_held holds i \<le> pool_peak holds (Some w)"
    using pool_peak_levels(1)[OF proper_peak_loads, of holds "Some w" i] nn
    by (auto simp: held_at_peak_loads pool_peak_def)
  show "pool_peak holds (Some w) = 0 \<or>
      (\<exists>i. in_span i w \<and> units_held holds i = pool_peak holds (Some w))"
  proof (cases "levels ?L = []")
    case True
    then show ?thesis by (simp add: pool_peak_def max_default_def)
  next
    case False
    then obtain k where "held_at ?L k = pool_peak holds (Some w)"
      using pool_peak_levels(2)[OF proper_peak_loads] by (auto simp: pool_peak_def)
    then show ?thesis by (metis held_at_peak_loads)
  qed
qed

section \<open>Stretches\<close>

fun final_value :: "int \<Rightarrow> (instant \<times> int) list \<Rightarrow> int" where
  "final_value t [] = t"
| "final_value t ((k, u) # r) = final_value u r"

definition covered :: "span list \<Rightarrow> instant \<Rightarrow> bool" where
  "covered xs i \<longleftrightarrow> (\<exists>s \<in> set xs. in_span i s)"

lemma covered_simps [simp]:
  "covered [] i \<longleftrightarrow> False" "covered (s # xs) i \<longleftrightarrow> in_span i s \<or> covered xs i"
  by (auto simp: covered_def)

lemma stretches_from_starts:
  "s \<in> set (stretches_from al op r) \<Longrightarrow>
   (\<exists>a. op = Some a \<and> fst s = a) \<or> fst s \<in> fst ` set r"
  by (induction al op r rule: stretches_from.induct) (auto split: option.splits if_splits)

lemma stretches_from_sorted:
  assumes "sorted_wrt (<) (map fst r)" and "\<forall>a. op = Some a \<longrightarrow> (\<forall>k \<in> fst ` set r. a < k)"
  shows "sorted_wrt (\<lambda>x y. snd x < fst y) (stretches_from al op r) \<and>
    (\<forall>s \<in> set (stretches_from al op r). fst s < snd s)"
  using assms
proof (induction al op r rule: stretches_from.induct)
  case (2 al op i t r)
  show ?case
  proof (cases op)
    case None
    with 2 show ?thesis by auto
  next
    case (Some a)
    have "i < fst y" if "y \<in> set (stretches_from al None r)" for y
      using stretches_from_starts[OF that] "2.prems"(1) by auto
    with 2 Some show ?thesis by auto
  qed
qed simp

lemma stretches_from_covered:
  assumes "sorted_wrt (<) (map fst r)" and "final_value t r < al"
    and "case op of None \<Rightarrow> t < al | Some a \<Rightarrow> al \<le> t \<and> (\<forall>k \<in> fst ` set r. a < k)"
  shows "covered (stretches_from al op r) i \<longleftrightarrow>
    al \<le> value_at t r i \<and> (case op of None \<Rightarrow> True | Some a \<Rightarrow> a \<le> i)"
  using assms
proof (induction al op r arbitrary: t rule: stretches_from.induct)
  case (1 al op)
  then show ?case by (auto split: option.splits)
next
  case (2 al op k u r)
  have later: "k < j" if "j \<in> fst ` set r" for j using 2(5) that by auto
  have nolow: "value_at u r i = u" if "i < k"
    using that later by (cases r) (force split: if_splits)+
  show ?case
  proof (cases op)
    case None
    show ?thesis
    proof (cases "al \<le> u")
      case True
      with 2(1)[OF None True, of u] 2(5-7) None later show ?thesis by auto
    next
      case False
      with 2(2)[OF None, of u] 2(5-7) None nolow show ?thesis by (auto simp: not_less)
    qed
  next
    case (Some a)
    then have a: "a < k" "al \<le> t" using 2(7) by auto
    show ?thesis
    proof (cases "u < al")
      case True
      with 2(3)[OF Some True, of u] 2(5-7) Some a nolow show ?thesis
        by (auto simp: span_simps)
    next
      case False
      with 2(4)[OF Some, of u] 2(5-7) Some a nolow show ?thesis by auto
    qed
  qed
qed

lemma value_at_final:
  "\<forall>k \<in> fst ` set r. k \<le> i \<Longrightarrow> value_at t r i = final_value t r"
  by (induction t r rule: final_value.induct) auto

lemma held_at_after: "\<forall>(s, e, u) \<in> set spans. e \<le> i \<Longrightarrow> held_at spans i = 0"
  by (induction spans) auto

lemma final_value_levels:
  assumes "proper_loads spans"
  shows "final_value 0 (levels spans) = 0"
proof -
  obtain i where i: "\<forall>k \<in> fst ` set (levels spans) \<union> (fst \<circ> snd) ` set spans. k \<le> i"
    by (meson List.finite_set finite_Un finite_imageI Max_ge)
  then have "value_at 0 (levels spans) i = final_value 0 (levels spans)"
    by (intro value_at_final) blast
  moreover have "held_at spans i = 0" using i by (intro held_at_after) force
  ultimately show ?thesis using value_at_levels[OF assms] by simp
qed

definition hold_loads :: "reservation list \<Rightarrow> load list" where
  "hold_loads holds = map (\<lambda>h. (fst (held_span h), snd (held_span h), rv_quantity h)) holds"

lemma held_at_hold_loads: "held_at (hold_loads holds) i = units_held holds i"
  by (induction holds) (auto simp: hold_loads_def units_held_def span_simps)

definition proper_holds :: "reservation list \<Rightarrow> bool" where
  "proper_holds holds \<longleftrightarrow> (\<forall>h \<in> set holds. fst (held_span h) < snd (held_span h))"

lemma proper_hold_loads: "proper_holds holds \<Longrightarrow> proper_loads (hold_loads holds)"
  by (auto simp: proper_holds_def proper_loads_def hold_loads_def)

text \<open>An instant lies in one of the stretches exactly when that many units are held at it; no two stretches touch.\<close>

lemma pool_stretches_exact:
  assumes "proper_holds holds" and "0 < at_least"
  shows "covered (pool_stretches holds at_least) i \<longleftrightarrow> at_least \<le> units_held holds i"
    and "sorted_wrt (\<lambda>x y. snd x < fst y) (pool_stretches holds at_least)"
    and "s \<in> set (pool_stretches holds at_least) \<Longrightarrow> fst s < snd s"
proof -
  let ?L = "levels (hold_loads holds)"
  have eq: "pool_stretches holds at_least = stretches_from at_least None ?L"
    by (simp add: pool_stretches_def hold_loads_def)
  note pl = proper_hold_loads[OF assms(1)]
  show "covered (pool_stretches holds at_least) i \<longleftrightarrow> at_least \<le> units_held holds i"
    using stretches_from_covered[OF sorted_levels, of 0 "hold_loads holds" at_least None i] assms(2)
    by (simp add: eq final_value_levels[OF pl] value_at_levels[OF pl] held_at_hold_loads)
  show "sorted_wrt (\<lambda>x y. snd x < fst y) (pool_stretches holds at_least)"
    and "s \<in> set (pool_stretches holds at_least) \<Longrightarrow> fst s < snd s"
    using stretches_from_sorted[OF sorted_levels, of None "hold_loads holds" at_least]
    by (simp_all add: eq)
qed

end
