(* ===== verification/Examples.thy ===== *)
theory Examples
  imports Datamodel Recurrence
begin

text \<open>
  A small concrete organization on which the witnesses evaluate the definitions: two rooms
  and a pool, one activity in an open cycle with a weekly Monday class, a hold on each kind
  of resource, and a generated day. Monday 2 March 2026 is ordinal 739677.
\<close>

definition hour :: "int \<Rightarrow> time_of_day" where
  "hour h = h * 3600000000"

definition monday :: date where
  "monday = 739677"

definition weekly_monday :: string where
  "weekly_monday = ''FREQ=WEEKLY;BYDAY=MO''"

definition ex_cycle :: planning_cycle where
  "ex_cycle = \<lparr>cy_id = 1, cy_cycle_label = ''Spring'', cy_date_bounds_start = 739650,
     cy_date_bounds_end = 739800, cy_operational_status = True\<rparr>"

definition ex_activity :: activity where
  "ex_activity = \<lparr>ac_id = 1, ac_activity_code = ''CS1'', ac_activity_title = ''Computing'',
     ac_unit_code = ''CS'', ac_cycle_id = 1, ac_retired_at = None\<rparr>"

definition ex_room :: "int \<Rightarrow> string \<Rightarrow> resource" where
  "ex_room i code = \<lparr>re_id = i, re_code = code, re_label = code, re_resource_type = ''ROOM'',
     re_unit_code = None, re_capacity = None, re_mode = EXCLUSIVE, re_user_id = None,
     re_latitude = None, re_longitude = None, re_altitude_target = None, re_active = True\<rparr>"

definition ex_pool :: resource where
  "ex_pool = (ex_room 3 ''VENT'')\<lparr>re_resource_type := ''DEVICE'', re_mode := POOLED,
     re_capacity := Some 3\<rparr>"

definition ex_slot :: master_slot where
  "ex_slot = \<lparr>sl_id = 1, sl_rrule = weekly_monday, sl_dtstart = 739656,
     sl_time_window_start = hour 9, sl_time_window_end = hour 10, sl_activity_id = 1,
     sl_primary_lead_id = Some ''ada'', sl_resource_id = Some 1, sl_retired_at = None,
     sl_organization_id = ''default''\<rparr>"

definition ex_hold :: "int \<Rightarrow> int \<Rightarrow> time_of_day \<Rightarrow> time_of_day \<Rightarrow> int \<Rightarrow> resource_mode \<Rightarrow> reservation" where
  "ex_hold i rid s e q m = \<lparr>rv_id = i, rv_resource_id = rid, rv_reserved_date = monday,
     rv_time_window_start = s, rv_time_window_end = e, rv_purpose = ''talk'',
     rv_requested_by_id = Some ''grace'', rv_idempotency_key = ''key-'' @ show_int i,
     rv_request_fingerprint = ''f'', rv_external_ref = None, rv_quantity = q, rv_mode = m,
     rv_status = HELD, rv_created_at = 0, rv_cancelled_at = None,
     rv_parent_reservation_id = None\<rparr>"

definition ex_day :: daily_ledger where
  "ex_day = \<lparr>dl_id = 1, dl_target_date = monday, dl_time_window_start = Some (hour 9),
     dl_time_window_end = Some (hour 10), dl_master_slot_id = Some 1, dl_activity_id = 1,
     dl_active_lead_id = Some ''ada'', dl_substitute_lead_id = None, dl_resource_id = Some 1,
     dl_delivery_format = PHYSICAL, dl_virtual_connection_string = None,
     dl_latitude_target = None, dl_longitude_target = None, dl_altitude_target = None,
     dl_precision_radius_meters = Some 15, dl_operational_state = SCHEDULED,
     dl_organization_id = ''default''\<rparr>"

definition ex_user :: "string \<Rightarrow> institutional_role \<Rightarrow> user" where
  "ex_user i r = \<lparr>us_id = i, us_full_name = i, us_role_type = r, us_unit_code = Some ''CS'',
     us_assigned_base_station = None, us_current_occupancy_index = OPEN_AD_HOC, us_reporting_line_manager = Some ''grace'',
     us_deactivated_at = None\<rparr>"

definition ex_db :: database where
  "ex_db = empty_db\<lparr>planning_cycles := [ex_cycle], activities := [ex_activity],
     users := [ex_user ''grace'' ORG_ADMIN, ex_user ''ada'' STAFF],
     resources := [ex_room 1 ''A1'', ex_room 2 ''A2'', ex_pool],
     structural_master_slots := [ex_slot], daily_ledger_rows := [ex_day],
     reservations := [ex_hold 1 1 (hour 22) (hour 6) 1 EXCLUSIVE,
                      ex_hold 2 3 (hour 9) (hour 11) 2 POOLED]\<rparr>"

lemmas ex_defs = hour_def monday_def weekly_monday_def ex_cycle_def ex_activity_def ex_room_def
  ex_pool_def ex_slot_def ex_hold_def ex_day_def ex_user_def ex_db_def empty_db_def

end
