(* ===== verification/Availability_Props.thy ===== *)
theory Availability_Props
  imports Availability Pool Examples
begin

text \<open>
  What \<^verbatim>\<open>services/availability.py\<close> promises: the busy intervals it reports over a range, and
  the conflicts it reports for a window, are exactly the spans that occupy the resource and
  meet the range or the window. The specification is \<open>occupancy\<close>, a set of spans read off the
  tables with no dates fetched and no range cut; the theorems say that fetching one day more
  at the front of a range, and trying three dates around a row, loses nothing.
\<close>

section \<open>Well-formed rows\<close>

text \<open>What the schema validators and the check constraints keep: real times, never two equal ones.\<close>

definition valid_window :: "time_of_day \<Rightarrow> time_of_day \<Rightarrow> bool" where
  "valid_window s e \<longleftrightarrow> valid_time s \<and> valid_time e \<and> s \<noteq> e"

definition reservation_ok :: "reservation \<Rightarrow> bool" where
  "reservation_ok r \<longleftrightarrow>
     valid_window (rv_time_window_start r) (rv_time_window_end r) \<and> 1 \<le> rv_quantity r"

definition slot_ok :: "rrule_lib \<Rightarrow> master_slot \<Rightarrow> bool" where
  "slot_ok L s \<longleftrightarrow>
     valid_window (sl_time_window_start s) (sl_time_window_end s) \<and> stored_rule L (sl_rrule s)"

definition day_ok :: "daily_ledger \<Rightarrow> bool" where
  "day_ok d \<longleftrightarrow> (has_window d \<longrightarrow> valid_window (dl_start d) (dl_end d))"

definition tables_ok :: "rrule_lib \<Rightarrow> database \<Rightarrow> bool" where
  "tables_ok L db \<longleftrightarrow> (\<forall>r \<in> set (reservations db). reservation_ok r) \<and>
     (\<forall>s \<in> set (structural_master_slots db). slot_ok L s) \<and>
     (\<forall>d \<in> set (daily_ledger_rows db). day_ok d)"

section \<open>The specification\<close>

definition hold_spans :: "database \<Rightarrow> int \<Rightarrow> span set" where
  "hold_spans db rid =
     held_span ` {r \<in> set (reservations db). rv_resource_id r = rid \<and> rv_status r = HELD}"

definition days_on :: "database \<Rightarrow> int \<Rightarrow> daily_ledger set" where
  "days_on db rid = {d \<in> set (daily_ledger_rows db). dl_resource_id d = Some rid \<and> has_window d}"

definition slot_runs :: "rrule_lib \<Rightarrow> database \<Rightarrow> master_slot \<Rightarrow> date \<Rightarrow> bool" where
  "slot_runs L db s d \<longleftrightarrow>
     occurs_on L (sl_rrule s) (sl_dtstart s) d \<and> within_cycle (slot_cycle db s) d"

definition slot_spans :: "rrule_lib \<Rightarrow> database \<Rightarrow> int \<Rightarrow> span set" where
  "slot_spans L db rid =
     {window_span d (sl_time_window_start s) (sl_time_window_end s) |s d.
        s \<in> set (booked_slots db rid) \<and> slot_runs L db s d \<and>
        (d, Some (sl_id s)) \<notin> (\<lambda>r. (dl_target_date r, dl_master_slot_id r)) ` days_on db rid}"

definition timetable :: "rrule_lib \<Rightarrow> database \<Rightarrow> int \<Rightarrow> span set" where
  "timetable L db rid = slot_spans L db rid \<union> day_span ` days_on db rid"

definition occupancy :: "rrule_lib \<Rightarrow> database \<Rightarrow> int \<Rightarrow> span set" where
  "occupancy L db rid = timetable L db rid \<union> hold_spans db rid"

section \<open>Intervals and their bounds\<close>

lemma overlaps_meets [simp]: "overlaps = meets" "overlaps_span = meets"
  by (auto simp: overlaps_def overlaps_span_def meets_def fun_eq_iff)

lemma valid_windowD [dest]:
  "valid_window s e \<Longrightarrow> valid_time s" "valid_window s e \<Longrightarrow> valid_time e" "valid_window s e \<Longrightarrow> s \<noteq> e"
  by (auto simp: valid_window_def)

lemma window_bounds:
  "valid_time e \<Longrightarrow>
   (combine d s, combine (date_of (snd (window_span d s e))) e) = window_span d s e"
  by (simp add: window_span_end_date prod_eq_iff span_simps)

lemma bounds_held_interval: "reservation_ok r \<Longrightarrow> bounds (held_interval r) = held_span r"
  by (auto simp: bounds_def held_interval_def Let_def held_span_def reservation_ok_def window_bounds
      dest: valid_windowD)

lemma bounds_day_interval: "day_ok r \<Longrightarrow> has_window r \<Longrightarrow> bounds (day_interval db r) = day_span r"
  by (auto simp: bounds_def day_interval_def Let_def day_span_def day_ok_def window_bounds
      dest: valid_windowD)

lemma bounds_slot_interval:
  "slot_ok L s \<Longrightarrow>
   bounds (slot_interval db s d) = window_span d (sl_time_window_start s) (sl_time_window_end s)"
  by (auto simp: bounds_def slot_interval_def Let_def slot_ok_def window_bounds dest: valid_windowD)

lemma meets_range_dates:
  assumes "valid_time s" "valid_time e" "meets (window_span d s e) (range_span a b)"
  shows "a - 1 \<le> d \<and> d \<le> b"
proof -
  from assms(3) have 1: "combine d s < combine (b + 1) 0"
    and 2: "combine a 0 < combine (if e < s then d + 1 else d) e"
    by (simp_all add: span_simps range_span_def)
  have z: "valid_time 0" by (simp add: valid_time_def)
  from 1 2 show ?thesis
    using combine_less_iff[OF assms(1) z, of d "b + 1"] combine_less_iff[OF z assms(2)] assms(1,2)
    by (auto simp: valid_time_def split: if_splits)
qed

lemma window_range_dates:
  "valid_window s e \<Longrightarrow> meets (window_span d s e) (range_span a b) \<Longrightarrow> a - 1 \<le> d \<and> d \<le> b"
  by (rule meets_range_dates) (auto dest: valid_windowD)

lemma window_window_dates:
  "valid_window s e \<Longrightarrow> valid_window s' e' \<Longrightarrow>
   meets (window_span d s e) (window_span d' s' e') \<Longrightarrow> d - 1 \<le> d' \<and> d' \<le> d + 1"
  by (rule meets_window_dates) (auto dest: valid_windowD)

lemma slot_activity_cycle:
  "slot_counts db s \<Longrightarrow> (case slot_activity db s of None \<Rightarrow> True
      | Some a \<Rightarrow> within_cycle (get_cycle_row db (ac_cycle_id a)) d) = within_cycle (slot_cycle db s) d"
  by (auto simp: slot_counts_def slot_cycle_def split: option.splits)

section \<open>The expansion is exact\<close>

lemma set_dated_days:
  "set (dated_days db rid since until) =
   {d \<in> days_on db rid. since \<le> dl_target_date d \<and> (\<forall>u. until = Some u \<longrightarrow> dl_target_date d \<le> u)}"
  by (auto simp: dated_days_def days_on_def split: option.splits)

lemma tables_okD:
  "tables_ok L db \<Longrightarrow> r \<in> set (reservations db) \<Longrightarrow> reservation_ok r"
  "tables_ok L db \<Longrightarrow> s \<in> set (booked_slots db rid) \<Longrightarrow> slot_ok L s"
  "tables_ok L db \<Longrightarrow> d \<in> days_on db rid \<Longrightarrow> day_ok d \<and> has_window d"
  by (auto simp: tables_ok_def booked_slots_def days_on_def)

text \<open>One lemma per source of intervals, each cut to the range that is asked about.\<close>

lemma hold_entries_exact:
  assumes "tables_ok L db"
  shows "bounds ` {e \<in> held_interval ` set (held_reservations db rid a b).
      meets (bounds e) (range_span a b)} = {sp \<in> hold_spans db rid. meets sp (range_span a b)}"
    (is "?l = ?r")
proof
  show "?l \<subseteq> ?r"
    using tables_okD(1)[OF assms]
    by (auto simp: held_reservations_def hold_spans_def bounds_held_interval)
  show "?r \<subseteq> ?l"
  proof
    fix sp assume "sp \<in> ?r"
    then obtain r where r: "r \<in> set (reservations db)" "rv_resource_id r = rid"
      "rv_status r = HELD" "sp = held_span r" and m: "meets sp (range_span a b)"
      by (auto simp: hold_spans_def)
    then have ok: "reservation_ok r" using tables_okD(1)[OF assms] by blast
    then have "a - 1 \<le> rv_reserved_date r \<and> rv_reserved_date r \<le> b"
      using m r(4) window_range_dates[of "rv_time_window_start r" "rv_time_window_end r"]
      by (simp add: held_span_def reservation_ok_def)
    with r m ok show "sp \<in> ?l"
      by (intro image_eqI[of _ _ "held_interval r"])
         (auto simp: bounds_held_interval held_reservations_def)
  qed
qed

lemma day_entries_exact:
  assumes "tables_ok L db"
  shows "bounds ` {e \<in> day_interval db ` set (booked_days db rid a b).
      meets (bounds e) (range_span a b)} = {sp \<in> day_span ` days_on db rid. meets sp (range_span a b)}"
    (is "?l = ?r")
proof
  show "?l \<subseteq> ?r"
    using tables_okD(3)[OF assms]
    by (auto simp: booked_days_def set_dated_days bounds_day_interval)
  show "?r \<subseteq> ?l"
  proof
    fix sp assume "sp \<in> ?r"
    then obtain d where d: "d \<in> days_on db rid" "sp = day_span d" and m: "meets sp (range_span a b)"
      by auto
    then have ok: "day_ok d" "has_window d" using tables_okD(3)[OF assms] by blast+
    then have "a - 1 \<le> dl_target_date d \<and> dl_target_date d \<le> b"
      using m d(2) window_range_dates[of "dl_start d" "dl_end d"]
      by (simp add: day_span_def day_ok_def)
    with d m ok show "sp \<in> ?l"
      by (intro image_eqI[of _ _ "day_interval db d"])
         (auto simp: bounds_day_interval booked_days_def set_dated_days)
  qed
qed

lemma settled_booked_days:
  "a - 1 \<le> d \<Longrightarrow> d \<le> b \<Longrightarrow> (d, sid) \<in> settled (booked_days db rid a b) \<longleftrightarrow>
   (d, Some sid) \<in> (\<lambda>r. (dl_target_date r, dl_master_slot_id r)) ` days_on db rid"
  by (force simp: settled_def booked_days_def set_dated_days image_iff)

lemma slot_entries_exact:
  assumes "tables_ok L db" and "rrule_lib_ok L"
  shows "bounds ` {e \<in> (\<Union>s \<in> set (booked_slots db rid).
        set (slot_entries L db (booked_days db rid a b) a b s)). meets (bounds e) (range_span a b)} =
    {sp \<in> slot_spans L db rid. meets sp (range_span a b)}"
    (is "?l = ?r")
proof
  have occ: "set (occurrences L (sl_rrule s) (sl_dtstart s) (a - 1) b) =
      {d. a - 1 \<le> d \<and> d \<le> b \<and> occurs_on L (sl_rrule s) (sl_dtstart s) d}"
    if "s \<in> set (booked_slots db rid)" for s
    using rec.occ_set[of L "sl_rrule s"] tables_okD(2)[OF assms(1) that] assms(2)
    by (simp add: rule_ok_def slot_ok_def)
  have cnt: "slot_counts db s" if "s \<in> set (booked_slots db rid)" for s
    using that by (simp add: booked_slots_def)
  show "?l \<subseteq> ?r"
  proof
    fix sp assume "sp \<in> ?l"
    then obtain s d where s: "s \<in> set (booked_slots db rid)"
      and d: "d \<in> set (occurrences L (sl_rrule s) (sl_dtstart s) (a - 1) b)"
        "(d, sl_id s) \<notin> settled (booked_days db rid a b)" "within_cycle (slot_cycle db s) d"
      and sp: "sp = bounds (slot_interval db s d)" "meets sp (range_span a b)"
      using slot_activity_cycle[OF cnt] by (auto simp: slot_entries_def)
    then show "sp \<in> ?r"
      using tables_okD(2)[OF assms(1) s] occ[OF s]
      by (auto simp: slot_spans_def slot_runs_def settled_booked_days bounds_slot_interval)
  qed
  show "?r \<subseteq> ?l"
  proof
    fix sp assume "sp \<in> ?r"
    then obtain s d where s: "s \<in> set (booked_slots db rid)" and run: "slot_runs L db s d"
      and free: "(d, Some (sl_id s)) \<notin>
          (\<lambda>r. (dl_target_date r, dl_master_slot_id r)) ` days_on db rid"
      and sp: "sp = window_span d (sl_time_window_start s) (sl_time_window_end s)"
        "meets sp (range_span a b)"
      by (auto simp: slot_spans_def)
    have ok: "slot_ok L s" by (rule tables_okD(2)[OF assms(1) s])
    then have ab: "a - 1 \<le> d \<and> d \<le> b"
      using sp window_range_dates[of "sl_time_window_start s" "sl_time_window_end s"]
      by (simp add: slot_ok_def)
    have "slot_interval db s d \<in> set (slot_entries L db (booked_days db rid a b) a b s)"
      unfolding slot_entries_def set_map set_filter
      using run free ab
      by (intro imageI) (simp add: occ[OF s] slot_runs_def settled_booked_days
          slot_activity_cycle[OF cnt[OF s]])
    with s ok sp show "sp \<in> ?l"
      by (intro image_eqI[of _ _ "slot_interval db s d"]) (auto simp: bounds_slot_interval)
  qed
qed

text \<open>
  The shared shape of the two reports: the timetable, and the holds where the caller asks for
  them. Over a range the report is the occupancy cut to the range.
\<close>

lemma set_occupied:
  "set (occupied L db slots holds days a b) =
   {e \<in> (\<Union>s \<in> set slots. set (slot_entries L db days a b s)). meets (bounds e) (range_span a b)} \<union>
   {e \<in> day_interval db ` set days. meets (bounds e) (range_span a b)} \<union>
   {e \<in> held_interval ` set holds. meets (bounds e) (range_span a b)}"
  by (auto simp: occupied_def Let_def)

lemma occupied_timetable_exact:
  assumes "tables_ok L db" and "rrule_lib_ok L"
  shows "bounds ` set (occupied L db (booked_slots db rid) [] (booked_days db rid a b) a b) =
    {sp \<in> timetable L db rid. meets sp (range_span a b)}"
  unfolding set_occupied image_Un slot_entries_exact[OF assms] day_entries_exact[OF assms(1)]
  by (auto simp: timetable_def)

lemma occupied_all_exact:
  assumes "tables_ok L db" and "rrule_lib_ok L"
  shows "bounds ` set (occupied L db (booked_slots db rid) (held_reservations db rid a b)
      (booked_days db rid a b) a b) = {sp \<in> occupancy L db rid. meets sp (range_span a b)}"
  unfolding set_occupied image_Un slot_entries_exact[OF assms] day_entries_exact[OF assms(1)]
    hold_entries_exact[OF assms(1)]
  by (auto simp: timetable_def occupancy_def)

section \<open>The conflicts of a window\<close>

lemma window_in_range:
  assumes "valid_window s e" and "meets sp (window_span d s e)"
  shows "meets sp (range_span d (last_date d s e))"
proof -
  have "combine d 0 \<le> fst (window_span d s e)"
    "snd (window_span d s e) \<le> combine (last_date d s e + 1) 0"
    using assms(1)
    by (auto simp: span_simps last_date_def valid_window_def valid_time_def combine_def algebra_simps)
  with assms(2) show ?thesis by (auto simp: span_simps range_span_def)
qed

lemma clashing_exact:
  "bounds ` set (clashing busy d s e) = {sp \<in> bounds ` set busy. meets sp (window_span d s e)}"
  by (auto simp: clashing_def Let_def)

lemma window_conflicts_exact:
  assumes "tables_ok L db" and "rrule_lib_ok L" and "valid_window s e"
  shows "bounds ` set (window_conflicts L db rid d s e True) =
      {sp \<in> occupancy L db rid. meets sp (window_span d s e)}"
    and "bounds ` set (window_conflicts L db rid d s e False) =
      {sp \<in> timetable L db rid. meets sp (window_span d s e)}"
  using window_in_range[OF assms(3)]
  unfolding window_conflicts_def Let_def clashing_exact
  by (auto simp: occupied_all_exact[OF assms(1,2)] occupied_timetable_exact[OF assms(1,2)])

lemma window_conflicts_Nil:
  assumes "tables_ok L db" and "rrule_lib_ok L" and "valid_window s e"
    and "window_conflicts L db rid d s e True = []" and "sp \<in> occupancy L db rid"
  shows "\<not> meets sp (window_span d s e)"
proof -
  have "{sp \<in> occupancy L db rid. meets sp (window_span d s e)} = {}"
    using window_conflicts_exact(1)[OF assms(1-3), of rid d] assms(4) by simp
  with assms(5) show ?thesis by blast
qed

section \<open>What a new slot would sit on\<close>

text \<open>Trying the dates next to a row is trying every date: nothing further away reaches it.\<close>

lemma three_dates_enough:
  assumes "valid_window s e" and "valid_window s' e'"
  shows "(\<exists>d \<in> set (three_dates d'). P d \<and> meets (window_span d s e) (window_span d' s' e')) \<longleftrightarrow>
    (\<exists>d. P d \<and> meets (window_span d s e) (window_span d' s' e'))"
proof -
  have "d \<in> set (three_dates d')" if "meets (window_span d s e) (window_span d' s' e')" for d
    using window_window_dates[OF assms that] by (auto simp: three_dates_def)
  then show ?thesis by blast
qed

lemma held_against_slot_exact:
  assumes "tables_ok L db" and "valid_window start stop"
  shows "set (held_against_slot L today db rid rule ds start stop cycle) =
    held_interval ` {r \<in> set (reservations db). rv_resource_id r = rid \<and> rv_status r = HELD \<and>
      rv_mode r \<noteq> SHARED \<and> today \<le> rv_reserved_date r \<and>
      (\<exists>d. within_cycle cycle d \<and> occurs_on L rule ds d \<and>
         meets (window_span d start stop) (held_span r))}"
proof -
  have "(\<exists>d \<in> set (three_dates (rv_reserved_date r)). within_cycle cycle d \<and> occurs_on L rule ds d \<and>
        meets (window_span d start stop) (held_span r)) \<longleftrightarrow>
      (\<exists>d. within_cycle cycle d \<and> occurs_on L rule ds d \<and>
        meets (window_span d start stop) (held_span r))"
    if "r \<in> set (reservations db)" for r
    using three_dates_enough[OF assms(2), of "rv_time_window_start r" "rv_time_window_end r"
        "rv_reserved_date r" "\<lambda>d. within_cycle cycle d \<and> occurs_on L rule ds d"]
      tables_okD(1)[OF assms(1) that]
    by (simp add: held_span_def reservation_ok_def conj_assoc)
  then have "{r \<in> set (reservations db). rv_resource_id r = rid \<and> rv_status r = HELD \<and>
      rv_mode r \<noteq> SHARED \<and> today \<le> rv_reserved_date r \<and>
      (\<exists>d \<in> set (three_dates (rv_reserved_date r)). within_cycle cycle d \<and> occurs_on L rule ds d \<and>
        meets (window_span d start stop) (held_span r))} =
    {r \<in> set (reservations db). rv_resource_id r = rid \<and> rv_status r = HELD \<and>
      rv_mode r \<noteq> SHARED \<and> today \<le> rv_reserved_date r \<and>
      (\<exists>d. within_cycle cycle d \<and> occurs_on L rule ds d \<and>
         meets (window_span d start stop) (held_span r))}" by blast
  then show ?thesis
    by (simp add: held_against_slot_def Let_def list_ex_iff held_span_def[symmetric] conj_assoc)
qed

lemma days_against_slot_exact:
  assumes "tables_ok L db" and "valid_window start stop"
  shows "set (days_against_slot L today db rid rule ds start stop excl cycle) =
    day_interval db ` {r \<in> days_on db rid. today \<le> dl_target_date r \<and> \<not> excluded_day excl r \<and>
      (\<exists>d. within_cycle cycle d \<and> occurs_on L rule ds d \<and>
         meets (window_span d start stop) (day_span r))}"
proof -
  have "(\<exists>d \<in> set (three_dates (dl_target_date r)). within_cycle cycle d \<and> occurs_on L rule ds d \<and>
        meets (bounds (day_interval db r)) (window_span d start stop)) \<longleftrightarrow>
      (\<exists>d. within_cycle cycle d \<and> occurs_on L rule ds d \<and>
        meets (window_span d start stop) (day_span r))"
    if "r \<in> days_on db rid" for r
    using three_dates_enough[OF assms(2), of "dl_start r" "dl_end r"
        "dl_target_date r" "\<lambda>d. within_cycle cycle d \<and> occurs_on L rule ds d"]
      tables_okD(3)[OF assms(1) that]
    unfolding meets_sym[of "bounds (day_interval db r)"]
    by (simp add: day_span_def[symmetric] day_ok_def conj_assoc bounds_day_interval)
  then have "{r \<in> set (dated_days db rid today None). \<not> excluded_day excl r \<and>
       (\<exists>d \<in> set (three_dates (dl_target_date r)). within_cycle cycle d \<and> occurs_on L rule ds d \<and>
          meets (bounds (day_interval db r)) (window_span d start stop))} =
     {r \<in> days_on db rid. today \<le> dl_target_date r \<and> \<not> excluded_day excl r \<and>
      (\<exists>d. within_cycle cycle d \<and> occurs_on L rule ds d \<and>
         meets (window_span d start stop) (day_span r))}"
    by (auto simp: set_dated_days)
  then show ?thesis
    by (simp add: days_against_slot_def list_ex_iff)
qed

lemma days_against_window_exact:
  assumes "tables_ok L db" and "valid_window start stop"
  shows "set (days_against_window db rid day start stop excl) =
    day_interval db ` {r \<in> days_on db rid. \<not> excluded_day excl r \<and>
      meets (day_span r) (window_span day start stop)}"
proof -
  have "day - 1 \<le> dl_target_date r \<and> dl_target_date r \<le> day + 1"
    if "r \<in> days_on db rid" "meets (day_span r) (window_span day start stop)" for r
    using window_window_dates[of "dl_start r" "dl_end r" start stop "dl_target_date r" day]
      that tables_okD(3)[OF assms(1) that(1)] assms(2)
    by (simp add: day_span_def day_ok_def)
  moreover have b: "bounds (day_interval db r) = day_span r" if "r \<in> days_on db rid" for r
    using tables_okD(3)[OF assms(1) that] by (simp add: bounds_day_interval)
  ultimately have "{r \<in> set (dated_days db rid (day - 1) None). \<not> day + 1 < dl_target_date r \<and>
      \<not> excluded_day excl r \<and> meets (bounds (day_interval db r)) (window_span day start stop)} =
    {r \<in> days_on db rid. \<not> excluded_day excl r \<and> meets (day_span r) (window_span day start stop)}"
    by (force simp: set_dated_days)
  then show ?thesis
    by (simp add: days_against_window_def Let_def filter_map o_def conj_assoc)
qed

lemma first_meeting_iff:
  "first_meeting ours s e theirs s' e' = None \<longleftrightarrow>
   (\<forall>d \<in> set ours. \<forall>d' \<in> set (three_dates d) \<inter> set theirs.
      \<not> meets (window_span d s e) (window_span d' s' e'))"
  by (induction ours) (auto simp: find_None_iff split: option.splits dest: find_Some_iff_first)

lemma first_meeting_Some:
  "first_meeting ours s e theirs s' e' = Some d' \<Longrightarrow>
   d' \<in> set theirs \<and> (\<exists>d \<in> set ours. meets (window_span d s e) (window_span d' s' e'))"
  by (induction ours) (auto split: option.splits dest: find_Some_iff_first)

text \<open>The dates \<open>slot_clash\<close> compares: ours from tomorrow inside our cycle, theirs inside their own.\<close>

definition our_first :: "date \<Rightarrow> planning_cycle \<Rightarrow> planning_cycle option \<Rightarrow> date" where
  "our_first today other cycle =
     (let f = max (today + 1) (cy_date_bounds_start other - 1)
      in case cycle of None \<Rightarrow> f | Some c \<Rightarrow> max f (cy_date_bounds_start c))"

definition our_final :: "planning_cycle \<Rightarrow> planning_cycle option \<Rightarrow> date" where
  "our_final other cycle =
     (let f = cy_date_bounds_end other + 1
      in case cycle of None \<Rightarrow> f | Some c \<Rightarrow> min f (cy_date_bounds_end c))"

lemma our_dates:
  "our_first today other cycle \<le> d \<and> d \<le> our_final other cycle \<longleftrightarrow>
   today < d \<and> within_cycle cycle d \<and>
   cy_date_bounds_start other - 1 \<le> d \<and> d \<le> cy_date_bounds_end other + 1"
  by (auto simp: our_first_def our_final_def within_cycle_def split: option.splits)

lemma slot_clash_unfold:
  assumes "slot_activity db slot = Some act" and "slot_cycle db slot = Some other"
  shows "slot_clash L today db rule ds start stop cycle slot \<noteq> None \<longleftrightarrow>
    our_first today other cycle \<le> our_final other cycle \<and>
    first_meeting (occurrences L rule ds (our_first today other cycle) (our_final other cycle))
      start stop
      (occurrences L (sl_rrule slot) (sl_dtstart slot)
         (max (our_first today other cycle - 1) (cy_date_bounds_start other))
         (min (our_final other cycle + 1) (cy_date_bounds_end other)))
      (sl_time_window_start slot) (sl_time_window_end slot) \<noteq> None"
proof -
  have nil: "first_meeting ours start stop [] s e = None" for ours s e
    by (simp add: first_meeting_iff)
  show ?thesis
    unfolding slot_clash_def assms our_first_def[symmetric] our_final_def[symmetric] Let_def
      option.case prod.case
    by (auto simp: nil our_first_def our_final_def Let_def split: option.splits)
qed

lemma slot_clash_exact:
  assumes "rrule_lib_ok L" and "stored_rule L rule" and "valid_window start stop"
    and "slot_ok L slot" and "slot_activity db slot = Some act"
    and "slot_cycle db slot = Some other"
  shows "slot_clash L today db rule ds start stop cycle slot \<noteq> None \<longleftrightarrow>
    (\<exists>d d'. today < d \<and> within_cycle cycle d \<and> occurs_on L rule ds d \<and> slot_runs L db slot d' \<and>
       meets (window_span d start stop)
         (window_span d' (sl_time_window_start slot) (sl_time_window_end slot)))"
    (is "?l \<longleftrightarrow> ?r")
proof -
  let ?f = "our_first today other cycle" and ?g = "our_final other cycle"
  let ?m = "\<lambda>d d'. meets (window_span d start stop)
     (window_span d' (sl_time_window_start slot) (sl_time_window_end slot))"
  let ?theirs = "occurrences L (sl_rrule slot) (sl_dtstart slot)
     (max (?f - 1) (cy_date_bounds_start other)) (min (?g + 1) (cy_date_bounds_end other))"
  have ours: "set (occurrences L rule ds ?f ?g) = {d. ?f \<le> d \<and> d \<le> ?g \<and> occurs_on L rule ds d}"
    using rec.occ_set assms(1,2) by (simp add: rule_ok_def)
  have theirs: "set ?theirs = {d. max (?f - 1) (cy_date_bounds_start other) \<le> d \<and>
      d \<le> min (?g + 1) (cy_date_bounds_end other) \<and>
      occurs_on L (sl_rrule slot) (sl_dtstart slot) d}"
    using rec.occ_set assms(1,4) by (simp add: rule_ok_def slot_ok_def)
  have near: "d' \<in> set (three_dates d)" "d - 1 \<le> d'" "d' \<le> d + 1" if "?m d d'" for d d'
    using window_window_dates[OF assms(3) _ that] assms(4) by (auto simp: slot_ok_def three_dates_def)
  have "?l \<longleftrightarrow> ?f \<le> ?g \<and> (\<exists>d \<in> set (occurrences L rule ds ?f ?g).
      \<exists>d' \<in> set (three_dates d) \<inter> set ?theirs. ?m d d')"
    unfolding slot_clash_unfold[OF assms(5,6)] first_meeting_iff by blast
  also have "\<dots> \<longleftrightarrow> ?r"
  proof
    assume "?f \<le> ?g \<and> (\<exists>d \<in> set (occurrences L rule ds ?f ?g).
      \<exists>d' \<in> set (three_dates d) \<inter> set ?theirs. ?m d d')"
    then show ?r
      using our_dates[of today other cycle]
      by (fastforce simp: ours theirs slot_runs_def assms(6) within_cycle_def)
  next
    assume ?r
    then obtain d d' where d: "today < d" "within_cycle cycle d" "occurs_on L rule ds d"
      and d': "slot_runs L db slot d'" and m: "?m d d'" by blast
    from d' have o: "cy_date_bounds_start other \<le> d'" "d' \<le> cy_date_bounds_end other"
      "occurs_on L (sl_rrule slot) (sl_dtstart slot) d'"
      by (auto simp: slot_runs_def assms(6) within_cycle_def)
    have fg: "?f \<le> d" "d \<le> ?g" using our_dates[of today other cycle d] d o near[OF m] by auto
    then have "d \<in> set (occurrences L rule ds ?f ?g)" "d' \<in> set (three_dates d) \<inter> set ?theirs"
      using d o near[OF m] by (auto simp: ours theirs)
    with fg m show "?f \<le> ?g \<and> (\<exists>d \<in> set (occurrences L rule ds ?f ?g).
      \<exists>d' \<in> set (three_dates d) \<inter> set ?theirs. ?m d d')" by force
  qed
  finally show ?thesis .
qed

lemma slot_counts_lookup:
  "slot_counts db s \<Longrightarrow> \<exists>a c. slot_activity db s = Some a \<and> slot_cycle db s = Some c"
  by (auto simp: slot_counts_def slot_cycle_def split: option.splits)

lemma slots_against_slot_Nil:
  assumes "tables_ok L db" and "rrule_lib_ok L" and "stored_rule L rule" and "valid_window start stop"
  shows "slots_against_slot L today db rid rule ds start stop excl cycle = [] \<longleftrightarrow>
    (\<forall>s \<in> set (booked_slots db rid). Some (sl_id s) \<noteq> excl \<longrightarrow>
       (\<forall>d d'. today < d \<longrightarrow> within_cycle cycle d \<longrightarrow> occurs_on L rule ds d \<longrightarrow> slot_runs L db s d' \<longrightarrow>
          \<not> meets (window_span d start stop)
            (window_span d' (sl_time_window_start s) (sl_time_window_end s))))"
proof -
  have "slot_clash L today db rule ds start stop cycle s = None \<longleftrightarrow>
      (\<forall>d d'. today < d \<longrightarrow> within_cycle cycle d \<longrightarrow> occurs_on L rule ds d \<longrightarrow> slot_runs L db s d' \<longrightarrow>
          \<not> meets (window_span d start stop)
            (window_span d' (sl_time_window_start s) (sl_time_window_end s)))"
    if s: "s \<in> set (booked_slots db rid)" for s
  proof -
    obtain a c where "slot_activity db s = Some a" "slot_cycle db s = Some c"
      using s slot_counts_lookup[of db s] by (auto simp: booked_slots_def)
    from slot_clash_exact[OF assms(2-4) tables_okD(2)[OF assms(1) s] this, of today ds cycle]
    show ?thesis by blast
  qed
  then show ?thesis
    by (auto simp: slots_against_slot_def List.map_filter_def filter_empty_conv o_def)
qed

section \<open>The properties\<close>

lemma ex_tables_ok: "tables_ok weekly_lib ex_db"
  using weekly_lib_stored
  by (simp add: tables_ok_def ex_defs reservation_ok_def slot_ok_def day_ok_def valid_window_def
      valid_time_def day_us_def has_window_def dl_start_def dl_end_def)

lemma hour_windows [simp]:
  "valid_window (hour 9) (hour 10)" "valid_window (hour 22) (hour 6)" "valid_window (hour 5) (hour 7)"
  by (simp_all add: valid_window_def hour_def valid_time_def day_us_def)

text \<open>C7: The busy intervals availability reports over a range are exactly the spans that occupy
  the resource (the timetable on the dates it runs and no generated day replaces, the
  generated days, the holds still held) and meet the range: nothing that reaches into the
  range from the day before is missed, and nothing is made up.\<close>

theorem availability_exact:
  assumes "tables_ok L db" and "rrule_lib_ok L"
  shows "bounds ` set (occupied L db (booked_slots db rid) (held_reservations db rid a b)
      (booked_days db rid a b) a b) = {sp \<in> occupancy L db rid. meets sp (range_span a b)}"
  by (rule occupied_all_exact[OF assms])

theorem availability_exact_witness:
  "tables_ok weekly_lib ex_db \<and> rrule_lib_ok weekly_lib \<and>
   bounds ` set (occupied weekly_lib ex_db (booked_slots ex_db 1) (held_reservations ex_db 1 739678 739678)
      (booked_days ex_db 1 739678 739678) 739678 739678) =
   {sp \<in> occupancy weekly_lib ex_db 1. meets sp (range_span 739678 739678)}"
  using availability_exact[OF ex_tables_ok weekly_lib_ok] ex_tables_ok weekly_lib_ok by simp

text \<open>The conflict check of a booking reports exactly the occupying spans that share a moment
  with the asked-for window, on an exclusive resource all of them and on a pooled one those
  of the timetable: a window it lets through meets nothing.\<close>

theorem booking_check_exact:
  assumes "tables_ok L db" and "rrule_lib_ok L" and "valid_window s e"
  shows "bounds ` set (window_conflicts L db rid d s e holds) =
    {sp \<in> (if holds then occupancy L db rid else timetable L db rid). meets sp (window_span d s e)}"
  using window_conflicts_exact[OF assms] by (cases holds) simp_all

theorem booking_check_exact_witness:
  "tables_ok weekly_lib ex_db \<and> rrule_lib_ok weekly_lib \<and> valid_window (hour 5) (hour 7) \<and>
   bounds ` set (window_conflicts weekly_lib ex_db 1 739678 (hour 5) (hour 7) True) =
    {sp \<in> occupancy weekly_lib ex_db 1. meets sp (window_span 739678 (hour 5) (hour 7))}"
  using booking_check_exact[OF ex_tables_ok weekly_lib_ok, of "hour 5" "hour 7" 1 739678 True]
    ex_tables_ok weekly_lib_ok by simp

text \<open>C15: A slot is refused over a booking exactly when some date its rule gives inside its cycle
  overlaps a standing, unshared hold dated today or later: looking at the hold's own date and
  the two next to it misses no clash, however the two windows cross midnight.\<close>

theorem held_against_slot_complete:
  assumes "tables_ok L db" and "valid_window start stop"
  shows "set (held_against_slot L today db rid rule ds start stop cycle) =
    held_interval ` {r \<in> set (reservations db). rv_resource_id r = rid \<and> rv_status r = HELD \<and>
      rv_mode r \<noteq> SHARED \<and> today \<le> rv_reserved_date r \<and>
      (\<exists>d. within_cycle cycle d \<and> occurs_on L rule ds d \<and>
         meets (window_span d start stop) (held_span r))}"
  by (rule held_against_slot_exact[OF assms])

theorem held_against_slot_complete_witness:
  "tables_ok weekly_lib ex_db \<and> valid_window (hour 5) (hour 7) \<and>
   set (held_against_slot weekly_lib monday ex_db 1 weekly_monday 739657 (hour 5) (hour 7) (Some ex_cycle)) =
    held_interval ` {r \<in> set (reservations ex_db). rv_resource_id r = 1 \<and> rv_status r = HELD \<and>
      rv_mode r \<noteq> SHARED \<and> monday \<le> rv_reserved_date r \<and>
      (\<exists>d. within_cycle (Some ex_cycle) d \<and> occurs_on weekly_lib weekly_monday 739657 d \<and>
         meets (window_span d (hour 5) (hour 7)) (held_span r))}"
  using held_against_slot_complete[OF ex_tables_ok, of "hour 5" "hour 7" monday 1 weekly_monday 739657
      "Some ex_cycle"] ex_tables_ok by simp

text \<open>C16: A slot is let past the timetable check exactly when no date from tomorrow on that its
  rule gives inside its cycle overlaps any date another live slot of the room runs on: the
  narrowed date ranges and the three-date search lose no meeting of the two rules.\<close>

theorem slots_against_slot_complete:
  assumes "tables_ok L db" and "rrule_lib_ok L" and "stored_rule L rule" and "valid_window start stop"
  shows "slots_against_slot L today db rid rule ds start stop excl cycle = [] \<longleftrightarrow>
    (\<forall>s \<in> set (booked_slots db rid). Some (sl_id s) \<noteq> excl \<longrightarrow>
       (\<forall>d d'. today < d \<longrightarrow> within_cycle cycle d \<longrightarrow> occurs_on L rule ds d \<longrightarrow> slot_runs L db s d' \<longrightarrow>
          \<not> meets (window_span d start stop)
            (window_span d' (sl_time_window_start s) (sl_time_window_end s))))"
  by (rule slots_against_slot_Nil[OF assms])

theorem slots_against_slot_complete_witness:
  "slots_against_slot weekly_lib monday ex_db 1 weekly_monday 739656 (hour 22) (hour 6) None None = [] \<and>
   occurs_on weekly_lib weekly_monday 739656 739684 \<and> slot_runs weekly_lib ex_db ex_slot 739684 \<and>
   \<not> meets (window_span 739684 (hour 22) (hour 6)) (window_span 739684 (hour 9) (hour 10))"
proof -
  have nil: "slots_against_slot weekly_lib monday ex_db 1 weekly_monday 739656 (hour 22) (hour 6)
      None None = []" by code_simp
  have runs: "occurs_on weekly_lib weekly_monday 739656 739684" "slot_runs weekly_lib ex_db ex_slot 739684"
    "ex_slot \<in> set (booked_slots ex_db 1)" "monday < 739684"
    by code_simp+
  have times: "sl_time_window_start ex_slot = hour 9" "sl_time_window_end ex_slot = hour 10"
    by (simp_all add: ex_slot_def)
  have stored: "stored_rule weekly_lib weekly_monday"
    using weekly_lib_stored by (simp add: weekly_monday_def)
  have "\<not> meets (window_span 739684 (hour 22) (hour 6)) (window_span 739684 (hour 9) (hour 10))"
    using iffD1[OF slots_against_slot_complete[OF ex_tables_ok weekly_lib_ok stored hour_windows(2)] nil]
      runs times by (auto simp: within_cycle_def)
  with nil runs show ?thesis by simp
qed

text \<open>A slot is refused over generated days exactly when a date its rule gives inside its
  cycle overlaps a day on the room dated today or later that another slot produced.\<close>

theorem days_against_slot_complete:
  assumes "tables_ok L db" and "valid_window start stop"
  shows "set (days_against_slot L today db rid rule ds start stop excl cycle) =
    day_interval db ` {r \<in> days_on db rid. today \<le> dl_target_date r \<and> \<not> excluded_day excl r \<and>
      (\<exists>d. within_cycle cycle d \<and> occurs_on L rule ds d \<and>
         meets (window_span d start stop) (day_span r))}"
  by (rule days_against_slot_exact[OF assms])

theorem days_against_slot_complete_witness:
  "tables_ok weekly_lib ex_db \<and> valid_window (hour 9) (hour 10) \<and>
   set (days_against_slot weekly_lib monday ex_db 1 weekly_monday 739656 (hour 9) (hour 10) None None) =
    day_interval ex_db ` {r \<in> days_on ex_db 1. monday \<le> dl_target_date r \<and> \<not> excluded_day None r \<and>
      (\<exists>d. within_cycle None d \<and> occurs_on weekly_lib weekly_monday 739656 d \<and>
         meets (window_span d (hour 9) (hour 10)) (day_span r))}"
  using days_against_slot_complete[OF ex_tables_ok, of "hour 9" "hour 10"] ex_tables_ok by simp

text \<open>C17: The peak of a pool inside a window is at least the units held at each of its instants
  and, unless it is zero, is reached at one of them: it is the exact maximum.\<close>

theorem pool_peak_is_maximum:
  assumes "\<forall>h \<in> set holds. 0 \<le> rv_quantity h"
  shows "(\<forall>i. in_span i w \<longrightarrow> units_held holds i \<le> pool_peak holds (Some w)) \<and>
    (pool_peak holds (Some w) = 0 \<or>
      (\<exists>i. in_span i w \<and> units_held holds i = pool_peak holds (Some w)))"
  using pool_peak_exact[OF assms] by blast

theorem pool_peak_is_maximum_witness:
  "units_held (reservations ex_db) (combine monday (hour 9)) \<le>
     pool_peak (reservations ex_db) (Some (window_span monday (hour 9) (hour 10))) \<and>
   pool_peak (reservations ex_db) (Some (window_span monday (hour 9) (hour 10))) = 2"
proof -
  have q: "\<forall>h \<in> set (reservations ex_db). 0 \<le> rv_quantity h" by (simp add: ex_defs)
  have two: "pool_peak (reservations ex_db) (Some (window_span monday (hour 9) (hour 10))) = 2"
    "in_span (combine monday (hour 9)) (window_span monday (hour 9) (hour 10))"
    by code_simp+
  show ?thesis
    using pool_peak_is_maximum[OF q, of "window_span monday (hour 9) (hour 10)"] two by blast
qed

text \<open>The stretches of a pool at a bound cover exactly the instants at which at least that
  many units are held, each is non-empty, and no two of them touch: they are the maximal
  stretches, each named once.\<close>

theorem pool_stretches_are_maximal:
  assumes "proper_holds holds" and "0 < at_least"
  shows "(covered (pool_stretches holds at_least) i \<longleftrightarrow> at_least \<le> units_held holds i) \<and>
    sorted_wrt (\<lambda>x y. snd x < fst y) (pool_stretches holds at_least) \<and>
    (\<forall>s \<in> set (pool_stretches holds at_least). fst s < snd s)"
  using pool_stretches_exact[OF assms] by blast

theorem pool_stretches_are_maximal_witness:
  "proper_holds (reservations ex_db) \<and>
   (covered (pool_stretches (reservations ex_db) 2) (combine monday (hour 10)) \<longleftrightarrow>
      2 \<le> units_held (reservations ex_db) (combine monday (hour 10)))"
proof -
  have "proper_holds (reservations ex_db)"
    by (simp add: proper_holds_def ex_defs held_span_def span_simps combine_def day_us_def)
  with pool_stretches_are_maximal[of "reservations ex_db" 2] show ?thesis by simp
qed

end
