(* ===== verification/App_Env.thy ===== *)
theory App_Env
  imports Availability_Props
begin

text \<open>
  What a request finds around it: the settings it reads, the instant and the organization's
  date it reads off the clock, the recurrence library, the SHA-256 hex digest of
  \<^verbatim>\<open>hashlib\<close> (a parameter: nothing below depends on how it hashes), and which database server
  the tables live in. Also the writing side of the change feed
  (\<^verbatim>\<open>backend/app/core/change_feed.py\<close>) and the insert of a reservation with the table's
  constraints (\<^verbatim>\<open>models/db.py::Reservation\<close>).
\<close>

record app_env =
  env_rrule :: rrule_lib
  env_today :: date
  env_now :: instant
  env_change_feed_enabled :: bool
  env_sha256 :: "string \<Rightarrow> string"
  env_backend :: backend
  env_ledger_horizon_days :: int
  env_organization_id :: string

section \<open>Change markers\<close>

definition record_change :: "app_env \<Rightarrow> string \<Rightarrow> int \<Rightarrow> string \<Rightarrow> database \<Rightarrow> database" where
  "record_change env entity_kind entity_id change_kind db =
     (if \<not> env_change_feed_enabled env then db
      else db\<lparr>change_markers := change_markers db @
        [\<lparr>cm_id = fresh_id (map cm_id (change_markers db)), cm_entity_kind = entity_kind,
          cm_entity_id = entity_id, cm_change_kind = change_kind, cm_at = env_now env\<rparr>]\<rparr>)"

lemma record_change_frame [simp]:
  "reservations (record_change env k i c db) = reservations db"
  "resources (record_change env k i c db) = resources db"
  "daily_ledger_rows (record_change env k i c db) = daily_ledger_rows db"
  "structural_master_slots (record_change env k i c db) = structural_master_slots db"
  "activities (record_change env k i c db) = activities db"
  "planning_cycles (record_change env k i c db) = planning_cycles db"
  "resource_requirements (record_change env k i c db) = resource_requirements db"
  "organization_row (record_change env k i c db) = organization_row db"
  by (simp_all add: record_change_def)

section \<open>Inserting a reservation\<close>

text \<open>
  The constraints an insert is checked against: the two checks, the exclusion constraint
  (PostgreSQL only, held exclusive rows only), and the two unique keys, which a null column
  takes out of play.
\<close>

datatype integrity_error =
    Check_Violation | Overlap_Violation | Key_Violation | Ref_Violation | Code_Violation
  | Not_Null_Violation

definition excludes :: "reservation \<Rightarrow> bool" where
  "excludes r \<longleftrightarrow> rv_status r = HELD \<and> rv_mode r = EXCLUSIVE"

definition sql_span :: "reservation \<Rightarrow> span" where
  "sql_span r = sql_window (rv_reserved_date r) (rv_time_window_start r) (rv_time_window_end r)"

definition exclusion_violated :: "reservation list \<Rightarrow> reservation \<Rightarrow> bool" where
  "exclusion_violated rows r \<longleftrightarrow> excludes r \<and>
     list_ex (\<lambda>x. excludes x \<and> rv_resource_id x = rv_resource_id r \<and>
       ranges_overlap (sql_span x) (sql_span r)) rows"

definition insert_reservation ::
  "backend \<Rightarrow> database \<Rightarrow> reservation \<Rightarrow> integrity_error + (reservation \<times> database)" where
  "insert_reservation b db r0 =
     (let rows = reservations db; r = r0\<lparr>rv_id := fresh_id (map rv_id rows)\<rparr> in
      if rv_time_window_end r = rv_time_window_start r \<or> rv_quantity r < 1 then Inl Check_Violation
      else if b = PostgreSQL \<and> exclusion_violated rows r then Inl Overlap_Violation
      else if rv_requested_by_id r \<noteq> None \<and>
          list_ex (\<lambda>x. rv_requested_by_id x = rv_requested_by_id r \<and>
            rv_idempotency_key x = rv_idempotency_key r) rows then Inl Key_Violation
      else if rv_requested_by_id r \<noteq> None \<and> rv_external_ref r \<noteq> None \<and>
          list_ex (\<lambda>x. rv_requested_by_id x = rv_requested_by_id r \<and>
            rv_external_ref x = rv_external_ref r) rows then Inl Ref_Violation
      else Inr (r, db\<lparr>reservations := rows @ [r]\<rparr>))"

lemma insert_reservation_Inr:
  assumes "insert_reservation b db r0 = Inr (r, db')"
  shows "r = r0\<lparr>rv_id := fresh_id (map rv_id (reservations db))\<rparr>"
    and "db' = db\<lparr>reservations := reservations db @ [r]\<rparr>"
    and "rv_time_window_end r0 \<noteq> rv_time_window_start r0" and "1 \<le> rv_quantity r0"
    and "b = PostgreSQL \<Longrightarrow> \<not> exclusion_violated (reservations db) r"
  using assms by (auto simp: insert_reservation_def Let_def split: if_splits)

section \<open>The invariant of the reservations table\<close>

text \<open>No two held rows on one exclusive resource share a moment.\<close>

definition clear_of :: "reservation \<Rightarrow> reservation \<Rightarrow> bool" where
  "clear_of x y \<longleftrightarrow> (excludes x \<and> excludes y \<and> rv_resource_id x = rv_resource_id y \<longrightarrow>
     \<not> meets (held_span x) (held_span y))"

definition no_double_booking :: "reservation list \<Rightarrow> bool" where
  "no_double_booking rows \<longleftrightarrow> sorted_wrt clear_of rows"

lemma clear_of_sym: "clear_of x y \<longleftrightarrow> clear_of y x"
  by (auto simp: clear_of_def meets_sym)

lemma no_double_booking_snoc:
  "no_double_booking (rows @ [r]) \<longleftrightarrow> no_double_booking rows \<and> (\<forall>x \<in> set rows. clear_of x r)"
  by (simp add: no_double_booking_def sorted_wrt_append)

lemma no_double_bookingD:
  "no_double_booking rows \<Longrightarrow> i < length rows \<Longrightarrow> j < length rows \<Longrightarrow> i \<noteq> j \<Longrightarrow>
   clear_of (rows ! i) (rows ! j)"
  unfolding no_double_booking_def
  by (metis clear_of_sym linorder_neqE_nat sorted_wrt_nth_less)

lemma sorted_wrt_map_weaken:
  "sorted_wrt R xs \<Longrightarrow> (\<And>x y. R x y \<Longrightarrow> R (f x) (f y)) \<Longrightarrow> sorted_wrt R (map f xs)"
  by (induction xs) auto

text \<open>Letting rows go, or changing columns the rule does not read, keeps it.\<close>

lemma no_double_booking_update:
  assumes "no_double_booking rows"
    and "\<And>x. excludes (f x) \<Longrightarrow> excludes x \<and> rv_resource_id (f x) = rv_resource_id x \<and>
           held_span (f x) = held_span x"
  shows "no_double_booking (update_rows P f rows)"
  using assms(1) unfolding no_double_booking_def update_rows_def
proof (rule sorted_wrt_map_weaken)
  fix x y assume "clear_of x y"
  then show "clear_of (if P x then f x else x) (if P y then f y else y)"
    using assms(2)[of x] assms(2)[of y] by (auto simp: clear_of_def)
qed

lemma sql_span_held_span: "reservation_ok r \<Longrightarrow> sql_span r = held_span r"
  by (auto simp: sql_span_def held_span_def reservation_ok_def valid_window_def sql_window_eq)

lemma held_span_nonempty: "reservation_ok r \<Longrightarrow> fst (held_span r) < snd (held_span r)"
  by (auto simp: held_span_def reservation_ok_def valid_window_def intro: window_span_length(1))

text \<open>The SQL constraint and the Python rule agree on well-formed rows.\<close>

lemma exclusion_violated_iff:
  assumes "\<forall>x \<in> set rows. reservation_ok x" and "reservation_ok r"
  shows "exclusion_violated rows r \<longleftrightarrow> (\<exists>x \<in> set rows. \<not> clear_of x r)"
proof -
  have "ranges_overlap (sql_span x) (sql_span r) \<longleftrightarrow> meets (held_span x) (held_span r)"
    if "x \<in> set rows" for x
    using assms that held_span_nonempty by (simp add: sql_span_held_span ranges_overlap_def)
  then show ?thesis by (auto simp: exclusion_violated_def list_ex_iff clear_of_def)
qed

end
