(* ===== verification/Requirements.thy ===== *)
theory Requirements
  imports App_Env
begin

text \<open>
  \<^verbatim>\<open>backend/app/services/requirements.py\<close>: what a resource or an activity needs held alongside
  it, and \<^verbatim>\<open>backend/app/services/resource_classes.py\<close>.

  The walk is one recursion over the levels left. \<^verbatim>\<open>_walk(run, owners, window, depth)\<close> is
  \<open>walk (MAX_DEPTH + 1 - depth)\<close>, so a level past \<^verbatim>\<open>MAX_DEPTH\<close> is \<open>walk 0\<close>. The two branches
  \<^verbatim>\<open>_named\<close> and \<^verbatim>\<open>_kind\<close> take the recursive call as a parameter. The two loops of \<^verbatim>\<open>_kind\<close> are
  structural: each turn of the first adds one to \<^verbatim>\<open>got + len(seen)\<close>, so it runs at most as
  often as is still missing, and the second runs over the candidates. The lists of
  \<^verbatim>\<open>run.assigned\<close> are popped in place and shared by every level of the recursion, so they are
  read from the state at each turn.

  A walk fails with a refusal of the route, with the IntegrityError of a flush, or with the
  AttributeError of a resource that is gone between two reads.
\<close>

section \<open>Types\<close>

type_synonym window = "date \<times> time_of_day \<times> time_of_day"

datatype detail =
    Msg string
  | Msg_Conflicts string "busy_interval list"
  | Msg_Capacity string "busy_interval list" int int int
  | Msg_Reservation string int
  | Msg_Reservations string "reservation list"
  | Msg_Activation string "(busy_interval \<times> int) list"

type_synonym api_error = "detail chronos_error"

datatype walk_error = Refused api_error | Integrity integrity_error | Attribute_Error

record unmet_requirement =
  um_requirement_id :: int
  um_owner_kind :: requirement_owner
  um_owner_id :: int
  um_target_resource_id :: "int option"
  um_target_kind :: "string option"
  um_quantity :: int
  um_enforcement :: requirement_enforcement
  um_message :: string
  um_conflicts :: "busy_interval list"

record run =
  rn_db :: database
  rn_default :: requirement_enforcement
  rn_used :: "int set"
  rn_parent :: "reservation option"
  rn_requester_id :: "string option"
  rn_assigned :: "(string \<times> int list) list"
  rn_named :: "int set"
  rn_children :: "reservation list"
  rn_unmet :: "unmet_requirement list"

definition MAX_DEPTH :: nat where
  "MAX_DEPTH = 4"

definition run_dry :: "run \<Rightarrow> bool" where
  "run_dry run \<longleftrightarrow> rn_parent run = None"

section \<open>Resource classes\<close>

definition require_active_class :: "database \<Rightarrow> string \<Rightarrow> api_error + resource_class" where
  "require_active_class db code =
     (case find (\<lambda>c. rc_code c = code \<and> rc_active c) (resource_classes db) of
        None \<Rightarrow> Inl (chronos_error 422 UNKNOWN_RESOURCE_CLASS
          (Msg (code @ '' is not an active resource class of this organization'')))
      | Some c \<Rightarrow> Inr c)"

definition is_in_use :: "database \<Rightarrow> string \<Rightarrow> bool" where
  "is_in_use db code \<longleftrightarrow>
     find (\<lambda>r. re_resource_type r = code) (resources db) \<noteq> None \<or>
     find (\<lambda>q. rq_target_kind q = Some code) (resource_requirements db) \<noteq> None"

section \<open>Cycles of named resources\<close>

definition default_enforcement :: "database \<Rightarrow> requirement_enforcement" where
  "default_enforcement db = (case organization_row db of
     None \<Rightarrow> REQUIRED | Some og \<Rightarrow> og_default_requirement_enforcement og)"

definition named_targets :: "database \<Rightarrow> int \<Rightarrow> int list" where
  "named_targets db here =
     List.map_filter rq_target_resource_id
       (filter (\<lambda>q. rq_owner_kind q = RESOURCE \<and> rq_owner_id q = here \<and>
           rq_target_resource_id q \<noteq> None)
         (resource_requirements db))"

text \<open>The stack of the loop with its top first: \<^verbatim>\<open>todo.pop()\<close> takes the head, \<^verbatim>\<open>todo.extend\<close> puts its last row on top.\<close>

definition all_targets :: "database \<Rightarrow> int set" where
  "all_targets db = set (List.map_filter rq_target_resource_id (resource_requirements db))"

lemma finite_all_targets [simp]: "finite (all_targets db)"
  by (simp add: all_targets_def)

lemma named_targets_subset: "set (named_targets db here) \<subseteq> all_targets db"
  by (auto simp: named_targets_def all_targets_def List.map_filter_def)

function would_cycle_loop :: "database \<Rightarrow> int \<Rightarrow> int set \<Rightarrow> int list \<Rightarrow> bool" where
  "would_cycle_loop db owner seen [] = False"
| "would_cycle_loop db owner seen (here # todo) =
     (if here = owner then True
      else if here \<in> seen then would_cycle_loop db owner seen todo
      else would_cycle_loop db owner (insert here seen) (rev (named_targets db here) @ todo))"
  by pat_completeness auto
termination
proof (relation "measures [\<lambda>(db, _, seen, todo). card ((all_targets db \<union> set todo) - seen),
    \<lambda>(_, _, _, todo). length todo]", goal_cases)
  case (2 db owner seen here todo)
  have "(all_targets db \<union> set todo) - seen \<subseteq> (all_targets db \<union> set (here # todo)) - seen" by auto
  then have "card ((all_targets db \<union> set todo) - seen) \<le>
    card ((all_targets db \<union> set (here # todo)) - seen)"
    by (intro card_mono) auto
  then show ?case by auto
next
  case (3 db owner seen here todo)
  have "(all_targets db \<union> set (rev (named_targets db here) @ todo)) - insert here seen \<subset>
      (all_targets db \<union> set (here # todo)) - seen"
    using 3 named_targets_subset[of db here] by auto
  then have "card ((all_targets db \<union> set (rev (named_targets db here) @ todo)) - insert here seen) <
      card ((all_targets db \<union> set (here # todo)) - seen)"
    by (intro psubset_card_mono) auto
  then show ?case by simp
qed simp

definition would_cycle :: "database \<Rightarrow> int \<Rightarrow> int \<Rightarrow> bool" where
  "would_cycle db owner_resource_id target_resource_id =
     would_cycle_loop db owner_resource_id {} [target_resource_id]"

section \<open>Windows and checks\<close>

definition padded :: "window \<Rightarrow> int \<Rightarrow> int \<Rightarrow> window option" where
  "padded w before after =
     (if before = 0 \<and> after = 0 then Some w
      else case w of (day, start, stop) \<Rightarrow>
        (let (starts, ends) = window_span day start stop;
             padded_starts = starts - before * minute_us;
             padded_ends = ends + after * minute_us;
             last_day = date_of (ends - 1);
             opens = combine day 0;
             closes = combine (last_day + 1) 0
         in if padded_starts < opens \<or> padded_ends > closes then None
            else if time_of padded_starts = time_of padded_ends then None
            else Some (day, time_of padded_starts, time_of padded_ends)))"

definition problem ::
  "app_env \<Rightarrow> database \<Rightarrow> resource \<Rightarrow> window \<Rightarrow> int \<Rightarrow> (string \<times> busy_interval list) option" where
  "problem env db res w quantity = (case w of (day, start, stop) \<Rightarrow>
     if \<not> re_active res then Some (re_code res @ '' is not active'', [])
     else case re_mode res of
       SHARED \<Rightarrow> None
     | EXCLUSIVE \<Rightarrow>
         (let clashes = window_conflicts (env_rrule env) db (re_id res) day start stop True
          in if clashes \<noteq> []
             then Some (re_code res @ '' is already taken for part of that window'', clashes)
             else None)
     | POOLED \<Rightarrow>
         (let clashes = window_conflicts (env_rrule env) db (re_id res) day start stop False
          in if clashes \<noteq> []
             then Some (re_code res @ '' is taken by the timetable for part of that window'', clashes)
             else case pool_state db (re_id res) day start stop of (taken, holds) \<Rightarrow>
               if taken + quantity > the (re_capacity res)
               then Some (re_code res @ '' does not have '' @ show_int quantity @
                      '' unit(s) left for that window'',
                    occupied (env_rrule env) db [] holds [] day (last_date day start stop))
               else None))"

definition free_for :: "app_env \<Rightarrow> database \<Rightarrow> resource \<Rightarrow> window \<Rightarrow> bool" where
  "free_for env db res w \<longleftrightarrow> problem env db res w 1 = None"

section \<open>Recording a gap, taking a hold\<close>

definition gap ::
  "resource_requirement \<Rightarrow> requirement_enforcement \<Rightarrow> string \<Rightarrow> busy_interval list \<Rightarrow> int
   \<Rightarrow> unmet_requirement" where
  "gap q enforcement message conflicts missing =
     \<lparr>um_requirement_id = rq_id q, um_owner_kind = rq_owner_kind q,
      um_owner_id = rq_owner_id q, um_target_resource_id = rq_target_resource_id q,
      um_target_kind = rq_target_kind q, um_quantity = missing,
      um_enforcement = enforcement, um_message = message, um_conflicts = conflicts\<rparr>"

definition miss ::
  "run \<Rightarrow> resource_requirement \<Rightarrow> string \<Rightarrow> busy_interval list \<Rightarrow> int \<Rightarrow> walk_error + run" where
  "miss run q message conflicts missing =
     (let enforcement = (case rq_enforcement q of None \<Rightarrow> rn_default run | Some e \<Rightarrow> e) in
      if enforcement = REQUIRED \<and> \<not> run_dry run
      then Inl (Refused (chronos_error 409 REQUIREMENT_UNSATISFIED
        (Msg_Conflicts (''requirement '' @ show_int (rq_id q) @ '' is not met: '' @ message) conflicts)))
      else Inr (run\<lparr>rn_unmet := rn_unmet run @ [gap q enforcement message conflicts missing]\<rparr>))"

definition child_row :: "app_env \<Rightarrow> run \<Rightarrow> reservation \<Rightarrow> resource \<Rightarrow> window \<Rightarrow> int \<Rightarrow> reservation" where
  "child_row env run parent res w quantity = (case w of (day, start, stop) \<Rightarrow>
     let number = int (length (rn_children run)) + 1 in
     \<lparr>rv_id = 0, rv_resource_id = re_id res, rv_reserved_date = day,
      rv_time_window_start = start, rv_time_window_end = stop, rv_purpose = rv_purpose parent,
      rv_requested_by_id = rn_requester_id run,
      rv_idempotency_key = ''child-'' @ take 32 (env_sha256 env (rv_idempotency_key parent)) @
        ''-'' @ show_int number,
      rv_request_fingerprint = env_sha256 env (rv_request_fingerprint parent @ ''|'' @ show_int number),
      rv_external_ref = None, rv_quantity = quantity, rv_mode = re_mode res, rv_status = HELD,
      rv_created_at = env_now env, rv_cancelled_at = None,
      rv_parent_reservation_id = Some (rv_id parent)\<rparr>)"

definition hold :: "app_env \<Rightarrow> run \<Rightarrow> resource \<Rightarrow> window \<Rightarrow> int \<Rightarrow> walk_error + run" where
  "hold env run0 res w quantity =
     (let run = run0\<lparr>rn_used := insert (re_id res) (rn_used run0)\<rparr> in
      case rn_parent run of
        None \<Rightarrow> Inr run
      | Some parent \<Rightarrow>
          (case insert_reservation (env_backend env) (rn_db run)
                  (child_row env run parent res w quantity) of
             Inl e \<Rightarrow> Inl (Integrity e)
           | Inr (child, db) \<Rightarrow>
               Inr (run\<lparr>rn_db := record_change env ''reservation'' (rv_id child) ''created'' db,
                        rn_children := rn_children run @ [child]\<rparr>)))"

section \<open>The walk\<close>

type_synonym recurse = "run \<Rightarrow> int \<Rightarrow> window \<Rightarrow> walk_error + run"

definition named_step ::
  "app_env \<Rightarrow> recurse \<Rightarrow> run \<Rightarrow> resource_requirement \<Rightarrow> resource option \<Rightarrow> window
   \<Rightarrow> walk_error + run" where
  "named_step env deeper run row target w = (case target of
     None \<Rightarrow> miss run row ''the required resource no longer exists'' [] 1
   | Some res \<Rightarrow>
       if re_id res \<in> rn_used run
       then miss run row (re_code res @ '' is already used by this booking'') [] 1
       else
         (let quantity = (if re_mode res = POOLED then rq_quantity row else 1) in
          case problem env (rn_db run) res w quantity of
            Some (message, conflicts) \<Rightarrow> miss run row message conflicts 1
          | None \<Rightarrow>
              bind_result (hold env run res w quantity) (\<lambda>run'. deeper run' (re_id res) w)))"

definition assigned_for :: "run \<Rightarrow> string \<Rightarrow> int list" where
  "assigned_for run kind = (case map_of (rn_assigned run) kind of None \<Rightarrow> [] | Some ids \<Rightarrow> ids)"

definition pop_assigned :: "run \<Rightarrow> string \<Rightarrow> run" where
  "pop_assigned run kind = run\<lparr>rn_assigned :=
     map (\<lambda>(k, ids). (k, if k = kind then tl ids else ids)) (rn_assigned run)\<rparr>"

text \<open>The first loop of \<^verbatim>\<open>_kind\<close>; the number is how many are still missing.\<close>

fun kind_wanted ::
  "app_env \<Rightarrow> recurse \<Rightarrow> string \<Rightarrow> window \<Rightarrow> nat \<Rightarrow> run \<Rightarrow> int \<Rightarrow> (string \<times> busy_interval list) list
   \<Rightarrow> walk_error + (run \<times> int \<times> (string \<times> busy_interval list) list)" where
  "kind_wanted env deeper kind w 0 run got seen = Inr (run, got, seen)"
| "kind_wanted env deeper kind w (Suc n) run got seen =
     (case assigned_for run kind of
        [] \<Rightarrow> Inr (run, got, seen)
      | rid # _ \<Rightarrow>
          (let run1 = pop_assigned run kind in
           case get_resource (rn_db run1) rid of
             None \<Rightarrow> Inl Attribute_Error
           | Some res \<Rightarrow>
               (case (if re_id res \<in> rn_used run1
                      then Some (re_code res @ '' is already used by this booking'', [])
                      else problem env (rn_db run1) res w 1) of
                  Some p \<Rightarrow> kind_wanted env deeper kind w n run1 got (seen @ [p])
                | None \<Rightarrow>
                    bind_result (hold env run1 res w 1) (\<lambda>run2.
                    bind_result (deeper run2 (re_id res) w) (\<lambda>run3.
                    kind_wanted env deeper kind w n run3 (got + 1) seen)))))"

definition kind_candidates :: "database \<Rightarrow> string \<Rightarrow> int list" where
  "kind_candidates db kind =
     map re_id (sort_key (\<lambda>r. (re_code r, re_id r))
       (filter (\<lambda>r. re_resource_type r = kind \<and> re_active r) (resources db)))"

text \<open>The second loop of \<^verbatim>\<open>_kind\<close>, over the candidates, until \<open>need\<close> are held.\<close>

fun kind_pick ::
  "app_env \<Rightarrow> recurse \<Rightarrow> window \<Rightarrow> int \<Rightarrow> int list \<Rightarrow> run \<Rightarrow> int \<Rightarrow> walk_error + (run \<times> int)" where
  "kind_pick env deeper w need [] run got = Inr (run, got)"
| "kind_pick env deeper w need (c # cs) run got =
     (if got \<ge> need then Inr (run, got)
      else if c \<in> rn_used run \<or> c \<in> rn_named run then kind_pick env deeper w need cs run got
      else case get_resource (rn_db run) c of
          None \<Rightarrow> Inl Attribute_Error
        | Some res \<Rightarrow>
            if problem env (rn_db run) res w 1 \<noteq> None then kind_pick env deeper w need cs run got
            else
              bind_result (hold env run res w 1) (\<lambda>run2.
              bind_result (deeper run2 (re_id res) w) (\<lambda>run3.
              kind_pick env deeper w need cs run3 (got + 1))))"

definition kind_step ::
  "app_env \<Rightarrow> recurse \<Rightarrow> run \<Rightarrow> resource_requirement \<Rightarrow> string \<Rightarrow> window \<Rightarrow> walk_error + run" where
  "kind_step env deeper run row kind w =
     bind_result (kind_wanted env deeper kind w (nat (rq_quantity row)) run 0 []) (\<lambda>(run1, got1, seen).
     bind_result
       (if got1 + int (length seen) < rq_quantity row
        then kind_pick env deeper w (rq_quantity row - int (length seen))
               (kind_candidates (rn_db run1) kind) run1 got1
        else Inr (run1, got1)) (\<lambda>(run2, got).
     let missing = rq_quantity row - got in
     if missing \<noteq> 0
     then miss run2 row
       ((case seen of [] \<Rightarrow> ''no free '' @ kind @ '' resource'' | (message, _) # _ \<Rightarrow> message) @
        '': '' @ show_int missing @ '' of '' @ show_int (rq_quantity row) @ '' '' @ kind @ '' missing'')
       (concat (map snd seen)) missing
     else Inr run2))"

definition list_requirements :: "database \<Rightarrow> requirement_owner \<Rightarrow> int \<Rightarrow> resource_requirement list" where
  "list_requirements db owner_kind owner_id =
     sort_key rq_id (filter (\<lambda>q. rq_owner_kind q = owner_kind \<and> rq_owner_id q = owner_id)
       (resource_requirements db))"

text \<open>\<^verbatim>\<open>targets.get(row.target_resource_id)\<close>: an id of 0 is falsy and is not among the named.\<close>

definition target_of :: "database \<Rightarrow> int \<Rightarrow> resource option" where
  "target_of db rid = (if rid = 0 then None else get_resource db rid)"

definition row_step ::
  "app_env \<Rightarrow> recurse \<Rightarrow> window \<Rightarrow> resource_requirement \<Rightarrow> run \<Rightarrow> walk_error + run" where
  "row_step env deeper w row run =
     (case padded w (rq_before_minutes row) (rq_after_minutes row) of
        None \<Rightarrow>
          if run_dry run
          then miss run row ''the window with its padding would cross midnight'' [] 1
          else Inl (Refused (chronos_error 422 INVALID_VALUE
            (Msg (''requirement '' @ show_int (rq_id row) @
                  '': the window with its padding would cross midnight''))))
      | Some pw \<Rightarrow>
          (case rq_target_resource_id row of
             Some rid \<Rightarrow> named_step env deeper run row (target_of (rn_db run) rid) pw
           | None \<Rightarrow> kind_step env deeper run row
               (case rq_target_kind row of None \<Rightarrow> [] | Some k \<Rightarrow> k) pw))"

primrec walk ::
  "nat \<Rightarrow> app_env \<Rightarrow> (requirement_owner \<times> int) list \<Rightarrow> window \<Rightarrow> run \<Rightarrow> walk_error + run" where
  "walk 0 env owners w run =
     fold_result (\<lambda>(kind, owner_id) r.
         fold_result (\<lambda>row r'. miss r' row ''the chain of requirements is deeper than 4'' [] 1)
           (list_requirements (rn_db r) kind owner_id) r)
       owners run"
| "walk (Suc k) env owners w run =
     fold_result (\<lambda>(kind, owner_id) r.
         fold_result (row_step env (\<lambda>r' rid w'. walk k env [(RESOURCE, rid)] w' r') w)
           (list_requirements (rn_db r) kind owner_id) r)
       owners run"

section \<open>Entry points\<close>

definition start_run ::
  "database \<Rightarrow> int set \<Rightarrow> reservation option \<Rightarrow> string option \<Rightarrow> (string \<times> int list) list \<Rightarrow> run" where
  "start_run db used parent requester assignments =
     \<lparr>rn_db = db, rn_default = default_enforcement db, rn_used = used, rn_parent = parent,
      rn_requester_id = requester, rn_assigned = assignments,
      rn_named = set (concat (map snd assignments)), rn_children = [], rn_unmet = []\<rparr>"

definition resolve ::
  "app_env \<Rightarrow> database \<Rightarrow> (requirement_owner \<times> int) list \<Rightarrow> window \<Rightarrow> int set
   \<Rightarrow> reservation option \<Rightarrow> string option \<Rightarrow> (string \<times> int list) list \<Rightarrow> walk_error + run" where
  "resolve env db owners w used parent requester assignments =
     bind_result (walk MAX_DEPTH env owners w (start_run db used parent requester assignments)) (\<lambda>run.
       let left = concat (map snd (rn_assigned run)) in
       if left \<noteq> [] then Inl (Refused (chronos_error 422 INVALID_VALUE
         (Msg (''assignments name resources no requirement asks for: ['' @
            join_with '', '' (map show_int (sort left)) @ '']''))))
       else Inr run)"

definition check_assignments ::
  "database \<Rightarrow> (string \<times> int list) list \<Rightarrow> api_error + (string \<times> int list) list" where
  "check_assignments db assignments =
     fold_result (\<lambda>(kind, ids) checked.
        case find (\<lambda>rid. case get_resource db rid of None \<Rightarrow> True
                     | Some r \<Rightarrow> re_resource_type r \<noteq> kind \<or> \<not> re_active r) ids of
          Some rid \<Rightarrow> Inl (chronos_error 422 INVALID_VALUE
            (Msg (''resource '' @ show_int rid @ '' is not an active '' @ kind @
              '' resource of this organization'')))
        | None \<Rightarrow> Inr (checked @ [(kind, ids)]))
      assignments []"

definition unmet_for_window ::
  "app_env \<Rightarrow> database \<Rightarrow> int option \<Rightarrow> int option \<Rightarrow> window \<Rightarrow> walk_error + unmet_requirement list" where
  "unmet_for_window env db activity_id resource_id w =
     (let owners = (case activity_id of None \<Rightarrow> [] | Some a \<Rightarrow> [(ACTIVITY, a)]) @
                   (case resource_id of None \<Rightarrow> [] | Some r \<Rightarrow> [(RESOURCE, r)]);
          used = (case resource_id of None \<Rightarrow> {} | Some r \<Rightarrow> {r})
      in if owners = [] then Inr []
         else bind_result (resolve env db owners w used None None []) (\<lambda>run. Inr (rn_unmet run)))"

definition owners_with_requirements :: "database \<Rightarrow> (requirement_owner \<times> int) set" where
  "owners_with_requirements db =
     set (map (\<lambda>q. (rq_owner_kind q, rq_owner_id q)) (resource_requirements db))"

definition NEXT_RUN_LOOKAHEAD_DAYS :: int where
  "NEXT_RUN_LOOKAHEAD_DAYS = 366"

definition unmet_for_slot ::
  "app_env \<Rightarrow> database \<Rightarrow> master_slot \<Rightarrow> walk_error + (int \<times> date \<times> string) list" where
  "unmet_for_slot env db slot =
     (let needing = owners_with_requirements db in
      if (ACTIVITY, sl_activity_id slot) \<notin> needing \<and>
         (case sl_resource_id slot of None \<Rightarrow> True | Some r \<Rightarrow> (RESOURCE, r) \<notin> needing)
      then Inr []
      else case slot_cycle db slot of
        None \<Rightarrow> Inl Attribute_Error
      | Some cycle \<Rightarrow>
          (let first = max (env_today env) (cy_date_bounds_start cycle);
               final = min (cy_date_bounds_end cycle) (first + NEXT_RUN_LOOKAHEAD_DAYS)
           in case occurrences (env_rrule env) (sl_rrule slot) (sl_dtstart slot) first final of
                [] \<Rightarrow> Inr []
              | day # _ \<Rightarrow>
                  bind_result (unmet_for_window env db (Some (sl_activity_id slot)) (sl_resource_id slot)
                      (day, sl_time_window_start slot, sl_time_window_end slot)) (\<lambda>gaps.
                    Inr (map (\<lambda>g. (um_requirement_id g, day, um_message g)) gaps))))"

section \<open>Saving and dropping a requirement\<close>

record requirement_create =
  qc_target_resource_id :: "int option"
  qc_target_kind :: "string option"
  qc_quantity :: int
  qc_before_minutes :: int
  qc_after_minutes :: int
  qc_enforcement :: "requirement_enforcement option"

text \<open>The validators of the payload's schema.\<close>

definition requirement_create_ok :: "requirement_create \<Rightarrow> bool" where
  "requirement_create_ok p \<longleftrightarrow>
     (case qc_target_resource_id p of None \<Rightarrow> True | Some r \<Rightarrow> 1 \<le> r) \<and>
     1 \<le> qc_quantity p \<and> qc_quantity p \<le> 1000 \<and>
     0 \<le> qc_before_minutes p \<and> qc_before_minutes p \<le> 1440 \<and>
     0 \<le> qc_after_minutes p \<and> qc_after_minutes p \<le> 1440 \<and>
     ((qc_target_resource_id p = None) \<noteq> (qc_target_kind p = None))"

text \<open>The checks in their order: the class, the target, a cycle, a requirement already there.\<close>

definition check_requirement ::
  "database \<Rightarrow> requirement_owner \<Rightarrow> int \<Rightarrow> requirement_create \<Rightarrow> api_error + unit" where
  "check_requirement db owner_kind owner_id p =
     bind_result (case qc_target_kind p of None \<Rightarrow> Inr ()
       | Some k \<Rightarrow> bind_result (require_active_class db k) (\<lambda>_. Inr ())) (\<lambda>_.
     bind_result (case qc_target_resource_id p of None \<Rightarrow> Inr ()
       | Some rid \<Rightarrow>
           (case get_resource db rid of
              None \<Rightarrow> Inl (chronos_error 422 INVALID_VALUE
                (Msg ''the target resource does not exist in this organization''))
            | Some target \<Rightarrow>
                if qc_quantity p > 1 \<and> re_mode target \<noteq> POOLED
                then Inl (chronos_error 422 INVALID_VALUE
                  (Msg ''a quantity above 1 on a named resource needs it to be POOLED''))
                else if owner_kind = RESOURCE \<and> would_cycle db owner_id (re_id target)
                then Inl (chronos_error 422 INVALID_VALUE
                  (Msg ''that requirement would make a resource need itself, through a cycle''))
                else Inr ())) (\<lambda>_.
     if find (\<lambda>q. rq_owner_kind q = owner_kind \<and> rq_owner_id q = owner_id \<and>
          (if qc_target_resource_id p \<noteq> None
           then rq_target_resource_id q = qc_target_resource_id p
           else rq_target_kind q = qc_target_kind p)) (resource_requirements db) \<noteq> None
     then Inl (chronos_error 409 ALREADY_EXISTS (Msg ''that owner already requires that target''))
     else Inr ()))"

definition requirement_row ::
  "database \<Rightarrow> requirement_owner \<Rightarrow> int \<Rightarrow> requirement_create \<Rightarrow> resource_requirement" where
  "requirement_row db owner_kind owner_id p =
     \<lparr>rq_id = fresh_id (map rq_id (resource_requirements db)),
      rq_owner_kind = owner_kind, rq_owner_id = owner_id,
      rq_target_resource_id = qc_target_resource_id p, rq_target_kind = qc_target_kind p,
      rq_quantity = qc_quantity p, rq_before_minutes = qc_before_minutes p,
      rq_after_minutes = qc_after_minutes p, rq_enforcement = qc_enforcement p\<rparr>"

definition add_requirement ::
  "session \<Rightarrow> requirement_owner \<Rightarrow> int \<Rightarrow> requirement_create
   \<Rightarrow> (api_error + resource_requirement) \<times> session" where
  "add_requirement sess owner_kind owner_id p =
     (let db = working sess in
      case check_requirement db owner_kind owner_id p of
        Inl e \<Rightarrow> (Inl e, sess)
      | Inr _ \<Rightarrow>
          (let row = requirement_row db owner_kind owner_id p
           in (Inr row, db_commit (sess\<lparr>working :=
                db\<lparr>resource_requirements := resource_requirements db @ [row]\<rparr>\<rparr>))))"

definition delete_requirement ::
  "session \<Rightarrow> requirement_owner \<Rightarrow> int \<Rightarrow> int \<Rightarrow> (api_error + unit) \<times> session" where
  "delete_requirement sess owner_kind owner_id requirement_id =
     (let db = working sess;
          is_it = (\<lambda>q. rq_id q = requirement_id \<and> rq_owner_kind q = owner_kind \<and>
                        rq_owner_id q = owner_id)
      in case find is_it (resource_requirements db) of
           None \<Rightarrow> (Inl (chronos_error 404 NOT_FOUND (Msg ''Requirement not found'')), sess)
         | Some row \<Rightarrow> (Inr (), db_commit (sess\<lparr>working :=
             db\<lparr>resource_requirements := filter (\<lambda>q. rq_id q \<noteq> rq_id row)
               (resource_requirements db)\<rparr>\<rparr>)))"

end
