(* ===== verification/Conflicts.thy ===== *)
theory Conflicts
  imports Requirements
begin

text \<open>
  \<^verbatim>\<open>backend/app/services/conflicts.py\<close>: where the schedule already contradicts itself, over a range
  of dates. An entry is a window with the row it came from; the report sorts the entries of one
  resource, one member or one lead and sweeps them once.
\<close>

section \<open>Entries\<close>

datatype item_type = LEDGER_DAY | RESERVATION | SLOT

text \<open>The three types in the order of their strings: ledger\_day, reservation, slot.\<close>

definition type_rank :: "item_type \<Rightarrow> int" where
  "type_rank t = (case t of LEDGER_DAY \<Rightarrow> 0 | RESERVATION \<Rightarrow> 1 | SLOT \<Rightarrow> 2)"

record conflict_item =
  ci_type :: item_type
  ci_id :: int
  ci_date :: date
  ci_start :: time_of_day
  ci_end_date :: date
  ci_end :: time_of_day
  ci_activity_id :: "int option"
  ci_resource_id :: "int option"

type_synonym entry = "instant \<times> instant \<times> conflict_item"

definition entry_of ::
  "item_type \<Rightarrow> int \<Rightarrow> date \<Rightarrow> time_of_day \<Rightarrow> time_of_day \<Rightarrow> int option \<Rightarrow> int option \<Rightarrow> entry" where
  "entry_of kind row_id day start stop activity_id resource_id =
     (let (starts, ends) = window_span day start stop
      in (starts, ends, \<lparr>ci_type = kind, ci_id = row_id, ci_date = day, ci_start = start,
            ci_end_date = date_of ends, ci_end = stop, ci_activity_id = activity_id,
            ci_resource_id = resource_id\<rparr>))"

definition entry_span :: "entry \<Rightarrow> span" where
  "entry_span e = (fst e, fst (snd e))"

definition entry_item :: "entry \<Rightarrow> conflict_item" where
  "entry_item e = snd (snd e)"

definition entry_key :: "entry \<Rightarrow> instant \<times> instant \<times> int \<times> int" where
  "entry_key e = (fst e, fst (snd e), type_rank (ci_type (entry_item e)), ci_id (entry_item e))"

section \<open>The sweep\<close>

text \<open>The intervals still open when an entry arrives, in the order they arrived.\<close>

fun sweep_from :: "entry list \<Rightarrow> entry list \<Rightarrow> (entry \<times> entry) list" where
  "sweep_from open_now [] = []"
| "sweep_from open_now (e # es) =
     (let still = filter (\<lambda>other. fst (snd other) > fst e) open_now
      in map (\<lambda>other. (other, e)) still @ sweep_from (still @ [e]) es)"

definition sweep :: "entry list \<Rightarrow> (entry \<times> entry) list" where
  "sweep entries = sweep_from [] (sort_key entry_key entries)"

section \<open>Reports\<close>

datatype conflict_kind =
  LEAD_OVERLAP | MEMBER_OVERLAP | REQUIREMENT_UNMET | RESOURCE_OVERBOOKED | RESOURCE_OVERLAP

definition kind_rank :: "conflict_kind \<Rightarrow> int" where
  "kind_rank k = (case k of LEAD_OVERLAP \<Rightarrow> 0 | MEMBER_OVERLAP \<Rightarrow> 1 | REQUIREMENT_UNMET \<Rightarrow> 2
     | RESOURCE_OVERBOOKED \<Rightarrow> 3 | RESOURCE_OVERLAP \<Rightarrow> 4)"

record conflict =
  cf_kind :: conflict_kind
  cf_resource_id :: "int option"
  cf_member_id :: "string option"
  cf_lead_id :: "string option"
  cf_date :: date
  cf_start :: time_of_day
  cf_end_date :: date
  cf_end :: time_of_day
  cf_items :: "conflict_item list"
  cf_capacity :: "int option"
  cf_taken :: "int option"
  cf_requirement_id :: "int option"
  cf_message :: "string option"

definition report :: "conflict_kind \<Rightarrow> instant \<Rightarrow> instant \<Rightarrow> conflict_item list \<Rightarrow> conflict" where
  "report kind starts ends items =
     \<lparr>cf_kind = kind, cf_resource_id = None, cf_member_id = None, cf_lead_id = None,
      cf_date = date_of starts, cf_start = time_of starts, cf_end_date = date_of ends,
      cf_end = time_of ends, cf_items = items, cf_capacity = None, cf_taken = None,
      cf_requirement_id = None, cf_message = None\<rparr>"

definition conflict_of :: "conflict_kind \<Rightarrow> entry \<Rightarrow> entry \<Rightarrow> conflict" where
  "conflict_of kind first second =
     report kind (max (fst first) (fst second)) (min (fst (snd first)) (fst (snd second)))
       [entry_item first, entry_item second]"

definition overbooked :: "resource \<Rightarrow> entry list \<Rightarrow> reservation list \<Rightarrow> conflict list" where
  "overbooked res held_on holds =
     (let booked = filter (\<lambda>e. ci_type (entry_item e) = RESERVATION) held_on;
          rows = List.map_filter (\<lambda>e. find (\<lambda>h. rv_id h = ci_id (entry_item e)) (rev holds)) booked
      in map (\<lambda>(starts, ends).
           (report RESOURCE_OVERBOOKED starts ends
             (map entry_item (filter (\<lambda>e. fst e < ends \<and> starts < fst (snd e)) (sort_key entry_key booked))))
           \<lparr>cf_resource_id := Some (re_id res), cf_capacity := re_capacity res,
            cf_taken := Some (pool_peak rows (Some (starts, ends)))\<rparr>)
         (pool_stretches rows (the (re_capacity res) + 1)))"

text \<open>
  The key the report is sorted by. A missing resource is -1 and a missing member or lead the
  empty string; \<^verbatim>\<open>_starts\<close> is the instant the date and the start say.
\<close>

definition report_key ::
  "conflict \<Rightarrow> int \<times> int \<times> string \<times> string \<times> instant \<times> (int \<times> int \<times> date) list" where
  "report_key c = (kind_rank (cf_kind c), case_option (-1) id (cf_resource_id c),
     case_option [] id (cf_member_id c), case_option [] id (cf_lead_id c),
     combine (cf_date c) (cf_start c),
     map (\<lambda>i. (type_rank (ci_type i), ci_id i, ci_date i)) (cf_items c))"

section \<open>The rows of a range\<close>

definition range_slots :: "database \<Rightarrow> master_slot list" where
  "range_slots db = filter (slot_counts db) (structural_master_slots db)"

definition range_days :: "database \<Rightarrow> date \<Rightarrow> date \<Rightarrow> daily_ledger list" where
  "range_days db first_date to_date = filter (\<lambda>d. dl_target_date d \<ge> first_date \<and> dl_target_date d \<le> to_date \<and>
     has_window d) (daily_ledger_rows db)"

definition range_holds :: "database \<Rightarrow> date \<Rightarrow> date \<Rightarrow> reservation list" where
  "range_holds db first_date to_date = filter (\<lambda>r. rv_status r = HELD \<and> rv_reserved_date r \<ge> first_date \<and>
     rv_reserved_date r \<le> to_date) (reservations db)"

text \<open>\<^verbatim>\<open>if day.master\_slot\_id\<close> leaves out a slot numbered zero, which no table has.\<close>

definition slot_entry_on ::
  "rrule_lib \<Rightarrow> database \<Rightarrow> daily_ledger list \<Rightarrow> date \<Rightarrow> date \<Rightarrow> date \<Rightarrow> master_slot \<Rightarrow> entry list" where
  "slot_entry_on L db days first_date to_date on slot =
     (if on \<in> set (occurrences L (sl_rrule slot) (sl_dtstart slot) first_date to_date) \<and>
         (case slot_cycle db slot of None \<Rightarrow> False
          | Some c \<Rightarrow> cy_date_bounds_start c \<le> on \<and> on \<le> cy_date_bounds_end c) \<and>
         (on, sl_id slot) \<notin> settled days
      then [entry_of SLOT (sl_id slot) on (sl_time_window_start slot) (sl_time_window_end slot)
              (Some (sl_activity_id slot)) (sl_resource_id slot)]
      else [])"

definition day_entry :: "daily_ledger \<Rightarrow> entry" where
  "day_entry d = entry_of LEDGER_DAY (dl_id d) (dl_target_date d) (dl_start d) (dl_end d)
     (Some (dl_activity_id d)) (dl_resource_id d)"

definition hold_entry :: "reservation \<Rightarrow> entry" where
  "hold_entry r = entry_of RESERVATION (rv_id r) (rv_reserved_date r) (rv_time_window_start r)
     (rv_time_window_end r) None (Some (rv_resource_id r))"

definition range_entries :: "rrule_lib \<Rightarrow> database \<Rightarrow> date \<Rightarrow> date \<Rightarrow> entry list" where
  "range_entries L db from_date to_date =
     (let first_date = from_date - 1; days = range_days db first_date to_date
      in filter (\<lambda>e. fst e < combine (to_date + 1) 0 \<and> combine from_date 0 < fst (snd e))
           (concat (map (\<lambda>on. concat (map (slot_entry_on L db days first_date to_date on) (range_slots db)))
              [first_date..to_date]) @
            map day_entry days @ map hold_entry (range_holds db first_date to_date)))"

text \<open>
  Who leads an entry: the slot's lead, or the day's substitute and else its lead. An empty
  string is no lead to the code, so it is none here.
\<close>

definition named :: "string option \<Rightarrow> string option" where
  "named s = (case s of None \<Rightarrow> None | Some n \<Rightarrow> if n = [] then None else Some n)"

definition lead_of :: "database \<Rightarrow> conflict_item \<Rightarrow> string option" where
  "lead_of db item = (case ci_type item of
     SLOT \<Rightarrow> Option.bind (find (\<lambda>s. sl_id s = ci_id item) (structural_master_slots db))
       (\<lambda>s. named (sl_primary_lead_id s))
   | LEDGER_DAY \<Rightarrow> Option.bind (find (\<lambda>d. dl_id d = ci_id item) (daily_ledger_rows db))
       (\<lambda>d. case named (dl_substitute_lead_id d) of Some l \<Rightarrow> Some l | None \<Rightarrow> named (dl_active_lead_id d))
   | RESERVATION \<Rightarrow> None)"

section \<open>The report\<close>

text \<open>A dict of lists keyed in the order the keys are first seen: \<^verbatim>\<open>defaultdict(list)\<close>.\<close>

definition group_by :: "('a \<Rightarrow> 'k option) \<Rightarrow> 'a list \<Rightarrow> ('k \<times> 'a list) list" where
  "group_by key xs = map (\<lambda>k. (k, filter (\<lambda>x. key x = Some k) xs)) (rev (remdups (rev (List.map_filter key xs))))"

definition resource_conflicts :: "database \<Rightarrow> reservation list \<Rightarrow> int \<times> entry list \<Rightarrow> walk_error + conflict list" where
  "resource_conflicts db holds grp =
     (case grp of (rid, held_on0) \<Rightarrow>
        (case get_resource db rid of None \<Rightarrow> Inl Attribute_Error
         | Some res \<Rightarrow>
             (let held_on = (if re_mode res = SHARED
                    then filter (\<lambda>e. ci_type (entry_item e) \<noteq> RESERVATION) held_on0 else held_on0);
                  clashes = filter (\<lambda>(first, second). \<not> (re_mode res = POOLED \<and>
                      ci_type (entry_item first) = RESERVATION \<and> ci_type (entry_item second) = RESERVATION))
                    (sweep held_on)
              in Inr (map (\<lambda>(first, second).
                     (conflict_of RESOURCE_OVERLAP first second)\<lparr>cf_resource_id := Some rid\<rparr>) clashes @
                   (if re_mode res = POOLED then overbooked res held_on holds else [])))))"

text \<open>Two windows of one activity are not a clash of the person on both.\<close>

definition person_pairs :: "entry list \<Rightarrow> (entry \<times> entry) list" where
  "person_pairs es = filter (\<lambda>(first, second). ci_activity_id (entry_item first) \<noteq> ci_activity_id (entry_item second))
     (sweep es)"

definition active_user :: "database \<Rightarrow> string \<Rightarrow> bool" where
  "active_user db uid \<longleftrightarrow> (case get_user db uid of None \<Rightarrow> False | Some u \<Rightarrow> us_deactivated_at u = None)"

definition member_groups :: "database \<Rightarrow> entry list \<Rightarrow> (string \<times> entry list) list" where
  "member_groups db entries =
     (let rows = filter (\<lambda>e. active_user db (en_member_id e) \<and>
            list_ex (\<lambda>x. ci_activity_id (entry_item x) = Some (en_activity_id e)) entries) (activity_enrollments db)
      in map (\<lambda>(m, es). (m, concat (map (\<lambda>e. filter (\<lambda>x. ci_activity_id (entry_item x) = Some (en_activity_id e)) entries) es)))
           (group_by (\<lambda>e. Some (en_member_id e)) rows))"

definition member_conflicts :: "database \<Rightarrow> entry list \<Rightarrow> conflict list" where
  "member_conflicts db entries = concat (map (\<lambda>(m, es).
     map (\<lambda>(first, second). (conflict_of MEMBER_OVERLAP first second)\<lparr>cf_member_id := Some m\<rparr>) (person_pairs es))
     (member_groups db entries))"

definition lead_conflicts :: "database \<Rightarrow> entry list \<Rightarrow> conflict list" where
  "lead_conflicts db entries = concat (map (\<lambda>(l, es).
     map (\<lambda>(first, second). (conflict_of LEAD_OVERLAP first second)\<lparr>cf_lead_id := Some l\<rparr>) (person_pairs es))
     (filter (\<lambda>(l, _). active_user db l) (group_by (\<lambda>e. lead_of db (entry_item e)) entries)))"

definition unmet_of_entry ::
  "app_env \<Rightarrow> database \<Rightarrow> entry \<Rightarrow> walk_error + conflict list" where
  "unmet_of_entry env db e =
     (let needing = owners_with_requirements db; item = entry_item e;
          activity_id = (case ci_activity_id item of None \<Rightarrow> None
            | Some a \<Rightarrow> if (ACTIVITY, a) \<in> needing then Some a else None);
          resource_id = (case ci_resource_id item of None \<Rightarrow> None
            | Some r \<Rightarrow> if (RESOURCE, r) \<in> needing then Some r else None)
      in if ci_type item = RESERVATION \<or> (activity_id = None \<and> resource_id = None) then Inr []
         else bind_result (unmet_for_window env db activity_id resource_id
                (ci_date item, ci_start item, ci_end item)) (\<lambda>gaps.
           Inr (map (\<lambda>gap. (report REQUIREMENT_UNMET (fst e) (fst (snd e)) [item])\<lparr>
              cf_resource_id := ci_resource_id item, cf_requirement_id := Some (um_requirement_id gap),
              cf_message := Some (um_message gap)\<rparr>) gaps)))"

definition find_conflicts ::
  "app_env \<Rightarrow> database \<Rightarrow> date \<Rightarrow> date \<Rightarrow> walk_error + conflict list" where
  "find_conflicts env db from_date to_date =
     (let entries = range_entries (env_rrule env) db from_date to_date;
          holds = range_holds db (from_date - 1) to_date
      in bind_result (map_result (resource_conflicts db holds)
             (group_by (\<lambda>e. ci_resource_id (entry_item e)) entries)) (\<lambda>on_resources.
         bind_result (map_result (unmet_of_entry env db) entries) (\<lambda>unmet.
           Inr (sort_key report_key (concat on_resources @ member_conflicts db entries @ concat unmet @
             lead_conflicts db entries)))))"

end
