(* ===== verification/Access.thy ===== *)
theory Access
  imports Requirements
begin

text \<open>
  The access rules of \<^verbatim>\<open>backend/app/core/security.py\<close> a route applies to a caller it has already
  authenticated: the roles it admits and the unit a unit admin is kept to. Also the page of a
  list route (\<^verbatim>\<open>backend/app/core/pagination.py\<close>).
\<close>

section \<open>Roles and units\<close>

definition require_roles :: "institutional_role list \<Rightarrow> user \<Rightarrow> api_error + user" where
  "require_roles roles current_user =
     (if us_role_type current_user \<notin> set roles
      then Inl (chronos_error 403 INSUFFICIENT_ROLE (Msg ''Insufficient permissions''))
      else Inr current_user)"

definition in_unit_scope :: "user \<Rightarrow> string option \<Rightarrow> bool" where
  "in_unit_scope current_user unit_code =
     (if us_role_type current_user \<noteq> UNIT_ADMIN then True
      else us_unit_code current_user \<noteq> None \<and> unit_code = us_unit_code current_user)"

definition ensure_unit_scope :: "user \<Rightarrow> string option \<Rightarrow> api_error + unit" where
  "ensure_unit_scope current_user unit_code =
     (if \<not> in_unit_scope current_user unit_code
      then Inl (chronos_error 403 OUTSIDE_UNIT (Msg ''Outside your unit'')) else Inr ())"

definition ensure_resource_scope :: "user \<Rightarrow> resource \<Rightarrow> api_error + unit" where
  "ensure_resource_scope current_user res =
     (if re_unit_code res \<noteq> None then ensure_unit_scope current_user (re_unit_code res) else Inr ())"

lemma ensure_resource_scope_Inr:
  "ensure_resource_scope u res = Inr () \<longleftrightarrow>
     us_role_type u = UNIT_ADMIN \<longrightarrow> re_unit_code res = None \<or> re_unit_code res = us_unit_code u"
  by (auto simp: ensure_resource_scope_def ensure_unit_scope_def in_unit_scope_def)

text \<open>A refusal inside a route that can also fail in other ways.\<close>

definition lift_refusal :: "api_error + 'a \<Rightarrow> walk_error + 'a" where
  "lift_refusal r = (case r of Inl e \<Rightarrow> Inl (Refused e) | Inr x \<Rightarrow> Inr x)"

section \<open>Pages\<close>

record page =
  pg_limit :: "nat option"
  pg_offset :: nat

text \<open>The rows of the page, in key order, and the total that goes on the header.\<close>

definition page_rows :: "page \<Rightarrow> ('a \<Rightarrow> 'k::linorder) \<Rightarrow> 'a list \<Rightarrow> 'a list \<times> nat" where
  "page_rows pg key q =
     (if pg_limit pg = None \<and> pg_offset pg = 0 then (sort_key key q, length (sort_key key q))
      else (case pg_limit pg of None \<Rightarrow> drop (pg_offset pg) (sort_key key q)
            | Some n \<Rightarrow> take n (drop (pg_offset pg) (sort_key key q)), length q))"

lemma page_total: "snd (page_rows pg key q) = length q"
  by (simp add: page_rows_def)

text \<open>Pages of one size laid end to end are the whole list: no row is lost or shown twice.\<close>

fun page_run :: "nat \<Rightarrow> nat \<Rightarrow> ('a \<Rightarrow> 'k::linorder) \<Rightarrow> 'a list \<Rightarrow> 'a list" where
  "page_run n 0 key q = []"
| "page_run n (Suc k) key q =
     page_run n k key q @ fst (page_rows \<lparr>pg_limit = Some n, pg_offset = n * k\<rparr> key q)"

lemma page_run_take: "page_run n k key q = take (n * k) (sort_key key q)"
proof (induction k)
  case (Suc k)
  then show ?case by (simp add: page_rows_def take_add add.commute[of n])
qed simp

end
