(* ===== verification/Booking_Rules.thy ===== *)
theory Booking_Rules
  imports App_Env
begin

text \<open>
  The rules the reservations of an organization keep, whatever route writes them: well-formed
  rows, no two exclusive holds on one resource sharing a moment, no pool holding more units
  than its capacity at any moment, and no unshared hold over the timetable. One lemma says
  that appending a hold whose window passed the checks of its resource's mode keeps them all;
  the booking route and the requirement walk both rest on it.
\<close>

section \<open>The rules\<close>

definition held_on :: "database \<Rightarrow> int \<Rightarrow> reservation list" where
  "held_on db rid = filter (\<lambda>r. rv_resource_id r = rid \<and> rv_status r = HELD) (reservations db)"

definition pools_fit :: "database \<Rightarrow> bool" where
  "pools_fit db \<longleftrightarrow> (\<forall>rid res i. get_resource db rid = Some res \<longrightarrow> re_mode res = POOLED \<longrightarrow>
     units_held (held_on db rid) i \<le> the (re_capacity res))"

definition timetable_clear :: "rrule_lib \<Rightarrow> database \<Rightarrow> reservation \<Rightarrow> bool" where
  "timetable_clear L db r \<longleftrightarrow> (rv_status r = HELD \<and> rv_mode r \<noteq> SHARED \<longrightarrow>
     (\<forall>sp \<in> timetable L db (rv_resource_id r). \<not> meets sp (held_span r)))"

definition booking_rules :: "rrule_lib \<Rightarrow> database \<Rightarrow> bool" where
  "booking_rules L db \<longleftrightarrow> tables_ok L db \<and> no_double_booking (reservations db) \<and> pools_fit db \<and>
     (\<forall>r \<in> set (reservations db). timetable_clear L db r)"

text \<open>The checks a window passes on its way to a hold, by the resource's mode.\<close>

definition window_free ::
  "rrule_lib \<Rightarrow> database \<Rightarrow> resource \<Rightarrow> date \<Rightarrow> time_of_day \<Rightarrow> time_of_day \<Rightarrow> int \<Rightarrow> bool" where
  "window_free L db res day start stop quantity \<longleftrightarrow> (case re_mode res of
     SHARED \<Rightarrow> True
   | EXCLUSIVE \<Rightarrow> window_conflicts L db (re_id res) day start stop True = []
   | POOLED \<Rightarrow> window_conflicts L db (re_id res) day start stop False = [] \<and>
       fst (pool_state db (re_id res) day start stop) + quantity \<le> the (re_capacity res))"

section \<open>Frames\<close>

lemma booked_slots_frame [simp]:
  "booked_slots (db\<lparr>reservations := x\<rparr>) = booked_slots db"
  "booked_slots (db\<lparr>change_markers := y\<rparr>) = booked_slots db"
  by (auto simp: booked_slots_def slot_counts_def fun_eq_iff cong: option.case_cong)

lemma timetable_frame [simp]:
  "timetable L (db\<lparr>reservations := x\<rparr>) = timetable L db"
  "timetable L (db\<lparr>change_markers := y\<rparr>) = timetable L db"
  by (auto simp: timetable_def slot_spans_def days_on_def slot_runs_def fun_eq_iff)

lemma booking_rules_markers [simp]:
  "booking_rules L (db\<lparr>change_markers := y\<rparr>) = booking_rules L db"
  by (simp add: booking_rules_def tables_ok_def pools_fit_def timetable_clear_def held_on_def)

lemma booking_rules_record_change [simp]:
  "booking_rules L (record_change env k i c db) = booking_rules L db"
  by (simp add: record_change_def)

section \<open>Units at an instant\<close>

lemma units_held_Cons [simp]:
  "units_held [] i = 0"
  "units_held (h # hs) i = (if in_span i (held_span h) then rv_quantity h else 0) + units_held hs i"
  by (simp_all add: units_held_def)

lemma units_held_append [simp]: "units_held (xs @ ys) i = units_held xs i + units_held ys i"
  by (simp add: units_held_def)

lemma units_held_filter:
  "\<forall>h \<in> set xs. in_span i (held_span h) \<longrightarrow> P h \<Longrightarrow> units_held (filter P xs) i = units_held xs i"
  by (induction xs) auto

text \<open>Inside a window, the holds the pool check reads are all the holds there are.\<close>

lemma pool_state_holds:
  assumes "tables_ok L db" and "valid_window s e" and "in_span i (window_span d s e)"
  shows "units_held (snd (pool_state db rid d s e)) i = units_held (held_on db rid) i"
proof -
  let ?P = "\<lambda>r. meets (held_span r) (window_span d s e) \<and> d - 1 \<le> rv_reserved_date r \<and>
    rv_reserved_date r \<le> last_date d s e"
  have "snd (pool_state db rid d s e) = filter ?P (held_on db rid)"
    by (auto simp: pool_state_def Let_def held_reservations_def held_on_def intro!: filter_cong)
  moreover have "?P r" if "r \<in> set (held_on db rid)" "in_span i (held_span r)" for r
  proof -
    have m: "meets (held_span r) (window_span d s e)" using that(2) assms(3) by (auto simp: span_simps)
    have "reservation_ok r" using that(1) tables_okD(1)[OF assms(1)] by (simp add: held_on_def)
    then have "d - 1 \<le> rv_reserved_date r \<and> rv_reserved_date r \<le> last_date d s e"
      using window_range_dates[OF _ window_in_range[OF assms(2) m, unfolded held_span_def]]
      by (simp add: reservation_ok_def)
    with m show ?thesis by simp
  qed
  ultimately show ?thesis by (simp add: units_held_filter)
qed

lemma pool_state_peak:
  assumes "tables_ok L db" and "valid_window s e" and "in_span i (window_span d s e)"
  shows "units_held (held_on db rid) i \<le> fst (pool_state db rid d s e)"
proof -
  let ?h = "snd (pool_state db rid d s e)"
  have "\<forall>h \<in> set ?h. 0 \<le> rv_quantity h"
    using tables_okD(1)[OF assms(1)]
    by (force simp: pool_state_def Let_def held_reservations_def reservation_ok_def)
  then have "units_held ?h i \<le> pool_peak ?h (Some (window_span d s e))"
    using pool_peak_exact(1) assms(3) by blast
  also have "\<dots> = fst (pool_state db rid d s e)" by (simp add: pool_state_def Let_def)
  finally show ?thesis using pool_state_holds[OF assms] by simp
qed

section \<open>Appending a hold\<close>

lemma hold_spans_subset_occupancy: "hold_spans db rid \<subseteq> occupancy L db rid"
  by (auto simp: occupancy_def)

lemma held_in_hold_spans:
  "x \<in> set (reservations db) \<Longrightarrow> rv_status x = HELD \<Longrightarrow> held_span x \<in> hold_spans db (rv_resource_id x)"
  by (auto simp: hold_spans_def)

lemma window_free_clear:
  assumes "tables_ok L db" and "rrule_lib_ok L" and "valid_window s e"
    and "window_free L db res d s e q"
  shows "re_mode res = EXCLUSIVE \<Longrightarrow> sp \<in> occupancy L db (re_id res) \<Longrightarrow> \<not> meets sp (window_span d s e)"
    and "re_mode res \<noteq> SHARED \<Longrightarrow> sp \<in> timetable L db (re_id res) \<Longrightarrow> \<not> meets sp (window_span d s e)"
proof -
  show excl: "\<not> meets sp (window_span d s e)"
    if "re_mode res = EXCLUSIVE" "sp \<in> occupancy L db (re_id res)" for sp
    using window_conflicts_Nil[OF assms(1-3)] assms(4) that by (simp add: window_free_def)
  have "\<not> meets sp (window_span d s e)" if "re_mode res = POOLED" "sp \<in> timetable L db (re_id res)"
    using window_conflicts_exact(2)[OF assms(1-3), of "re_id res" d] assms(4) that
    by (cases sp) (simp add: window_free_def)
  then show "\<not> meets sp (window_span d s e)"
    if "re_mode res \<noteq> SHARED" "sp \<in> timetable L db (re_id res)"
    using that excl[of sp] by (cases "re_mode res") (auto simp: occupancy_def)
qed

lemma append_no_double_booking:
  assumes "booking_rules L db" and "rrule_lib_ok L" and "reservation_ok r"
    and "rv_resource_id r = re_id res" and "rv_mode r = re_mode res"
    and "window_free L db res (rv_reserved_date r) (rv_time_window_start r) (rv_time_window_end r)
      (rv_quantity r)"
  shows "no_double_booking (reservations db @ [r])"
proof -
  have "clear_of x r" if x: "x \<in> set (reservations db)" for x
  proof -
    have "held_span x \<in> occupancy L db (re_id res)" if "excludes x" "rv_resource_id x = re_id res"
      using held_in_hold_spans[OF x] that hold_spans_subset_occupancy by (auto simp: excludes_def)
    then show ?thesis
      using window_free_clear(1)[OF _ assms(2) _ assms(6)] assms(1,3-5)
      by (auto simp: clear_of_def excludes_def booking_rules_def reservation_ok_def held_span_def)
  qed
  with assms(1) show ?thesis by (simp add: booking_rules_def no_double_booking_snoc)
qed

lemma append_pools_fit:
  assumes "booking_rules L db" and "reservation_ok r"
    and res: "get_resource db (rv_resource_id r) = Some res"
    and "window_free L db res (rv_reserved_date r) (rv_time_window_start r) (rv_time_window_end r)
      (rv_quantity r)"
  shows "pools_fit (db\<lparr>reservations := reservations db @ [r]\<rparr>)"
  unfolding pools_fit_def lookup_frame
proof (intro allI impI)
  fix rid res' i assume g: "get_resource db rid = Some res'" "re_mode res' = POOLED"
  let ?old = "units_held (held_on db rid) i"
  have old: "?old \<le> the (re_capacity res')" using assms(1) g by (auto simp: booking_rules_def pools_fit_def)
  have new: "units_held (held_on (db\<lparr>reservations := reservations db @ [r]\<rparr>) rid) i =
      ?old + (if rv_resource_id r = rid \<and> rv_status r = HELD \<and> in_span i (held_span r)
        then rv_quantity r else 0)"
    by (simp add: held_on_def)
  have "?old + rv_quantity r \<le> the (re_capacity res')"
    if r: "rv_resource_id r = rid" "in_span i (held_span r)"
  proof -
    have "res' = res" "re_id res = rid" using res g r get_resource_Some[OF g(1)] by auto
    then have "fst (pool_state db rid (rv_reserved_date r) (rv_time_window_start r)
        (rv_time_window_end r)) + rv_quantity r \<le> the (re_capacity res')"
      using assms(4) g(2) by (simp add: window_free_def)
    moreover have "?old \<le> fst (pool_state db rid (rv_reserved_date r) (rv_time_window_start r)
        (rv_time_window_end r))"
      using pool_state_peak[of L db] assms(1,2) r(2)
      by (simp add: booking_rules_def reservation_ok_def held_span_def)
    ultimately show ?thesis by linarith
  qed
  with old new show "units_held (held_on (db\<lparr>reservations := reservations db @ [r]\<rparr>) rid) i \<le>
    the (re_capacity res')" by auto
qed

lemma booking_rules_append:
  assumes "booking_rules L db" and "rrule_lib_ok L" and "reservation_ok r"
    and "get_resource db (rv_resource_id r) = Some res" and "rv_mode r = re_mode res"
    and "window_free L db res (rv_reserved_date r) (rv_time_window_start r) (rv_time_window_end r)
      (rv_quantity r)"
  shows "booking_rules L (db\<lparr>reservations := reservations db @ [r]\<rparr>)"
proof -
  have rid: "rv_resource_id r = re_id res" using get_resource_Some[OF assms(4)] by simp
  have "timetable_clear L db r"
    using window_free_clear(2)[OF _ assms(2) _ assms(6)] assms(1,3,5) rid
    by (auto simp: timetable_clear_def booking_rules_def reservation_ok_def held_span_def)
  moreover have "tables_ok L (db\<lparr>reservations := reservations db @ [r]\<rparr>)"
    using assms(1,3) by (auto simp: booking_rules_def tables_ok_def)
  ultimately show ?thesis
    using append_no_double_booking[OF assms(1-3) rid assms(5,6)]
      append_pools_fit[OF assms(1,3,4,6)] assms(1)
    by (auto simp: booking_rules_def timetable_clear_def)
qed

text \<open>Letting rows go, or changing columns no rule reads, keeps the rules.\<close>

lemma units_held_update_le:
  assumes "\<forall>r \<in> set rows. 0 \<le> rv_quantity r"
    and "\<And>x. rv_status (f x) = HELD \<Longrightarrow> rv_status x = HELD"
    and "\<And>x. rv_resource_id (f x) = rv_resource_id x \<and> held_span (f x) = held_span x \<and>
           rv_quantity (f x) = rv_quantity x"
  shows "units_held (filter (\<lambda>r. rv_resource_id r = rid \<and> rv_status r = HELD) (update_rows P f rows)) i \<le>
    units_held (filter (\<lambda>r. rv_resource_id r = rid \<and> rv_status r = HELD) rows) i"
  using assms(1)
proof (induction rows)
  case (Cons r rows)
  then show ?case using assms(2)[of r] assms(3)[of r] by (auto simp: update_rows_def)
qed (simp add: update_rows_def)

lemma booking_rules_update:
  assumes rules: "booking_rules L db"
    and held: "\<And>x. rv_status (f x) = HELD \<Longrightarrow> rv_status x = HELD"
    and same: "\<And>x. rv_resource_id (f x) = rv_resource_id x \<and> rv_reserved_date (f x) = rv_reserved_date x \<and>
        rv_time_window_start (f x) = rv_time_window_start x \<and>
        rv_time_window_end (f x) = rv_time_window_end x \<and>
        rv_quantity (f x) = rv_quantity x \<and> rv_mode (f x) = rv_mode x"
  shows "booking_rules L (db\<lparr>reservations := update_rows P f (reservations db)\<rparr>)"
proof -
  have span: "held_span (f x) = held_span x" for x using same[of x] by (simp add: held_span_def)
  have "no_double_booking (update_rows P f (reservations db))"
    using rules by (intro no_double_booking_update)
      (auto simp: booking_rules_def excludes_def same span dest: held)
  moreover have "pools_fit (db\<lparr>reservations := update_rows P f (reservations db)\<rparr>)"
    unfolding pools_fit_def lookup_frame
  proof (intro allI impI)
    fix rid res i assume g: "get_resource db rid = Some res" "re_mode res = POOLED"
    have "\<forall>r \<in> set (reservations db). 0 \<le> rv_quantity r"
      using rules by (force simp: booking_rules_def tables_ok_def reservation_ok_def)
    then have "units_held (held_on (db\<lparr>reservations := update_rows P f (reservations db)\<rparr>) rid) i \<le>
        units_held (held_on db rid) i"
      unfolding held_on_def by (simp add: units_held_update_le held same span)
    also have "\<dots> \<le> the (re_capacity res)" using rules g by (auto simp: booking_rules_def pools_fit_def)
    finally show "units_held (held_on (db\<lparr>reservations := update_rows P f (reservations db)\<rparr>) rid) i \<le>
      the (re_capacity res)" .
  qed
  ultimately show ?thesis
    using rules
    by (auto simp: booking_rules_def tables_ok_def set_update_rows reservation_ok_def same
        timetable_clear_def span dest: held)
qed

section \<open>The example organization keeps the rules\<close>

lemma timetable_clear_by_check:
  assumes "tables_ok L db" and "rrule_lib_ok L" and "reservation_ok r"
    and "window_conflicts L db (rv_resource_id r) (rv_reserved_date r) (rv_time_window_start r)
      (rv_time_window_end r) False = []"
  shows "timetable_clear L db r"
proof -
  have "{sp \<in> timetable L db (rv_resource_id r). meets sp (held_span r)} = {}"
    using window_conflicts_exact(2)[OF assms(1,2), of "rv_time_window_start r" "rv_time_window_end r"
        "rv_resource_id r" "rv_reserved_date r"] assms(3)
    unfolding assms(4) held_span_def reservation_ok_def by simp
  then show ?thesis by (auto simp: timetable_clear_def)
qed

lemma ex_booking_rules: "booking_rules weekly_lib ex_db"
proof -
  have checks: "window_conflicts weekly_lib ex_db 1 monday (hour 22) (hour 6) False = []"
    "window_conflicts weekly_lib ex_db 3 monday (hour 9) (hour 11) False = []"
    by code_simp+
  have "timetable_clear weekly_lib ex_db r" if r: "r \<in> set (reservations ex_db)" for r
  proof (rule timetable_clear_by_check[OF ex_tables_ok weekly_lib_ok tables_okD(1)[OF ex_tables_ok r]])
    have "r = ex_hold 1 1 (hour 22) (hour 6) 1 EXCLUSIVE \<or> r = ex_hold 2 3 (hour 9) (hour 11) 2 POOLED"
      using r by (simp add: ex_db_def)
    then show "window_conflicts weekly_lib ex_db (rv_resource_id r) (rv_reserved_date r)
        (rv_time_window_start r) (rv_time_window_end r) False = []"
      using checks by (elim disjE) (simp_all add: ex_hold_def)
  qed
  moreover have "no_double_booking (reservations ex_db)"
    by (simp add: ex_db_def ex_hold_def no_double_booking_def clear_of_def)
  moreover have "pools_fit ex_db"
    by (auto simp: pools_fit_def held_on_def ex_db_def ex_hold_def get_resource_def ex_room_def
        ex_pool_def empty_db_def split: if_splits)
  ultimately show ?thesis using ex_tables_ok by (simp add: booking_rules_def)
qed

end
