(* ===== verification/Reservations.thy ===== *)
theory Reservations
  imports Access Booking_Rules
begin

text \<open>
  \<^verbatim>\<open>backend/app/api/v1/endpoints/resources.py\<close>: registering and changing resources, booking them,
  and letting bookings go.

  A route takes the session it is given and returns its answer with the session it leaves. The
  check and the insert of a booking are two statements, and another transaction may commit
  between them: \<open>others\<close> is what other transactions commit at that point, any function on the
  committed tables. Under the row lock of the resource it is the identity on that resource's
  rows; without the lock it is not. The constraints of the table speak at the flush, so the
  commit of a route does not fail.

  An exception that no handler turns into an API error ends the request with the transaction
  rolled back.
\<close>

section \<open>Payloads and answers\<close>

text \<open>A field of a PATCH: unset, or set to a value.\<close>

type_synonym 'a patch = "'a option"

record resource_create =
  xc_code :: string
  xc_label :: "string option"
  xc_resource_type :: string
  xc_unit_code :: "string option"
  xc_capacity :: "int option"
  xc_mode :: resource_mode
  xc_latitude :: "decimal option"
  xc_longitude :: "decimal option"
  xc_altitude_target :: "decimal option"

record resource_update =
  xu_label :: "string option patch"
  xu_capacity :: "int option patch"
  xu_mode :: "resource_mode patch"
  xu_latitude :: "decimal option patch"
  xu_longitude :: "decimal option patch"
  xu_altitude_target :: "decimal option patch"
  xu_active :: "bool option patch"

record reservation_create =
  pc_date :: date
  pc_start :: time_of_day
  pc_end :: time_of_day
  pc_purpose :: string
  pc_quantity_set :: "int option"
  pc_external_ref :: "string option"
  pc_assignments :: "(string \<times> int list) list option"

record reservation_response =
  vr_id :: int
  vr_resource_id :: int
  vr_resource_code :: string
  vr_date :: date
  vr_start :: time_of_day
  vr_end :: time_of_day
  vr_purpose :: string
  vr_quantity :: int
  vr_status :: reservation_status
  vr_requested_by_id :: "string option"
  vr_idempotency_key :: string
  vr_external_ref :: "string option"
  vr_created_at :: instant
  vr_cancelled_at :: "instant option"
  vr_parent_reservation_id :: "int option"

record reservation_created =
  cr_reservation :: reservation_response
  cr_children :: "reservation_response list"
  cr_unmet :: "unmet_requirement list"

text \<open>\<^verbatim>\<open>payload.quantity\<close>, with the schema's default.\<close>

definition pc_quantity :: "reservation_create \<Rightarrow> int" where
  "pc_quantity p = (case pc_quantity_set p of None \<Rightarrow> 1 | Some q \<Rightarrow> q)"

text \<open>What the validators of \<^verbatim>\<open>schemas/resources.py::ReservationCreate\<close> let through.\<close>

definition reservation_create_ok :: "reservation_create \<Rightarrow> bool" where
  "reservation_create_ok p \<longleftrightarrow>
     valid_time (pc_start p) \<and> valid_time (pc_end p) \<and> pc_end p \<noteq> pc_start p \<and>
     1 \<le> length (pc_purpose p) \<and> length (pc_purpose p) \<le> 200 \<and> 1 \<le> pc_quantity p \<and>
     (case pc_external_ref p of None \<Rightarrow> True | Some x \<Rightarrow> 1 \<le> length x \<and> length x \<le> 120) \<and>
     (case pc_assignments p of None \<Rightarrow> True | Some a \<Rightarrow> distinct (map fst a))"

definition resource_create_ok :: "resource_create \<Rightarrow> bool" where
  "resource_create_ok p \<longleftrightarrow>
     strip (xc_code p) = xc_code p \<and> 1 \<le> length (xc_code p) \<and> length (xc_code p) \<le> 30 \<and>
     (case xc_label p of None \<Rightarrow> True | Some l \<Rightarrow> strip l = l \<and> 1 \<le> length l \<and> length l \<le> 120) \<and>
     (case xc_capacity p of None \<Rightarrow> True | Some c \<Rightarrow> 0 \<le> c) \<and>
     ((xc_latitude p = None) = (xc_longitude p = None)) \<and>
     (xc_mode p = POOLED \<longrightarrow> (case xc_capacity p of None \<Rightarrow> False | Some c \<Rightarrow> c \<noteq> 0))"

definition resource_update_ok :: "resource_update \<Rightarrow> bool" where
  "resource_update_ok p \<longleftrightarrow>
     (case xu_label p of Some (Some l) \<Rightarrow> 1 \<le> length l \<and> length l \<le> 120 | _ \<Rightarrow> True) \<and>
     (case xu_capacity p of Some (Some c) \<Rightarrow> 0 \<le> c | _ \<Rightarrow> True) \<and>
     ((xu_latitude p = None) = (xu_longitude p = None)) \<and>
     (xu_latitude p \<noteq> None \<longrightarrow> (xu_latitude p = Some None) = (xu_longitude p = Some None))"

section \<open>Views\<close>

definition reservation_view :: "reservation \<Rightarrow> resource \<Rightarrow> reservation_response" where
  "reservation_view r res =
     \<lparr>vr_id = rv_id r, vr_resource_id = re_id res, vr_resource_code = re_code res,
      vr_date = rv_reserved_date r, vr_start = rv_time_window_start r,
      vr_end = rv_time_window_end r, vr_purpose = rv_purpose r, vr_quantity = rv_quantity r,
      vr_status = rv_status r, vr_requested_by_id = rv_requested_by_id r,
      vr_idempotency_key = rv_idempotency_key r, vr_external_ref = rv_external_ref r,
      vr_created_at = rv_created_at r, vr_cancelled_at = rv_cancelled_at r,
      vr_parent_reservation_id = rv_parent_reservation_id r\<rparr>"

text \<open>\<^verbatim>\<open>reservation_view(held, held.resource)\<close>.\<close>

definition own_view :: "database \<Rightarrow> reservation \<Rightarrow> walk_error + reservation_response" where
  "own_view db r = (case get_resource db (rv_resource_id r) of
     None \<Rightarrow> Inl Attribute_Error | Some res \<Rightarrow> Inr (reservation_view r res))"

definition children_of :: "database \<Rightarrow> int \<Rightarrow> reservation list" where
  "children_of db rid =
     sort_key rv_id (filter (\<lambda>r. rv_parent_reservation_id r = Some rid) (reservations db))"

definition created_view ::
  "database \<Rightarrow> reservation \<Rightarrow> resource \<Rightarrow> reservation list option \<Rightarrow> unmet_requirement list
   \<Rightarrow> walk_error + reservation_created" where
  "created_view db r res children unmet =
     bind_result (map_result (own_view db)
         (case children of None \<Rightarrow> children_of db (rv_id r) | Some cs \<Rightarrow> cs)) (\<lambda>views.
       Inr \<lparr>cr_reservation = reservation_view r res, cr_children = views, cr_unmet = unmet\<rparr>)"

section \<open>Resources\<close>

definition list_resources ::
  "database \<Rightarrow> string option \<Rightarrow> bool option \<Rightarrow> string option \<Rightarrow> page \<Rightarrow> resource list \<times> nat" where
  "list_resources db resource_type active code pg =
     page_rows pg re_code
       (filter (\<lambda>r. (case resource_type of None \<Rightarrow> True | Some t \<Rightarrow> re_resource_type r = t) \<and>
           (case active of None \<Rightarrow> True | Some a \<Rightarrow> re_active r = a) \<and>
           (case code of None \<Rightarrow> True | Some c \<Rightarrow> re_code r = strip c)) (resources db))"

definition list_reservations ::
  "database \<Rightarrow> user \<Rightarrow> string option \<Rightarrow> page \<Rightarrow> walk_error + reservation_response list" where
  "list_reservations db current_user external_ref pg =
     bind_result (case require_roles [ORG_ADMIN, UNIT_ADMIN] current_user of
         Inl e \<Rightarrow> Inl (Refused e) | Inr u \<Rightarrow> Inr u) (\<lambda>_.
     map_result (own_view db)
       (fst (page_rows pg rv_id
         (filter (\<lambda>r. rv_requested_by_id r = Some (us_id current_user) \<and>
             (case external_ref of None \<Rightarrow> True | Some x \<Rightarrow> rv_external_ref r = Some x))
           (reservations db)))))"

definition new_resource :: "database \<Rightarrow> resource_create \<Rightarrow> resource" where
  "new_resource db p =
     \<lparr>re_id = fresh_id (map re_id (resources db)), re_code = xc_code p,
      re_label = (case xc_label p of None \<Rightarrow> xc_code p | Some l \<Rightarrow> l),
      re_resource_type = xc_resource_type p, re_unit_code = xc_unit_code p,
      re_capacity = xc_capacity p, re_mode = xc_mode p, re_user_id = None,
      re_latitude = xc_latitude p, re_longitude = xc_longitude p,
      re_altitude_target = xc_altitude_target p, re_active = True\<rparr>"

definition create_resource ::
  "app_env \<Rightarrow> session \<Rightarrow> user \<Rightarrow> resource_create \<Rightarrow> (api_error + resource) \<times> session" where
  "create_resource env sess current_user p =
     (let db = working sess in
      case bind_result (require_roles [ORG_ADMIN] current_user)
             (\<lambda>_. require_active_class db (xc_resource_type p)) of
        Inl e \<Rightarrow> (Inl e, sess)
      | Inr _ \<Rightarrow>
          (let res = new_resource db p in
           if list_ex (\<lambda>r. re_code r = re_code res) (resources db)
           then (Inl (chronos_error 409 ALREADY_EXISTS
             (Msg ''a resource with that code already exists'')), db_rollback sess)
           else (Inr res, db_commit (sess\<lparr>working :=
             record_change env ''resource'' (re_id res) ''created''
               (db\<lparr>resources := resources db @ [res]\<rparr>)\<rparr>))))"

definition resource_or_404 :: "database \<Rightarrow> int \<Rightarrow> api_error + resource" where
  "resource_or_404 db rid = (case get_resource db rid of
     None \<Rightarrow> Inl (chronos_error 404 NOT_FOUND (Msg ''Resource not found'')) | Some r \<Rightarrow> Inr r)"

definition list_resource_requirements :: "database \<Rightarrow> int \<Rightarrow> api_error + resource_requirement list" where
  "list_resource_requirements db rid =
     bind_result (resource_or_404 db rid) (\<lambda>_. Inr (list_requirements db RESOURCE rid))"

definition create_resource_requirement ::
  "session \<Rightarrow> user \<Rightarrow> int \<Rightarrow> requirement_create \<Rightarrow> (api_error + resource_requirement) \<times> session" where
  "create_resource_requirement sess current_user rid p =
     (case bind_result (require_roles [ORG_ADMIN] current_user) (\<lambda>_. resource_or_404 (working sess) rid) of
        Inl e \<Rightarrow> (Inl e, sess) | Inr _ \<Rightarrow> add_requirement sess RESOURCE rid p)"

definition delete_resource_requirement ::
  "session \<Rightarrow> user \<Rightarrow> int \<Rightarrow> int \<Rightarrow> (api_error + unit) \<times> session" where
  "delete_resource_requirement sess current_user rid requirement_id =
     (case require_roles [ORG_ADMIN] current_user of
        Inl e \<Rightarrow> (Inl e, sess) | Inr _ \<Rightarrow> delete_requirement sess RESOURCE rid requirement_id)"

section \<open>Availability\<close>

record availability_response =
  av_resource_id :: int
  av_code :: string
  av_from :: date
  av_to :: date
  av_busy :: "busy_interval list"
  av_requirements_met :: "bool option"
  av_unmet :: "unmet_requirement list"

definition busy_of :: "app_env \<Rightarrow> database \<Rightarrow> resource \<Rightarrow> date \<Rightarrow> date \<Rightarrow> busy_interval list" where
  "busy_of env db res from_date to_date =
     (let holds = held_reservations db (re_id res) from_date to_date;
          busy = occupied (env_rrule env) db (booked_slots db (re_id res))
            (if re_mode res = EXCLUSIVE then holds else [])
            (booked_days db (re_id res) from_date to_date) from_date to_date
      in if re_mode res = POOLED
         then sort_key busy_key (busy @ full_intervals holds (the (re_capacity res)) from_date to_date)
         else busy)"

definition resource_availability ::
  "app_env \<Rightarrow> database \<Rightarrow> int \<Rightarrow> date \<Rightarrow> date \<Rightarrow> bool \<Rightarrow> time_of_day option \<Rightarrow> time_of_day option
   \<Rightarrow> walk_error + availability_response" where
  "resource_availability env db resource_id from_date to_date with_requirements start stop =
     (case get_resource db resource_id of
        None \<Rightarrow> Inl (Refused (chronos_error 404 NOT_FOUND (Msg ''Resource not found'')))
      | Some res \<Rightarrow>
          if with_requirements \<and> (start = None \<or> stop = None \<or> from_date \<noteq> to_date \<or> start = stop)
          then Inl (Refused (chronos_error 422 INVALID_VALUE
            (Msg ''with_requirements needs from equal to to, and a start and an end that differ'')))
          else if from_date > to_date
          then Inl (Refused (chronos_error 422 INVALID_VALUE (Msg ''from must not be after to'')))
          else if to_date - from_date + 1 > MAX_RANGE_DAYS
          then Inl (Refused (chronos_error 422 INVALID_VALUE
            (Msg ''the range must not exceed 366 days'')))
          else
            (let answer = \<lparr>av_resource_id = re_id res, av_code = re_code res, av_from = from_date,
                   av_to = to_date, av_busy = busy_of env db res from_date to_date,
                   av_requirements_met = None, av_unmet = []\<rparr>
             in if \<not> with_requirements then Inr answer
                else
                  (let w = (from_date, the start, the stop) in
                   bind_result (resolve env db [(RESOURCE, re_id res)] w {re_id res} None None [])
                     (\<lambda>run. Inr (answer\<lparr>av_requirements_met :=
                          Some (rn_unmet run = [] \<and> free_for env db res w),
                          av_unmet := rn_unmet run\<rparr>)))))"

section \<open>Changing a resource\<close>

definition meet :: "span \<Rightarrow> span \<Rightarrow> bool" where
  "meet first second \<longleftrightarrow> fst first < snd second \<and> fst second < snd first"

definition min_list1 :: "int list \<Rightarrow> int" where
  "min_list1 xs = foldl min (hd xs) (tl xs)"

definition max_list1 :: "int list \<Rightarrow> int" where
  "max_list1 xs = foldl max (hd xs) (tl xs)"

definition would_not_fit ::
  "app_env \<Rightarrow> database \<Rightarrow> int \<Rightarrow> resource_mode \<Rightarrow> int option \<Rightarrow> reservation list \<Rightarrow> reservation list" where
  "would_not_fit env db resource_id mode capacity holds =
     (if mode = SHARED \<or> holds = [] then []
      else
        (let first = min_list1 (map rv_reserved_date holds);
             final = max_list1 (map (\<lambda>h. date_of (snd (held_span h))) holds);
             lessons = occupied (env_rrule env) db (booked_slots db resource_id) []
               (booked_days db resource_id first final) first final;
             on_timetable = set (map rv_id (filter (\<lambda>h. clashing lessons (rv_reserved_date h)
               (rv_time_window_start h) (rv_time_window_end h) \<noteq> []) holds));
             misfits = set (map rv_id (filter (\<lambda>h.
               if mode = EXCLUSIVE
               then rv_quantity h > 1 \<or>
                 list_ex (\<lambda>other. rv_id other \<noteq> rv_id h \<and> meet (held_span h) (held_span other)) holds
               else list_ex (\<lambda>stretch. meet (held_span h) stretch)
                 (pool_stretches holds (the capacity + 1))) holds))
         in filter (\<lambda>h. rv_id h \<in> on_timetable \<union> misfits) holds))"

definition patched :: "'a patch \<Rightarrow> 'a \<Rightarrow> 'a" where
  "patched field old = (case field of None \<Rightarrow> old | Some v \<Rightarrow> v)"

text \<open>\<^verbatim>\<open>setattr(resource, field, value)\<close> for every field sent; the two columns that may not be null come with their rule.\<close>

definition patch_resource :: "resource_update \<Rightarrow> resource \<Rightarrow> resource" where
  "patch_resource p r = r\<lparr>
     re_label := (case xu_label p of Some (Some l) \<Rightarrow> l | _ \<Rightarrow> re_label r),
     re_capacity := patched (xu_capacity p) (re_capacity r),
     re_mode := patched (xu_mode p) (re_mode r),
     re_latitude := patched (xu_latitude p) (re_latitude r),
     re_longitude := patched (xu_longitude p) (re_longitude r),
     re_altitude_target := patched (xu_altitude_target p) (re_altitude_target r),
     re_active := (case xu_active p of Some (Some a) \<Rightarrow> a | _ \<Rightarrow> re_active r)\<rparr>"

definition nulls_out :: "resource_update \<Rightarrow> bool" where
  "nulls_out p \<longleftrightarrow> xu_label p = Some None \<or> xu_active p = Some None"

text \<open>The exclusion constraint over a whole table, as the commit of updated rows checks it.\<close>

definition table_overlaps :: "reservation list \<Rightarrow> bool" where
  "table_overlaps rows \<longleftrightarrow> list_ex (\<lambda>(x, y). excludes x \<and> excludes y \<and>
     rv_resource_id x = rv_resource_id y \<and> ranges_overlap (sql_span x) (sql_span y)) (pairs rows)"

definition to_come :: "app_env \<Rightarrow> database \<Rightarrow> int \<Rightarrow> reservation list" where
  "to_come env db resource_id =
     sort_key rv_id (filter (\<lambda>r. rv_resource_id r = resource_id \<and> rv_status r = HELD \<and>
       rv_reserved_date r \<ge> env_today env - 1) (reservations db))"

definition update_resource ::
  "app_env \<Rightarrow> session \<Rightarrow> user \<Rightarrow> int \<Rightarrow> resource_update \<Rightarrow> (walk_error + resource) \<times> session" where
  "update_resource env sess current_user resource_id p =
     (let db = working sess in
      case bind_result (require_roles [ORG_ADMIN] current_user) (\<lambda>_. resource_or_404 db resource_id) of
        Inl e \<Rightarrow> (Inl (Refused e), sess)
      | Inr res \<Rightarrow>
          (let mode = patched (xu_mode p) (re_mode res);
               capacity = patched (xu_capacity p) (re_capacity res);
               held = to_come env db resource_id;
               changes = (mode \<noteq> re_mode res \<or> (mode = POOLED \<and> capacity \<noteq> re_capacity res));
               misfits = would_not_fit env db resource_id mode capacity held
           in if mode = POOLED \<and> (capacity = None \<or> capacity = Some 0)
              then (Inl (Refused (chronos_error 422 INVALID_VALUE
                (Msg ''a POOLED resource needs a capacity of at least 1''))), sess)
              else if changes \<and> misfits \<noteq> []
              then (Inl (Refused (chronos_error 409 RESOURCE_BOOKINGS_WOULD_NOT_FIT
                (Msg_Reservations
                  ''bookings still to come would not fit the resource after that change'' misfits))), sess)
              else
                (let rows = (if mode \<noteq> re_mode res
                       then update_rows (\<lambda>r. r \<in> set held) (\<lambda>r. r\<lparr>rv_mode := mode\<rparr>) (reservations db)
                       else reservations db);
                     res' = patch_resource p res;
                     db' = record_change env ''resource'' (re_id res) ''updated''
                       (db\<lparr>reservations := rows,
                          resources := update_rows (\<lambda>r. re_id r = resource_id) (\<lambda>_. res') (resources db)\<rparr>)
                 in if nulls_out p then (Inl (Integrity Not_Null_Violation), db_rollback sess)
                    else if env_backend env = PostgreSQL \<and> table_overlaps rows
                    then (Inl (Refused (chronos_error 409 RESOURCE_BOOKINGS_WOULD_NOT_FIT
                      (Msg_Reservations
                        ''bookings still to come would not fit the resource after that change'' []))),
                      db_rollback sess)
                    else (Inr res', db_commit (sess\<lparr>working := db'\<rparr>)))))"

section \<open>Booking\<close>

definition chosen_text :: "(string \<times> int list) list \<Rightarrow> string" where
  "chosen_text a = join_with '';'' (map (\<lambda>(kind, ids).
     kind @ '':'' @ join_with '','' (map show_int ids)) (sort_key fst a))"

definition fingerprint_parts :: "int \<Rightarrow> reservation_create \<Rightarrow> string list" where
  "fingerprint_parts resource_id p =
     [show_int resource_id, iso_date (pc_date p), iso_time (pc_start p), iso_time (pc_end p),
      strip (pc_purpose p)] @
     (case pc_external_ref p of None \<Rightarrow> [] | Some x \<Rightarrow> [x]) @
     (case pc_quantity_set p of None \<Rightarrow> [] | Some q \<Rightarrow> [''quantity='' @ show_int q]) @
     (case pc_assignments p of None \<Rightarrow> [] | Some [] \<Rightarrow> []
      | Some a \<Rightarrow> [''assignments='' @ chosen_text a])"

definition fingerprint :: "app_env \<Rightarrow> int \<Rightarrow> reservation_create \<Rightarrow> string" where
  "fingerprint env resource_id p = env_sha256 env (join_with ''|'' (fingerprint_parts resource_id p))"

definition conflicts_for ::
  "app_env \<Rightarrow> database \<Rightarrow> int \<Rightarrow> reservation_create \<Rightarrow> bool \<Rightarrow> busy_interval list" where
  "conflicts_for env db resource_id p holds =
     window_conflicts (env_rrule env) db resource_id (pc_date p) (pc_start p) (pc_end p) holds"

definition already_taken :: "busy_interval list \<Rightarrow> api_error" where
  "already_taken conflicts = chronos_error 409 RESOURCE_CONFLICT
     (Msg_Conflicts ''the resource is already taken for part of that window'' conflicts)"

definition ref_taken :: "reservation \<Rightarrow> api_error" where
  "ref_taken existing = chronos_error 409 RESERVATION_EXTERNAL_REF_TAKEN
     (Msg_Reservation ''a reservation of yours already has that external_ref'' (rv_id existing))"

definition key_reused :: api_error where
  "key_reused = chronos_error 422 IDEMPOTENCY_KEY_REUSED
     (Msg ''that Idempotency-Key was used for a different request'')"

definition pool_check :: "app_env \<Rightarrow> database \<Rightarrow> resource \<Rightarrow> reservation_create \<Rightarrow> api_error + unit" where
  "pool_check env db res p =
     (let final = last_date (pc_date p) (pc_start p) (pc_end p) in
      case pool_state db (re_id res) (pc_date p) (pc_start p) (pc_end p) of (taken, holds) \<Rightarrow>
        if taken + pc_quantity p > the (re_capacity res)
        then Inl (chronos_error 409 RESOURCE_CAPACITY_EXCEEDED
          (Msg_Capacity ''the resource does not have that many units left for that window''
            (occupied (env_rrule env) db [] holds [] (pc_date p) final)
            (the (re_capacity res)) taken (pc_quantity p)))
        else Inr ())"

definition by_key :: "database \<Rightarrow> string \<Rightarrow> string \<Rightarrow> reservation option" where
  "by_key db requester_id key =
     find (\<lambda>r. rv_requested_by_id r = Some requester_id \<and> rv_idempotency_key r = key) (reservations db)"

definition by_ref :: "database \<Rightarrow> string \<Rightarrow> string \<Rightarrow> reservation option" where
  "by_ref db requester_id ref =
     find (\<lambda>r. rv_requested_by_id r = Some requester_id \<and> rv_external_ref r = Some ref) (reservations db)"

text \<open>The checks between the key and the insert, in their order; the assignments that come out are the checked ones.\<close>

definition booking_checks ::
  "app_env \<Rightarrow> database \<Rightarrow> user \<Rightarrow> resource \<Rightarrow> reservation_create
   \<Rightarrow> api_error + (string \<times> int list) list" where
  "booking_checks env db current_user res p =
     bind_result (case pc_external_ref p of None \<Rightarrow> Inr ()
       | Some ref \<Rightarrow> (case by_ref db (us_id current_user) ref of
           None \<Rightarrow> Inr () | Some taken \<Rightarrow> Inl (ref_taken taken))) (\<lambda>_.
     bind_result (if pc_quantity p > 1 \<and> re_mode res \<noteq> POOLED
       then Inl (chronos_error 422 INVALID_VALUE (Msg ''quantity above 1 needs a POOLED resource''))
       else Inr ()) (\<lambda>_.
     bind_result (check_assignments db (case pc_assignments p of None \<Rightarrow> [] | Some a \<Rightarrow> a))
       (\<lambda>assignments.
     bind_result (if re_mode res \<noteq> SHARED
       then (let conflicts = conflicts_for env db (re_id res) p (re_mode res = EXCLUSIVE) in
             if conflicts \<noteq> [] then Inl (already_taken conflicts) else Inr ())
       else Inr ()) (\<lambda>_.
     bind_result (if re_mode res = POOLED then pool_check env db res p else Inr ()) (\<lambda>_.
     Inr assignments)))))"

definition new_reservation ::
  "app_env \<Rightarrow> resource \<Rightarrow> user \<Rightarrow> reservation_create \<Rightarrow> string \<Rightarrow> reservation" where
  "new_reservation env res current_user p key =
     \<lparr>rv_id = 0, rv_resource_id = re_id res, rv_reserved_date = pc_date p,
      rv_time_window_start = pc_start p, rv_time_window_end = pc_end p,
      rv_purpose = strip (pc_purpose p), rv_requested_by_id = Some (us_id current_user),
      rv_idempotency_key = key, rv_request_fingerprint = fingerprint env (re_id res) p,
      rv_external_ref = pc_external_ref p, rv_quantity = pc_quantity p, rv_mode = re_mode res,
      rv_status = HELD, rv_created_at = env_now env, rv_cancelled_at = None,
      rv_parent_reservation_id = None\<rparr>"

type_synonym booking_answer = "(walk_error + (int \<times> reservation_created)) \<times> session"

definition replay :: "session \<Rightarrow> reservation \<Rightarrow> resource \<Rightarrow> booking_answer" where
  "replay sess seen res =
     (bind_result (created_view (working sess) seen res None []) (\<lambda>v. Inr (200, v)), sess)"

text \<open>The insert was refused by a constraint: \<^verbatim>\<open>lost(exc)\<close>.\<close>

definition lost ::
  "app_env \<Rightarrow> session \<Rightarrow> user \<Rightarrow> resource \<Rightarrow> reservation_create \<Rightarrow> string \<Rightarrow> integrity_error
   \<Rightarrow> booking_answer" where
  "lost env sess0 current_user res p key exc =
     (let sess = db_rollback sess0; db = working sess; won = by_key db (us_id current_user) key in
      if exc = Overlap_Violation
      then (Inl (Refused (already_taken (conflicts_for env db (re_id res) p True))), sess)
      else case (won, Option.bind (pc_external_ref p) (by_ref db (us_id current_user))) of
        (None, Some taken) \<Rightarrow> (Inl (Refused (ref_taken taken)), sess)
      | (None, None) \<Rightarrow> (Inl (Refused key_reused), sess)
      | (Some w, _) \<Rightarrow>
          if rv_request_fingerprint w \<noteq> fingerprint env (re_id res) p
          then (Inl (Refused key_reused), sess) else replay sess w res)"

text \<open>The insert, the holds it requires and the commit.\<close>

definition book ::
  "app_env \<Rightarrow> session \<Rightarrow> user \<Rightarrow> resource \<Rightarrow> reservation_create \<Rightarrow> string
   \<Rightarrow> (string \<times> int list) list \<Rightarrow> booking_answer" where
  "book env sess current_user res p key assignments =
     (case insert_reservation (env_backend env) (working sess)
             (new_reservation env res current_user p key) of
        Inl exc \<Rightarrow> lost env sess current_user res p key exc
      | Inr (row, db1) \<Rightarrow>
          (let db2 = record_change env ''reservation'' (rv_id row) ''created'' db1 in
           case resolve env db2 [(RESOURCE, re_id res)] (pc_date p, pc_start p, pc_end p)
                  {re_id res} (Some row) (Some (us_id current_user)) assignments of
             Inl (Integrity Overlap_Violation) \<Rightarrow>
               (Inl (Refused (chronos_error 409 REQUIREMENT_UNSATISFIED
                 (Msg_Conflicts ''a required resource was taken while it was being held'' []))),
                db_rollback sess)
           | Inl e \<Rightarrow> (Inl e, db_rollback sess)
           | Inr run \<Rightarrow>
               (let done_sess = db_commit (sess\<lparr>working := rn_db run\<rparr>) in
                (bind_result (created_view (working done_sess) row res (Some (rn_children run)) (rn_unmet run))
                   (\<lambda>v. Inr (201, v)), done_sess))))"

text \<open>The resource, for a caller who may hold it.\<close>

definition bookable :: "database \<Rightarrow> user \<Rightarrow> int \<Rightarrow> api_error + resource" where
  "bookable db current_user resource_id =
     bind_result (require_roles [ORG_ADMIN, UNIT_ADMIN] current_user) (\<lambda>_.
     bind_result (resource_or_404 db resource_id) (\<lambda>res.
     bind_result (ensure_resource_scope current_user res) (\<lambda>_. Inr res)))"

definition create_reservation ::
  "app_env \<Rightarrow> (database \<Rightarrow> database) \<Rightarrow> session \<Rightarrow> user \<Rightarrow> int \<Rightarrow> reservation_create \<Rightarrow> string
   \<Rightarrow> booking_answer" where
  "create_reservation env others sess current_user resource_id p key =
     (let db = working sess in
      case bookable db current_user resource_id of
        Inl e \<Rightarrow> (Inl (Refused e), sess)
      | Inr res \<Rightarrow>
          (case by_key db (us_id current_user) key of
             Some seen \<Rightarrow>
               if rv_request_fingerprint seen \<noteq> fingerprint env resource_id p
               then (Inl (Refused key_reused), sess) else replay sess seen res
           | None \<Rightarrow>
               (case booking_checks env db current_user res p of
                  Inl e \<Rightarrow> (Inl (Refused e), sess)
                | Inr assignments \<Rightarrow>
                    book env (open_session (others (committed sess))) current_user res p key assignments)))"

section \<open>Changing and cancelling a booking\<close>

definition changeable ::
  "database \<Rightarrow> int \<Rightarrow> int \<Rightarrow> user \<Rightarrow> string \<Rightarrow> api_error + reservation" where
  "changeable db resource_id reservation_id current_user refusal =
     (case find (\<lambda>r. rv_id r = reservation_id \<and> rv_resource_id r = resource_id) (reservations db) of
        None \<Rightarrow> Inl (chronos_error 404 NOT_FOUND (Msg ''Reservation not found''))
      | Some r \<Rightarrow>
          if us_role_type current_user \<noteq> ORG_ADMIN \<and> rv_requested_by_id r \<noteq> Some (us_id current_user)
          then Inl (chronos_error 403 FORBIDDEN (Msg refusal)) else Inr r)"

definition update_reservation ::
  "app_env \<Rightarrow> (database \<Rightarrow> database) \<Rightarrow> session \<Rightarrow> user \<Rightarrow> int \<Rightarrow> int \<Rightarrow> string option patch
   \<Rightarrow> (walk_error + reservation_response) \<times> session" where
  "update_reservation env others sess current_user resource_id reservation_id external_ref =
     (let db = working sess in
      case bind_result (require_roles [ORG_ADMIN, UNIT_ADMIN] current_user) (\<lambda>_.
           changeable db resource_id reservation_id current_user
             ''only the caller that took a hold may change it'') of
        Inl e \<Rightarrow> (Inl (Refused e), sess)
      | Inr r \<Rightarrow>
          (case external_ref of
             None \<Rightarrow> (own_view db r, sess)
           | Some ref \<Rightarrow>
               if ref = rv_external_ref r then (own_view db r, sess)
               else
                 (let taken_in = (\<lambda>d. case (ref, rv_requested_by_id r) of
                         (Some x, Some requester) \<Rightarrow> by_ref d requester x | _ \<Rightarrow> None)
                  in case taken_in db of
                       Some taken \<Rightarrow> (Inl (Refused (ref_taken taken)), sess)
                     | None \<Rightarrow>
                         (let sess1 = open_session (others (committed sess)) in
                          if (case (ref, rv_requested_by_id r) of
                                (Some x, Some requester) \<Rightarrow> list_ex (\<lambda>y. rv_id y \<noteq> rv_id r \<and>
                                  rv_requested_by_id y = Some requester \<and> rv_external_ref y = Some x)
                                  (reservations (working sess1))
                              | _ \<Rightarrow> False)
                          then (case taken_in (working sess1) of
                                  Some taken \<Rightarrow> (Inl (Refused (ref_taken taken)), db_rollback sess1)
                                | None \<Rightarrow> (Inl (Integrity Ref_Violation), db_rollback sess1))
                          else
                              (let db1 = working sess1;
                                   db2 = record_change env ''reservation'' (rv_id r) ''updated''
                                     (db1\<lparr>reservations := update_rows (\<lambda>x. rv_id x = rv_id r)
                                        (\<lambda>x. x\<lparr>rv_external_ref := ref\<rparr>) (reservations db1)\<rparr>)
                               in (own_view db2 (r\<lparr>rv_external_ref := ref\<rparr>),
                                   db_commit (sess1\<lparr>working := db2\<rparr>)))))))"

definition cancelled :: "instant \<Rightarrow> reservation \<Rightarrow> reservation" where
  "cancelled moment r = r\<lparr>rv_status := CANCELLED, rv_cancelled_at := Some moment\<rparr>"

definition held_children :: "database \<Rightarrow> int \<Rightarrow> reservation list" where
  "held_children db rid = sort_key rv_id
     (filter (\<lambda>r. rv_parent_reservation_id r = Some rid \<and> rv_status r = HELD) (reservations db))"

definition cancel_rows :: "app_env \<Rightarrow> reservation \<Rightarrow> database \<Rightarrow> database" where
  "cancel_rows env r db =
     (let hit = set (map rv_id (r # held_children db (rv_id r)));
          db1 = db\<lparr>reservations := update_rows (\<lambda>x. rv_id x \<in> hit) (cancelled (env_now env)) (reservations db)\<rparr>
      in fold (\<lambda>x. record_change env ''reservation'' (rv_id x) ''updated'')
           (r # held_children db (rv_id r)) db1)"

definition cancel_reservation ::
  "app_env \<Rightarrow> session \<Rightarrow> user \<Rightarrow> int \<Rightarrow> int \<Rightarrow> (walk_error + reservation_response) \<times> session" where
  "cancel_reservation env sess current_user resource_id reservation_id =
     (let db = working sess in
      case bind_result (require_roles [ORG_ADMIN, UNIT_ADMIN] current_user) (\<lambda>_.
           changeable db resource_id reservation_id current_user
             ''only the caller that took a hold may cancel it'') of
        Inl e \<Rightarrow> (Inl (Refused e), sess)
      | Inr r \<Rightarrow>
          if rv_status r = CANCELLED then (own_view db r, sess)
          else
            (let db2 = cancel_rows env r db
             in (own_view db2 (cancelled (env_now env) r), db_commit (sess\<lparr>working := db2\<rparr>))))"

end
