(* ===== verification/Requirements_Props.thy ===== *)
theory Requirements_Props
  imports Requirements Booking_Rules
begin

text \<open>
  What \<^verbatim>\<open>services/requirements.py\<close> promises. The graph search of \<open>would_cycle\<close> is reachability
  in the graph of named requirements, so saving a requirement keeps that graph acyclic. The
  walk keeps the rules of the tables it writes to: each is an invariant of its four elementary
  steps (recording a gap, popping an assignment, padding a window, taking a hold), and the
  locale \<open>walk_invariant\<close> carries it through the loops and the recursion once.
\<close>

section \<open>Cycles\<close>

definition named_edges :: "database \<Rightarrow> (int \<times> int) set" where
  "named_edges db = {(here, t). t \<in> set (named_targets db here)}"

lemma leaves_seen:
  assumes "(s, owner) \<in> E\<^sup>*" and "s \<in> seen" and "owner \<notin> seen"
    and "\<forall>s \<in> seen. E `` {s} \<subseteq> seen \<union> T"
  shows "\<exists>t \<in> T. (t, owner) \<in> E\<^sup>*"
  using assms by (induction rule: converse_rtrancl_induct) blast+

lemma would_cycle_loop_reaches:
  assumes "owner \<notin> seen" and "\<forall>s \<in> seen. named_edges db `` {s} \<subseteq> seen \<union> set todo"
  shows "would_cycle_loop db owner seen todo \<longleftrightarrow> (\<exists>t \<in> set todo. (t, owner) \<in> (named_edges db)\<^sup>*)"
  using assms
proof (induction db owner seen todo rule: would_cycle_loop.induct)
  case (2 db owner seen here todo)
  let ?E = "named_edges db"
  consider "here = owner" | "here \<noteq> owner" "here \<in> seen" | "here \<noteq> owner" "here \<notin> seen" by blast
  then show ?case
  proof cases
    case 2
    then have closed: "\<forall>s \<in> seen. ?E `` {s} \<subseteq> seen \<union> set todo" using "2.prems"(2) by auto
    have "\<exists>t \<in> set todo. (t, owner) \<in> ?E\<^sup>*" if "(here, owner) \<in> ?E\<^sup>*"
      using leaves_seen[OF that] 2 "2.prems"(1) closed by blast
    with "2.IH"(1)[OF 2 "2.prems"(1) closed] 2 show ?thesis by auto
  next
    case 3
    have succ: "?E `` {here} = set (named_targets db here)" by (auto simp: named_edges_def)
    have "would_cycle_loop db owner (insert here seen) (rev (named_targets db here) @ todo) \<longleftrightarrow>
        (\<exists>t \<in> set (rev (named_targets db here) @ todo). (t, owner) \<in> ?E\<^sup>*)"
      using 3 "2.prems" succ by (intro "2.IH"(2)) auto
    moreover have "(here, owner) \<in> ?E\<^sup>* \<longleftrightarrow> (\<exists>t \<in> set (named_targets db here). (t, owner) \<in> ?E\<^sup>*)"
      using 3 succ by (blast elim: converse_rtranclE intro: converse_rtrancl_into_rtrancl)
    ultimately show ?thesis using 3 by auto
  qed auto
qed simp

lemma would_cycle_iff:
  "would_cycle db owner target \<longleftrightarrow> (target, owner) \<in> (named_edges db)\<^sup>*"
  using would_cycle_loop_reaches[of owner "{}" db "[target]"] by (simp add: would_cycle_def)

lemma named_edges_iff:
  "(a, b) \<in> named_edges db \<longleftrightarrow> (\<exists>q \<in> set (resource_requirements db). rq_owner_kind q = RESOURCE \<and>
     rq_owner_id q = a \<and> rq_target_resource_id q = Some b)"
  by (force simp: named_edges_def named_targets_def List.map_filter_def)

section \<open>Padding\<close>

definition span_of :: "window \<Rightarrow> span" where
  "span_of w = (case w of (d, s, e) \<Rightarrow> window_span d s e)"

definition good_window :: "window \<Rightarrow> bool" where
  "good_window w \<longleftrightarrow> (case w of (d, s, e) \<Rightarrow> valid_window s e)"

lemma good_padded: "padded w b a = Some w' \<Longrightarrow> good_window w \<Longrightarrow> good_window w'"
  by (auto simp: padded_def good_window_def Let_def valid_window_def split: if_splits prod.splits)

text \<open>
  The end of a padded window, read back, is the padded end exactly when less than a day lies
  between the two ends.
\<close>

lemma window_of_instants:
  assumes "date_of i = d" and "i < j" and "time_of i \<noteq> time_of j"
  shows "window_span d (time_of i) (time_of j) = (i, j) \<longleftrightarrow> j - i < day_us"
proof -
  have v: "valid_time (time_of i)" "valid_time (time_of j)" by simp_all
  have fst: "fst (window_span d (time_of i) (time_of j)) = i"
    using combine_date_time[of i] assms(1) by (simp add: span_simps)
  have len: "snd (window_span d (time_of i) (time_of j)) < i + day_us"
    "i < snd (window_span d (time_of i) (time_of j))"
    using window_span_length[OF v assms(3), of d] fst by auto
  show ?thesis
  proof
    assume "window_span d (time_of i) (time_of j) = (i, j)"
    with len show "j - i < day_us" by simp
  next
    assume short: "j - i < day_us"
    let ?k = "snd (window_span d (time_of i) (time_of j))"
    have "time_of ?k = time_of j" by (simp add: span_simps)
    then have "day_us dvd ?k - j" by (simp add: time_of_def mod_eq_dvd_iff)
    moreover have "\<bar>?k - j\<bar> < day_us" using len short assms(2) by auto
    ultimately have "?k = j" using dvd_imp_le_int[of "?k - j" day_us] by auto
    with fst show "window_span d (time_of i) (time_of j) = (i, j)" by (simp add: prod_eq_iff)
  qed
qed

lemma padded_span_iff:
  assumes "good_window w" and "0 \<le> b" and "0 \<le> a" and "padded w b a = Some w'"
  shows "span_of w' = (fst (span_of w) - b * minute_us, snd (span_of w) + a * minute_us) \<longleftrightarrow>
    snd (span_of w) + a * minute_us - (fst (span_of w) - b * minute_us) < day_us"
proof (cases "b = 0 \<and> a = 0")
  case True
  obtain d s e where w: "w = (d, s, e)" by (cases w)
  with assms(1) have "snd (window_span d s e) < fst (window_span d s e) + day_us"
    by (intro window_span_length(2)) (auto simp: good_window_def valid_window_def)
  with True assms(4) w show ?thesis by (auto simp: padded_def span_of_def)
next
  case False
  obtain d s e where w: "w = (d, s, e)" by (cases w)
  let ?i = "fst (span_of w) - b * minute_us" and ?j = "snd (span_of w) + a * minute_us"
  from assms(4) False have w': "w' = (d, time_of ?i, time_of ?j)" "time_of ?i \<noteq> time_of ?j"
    and open_day: "combine d 0 \<le> ?i"
    by (auto simp: padded_def w span_of_def Let_def split: if_splits prod.splits)
  have v: "valid_time s" "valid_time e" "s \<noteq> e"
    using assms(1) by (auto simp: w good_window_def valid_window_def)
  have m: "0 \<le> b * minute_us" "0 \<le> a * minute_us" using assms(2,3) by (simp_all add: minute_us_def)
  have "?i \<le> combine d s" using m by (simp add: w span_of_def span_simps)
  then have "date_of ?i \<le> d" using date_of_mono[of ?i "combine d s"] v by simp
  moreover have "d \<le> date_of ?i"
    using date_of_mono[OF open_day] by (simp add: valid_time_def)
  ultimately have "date_of ?i = d" by simp
  moreover have "?i < ?j" using window_span_length(1)[OF v, of d] m by (simp add: w span_of_def)
  ultimately show ?thesis using window_of_instants[of ?i d ?j] w' by (simp add: span_of_def)
qed

section \<open>Invariants of the walk\<close>

lemma list_requirements_subset:
  "q \<in> set (list_requirements db k i) \<Longrightarrow> q \<in> set (resource_requirements db)"
  by (simp add: list_requirements_def)

lemma target_of_Some: "target_of db rid = Some res \<Longrightarrow> get_resource db (re_id res) = Some res"
  by (auto simp: target_of_def dest: get_resource_Some split: if_splits)

locale walk_invariant =
  fixes env :: app_env and I :: "run \<Rightarrow> bool" and Q :: "window \<Rightarrow> bool"
  assumes miss_keeps: "I run \<Longrightarrow> miss run q m c n = Inr run' \<Longrightarrow> I run'"
    and pop_keeps: "I run \<Longrightarrow> I (pop_assigned run kind)"
    and pad_keeps: "I run \<Longrightarrow> q \<in> set (resource_requirements (rn_db run)) \<Longrightarrow> Q w \<Longrightarrow>
      padded w (rq_before_minutes q) (rq_after_minutes q) = Some w' \<Longrightarrow> Q w'"
    and hold_keeps: "I run \<Longrightarrow> Q w \<Longrightarrow> get_resource (rn_db run) (re_id res) = Some res \<Longrightarrow>
      re_id res \<notin> rn_used run \<Longrightarrow> problem env (rn_db run) res w n = None \<Longrightarrow>
      n = 1 \<or> re_mode res = POOLED \<Longrightarrow> hold env run res w n = Inr run' \<Longrightarrow> I run'"
    and requirements_kept: "I run \<Longrightarrow> I run' \<Longrightarrow>
      resource_requirements (rn_db run') = resource_requirements (rn_db run)"
begin

definition deeper_keeps :: "recurse \<Rightarrow> bool" where
  "deeper_keeps deeper \<longleftrightarrow> (\<forall>run rid w run'. I run \<longrightarrow> Q w \<longrightarrow> deeper run rid w = Inr run' \<longrightarrow> I run')"

lemma deeper_keepsD:
  "deeper_keeps deeper \<Longrightarrow> I run \<Longrightarrow> Q w \<Longrightarrow> deeper run rid w = Inr run' \<Longrightarrow> I run'"
  unfolding deeper_keeps_def by blast

lemma named_step_keeps:
  assumes "deeper_keeps deeper" and "I run" and "Q w"
    and "\<And>res. target = Some res \<Longrightarrow> get_resource (rn_db run) (re_id res) = Some res"
    and "named_step env deeper run row target w = Inr run'"
  shows "I run'"
  using assms(4,5)
  by (auto simp: named_step_def Let_def result_simps split: option.splits if_splits
      intro: miss_keeps[OF assms(2)] deeper_keepsD[OF assms(1) _ assms(3)] hold_keeps[OF assms(2,3)])

lemma kind_wanted_keeps:
  assumes "deeper_keeps deeper" and "Q w"
  shows "I run \<Longrightarrow> kind_wanted env deeper kind w n run got seen = Inr (run', got', seen') \<Longrightarrow> I run'"
proof (induction n arbitrary: run got seen)
  case (Suc n)
  show ?case
  proof (cases "assigned_for run kind")
    case (Cons rid ids)
    let ?run = "pop_assigned run kind"
    have I1: "I ?run" by (rule pop_keeps[OF Suc.prems(1)])
    obtain res where res: "get_resource (rn_db ?run) rid = Some res"
      using Suc.prems(2) Cons by (auto simp: Let_def split: option.splits)
    show ?thesis
    proof (cases "if re_id res \<in> rn_used ?run
        then Some (re_code res @ '' is already used by this booking'', [])
        else problem env (rn_db ?run) res w 1")
      case None
      then obtain run2 run3 where "hold env ?run res w 1 = Inr run2"
        and "deeper run2 (re_id res) w = Inr run3"
        and rest: "kind_wanted env deeper kind w n run3 (got + 1) seen = Inr (run', got', seen')"
        using Suc.prems(2) Cons res by (auto simp: result_simps)
      then have "I run3"
        using deeper_keepsD[OF assms(1) _ assms(2)] hold_keeps[OF I1 assms(2)] None res
        by (metis get_resource_Some option.distinct(1))
      with rest show ?thesis by (rule Suc.IH[rotated])
    next
      case (Some p)
      then show ?thesis
        using Suc.prems(2) Cons res Suc.IH[OF I1] by auto
    qed
  qed (use Suc.prems in simp)
qed simp

lemma kind_pick_keeps:
  assumes "deeper_keeps deeper" and "Q w"
  shows "I run \<Longrightarrow> kind_pick env deeper w need cs run got = Inr (run', got') \<Longrightarrow> I run'"
proof (induction cs arbitrary: run got)
  case (Cons c cs)
  show ?case
  proof (cases "need \<le> got \<or> c \<in> rn_used run \<or> c \<in> rn_named run")
    case True
    then show ?thesis using Cons by (auto split: if_splits)
  next
    case False
    then obtain res where res: "get_resource (rn_db run) c = Some res"
      using Cons.prems(2) by (auto split: option.splits)
    show ?thesis
    proof (cases "problem env (rn_db run) res w 1")
      case None
      then obtain run2 run3 where "hold env run res w 1 = Inr run2"
        and "deeper run2 (re_id res) w = Inr run3"
        and rest: "kind_pick env deeper w need cs run3 (got + 1) = Inr (run', got')"
        using Cons.prems(2) False res by (auto simp: result_simps)
      then have "I run3"
        using deeper_keepsD[OF assms(1) _ assms(2)] hold_keeps[OF Cons.prems(1) assms(2)] None res False
        by (metis get_resource_Some)
      with rest show ?thesis by (rule Cons.IH[rotated])
    next
      case (Some p)
      then show ?thesis using Cons False res by auto
    qed
  qed
qed simp

lemma kind_step_keeps:
  assumes "deeper_keeps deeper" and "I run" and "Q w"
    and "kind_step env deeper run row kind w = Inr run'"
  shows "I run'"
proof -
  from assms(4) obtain run1 got1 seen
    where w1: "kind_wanted env deeper kind w (nat (rq_quantity row)) run 0 [] = Inr (run1, got1, seen)"
    by (auto simp: kind_step_def result_simps)
  have I1: "I run1" by (rule kind_wanted_keeps[OF assms(1,3,2) w1])
  from assms(4) w1 obtain run2 got
    where w2: "(if got1 + int (length seen) < rq_quantity row
        then kind_pick env deeper w (rq_quantity row - int (length seen))
               (kind_candidates (rn_db run1) kind) run1 got1
        else Inr (run1, got1)) = Inr (run2, got)"
    by (auto simp: kind_step_def result_simps)
  then have "I run2" using I1 kind_pick_keeps[OF assms(1,3)] by (auto split: if_splits)
  with assms(4) w1 w2 miss_keeps show ?thesis
    by (auto simp: kind_step_def Let_def split: if_splits)
qed

lemma row_step_keeps:
  assumes "deeper_keeps deeper" and "Q w" and "I run"
    and "row \<in> set (resource_requirements (rn_db run))"
    and "row_step env deeper w row run = Inr run'"
  shows "I run'"
proof (cases "padded w (rq_before_minutes row) (rq_after_minutes row)")
  case None
  with assms(5) show ?thesis by (auto simp: row_step_def split: if_splits intro: miss_keeps[OF assms(3)])
next
  case (Some pw)
  then have "Q pw" by (rule pad_keeps[OF assms(3,4,2)])
  with Some assms(5) show ?thesis
    by (auto simp: row_step_def split: option.splits
        intro: kind_step_keeps[OF assms(1,3)] named_step_keeps[OF assms(1,3) _ target_of_Some])
qed

lemma rows_keep:
  assumes "\<And>row run run'. row \<in> set (resource_requirements (rn_db run)) \<Longrightarrow> I run \<Longrightarrow>
      f row run = Inr run' \<Longrightarrow> I run'" and "I run"
    and "fold_result (\<lambda>(kind, owner_id) r. fold_result f (list_requirements (rn_db r) kind owner_id) r)
      owners run = Inr run'"
  shows "I run'"
  using assms(3,2)
proof (rule fold_result_inv)
  fix owner r r'
  assume r: "I r" and step: "(case owner of (kind, owner_id) \<Rightarrow>
      \<lambda>r. fold_result f (list_requirements (rn_db r) kind owner_id) r) r = Inr r'"
  obtain kind owner_id where o: "owner = (kind, owner_id)" by (cases owner)
  have "fold_result f (list_requirements (rn_db r) kind owner_id) r = Inr r'" using step o by simp
  then show "I r'" using r
    by (rule fold_result_inv) (metis assms(1) list_requirements_subset r requirements_kept)
qed

lemma walk_keeps: "I run \<Longrightarrow> Q w \<Longrightarrow> walk k env owners w run = Inr run' \<Longrightarrow> I run'"
proof (induction k arbitrary: owners w run run')
  case 0
  from 0(3) show ?case unfolding walk.simps by (rule rows_keep[OF _ 0(1), rotated]) (rule miss_keeps)
next
  case (Suc k)
  have "deeper_keeps (\<lambda>r' rid w'. walk k env [(RESOURCE, rid)] w' r')"
    using Suc.IH unfolding deeper_keeps_def by blast
  from Suc.prems(3) show ?case unfolding walk.simps
    by (rule rows_keep[OF _ Suc.prems(1), rotated])
      (rule row_step_keeps[OF \<open>deeper_keeps _\<close> Suc.prems(2)])
qed

lemma resolve_keeps:
  assumes "I (start_run db used parent requester assignments)" and "Q w"
    and "resolve env db owners w used parent requester assignments = Inr run"
  shows "I run"
  using assms(3) walk_keeps[OF assms(1,2)]
  by (auto simp: resolve_def Let_def result_simps split: if_splits)

end

section \<open>The elementary steps\<close>

lemma gap_simps [simp]:
  "um_requirement_id (gap q e m c n) = rq_id q" "um_enforcement (gap q e m c n) = e"
  by (simp_all add: gap_def)

lemma miss_Inr:
  assumes "miss run q m c n = Inr run'"
  obtains e where "run' = run\<lparr>rn_unmet := rn_unmet run @ [e]\<rparr>"
    "run_dry run \<or> um_enforcement e = ADVISORY" "um_requirement_id e = rq_id q"
proof -
  let ?e = "case rq_enforcement q of None \<Rightarrow> rn_default run | Some e \<Rightarrow> e"
  have "run_dry run \<or> ?e = ADVISORY" "run' = run\<lparr>rn_unmet := rn_unmet run @ [gap q ?e m c n]\<rparr>"
    using assms by (cases ?e; auto simp: miss_def Let_def split: if_splits)+
  then show ?thesis using that[of "gap q ?e m c n"] by simp
qed

lemma miss_frame:
  assumes "miss run q m c n = Inr run'"
  shows "rn_db run' = rn_db run" "rn_used run' = rn_used run" "rn_parent run' = rn_parent run"
    "rn_children run' = rn_children run" "rn_assigned run' = rn_assigned run"
  by (rule miss_Inr[OF assms], simp)+

lemma pop_frame [simp]:
  "rn_db (pop_assigned run k) = rn_db run" "rn_used (pop_assigned run k) = rn_used run"
  "rn_parent (pop_assigned run k) = rn_parent run" "rn_unmet (pop_assigned run k) = rn_unmet run"
  "rn_children (pop_assigned run k) = rn_children run"
  by (simp_all add: pop_assigned_def)

lemma hold_cases:
  assumes "hold env run res w n = Inr run'"
  obtains (dry) "rn_parent run = None" "run' = run\<lparr>rn_used := insert (re_id res) (rn_used run)\<rparr>"
  | (held) parent child db where "rn_parent run = Some parent"
      "insert_reservation (env_backend env) (rn_db run) (child_row env run parent res w n) = Inr (child, db)"
      "run' = run\<lparr>rn_used := insert (re_id res) (rn_used run),
         rn_db := record_change env ''reservation'' (rv_id child) ''created'' db,
         rn_children := rn_children run @ [child]\<rparr>"
  using assms
  by (auto simp: hold_def Let_def child_row_def split: option.splits sum.splits prod.splits)

lemma child_row_simps [simp]:
  "rv_resource_id (child_row env run p res w n) = re_id res"
  "rv_mode (child_row env run p res w n) = re_mode res"
  "rv_status (child_row env run p res w n) = HELD"
  "rv_quantity (child_row env run p res w n) = n"
  "rv_parent_reservation_id (child_row env run p res w n) = Some (rv_id p)"
  "rv_reserved_date (child_row env run p res w n) = fst w"
  "rv_time_window_start (child_row env run p res w n) = fst (snd w)"
  "rv_time_window_end (child_row env run p res w n) = snd (snd w)"
  by (simp_all add: child_row_def Let_def split: prod.splits)

lemma problem_None_iff:
  "problem env db res w n = None \<longleftrightarrow> re_active res \<and>
     window_free (env_rrule env) db res (fst w) (fst (snd w)) (snd (snd w)) n"
  by (auto simp: problem_def window_free_def Let_def not_less split: prod.splits resource_mode.splits
      if_splits)

section \<open>What the walk keeps\<close>

text \<open>The rules of the reservations table.\<close>

definition rules_kept :: "app_env \<Rightarrow> resource_requirement list \<Rightarrow> run \<Rightarrow> bool" where
  "rules_kept env rqs run \<longleftrightarrow> resource_requirements (rn_db run) = rqs \<and>
     (rrule_lib_ok (env_rrule env) \<longrightarrow> booking_rules (env_rrule env) (rn_db run))"

lemma hold_keeps_rules:
  assumes "rules_kept env rqs run" and "good_window w" and "get_resource (rn_db run) (re_id res) = Some res"
    and "problem env (rn_db run) res w n = None" and "hold env run res w n = Inr run'"
  shows "rules_kept env rqs run'"
  using assms(5)
proof (cases rule: hold_cases)
  case (held parent child db)
  note child = insert_reservation_Inr[OF held(2)]
  have "booking_rules (env_rrule env) (rn_db run\<lparr>reservations := reservations (rn_db run) @ [child]\<rparr>)"
    if "rrule_lib_ok (env_rrule env)"
  proof (rule booking_rules_append[OF _ that])
    show "booking_rules (env_rrule env) (rn_db run)" using assms(1) that by (simp add: rules_kept_def)
    show "reservation_ok child"
      using assms(2) child(3,4) by (auto simp: child(1) reservation_ok_def good_window_def)
    show "get_resource (rn_db run) (rv_resource_id child) = Some res" using assms(3) by (simp add: child(1))
    show "rv_mode child = re_mode res" by (simp add: child(1))
    show "window_free (env_rrule env) (rn_db run) res (rv_reserved_date child)
        (rv_time_window_start child) (rv_time_window_end child) (rv_quantity child)"
      using assms(4) by (simp add: child(1) problem_None_iff)
  qed
  with assms(1) held(3) child(2) show ?thesis by (simp add: rules_kept_def)
qed (use assms(1) in \<open>simp add: rules_kept_def\<close>)

interpretation rules: walk_invariant env "rules_kept env rqs" good_window
proof (unfold_locales, goal_cases)
  case (3 run q w w')
  then show ?case by (blast intro: good_padded)
next
  case (4 run w res n run')
  then show ?case by (blast intro: hold_keeps_rules)
qed (simp_all add: rules_kept_def miss_frame)

text \<open>What is held: rows appended for distinct resources that the booking did not use before.\<close>

definition holds_kept :: "database \<Rightarrow> reservation option \<Rightarrow> int set \<Rightarrow> run \<Rightarrow> bool" where
  "holds_kept db parent used run \<longleftrightarrow> rn_parent run = parent \<and>
     (\<exists>markers. rn_db run = db\<lparr>reservations := reservations db @ rn_children run,
        change_markers := markers\<rparr>) \<and>
     used \<union> rv_resource_id ` set (rn_children run) \<subseteq> rn_used run \<and>
     distinct (map rv_resource_id (rn_children run)) \<and>
     (\<forall>c \<in> set (rn_children run). rv_resource_id c \<notin> used \<and> rv_status c = HELD \<and>
        rv_parent_reservation_id c = map_option rv_id parent \<and>
        get_resource db (rv_resource_id c) \<noteq> None) \<and>
     (parent = None \<longrightarrow> rn_children run = [])"

lemma hold_keeps_holds:
  assumes "holds_kept db parent used run" and "re_id res \<notin> rn_used run"
    and "hold env run res w n = Inr run'" and "get_resource (rn_db run) (re_id res) = Some res"
  shows "holds_kept db parent used run'"
  using assms(3)
proof (cases rule: hold_cases)
  case (held p child db')
  note child = insert_reservation_Inr(1,2)[OF held(2)]
  from assms(1) obtain markers where db: "rn_db run =
      db\<lparr>reservations := reservations db @ rn_children run, change_markers := markers\<rparr>"
    by (auto simp: holds_kept_def)
  have "\<exists>markers. rn_db run' = db\<lparr>reservations := reservations db @ rn_children run',
      change_markers := markers\<rparr>"
    by (auto simp: held(3) child(2) db record_change_def intro: exI[of _ markers])
  moreover have p: "parent = Some p" using assms(1) held(1) by (simp add: holds_kept_def)
  moreover have "rv_resource_id child = re_id res" "rv_status child = HELD"
    "rv_parent_reservation_id child = Some (rv_id p)" by (simp_all add: child(1))
  moreover have "get_resource db (re_id res) = Some res" using assms(4) by (simp add: db)
  ultimately show ?thesis using assms(1,2) held(3) unfolding holds_kept_def p by auto
next
  case dry
  have frame: "rn_parent run' = rn_parent run" "rn_db run' = rn_db run"
    "rn_children run' = rn_children run" "rn_used run \<subseteq> rn_used run'"
    by (auto simp: dry(2))
  show ?thesis using assms(1) frame(4) unfolding holds_kept_def frame(1-3) by blast
qed

interpretation holds: walk_invariant env "holds_kept db parent used" "\<lambda>_. True"
  by unfold_locales
    (simp_all add: hold_keeps_holds, auto simp: holds_kept_def miss_frame)

text \<open>A booking that goes through left only advisory gaps.\<close>

definition gaps_kept :: "resource_requirement list \<Rightarrow> run \<Rightarrow> bool" where
  "gaps_kept rqs run \<longleftrightarrow> resource_requirements (rn_db run) = rqs \<and>
     (run_dry run \<or> (\<forall>e \<in> set (rn_unmet run). um_enforcement e = ADVISORY))"

interpretation gaps: walk_invariant env "gaps_kept rqs" "\<lambda>_. True"
proof (unfold_locales, goal_cases)
  case (1 run q m c n run')
  obtain e where "run' = run\<lparr>rn_unmet := rn_unmet run @ [e]\<rparr>"
    "run_dry run \<or> um_enforcement e = ADVISORY" by (rule miss_Inr[OF 1(2)])
  with 1(1) show ?case by (auto simp: gaps_kept_def run_dry_def)
next
  case (4 run w res n run')
  from 4(7,1) show ?case
    by (cases rule: hold_cases) (auto simp: gaps_kept_def run_dry_def dest: insert_reservation_Inr(2))
qed (auto simp: gaps_kept_def run_dry_def)

section \<open>Dry runs\<close>

text \<open>Without a parent nothing is written and nothing is refused: the walk always answers.\<close>

definition dry_on :: "database \<Rightarrow> run \<Rightarrow> bool" where
  "dry_on db run \<longleftrightarrow> run_dry run \<and> rn_db run = db \<and> rn_assigned run = [] \<and> rn_children run = []"

lemma dry_miss:
  assumes "dry_on db run"
  shows "\<exists>run'. miss run q m c n = Inr run' \<and> dry_on db run'"
  using assms by (simp add: miss_def dry_on_def run_dry_def Let_def)

lemma dry_hold: "dry_on db run \<Longrightarrow> \<exists>run'. hold env run res w n = Inr run' \<and> dry_on db run'"
  by (simp add: hold_def dry_on_def run_dry_def Let_def)

definition dry_total :: "database \<Rightarrow> recurse \<Rightarrow> bool" where
  "dry_total db deeper \<longleftrightarrow>
     (\<forall>run rid w. dry_on db run \<longrightarrow> (\<exists>run'. deeper run rid w = Inr run' \<and> dry_on db run'))"

lemma dry_hold_deeper:
  assumes "dry_total db deeper" and "dry_on db run"
  shows "\<exists>run2 run3. hold env run res w n = Inr run2 \<and> deeper run2 rid w = Inr run3 \<and> dry_on db run3"
proof -
  obtain run2 where "hold env run res w n = Inr run2" "dry_on db run2"
    using dry_hold[OF assms(2)] by blast
  moreover then obtain run3 where "deeper run2 rid w = Inr run3" "dry_on db run3"
    using assms(1) unfolding dry_total_def by blast
  ultimately show ?thesis by blast
qed

lemma dry_kind_pick:
  assumes "dry_total db deeper" and "\<forall>c \<in> set cs. get_resource db c \<noteq> None"
  shows "dry_on db run \<Longrightarrow> \<exists>run' got'. kind_pick env deeper w need cs run got = Inr (run', got') \<and> dry_on db run'"
  using assms(2)
proof (induction cs arbitrary: run got)
  case (Cons c cs)
  then obtain res where res: "get_resource (rn_db run) c = Some res" by (auto simp: dry_on_def)
  obtain run2 run3 where steps: "hold env run res w 1 = Inr run2" "deeper run2 (re_id res) w = Inr run3"
    "dry_on db run3"
    using dry_hold_deeper[OF assms(1) Cons.prems(1)] by blast
  show ?case using Cons.IH[OF Cons.prems(1)] Cons.IH[OF steps(3)] Cons.prems res steps(1,2) by simp
qed simp

lemma kind_candidates_exist: "c \<in> set (kind_candidates db kind) \<Longrightarrow> get_resource db c \<noteq> None"
  by (auto simp: kind_candidates_def get_resource_def find_None_iff)

lemma dry_kind_step:
  assumes "dry_total db deeper" and "dry_on db run"
  shows "\<exists>run'. kind_step env deeper run row kind w = Inr run' \<and> dry_on db run'"
proof -
  have wanted: "kind_wanted env deeper kind w n run 0 [] = Inr (run, 0, [])" for n
    using assms(2) by (cases n) (simp_all add: assigned_for_def dry_on_def)
  obtain run2 got where pick: "(if 0 < rq_quantity row
        then kind_pick env deeper w (rq_quantity row) (kind_candidates (rn_db run) kind) run 0
        else Inr (run, 0)) = Inr (run2, got)" "dry_on db run2"
  proof (cases "0 < rq_quantity row")
    case True
    then show ?thesis using that dry_kind_pick[OF assms(1) _ assms(2)] kind_candidates_exist assms(2)
      unfolding dry_on_def by metis
  qed (use assms(2) that in simp)
  then show ?thesis
    using dry_miss[OF pick(2)] pick
    unfolding kind_step_def wanted bind_result_simps prod.case list.size of_nat_0 add_0 diff_zero Let_def
    by auto
qed

lemma dry_named_step:
  assumes "dry_total db deeper" and "dry_on db run"
  shows "\<exists>run'. named_step env deeper run row target w = Inr run' \<and> dry_on db run'"
proof (cases target)
  case (Some res)
  obtain run2 run3 where "hold env run res w (if re_mode res = POOLED then rq_quantity row else 1) = Inr run2"
    "deeper run2 (re_id res) w = Inr run3" "dry_on db run3"
    using dry_hold_deeper[OF assms] by blast
  then show ?thesis using dry_miss[OF assms(2)] Some
    by (auto simp: named_step_def Let_def split: option.splits)
qed (simp add: named_step_def dry_miss[OF assms(2)])

lemma dry_row_step:
  assumes "dry_total db deeper" and "dry_on db run"
  shows "\<exists>run'. row_step env deeper w row run = Inr run' \<and> dry_on db run'"
  using dry_miss[OF assms(2)] dry_named_step[OF assms] dry_kind_step[OF assms] assms(2)
  by (simp add: row_step_def dry_on_def split: option.split)

lemma dry_rows:
  assumes "\<And>row run. dry_on db run \<Longrightarrow> \<exists>run'. f row run = Inr run' \<and> dry_on db run'" and "dry_on db run"
  shows "\<exists>run'. fold_result (\<lambda>(kind, i) r. fold_result f (list_requirements (rn_db r) kind i) r)
      owners run = Inr run' \<and> dry_on db run'"
  using assms(2) by (rule fold_result_Inr[rotated]) (auto intro!: fold_result_Inr assms(1))

lemma dry_walk: "dry_on db run \<Longrightarrow> \<exists>run'. walk k env owners w run = Inr run' \<and> dry_on db run'"
proof (induction k arbitrary: owners w run)
  case 0
  then show ?case unfolding walk.simps by (rule dry_rows[rotated]) (rule dry_miss)
next
  case (Suc k)
  have "dry_total db (\<lambda>r' rid w'. walk k env [(RESOURCE, rid)] w' r')"
    using Suc.IH by (simp add: dry_total_def)
  with Suc.prems show ?case unfolding walk.simps
    by (intro dry_rows) (auto intro: dry_row_step)
qed

lemma dry_resolve:
  "\<exists>run. resolve env db owners w used None requester [] = Inr run \<and> rn_db run = db \<and> rn_children run = []"
proof -
  have "dry_on db (start_run db used None requester [])"
    by (simp add: dry_on_def run_dry_def start_run_def)
  from dry_walk[OF this, of MAX_DEPTH env owners w] show ?thesis
    by (auto simp: resolve_def dry_on_def)
qed

section \<open>Saving a requirement\<close>

lemma named_edges_snoc:
  "named_edges (db\<lparr>resource_requirements := resource_requirements db @ [q]\<rparr>) =
   (if rq_owner_kind q = RESOURCE \<and> rq_target_resource_id q \<noteq> None
    then insert (rq_owner_id q, the (rq_target_resource_id q)) (named_edges db) else named_edges db)"
  by (auto simp: set_eq_iff named_edges_iff)

lemma check_requirement_acyclic:
  assumes "check_requirement db RESOURCE owner p = Inr ()" and "qc_target_resource_id p = Some t"
  shows "\<not> would_cycle db owner t"
  using assms
  by (auto simp: check_requirement_def result_simps dest: get_resource_Some split: option.splits if_splits)

lemma add_requirement_keeps_acyclic:
  assumes "acyclic (named_edges (working sess))"
  shows "acyclic (named_edges (working (snd (add_requirement sess kind owner p))))"
proof (cases "check_requirement (working sess) kind owner p")
  case (Inr u)
  have "\<not> would_cycle (working sess) owner t" if "kind = RESOURCE" "qc_target_resource_id p = Some t" for t
    using check_requirement_acyclic[of "working sess" owner p t] Inr that by simp
  with assms Inr show ?thesis
    by (auto simp: add_requirement_def Let_def named_edges_snoc requirement_row_def acyclic_insert
        would_cycle_iff)
qed (use assms in \<open>simp add: add_requirement_def\<close>)

section \<open>The properties\<close>

text \<open>
  A booking of the theatre: room 1 needs room 2 an hour before and after, and one device.
\<close>

definition ex_env :: app_env where
  "ex_env = \<lparr>env_rrule = weekly_lib, env_today = monday, env_now = combine monday (hour 8),
     env_change_feed_enabled = True, env_sha256 = (\<lambda>s. s), env_backend = PostgreSQL,
     env_ledger_horizon_days = 28, env_organization_id = ''default''\<rparr>"

definition ex_need :: "int \<Rightarrow> int option \<Rightarrow> string option \<Rightarrow> int \<Rightarrow> resource_requirement" where
  "ex_need i target kind pad = \<lparr>rq_id = i, rq_owner_kind = RESOURCE, rq_owner_id = 1,
     rq_target_resource_id = target, rq_target_kind = kind, rq_quantity = 1,
     rq_before_minutes = pad, rq_after_minutes = pad, rq_enforcement = None\<rparr>"

definition ex_needs_db :: database where
  "ex_needs_db = ex_db\<lparr>resource_requirements := [ex_need 1 (Some 2) None 60, ex_need 2 None (Some ''DEVICE'') 0]\<rparr>"

definition ex_parent :: reservation where
  "ex_parent = ex_hold 9 1 (hour 12) (hour 13) 1 EXCLUSIVE"

definition ex_window :: window where
  "ex_window = (monday, hour 12, hour 13)"

definition ex_resolved :: "walk_error + run" where
  "ex_resolved = resolve ex_env ex_needs_db [(RESOURCE, 1)] ex_window {1} (Some ex_parent) (Some ''grace'') []"

definition ex_run :: run where
  "ex_run = (case ex_resolved of Inr run \<Rightarrow> run | Inl _ \<Rightarrow> start_run ex_db {} None None [])"

lemma ex_resolved: "resolve ex_env ex_needs_db [(RESOURCE, 1)] ex_window {1} (Some ex_parent)
    (Some ''grace'') [] = Inr ex_run"
proof -
  have "case ex_resolved of Inr _ \<Rightarrow> True | Inl _ \<Rightarrow> False" by code_simp
  then show ?thesis by (auto simp: ex_run_def ex_resolved_def split: sum.splits)
qed

lemma requirements_frame [simp]:
  "booking_rules L (db\<lparr>resource_requirements := x\<rparr>) = booking_rules L db"
proof -
  have "get_resource (db\<lparr>resource_requirements := x\<rparr>) = get_resource db"
    "slot_activity (db\<lparr>resource_requirements := x\<rparr>) = slot_activity db"
    "get_cycle_row (db\<lparr>resource_requirements := x\<rparr>) = get_cycle_row db"
    by (auto simp: get_resource_def slot_activity_def get_activity_row_def get_cycle_row_def)
  then have "slot_cycle (db\<lparr>resource_requirements := x\<rparr>) = slot_cycle db"
    "booked_slots (db\<lparr>resource_requirements := x\<rparr>) = booked_slots db"
    by (auto simp: slot_cycle_def booked_slots_def slot_counts_def fun_eq_iff
        cong: option.case_cong Option.bind_cong)
  then have "timetable L (db\<lparr>resource_requirements := x\<rparr>) = timetable L db"
    by (auto simp: timetable_def slot_spans_def days_on_def slot_runs_def fun_eq_iff)
  with \<open>get_resource _ = _\<close> show ?thesis
    by (simp add: booking_rules_def tables_ok_def pools_fit_def timetable_clear_def held_on_def)
qed

lemma ex_needs_rules: "booking_rules (env_rrule ex_env) ex_needs_db"
  using ex_booking_rules by (simp add: ex_needs_db_def ex_env_def)

lemma ex_good_window: "good_window ex_window"
  by (simp add: ex_window_def good_window_def valid_window_def hour_def valid_time_def day_us_def)

lemma resolve_holds_kept:
  assumes "resolve env db owners w used parent requester assignments = Inr run"
  shows "holds_kept db parent used run"
proof -
  have "holds_kept db parent used (start_run db used parent requester assignments)"
    by (auto simp: holds_kept_def start_run_def intro: exI[of _ "change_markers db"])
  from holds.resolve_keeps[OF this TrueI assms] show ?thesis .
qed

text \<open>C18: Holding what a booking requires keeps every rule of the reservations table: no double
  booking of an exclusive resource, no pool over its capacity at any moment, no unshared hold
  over the timetable.\<close>

theorem resolve_keeps_booking_rules:
  assumes "rrule_lib_ok (env_rrule env)" and "booking_rules (env_rrule env) db" and "good_window w"
    and "resolve env db owners w used parent requester assignments = Inr run"
  shows "booking_rules (env_rrule env) (rn_db run)"
  using rules.resolve_keeps[of env _ db used parent requester assignments w owners run] assms
  by (simp add: rules_kept_def start_run_def)

theorem resolve_keeps_booking_rules_witness:
  "rrule_lib_ok (env_rrule ex_env) \<and> booking_rules (env_rrule ex_env) ex_needs_db \<and>
   good_window ex_window \<and> booking_rules (env_rrule ex_env) (rn_db ex_run) \<and>
   map rv_resource_id (rn_children ex_run) = [2, 3]"
proof -
  have L: "rrule_lib_ok (env_rrule ex_env)" by (simp add: ex_env_def weekly_lib_ok)
  have "map rv_resource_id (rn_children ex_run) = [2, 3]" by code_simp
  with resolve_keeps_booking_rules[OF L ex_needs_rules ex_good_window ex_resolved]
  show ?thesis using L ex_needs_rules ex_good_window by simp
qed

text \<open>What a booking requires is held as rows appended to the table, each under the booking,
  each on a different resource and none on a resource the booking already uses; nothing else
  of the database but the change feed is written.\<close>

theorem resolve_holds_distinct_children:
  assumes "resolve env db owners w used (Some p) requester assignments = Inr run"
  shows "(\<exists>markers. rn_db run = db\<lparr>reservations := reservations db @ rn_children run,
      change_markers := markers\<rparr>) \<and> distinct (map rv_resource_id (rn_children run)) \<and>
    (\<forall>c \<in> set (rn_children run). rv_resource_id c \<notin> used \<and> rv_status c = HELD \<and>
       rv_parent_reservation_id c = Some (rv_id p))"
  using resolve_holds_kept[OF assms] by (simp add: holds_kept_def)

theorem resolve_holds_distinct_children_witness:
  "distinct (map rv_resource_id (rn_children ex_run)) \<and> map rv_resource_id (rn_children ex_run) = [2, 3] \<and>
   map rv_parent_reservation_id (rn_children ex_run) = [Some 9, Some 9]"
  using resolve_holds_distinct_children[OF ex_resolved]
  by (auto intro: conjI) (code_simp)+

text \<open>A booking whose requirements were resolved left no required gap: every requirement that
  is not met and did not stop the booking is advisory.\<close>

theorem resolve_leaves_advisory_gaps:
  assumes "resolve env db owners w used (Some p) requester assignments = Inr run"
  shows "\<forall>e \<in> set (rn_unmet run). um_enforcement e = ADVISORY"
proof -
  have "gaps_kept (resource_requirements db) (start_run db used (Some p) requester assignments)"
    by (simp add: gaps_kept_def start_run_def)
  from gaps.resolve_keeps[OF this TrueI assms] resolve_holds_kept[OF assms] show ?thesis
    by (simp add: gaps_kept_def holds_kept_def run_dry_def)
qed

definition ex_advisory_db :: database where
  "ex_advisory_db = ex_db\<lparr>resource_requirements :=
     [(ex_need 1 (Some 77) None 0)\<lparr>rq_enforcement := Some ADVISORY\<rparr>]\<rparr>"

theorem resolve_leaves_advisory_gaps_witness:
  "\<exists>run e. resolve ex_env ex_advisory_db [(RESOURCE, 1)] ex_window {1} (Some ex_parent) None [] = Inr run \<and>
     rn_unmet run = [e] \<and> um_enforcement e = ADVISORY"
proof -
  let ?r = "resolve ex_env ex_advisory_db [(RESOURCE, 1)] ex_window {1} (Some ex_parent) None []"
  have "case ?r of Inr run \<Rightarrow> length (rn_unmet run) = 1 | Inl _ \<Rightarrow> False" by code_simp
  then obtain run where run: "?r = Inr run" "length (rn_unmet run) = 1" by (cases ?r) auto
  then obtain e where "rn_unmet run = [e]" by (auto simp: length_Suc_conv)
  with resolve_leaves_advisory_gaps[OF run(1)] run show ?thesis by auto
qed

text \<open>C19: Without a booking to hold under, the walk always answers: nothing is refused, nothing is
  held and the database is left as it was.\<close>

theorem dry_run_answers:
  "\<exists>run. resolve env db owners w used None requester [] = Inr run \<and> rn_db run = db \<and>
     rn_children run = []"
  by (rule dry_resolve)

text \<open>C20: A requirement is refused as a cycle exactly when its target already reaches its owner
  through named requirements; the search always ends.\<close>

theorem would_cycle_is_reachability:
  "would_cycle db owner target \<longleftrightarrow> (target, owner) \<in> (named_edges db)\<^sup>*"
  by (rule would_cycle_iff)

text \<open>C21: Saving a requirement, whatever is asked for, keeps the graph of named requirements
  without cycles.\<close>

theorem add_requirement_acyclic:
  assumes "acyclic (named_edges (working sess))"
  shows "acyclic (named_edges (working (snd (add_requirement sess kind owner p))))"
  by (rule add_requirement_keeps_acyclic[OF assms])

definition ex_need_create :: "int \<Rightarrow> requirement_create" where
  "ex_need_create t = \<lparr>qc_target_resource_id = Some t, qc_target_kind = None, qc_quantity = 1,
     qc_before_minutes = 0, qc_after_minutes = 0, qc_enforcement = None\<rparr>"

theorem add_requirement_acyclic_witness:
  "acyclic (named_edges (working (snd (add_requirement (open_session ex_needs_db) RESOURCE 2 (ex_need_create 3))))) \<and>
   length (resource_requirements (working (snd (add_requirement (open_session ex_needs_db) RESOURCE 2
      (ex_need_create 3))))) = 3"
proof -
  have "named_edges ex_needs_db = {(1, 2)}"
    by (auto simp: named_edges_iff ex_needs_db_def ex_need_def)
  then have "acyclic (named_edges (working (open_session ex_needs_db)))"
    by (simp add: acyclic_insert wf_acyclic)
  moreover have "length (resource_requirements (working (snd (add_requirement (open_session ex_needs_db)
      RESOURCE 2 (ex_need_create 3))))) = 3" by code_simp
  ultimately show ?thesis using add_requirement_acyclic by simp
qed

text \<open>A padded window, read back from its date and its two times, is the window widened by
  the padding exactly when the widened window is shorter than a day.\<close>

theorem padded_reads_back:
  assumes "good_window w" and "0 \<le> before" and "0 \<le> after" and "padded w before after = Some w'"
  shows "span_of w' = (fst (span_of w) - before * minute_us, snd (span_of w) + after * minute_us) \<longleftrightarrow>
    snd (span_of w) + after * minute_us - (fst (span_of w) - before * minute_us) < day_us"
  by (rule padded_span_iff[OF assms])

theorem padded_reads_back_witness:
  "padded ex_window 60 60 = Some (monday, hour 11, hour 14) \<and>
   span_of (monday, hour 11, hour 14) =
     (fst (span_of ex_window) - 60 * minute_us, snd (span_of ex_window) + 60 * minute_us)"
proof -
  have p: "padded ex_window 60 60 = Some (monday, hour 11, hour 14)" by code_simp
  have "snd (span_of ex_window) + 60 * minute_us - (fst (span_of ex_window) - 60 * minute_us) < day_us"
    by code_simp
  with padded_reads_back[OF ex_good_window _ _ p] p show ?thesis by simp
qed

text \<open>A booking from 08:00 to 07:00 the next day whose requirement asks for an hour before and
  an hour after is not refused: the required resource is held from 07:00 to 08:00 on the first
  day only, an hour that the booking itself does not touch.\<close>

theorem padded_long_window_shrinks:
  "padded (monday, hour 8, hour 7) 60 60 = Some (monday, hour 7, hour 8) \<and>
   \<not> meets (span_of (monday, hour 7, hour 8)) (span_of (monday, hour 8, hour 7))"
  by code_simp

end
