(* ===== verification/Reservations_Props.thy ===== *)
theory Reservations_Props
  imports Reservations Requirements_Props
begin

text \<open>
  What the booking routes of \<^verbatim>\<open>resources.py\<close> promise: a booking is taken exactly when its window
  is free by the rules of its resource's mode, keeps the rules of the table, is all or nothing
  with the holds it requires, is safe against whatever other transactions commit between its
  check and its insert, and can be retried under its key.
\<close>

section \<open>The parts of a booking\<close>

lemma booking_checks_free:
  "booking_checks env db u res p = Inr a \<Longrightarrow>
   window_free (env_rrule env) db res (pc_date p) (pc_start p) (pc_end p) (pc_quantity p)"
  by (auto simp: booking_checks_def window_free_def result_simps conflicts_for_def pool_check_def Let_def
      not_less split: if_splits resource_mode.splits prod.splits option.splits)

lemma booking_checks_Inr_iff:
  assumes "pc_external_ref p = None \<or> by_ref db (us_id u) (the (pc_external_ref p)) = None"
    and "pc_quantity p = 1 \<or> re_mode res = POOLED" and "pc_assignments p = None"
  shows "booking_checks env db u res p = Inr [] \<longleftrightarrow>
    window_free (env_rrule env) db res (pc_date p) (pc_start p) (pc_end p) (pc_quantity p)"
    and "\<not> window_free (env_rrule env) db res (pc_date p) (pc_start p) (pc_end p) (pc_quantity p) \<Longrightarrow>
      \<exists>e. booking_checks env db u res p = Inl e"
  using assms
  by (auto simp: booking_checks_def window_free_def conflicts_for_def pool_check_def Let_def
      check_assignments_def not_less split: resource_mode.splits prod.splits option.splits)

lemma new_reservation_ok:
  "reservation_create_ok p \<Longrightarrow> reservation_ok ((new_reservation env res u p key)\<lparr>rv_id := i\<rparr>)"
  by (auto simp: reservation_create_ok_def reservation_ok_def new_reservation_def valid_window_def)

lemma new_reservation_simps [simp]:
  "rv_resource_id (new_reservation env res u p key) = re_id res"
  "rv_mode (new_reservation env res u p key) = re_mode res"
  "rv_reserved_date (new_reservation env res u p key) = pc_date p"
  "rv_time_window_start (new_reservation env res u p key) = pc_start p"
  "rv_time_window_end (new_reservation env res u p key) = pc_end p"
  "rv_quantity (new_reservation env res u p key) = pc_quantity p"
  "rv_status (new_reservation env res u p key) = HELD"
  "rv_requested_by_id (new_reservation env res u p key) = Some (us_id u)"
  "rv_idempotency_key (new_reservation env res u p key) = key"
  "rv_request_fingerprint (new_reservation env res u p key) = fingerprint env (re_id res) p"
  "rv_external_ref (new_reservation env res u p key) = pc_external_ref p"
  by (simp_all add: new_reservation_def)

lemma session_update [simp]:
  "db_rollback (open_session d) = open_session d"
  "db_commit ((open_session d)\<lparr>working := x\<rparr>) = open_session x"
  by (simp_all add: db_rollback_def db_commit_def open_session_def)

lemma own_view_Inr: "get_resource db (rv_resource_id r) \<noteq> None \<Longrightarrow> \<exists>v. own_view db r = Inr v"
  by (auto simp: own_view_def)

lemma map_result_ok: "\<forall>x \<in> set xs. \<exists>y. f x = Inr y \<Longrightarrow> \<exists>ys. map_result f xs = Inr ys"
  by (induction xs) auto

lemma created_view_Inr:
  assumes "\<forall>c \<in> set (case children of None \<Rightarrow> children_of db (rv_id r) | Some cs \<Rightarrow> cs).
    get_resource db (rv_resource_id c) \<noteq> None"
  obtains v where "created_view db r res children unmet = Inr v" "cr_reservation v = reservation_view r res"
  using map_result_ok[of _ "own_view db"] own_view_Inr assms unfolding created_view_def
  by (metis (no_types, lifting) bind_result_simps(2) reservation_created.select_convs(1))

text \<open>What came of the attempt to insert and to hold what is required: nothing, or all of it.\<close>

lemma book_cases:
  obtains (failed) "snd (book env (open_session d) u res p key a) = open_session d"
      "(\<exists>e. fst (book env (open_session d) u res p key a) = Inl e) \<or>
       (\<exists>v. fst (book env (open_session d) u res p key a) = Inr (200, v))"
  | (booked) row run v where
      "insert_reservation (env_backend env) d (new_reservation env res u p key) =
        Inr (row, d\<lparr>reservations := reservations d @ [row]\<rparr>)"
      "resolve env (record_change env ''reservation'' (rv_id row) ''created''
          (d\<lparr>reservations := reservations d @ [row]\<rparr>)) [(RESOURCE, re_id res)]
          (pc_date p, pc_start p, pc_end p) {re_id res} (Some row) (Some (us_id u)) a = Inr run"
      "book env (open_session d) u res p key a = (Inr (201, v), open_session (rn_db run))"
      "cr_reservation v = reservation_view row res"
proof (cases "insert_reservation (env_backend env) d (new_reservation env res u p key)")
  case (Inl exc)
  let ?l = "lost env (open_session d) u res p key exc"
  have "snd ?l = open_session d \<and> ((\<exists>e. fst ?l = Inl e) \<or> (\<exists>v. fst ?l = Inr (200, v)))"
    by (cases "created_view d (the (by_key d (us_id u) key)) res None []")
      (auto simp: lost_def Let_def replay_def split: option.splits)
  then show ?thesis using failed Inl by (simp add: book_def)
next
  case (Inr x)
  then obtain row where ins: "insert_reservation (env_backend env) d (new_reservation env res u p key) =
      Inr (row, d\<lparr>reservations := reservations d @ [row]\<rparr>)"
    by (cases x) (auto dest: insert_reservation_Inr(2))
  let ?d2 = "record_change env ''reservation'' (rv_id row) ''created'' (d\<lparr>reservations := reservations d @ [row]\<rparr>)"
  let ?r = "resolve env ?d2 [(RESOURCE, re_id res)] (pc_date p, pc_start p, pc_end p) {re_id res}
      (Some row) (Some (us_id u)) a"
  show ?thesis
  proof (cases ?r)
    case (Inl e)
    then show ?thesis using failed ins
      by (auto simp: book_def split: walk_error.splits integrity_error.splits)
  next
    case (Inr run)
    have "\<forall>c \<in> set (rn_children run). get_resource (rn_db run) (rv_resource_id c) \<noteq> None"
      using resolve_holds_kept[OF Inr] by (auto simp: holds_kept_def)
    then obtain v where "created_view (rn_db run) row res (Some (rn_children run)) (rn_unmet run) = Inr v"
      "cr_reservation v = reservation_view row res"
      using created_view_Inr[of "rn_db run" row "Some (rn_children run)" res "rn_unmet run"] by auto
    then show ?thesis using booked[OF ins Inr] ins Inr by (simp add: book_def)
  qed
qed

lemma bookable_Inr: "bookable db u rid = Inr res \<Longrightarrow> get_resource db rid = Some res"
  by (auto simp: bookable_def resource_or_404_def result_simps split: option.splits)

lemma create_cases:
  obtains (early) "snd (create_reservation env others (open_session db) u rid p key) = open_session db"
      "(\<exists>e. fst (create_reservation env others (open_session db) u rid p key) = Inl e) \<or>
       (\<exists>v. fst (create_reservation env others (open_session db) u rid p key) = Inr (200, v))"
  | (tried) res a where "get_resource db rid = Some res" "re_id res = rid"
      "by_key db (us_id u) key = None" "booking_checks env db u res p = Inr a"
      "create_reservation env others (open_session db) u rid p key =
        book env (open_session (others db)) u res p key a"
proof -
  have rep: "snd (replay s seen res) = s \<and>
      ((\<exists>e. fst (replay s seen res) = Inl e) \<or> (\<exists>v. fst (replay s seen res) = Inr (200, v)))" for s seen res
    by (cases "created_view (working s) seen res None []") (auto simp: replay_def)
  show ?thesis
  proof (cases "bookable db u rid")
    case (Inl e)
    then show ?thesis using early by (simp add: create_reservation_def)
  next
    case (Inr res)
    then have res: "get_resource db rid = Some res" by (rule bookable_Inr)
    show ?thesis
    proof (cases "by_key db (us_id u) key")
      case None
      show ?thesis
      proof (cases "booking_checks env db u res p")
        case (Inl e)
        then show ?thesis using early None Inr by (simp add: create_reservation_def)
      next
        case (Inr a)
        then show ?thesis
          using tried[of res a] res get_resource_Some[OF res] None \<open>bookable db u rid = Inr res\<close>
          by (simp add: create_reservation_def)
      qed
    next
      case (Some seen)
      then show ?thesis
        using early rep[of "open_session db" seen res] Inr by (simp add: create_reservation_def split: if_splits)
    qed
  qed
qed

section \<open>Bookings one after another\<close>

lemma insert_new_reservation:
  assumes "insert_reservation b d (new_reservation env res u p key) = Inr (row, d')"
  shows "rv_resource_id row = re_id res" "rv_mode row = re_mode res" "rv_reserved_date row = pc_date p"
    "rv_time_window_start row = pc_start p" "rv_time_window_end row = pc_end p"
    "rv_quantity row = pc_quantity p" "rv_status row = HELD" "rv_requested_by_id row = Some (us_id u)"
    "rv_idempotency_key row = key" "rv_request_fingerprint row = fingerprint env (re_id res) p"
    "rv_external_ref row = pc_external_ref p"
    "reservation_create_ok p \<Longrightarrow> reservation_ok row"
  by (simp_all add: insert_reservation_Inr(1)[OF assms] new_reservation_ok)

lemma payload_window: "reservation_create_ok p \<Longrightarrow> good_window (pc_date p, pc_start p, pc_end p)"
  by (simp add: reservation_create_ok_def good_window_def valid_window_def)

lemma book_keeps_rules:
  assumes "rrule_lib_ok (env_rrule env)" and "booking_rules (env_rrule env) db"
    and "reservation_create_ok p" and "get_resource db (re_id res) = Some res"
    and "window_free (env_rrule env) db res (pc_date p) (pc_start p) (pc_end p) (pc_quantity p)"
  shows "booking_rules (env_rrule env) (committed (snd (book env (open_session db) u res p key a)))"
proof (cases rule: book_cases[of env db u res p key a])
  case (booked row run v)
  note row = insert_new_reservation[OF booked(1)]
  have "booking_rules (env_rrule env) (db\<lparr>reservations := reservations db @ [row]\<rparr>)"
    using booking_rules_append[OF assms(2,1) row(12)[OF assms(3)]] assms(4,5) row by simp
  then have "rules_kept env (resource_requirements db) (start_run (record_change env ''reservation''
      (rv_id row) ''created'' (db\<lparr>reservations := reservations db @ [row]\<rparr>)) {re_id res} (Some row)
      (Some (us_id u)) a)"
    by (simp add: rules_kept_def start_run_def)
  from rules.resolve_keeps[OF this payload_window[OF assms(3)] booked(2)] booked(3) assms(1)
  show ?thesis by (simp add: rules_kept_def)
qed (use assms(2) in simp)

section \<open>Bookings at the same time\<close>

text \<open>The exclusion constraint alone keeps holds apart, whatever the checks saw.\<close>

definition rows_kept :: "reservation list \<Rightarrow> bool" where
  "rows_kept rows \<longleftrightarrow> (\<forall>r \<in> set rows. reservation_ok r) \<and> no_double_booking rows"

lemma insert_rows_kept:
  assumes "insert_reservation PostgreSQL d r0 = Inr (r, d')" and "rows_kept (reservations d)"
    and "reservation_ok r0"
  shows "rows_kept (reservations d')"
proof -
  note r = insert_reservation_Inr[OF assms(1)]
  have ok: "reservation_ok r" using assms(3) by (simp add: r(1) reservation_ok_def)
  then have "\<forall>x \<in> set (reservations d). clear_of x r"
    using r(5) assms(2) exclusion_violated_iff[of "reservations d" r] by (auto simp: rows_kept_def)
  with assms(2) ok show ?thesis by (simp add: r(2) rows_kept_def no_double_booking_snoc)
qed

definition apart_kept :: "app_env \<Rightarrow> resource_requirement list \<Rightarrow> run \<Rightarrow> bool" where
  "apart_kept env rqs run \<longleftrightarrow> resource_requirements (rn_db run) = rqs \<and>
     (env_backend env = PostgreSQL \<longrightarrow> rows_kept (reservations (rn_db run)))"

lemma hold_keeps_apart:
  assumes "apart_kept env rqs run" and "good_window w" and "hold env run res w n = Inr run'"
  shows "apart_kept env rqs run'"
  using assms(3)
proof (cases rule: hold_cases)
  case (held parent child db)
  have ok: "reservation_ok (child_row env run parent res w n)"
    using assms(2) insert_reservation_Inr(3,4)[OF held(2)]
    by (auto simp: reservation_ok_def good_window_def)
  have "rows_kept (reservations db)" if "env_backend env = PostgreSQL"
    using insert_rows_kept[OF _ _ ok] held(2) assms(1) that by (simp add: apart_kept_def)
  moreover have "resource_requirements db = resource_requirements (rn_db run)"
    by (simp add: insert_reservation_Inr(2)[OF held(2)])
  ultimately show ?thesis using assms(1) held(3) by (simp add: apart_kept_def)
qed (use assms(1) in \<open>simp add: apart_kept_def\<close>)

interpretation apart: walk_invariant env "apart_kept env rqs" good_window
proof (unfold_locales, goal_cases)
  case (3 run q w w')
  then show ?case by (blast intro: good_padded)
next
  case (4 run w res n run')
  then show ?case by (blast intro: hold_keeps_apart)
qed (simp_all add: apart_kept_def miss_frame)

lemma book_keeps_apart:
  assumes "env_backend env = PostgreSQL" and "rows_kept (reservations d)" and "reservation_create_ok p"
  shows "rows_kept (reservations (committed (snd (book env (open_session d) u res p key a))))"
proof (cases rule: book_cases[of env d u res p key a])
  case (booked row run v)
  have "reservation_ok (new_reservation env res u p key)"
    using assms(3) by (auto simp: reservation_create_ok_def reservation_ok_def valid_window_def)
  then have "rows_kept (reservations d @ [row])"
    using insert_rows_kept[of d _ row] booked(1) assms(1,2) by fastforce
  then have "apart_kept env (resource_requirements d) (start_run (record_change env ''reservation''
      (rv_id row) ''created'' (d\<lparr>reservations := reservations d @ [row]\<rparr>)) {re_id res} (Some row)
      (Some (us_id u)) a)"
    by (simp add: apart_kept_def start_run_def)
  from apart.resolve_keeps[OF this payload_window[OF assms(3)] booked(2)] booked(3) assms(1)
  show ?thesis by (simp add: apart_kept_def)
qed (use assms(2) in simp)

section \<open>Retries\<close>

text \<open>The foreign key of the table: every reservation's resource exists.\<close>

definition resources_exist :: "database \<Rightarrow> bool" where
  "resources_exist db \<longleftrightarrow> (\<forall>r \<in> set (reservations db). get_resource db (rv_resource_id r) \<noteq> None)"

lemma booked_rows:
  assumes "insert_reservation b d (new_reservation env res u p key) =
      Inr (row, d\<lparr>reservations := reservations d @ [row]\<rparr>)"
    and "resolve env (record_change env ''reservation'' (rv_id row) ''created''
          (d\<lparr>reservations := reservations d @ [row]\<rparr>)) owners w {re_id res} (Some row) q a = Inr run"
    and "get_resource d (re_id res) = Some res" and "resources_exist d"
  shows "by_key (rn_db run) (us_id u) key = Some row" and "resources_exist (rn_db run)"
    and "get_resource (rn_db run) = get_resource d"
proof -
  note row = insert_new_reservation[OF assms(1)]
  obtain ms where db: "rn_db run = d\<lparr>reservations := reservations d @ [row] @ rn_children run,
      change_markers := ms\<rparr>"
    and kids: "\<forall>c \<in> set (rn_children run). get_resource d (rv_resource_id c) \<noteq> None"
    using resolve_holds_kept[OF assms(2)] by (auto simp: holds_kept_def record_change_def split: if_splits)
  show "get_resource (rn_db run) = get_resource d" by (simp add: db)
  show "resources_exist (rn_db run)" using assms(3,4) kids row(1) by (auto simp: resources_exist_def db)
  have "find (\<lambda>r. rv_requested_by_id r = Some (us_id u) \<and> rv_idempotency_key r = key) (reservations d) = None"
    using assms(1) by (auto simp: insert_reservation_def Let_def find_None_iff list_ex_iff split: if_splits)
  then show "by_key (rn_db run) (us_id u) key = Some row"
    using row(8,9) by (simp add: by_key_def db find_append)
qed

lemma replay_answers:
  assumes "bookable d u rid = Inr res" and "by_key d (us_id u) key = Some row"
    and "rv_request_fingerprint row = fingerprint env rid p" and "resources_exist d"
  shows "\<exists>v. create_reservation env others (open_session d) u rid p key = (Inr (200, v), open_session d) \<and>
    cr_reservation v = reservation_view row res"
proof -
  have "\<forall>c \<in> set (children_of d (rv_id row)). get_resource d (rv_resource_id c) \<noteq> None"
    using assms(4) by (simp add: children_of_def resources_exist_def)
  then obtain v where "created_view d row res None [] = Inr v" "cr_reservation v = reservation_view row res"
    using created_view_Inr[of d row None res "[]"] by auto
  with assms show ?thesis by (simp add: create_reservation_def replay_def)
qed

lemma bookable_cong: "get_resource d rid = get_resource d' rid \<Longrightarrow> bookable d u rid = bookable d' u rid"
  by (simp add: bookable_def resource_or_404_def)

section \<open>Free windows are booked\<close>

lemma insert_succeeds:
  assumes "booking_rules L db" and "rrule_lib_ok L" and "reservation_create_ok p"
    and "get_resource db (re_id res) = Some res"
    and "window_free L db res (pc_date p) (pc_start p) (pc_end p) (pc_quantity p)"
    and "by_key db (us_id u) key = None"
    and "pc_external_ref p = None \<or> by_ref db (us_id u) (the (pc_external_ref p)) = None"
  shows "\<exists>row. insert_reservation b db (new_reservation env res u p key) =
    Inr (row, db\<lparr>reservations := reservations db @ [row]\<rparr>)"
proof -
  let ?r = "(new_reservation env res u p key)\<lparr>rv_id := fresh_id (map rv_id (reservations db))\<rparr>"
  have ok: "reservation_ok ?r" by (rule new_reservation_ok[OF assms(3)])
  have "no_double_booking (reservations db @ [?r])"
    using append_no_double_booking[OF assms(1,2) ok] assms(5) by simp
  then have "\<not> exclusion_violated (reservations db) ?r"
    using exclusion_violated_iff[of "reservations db" ?r] ok assms(1)
    by (auto simp: no_double_booking_snoc booking_rules_def tables_ok_def)
  moreover have "\<not> list_ex (\<lambda>x. rv_requested_by_id x = Some (us_id u) \<and> rv_idempotency_key x = key)
      (reservations db)"
    using assms(6) by (auto simp: by_key_def find_None_iff list_ex_iff)
  moreover have "pc_external_ref p \<noteq> None \<Longrightarrow> \<not> list_ex (\<lambda>x. rv_requested_by_id x = Some (us_id u) \<and>
      rv_external_ref x = pc_external_ref p) (reservations db)"
    using assms(7) by (auto simp: by_ref_def find_None_iff list_ex_iff)
  ultimately show ?thesis
    using assms(3) by (auto simp: insert_reservation_def Let_def reservation_create_ok_def)
qed

lemma resolve_nothing:
  "list_requirements db RESOURCE rid = [] \<Longrightarrow>
   resolve env db [(RESOURCE, rid)] w used parent q [] = Inr (start_run db used parent q [])"
  by (simp add: resolve_def MAX_DEPTH_def numeral_eq_Suc start_run_def)

lemma list_requirements_frame [simp]:
  "list_requirements (db\<lparr>reservations := x\<rparr>) = list_requirements db"
  "list_requirements (record_change env k i c db) = list_requirements db"
  by (simp_all add: list_requirements_def fun_eq_iff)

lemma book_succeeds:
  assumes "insert_reservation (env_backend env) db (new_reservation env res u p key) =
      Inr (row, db\<lparr>reservations := reservations db @ [row]\<rparr>)"
    and "list_requirements db RESOURCE (re_id res) = []"
  shows "\<exists>v s. book env (open_session db) u res p key [] = (Inr (201, v), s)"
  using assms by (simp add: book_def resolve_nothing) (simp add: created_view_def start_run_def)

section \<open>Availability and booking answer alike\<close>

text \<open>The check constraint on a pool's capacity.\<close>

definition pool_sized :: "resource \<Rightarrow> bool" where
  "pool_sized res \<longleftrightarrow> (re_mode res = POOLED \<longrightarrow> (\<exists>c. re_capacity res = Some c \<and> 1 \<le> c))"

lemma range_holds:
  assumes "tables_ok L db" and "in_span i (range_span a b)"
  shows "units_held (held_reservations db rid a b) i = units_held (held_on db rid) i"
proof -
  let ?P = "\<lambda>r. a - 1 \<le> rv_reserved_date r \<and> rv_reserved_date r \<le> b"
  have "held_reservations db rid a b = filter ?P (held_on db rid)"
    by (auto simp: held_reservations_def held_on_def intro!: filter_cong)
  moreover have "?P r" if r: "r \<in> set (held_on db rid)" "in_span i (held_span r)" for r
  proof -
    have "reservation_ok r" using r(1) tables_okD(1)[OF assms(1)] by (simp add: held_on_def)
    moreover have "meets (held_span r) (range_span a b)" using r(2) assms(2) by (auto simp: span_simps)
    ultimately show ?thesis
      using window_range_dates[of "rv_time_window_start r" "rv_time_window_end r" "rv_reserved_date r" a b]
      by (simp add: reservation_ok_def held_span_def)
  qed
  ultimately show ?thesis by (simp add: units_held_filter)
qed

lemma window_within_range:
  assumes "valid_window s e" and "a \<le> d" and "last_date d s e \<le> b" and "in_span i (window_span d s e)"
  shows "in_span i (range_span a b)"
proof -
  have 1: "combine a 0 \<le> combine d 0" "combine (last_date d s e + 1) 0 \<le> combine (b + 1) 0"
    using assms(2,3) by (simp_all add: combine_def)
  have 2: "combine d 0 \<le> fst (window_span d s e)"
    "snd (window_span d s e) \<le> combine (last_date d s e + 1) 0"
    using assms(1)
    by (auto simp: span_simps last_date_def valid_window_def valid_time_def combine_def algebra_simps)
  have "fst (window_span d s e) \<le> i" "i < snd (window_span d s e)" using assms(4) by (simp_all add: in_span_def)
  with 1 2 show ?thesis unfolding in_span_def range_span_def fst_conv snd_conv by linarith
qed

lemma bounds_full_intervals:
  "bounds ` set (full_intervals holds c a b) =
   {(max s (fst (range_span a b)), min e (snd (range_span a b))) |s e.
      (s, e) \<in> set (pool_stretches holds c) \<and> max s (fst (range_span a b)) < min e (snd (range_span a b))}"
  by (force simp: full_intervals_def range_span_def bounds_def image_iff)

lemma full_intervals_meet:
  assumes "proper_holds holds" and "0 < c" and "fst w < snd w"
    and "\<And>i. in_span i w \<Longrightarrow> in_span i (range_span a b)"
  shows "(\<exists>sp \<in> bounds ` set (full_intervals holds c a b). meets sp w) \<longleftrightarrow>
    (\<exists>i. in_span i w \<and> c \<le> units_held holds i)"
proof
  assume "\<exists>sp \<in> bounds ` set (full_intervals holds c a b). meets sp w"
  then obtain s e where st: "(s, e) \<in> set (pool_stretches holds c)"
    and ne: "max s (fst (range_span a b)) < min e (snd (range_span a b))"
    and m: "meets (max s (fst (range_span a b)), min e (snd (range_span a b))) w"
    unfolding bounds_full_intervals by blast
  from m ne assms(3) obtain i where "in_span i w"
    "in_span i (max s (fst (range_span a b)), min e (snd (range_span a b)))"
    using meets_iff_common[of "(max s (fst (range_span a b)), min e (snd (range_span a b)))" w] by auto
  moreover then have "covered (pool_stretches holds c) i"
    using st by (auto simp: covered_def in_span_def intro!: bexI[of _ "(s, e)"])
  ultimately show "\<exists>i. in_span i w \<and> c \<le> units_held holds i"
    using pool_stretches_exact(1)[OF assms(1,2)] by blast
next
  assume "\<exists>i. in_span i w \<and> c \<le> units_held holds i"
  then obtain i where i: "in_span i w" "covered (pool_stretches holds c) i"
    using pool_stretches_exact(1)[OF assms(1,2)] by blast
  then obtain s e where st: "(s, e) \<in> set (pool_stretches holds c)" "s \<le> i" "i < e"
    by (force simp: covered_def span_simps)
  let ?sp = "(max s (fst (range_span a b)), min e (snd (range_span a b)))"
  have "in_span i ?sp" using st assms(4)[OF i(1)] by (simp add: span_simps)
  then have "?sp \<in> bounds ` set (full_intervals holds c a b)" "meets ?sp w"
    using st i(1) unfolding bounds_full_intervals by (force simp: span_simps)+
  then show "\<exists>sp \<in> bounds ` set (full_intervals holds c a b). meets sp w" by blast
qed

lemma pool_free_iff:
  assumes "tables_ok L db" and "valid_window s e" and "1 \<le> c"
  shows "fst (pool_state db rid d s e) + 1 \<le> c \<longleftrightarrow>
    \<not> (\<exists>i. in_span i (window_span d s e) \<and> c \<le> units_held (held_on db rid) i)"
proof
  assume "fst (pool_state db rid d s e) + 1 \<le> c"
  then show "\<not> (\<exists>i. in_span i (window_span d s e) \<and> c \<le> units_held (held_on db rid) i)"
    using pool_state_peak[OF assms(1,2), of _ d rid] by fastforce
next
  let ?h = "snd (pool_state db rid d s e)"
  assume free: "\<not> (\<exists>i. in_span i (window_span d s e) \<and> c \<le> units_held (held_on db rid) i)"
  have "\<forall>h \<in> set ?h. 0 \<le> rv_quantity h"
    using tables_okD(1)[OF assms(1)]
    by (force simp: pool_state_def Let_def held_reservations_def reservation_ok_def)
  moreover have "pool_peak ?h (Some (window_span d s e)) = fst (pool_state db rid d s e)"
    by (simp add: pool_state_def Let_def)
  ultimately have "fst (pool_state db rid d s e) = 0 \<or>
      (\<exists>i. in_span i (window_span d s e) \<and> units_held ?h i = fst (pool_state db rid d s e))"
    using pool_peak_exact(2)[of ?h "window_span d s e"] by simp
  then show "fst (pool_state db rid d s e) + 1 \<le> c"
    using free assms(3) pool_state_holds[OF assms(1,2)] by fastforce
qed

lemma set_busy_of:
  "bounds ` set (busy_of env db res a b) =
   bounds ` set (occupied (env_rrule env) db (booked_slots db (re_id res))
     (if re_mode res = EXCLUSIVE then held_reservations db (re_id res) a b else [])
     (booked_days db (re_id res) a b) a b) \<union>
   (if re_mode res = POOLED then bounds ` set (full_intervals (held_reservations db (re_id res) a b)
      (the (re_capacity res)) a b) else {})"
  by (simp add: busy_of_def Let_def image_Un)

lemma busy_of_meets_iff:
  assumes "tables_ok (env_rrule env) db" and "rrule_lib_ok (env_rrule env)" and "pool_sized res"
    and "re_mode res \<noteq> SHARED" and "valid_window s e" and "a \<le> d" and "last_date d s e \<le> b"
  shows "(\<exists>sp \<in> bounds ` set (busy_of env db res a b). meets sp (window_span d s e)) \<longleftrightarrow>
    \<not> window_free (env_rrule env) db res d s e 1"
proof -
  let ?L = "env_rrule env" and ?w = "window_span d s e" and ?rid = "re_id res"
  have w: "fst ?w < snd ?w" using assms(5) by (auto simp: valid_window_def intro: window_span_length(1))
  have inr: "in_span i (range_span a b)" if "in_span i ?w" for i
    using window_within_range[OF assms(5-7) that] .
  have sub: "meets sp (range_span a b)" if "meets sp ?w" for sp
  proof -
    have "in_span (fst ?w) ?w" "in_span (snd ?w - 1) ?w" using w by (simp_all add: in_span_def)
    then have "in_span (fst ?w) (range_span a b)" "in_span (snd ?w - 1) (range_span a b)"
      by (blast intro: inr)+
    with that show ?thesis by (auto simp: meets_def in_span_def)
  qed
  show ?thesis
  proof (cases "re_mode res")
    case EXCLUSIVE
    have "bounds ` set (window_conflicts ?L db ?rid d s e True) = {} \<longleftrightarrow> window_free ?L db res d s e 1"
      using EXCLUSIVE by (simp add: window_free_def)
    then show ?thesis
      unfolding set_busy_of using sub EXCLUSIVE
      by (auto simp: occupied_all_exact[OF assms(1,2)] window_conflicts_exact(1)[OF assms(1,2,5)]
          simp del: image_is_empty)
  next
    case POOLED
    then obtain c where c: "re_capacity res = Some c" "1 \<le> c" using assms(3) by (auto simp: pool_sized_def)
    have proper: "proper_holds (held_reservations db ?rid a b)"
      using tables_okD(1)[OF assms(1)] held_span_nonempty by (auto simp: proper_holds_def held_reservations_def)
    have full: "(\<exists>sp \<in> bounds ` set (full_intervals (held_reservations db ?rid a b) c a b). meets sp ?w) \<longleftrightarrow>
        \<not> fst (pool_state db ?rid d s e) + 1 \<le> c"
      using full_intervals_meet[OF proper _ w inr] pool_free_iff[OF assms(1,5) c(2)]
        range_holds[OF assms(1) inr] c(2) by (auto cong: conj_cong)
    have "bounds ` set (window_conflicts ?L db ?rid d s e False) = {} \<longleftrightarrow>
        window_conflicts ?L db ?rid d s e False = []" by simp
    then have tt: "window_conflicts ?L db ?rid d s e False = [] \<longleftrightarrow>
        \<not> (\<exists>sp \<in> bounds ` set (occupied ?L db (booked_slots db ?rid) [] (booked_days db ?rid a b) a b). meets sp ?w)"
      using sub by (auto simp: occupied_timetable_exact[OF assms(1,2)] window_conflicts_exact(2)[OF assms(1,2,5)]
          simp del: image_is_empty)
    show ?thesis
      unfolding set_busy_of bex_Un using POOLED c full tt by (simp add: window_free_def)
  next
    case SHARED
    with assms(4) show ?thesis by simp
  qed
qed

section \<open>Cancelling\<close>

lemma record_fold_frame [simp]:
  "reservations (fold (\<lambda>x. record_change env k (f x) c) xs db) = reservations db"
  "resources (fold (\<lambda>x. record_change env k (f x) c) xs db) = resources db"
  "booking_rules L (fold (\<lambda>x. record_change env k (f x) c) xs db) = booking_rules L db"
  by (induction xs arbitrary: db) simp_all

lemma cancelled_simps [simp]:
  "rv_id (cancelled m r) = rv_id r" "rv_status (cancelled m r) = CANCELLED"
  "rv_resource_id (cancelled m r) = rv_resource_id r" "rv_mode (cancelled m r) = rv_mode r"
  "rv_parent_reservation_id (cancelled m r) = rv_parent_reservation_id r"
  by (simp_all add: cancelled_def)

lemma reservations_cancel_rows:
  "reservations (cancel_rows env r db) =
   update_rows (\<lambda>x. rv_id x \<in> set (map rv_id (r # held_children db (rv_id r))))
     (cancelled (env_now env)) (reservations db)"
  by (simp add: cancel_rows_def Let_def)

lemma cancel_rows_rules: "booking_rules L db \<Longrightarrow> booking_rules L (cancel_rows env r db)"
  unfolding cancel_rows_def Let_def record_fold_frame
  by (rule booking_rules_update) (auto simp: cancelled_def)

lemma changeable_Inr:
  "changeable db rid i u m = Inr r \<Longrightarrow> r \<in> set (reservations db) \<and> rv_id r = i \<and> rv_resource_id r = rid \<and>
     (us_role_type u = ORG_ADMIN \<or> rv_requested_by_id r = Some (us_id u))"
  by (auto simp: changeable_def dest: find_Some_iff_first split: option.splits if_splits)

lemma cancel_cases:
  obtains (refused) e where "cancel_reservation env (open_session db) u rid i = (Inl (Refused e), open_session db)"
  | (gone) r where "r \<in> set (reservations db)" "rv_id r = i" "rv_status r = CANCELLED"
      "cancel_reservation env (open_session db) u rid i = (own_view db r, open_session db)"
  | (let_go) r where "r \<in> set (reservations db)" "rv_id r = i" "rv_status r = HELD"
      "us_role_type u = ORG_ADMIN \<or> rv_requested_by_id r = Some (us_id u)"
      "cancel_reservation env (open_session db) u rid i =
        (own_view (cancel_rows env r db) (cancelled (env_now env) r), open_session (cancel_rows env r db))"
proof -
  let ?c = "bind_result (require_roles [ORG_ADMIN, UNIT_ADMIN] u) (\<lambda>_.
    changeable db rid i u ''only the caller that took a hold may cancel it'')"
  show ?thesis
  proof (cases ?c)
    case (Inl e)
    then show ?thesis using refused by (simp add: cancel_reservation_def)
  next
    case (Inr r)
    then have "changeable db rid i u ''only the caller that took a hold may cancel it'' = Inr r"
      by (auto simp: result_simps)
    note r = changeable_Inr[OF this]
    show ?thesis
      using gone[of r] let_go[of r] r Inr by (cases "rv_status r") (auto simp: cancel_reservation_def Let_def)
  qed
qed

section \<open>Changing a resource\<close>

definition fits_from :: "date \<Rightarrow> database \<Rightarrow> bool" where
  "fits_from day db \<longleftrightarrow> (\<forall>rid res i. get_resource db rid = Some res \<longrightarrow> re_mode res = POOLED \<longrightarrow>
     combine day 0 \<le> i \<longrightarrow> units_held (held_on db rid) i \<le> the (re_capacity res))"

lemma units_held_sort: "units_held (sort_key k xs) i = units_held xs i"
proof -
  have "mset (map (\<lambda>h. if in_span i (held_span h) then rv_quantity h else 0) (sort_key k xs)) =
      mset (map (\<lambda>h. if in_span i (held_span h) then rv_quantity h else 0) xs)" by simp
  then show ?thesis unfolding units_held_def by (metis sum_mset_sum_list)
qed

text \<open>From midnight on, the holds dated yesterday or later are all the holds there are.\<close>

lemma to_come_holds:
  assumes "tables_ok L db" and "combine (env_today env) 0 \<le> i"
  shows "units_held (to_come env db rid) i = units_held (held_on db rid) i"
proof -
  let ?P = "\<lambda>r. env_today env - 1 \<le> rv_reserved_date r"
  have "?P r" if r: "r \<in> set (held_on db rid)" "in_span i (held_span r)" for r
  proof -
    have "reservation_ok r" using r(1) tables_okD(1)[OF assms(1)] by (simp add: held_on_def)
    then have v: "valid_window (rv_time_window_start r) (rv_time_window_end r)"
      by (simp add: reservation_ok_def)
    have "combine (env_today env) 0 < snd (held_span r)" using r(2) assms(2) by (simp add: in_span_def)
    then show ?thesis
      using v by (auto simp: held_span_def span_simps valid_window_def valid_time_def combine_less_iff
          split: if_splits)
  qed
  moreover have "filter ?P (held_on db rid) = filter (\<lambda>r. rv_resource_id r = rid \<and> rv_status r = HELD \<and>
      rv_reserved_date r \<ge> env_today env - 1) (reservations db)"
    by (auto simp: held_on_def intro!: filter_cong)
  ultimately show ?thesis
    unfolding to_come_def units_held_sort using units_held_filter[of "held_on db rid" i ?P] by simp
qed

lemma units_held_pos: "0 < units_held xs i \<Longrightarrow> \<exists>h \<in> set xs. in_span i (held_span h)"
  by (induction xs) (auto split: if_splits)

lemma would_not_fit_pool:
  assumes "would_not_fit env db rid POOLED (Some c) holds = []" and "proper_holds holds" and "1 \<le> c"
  shows "units_held holds i \<le> c"
proof (rule ccontr)
  assume "\<not> units_held holds i \<le> c"
  then have big: "c + 1 \<le> units_held holds i" by simp
  then have "covered (pool_stretches holds (c + 1)) i"
    using pool_stretches_exact(1)[OF assms(2), of "c + 1"] assms(3) by simp
  then obtain st where st: "st \<in> set (pool_stretches holds (c + 1))" "in_span i st"
    by (auto simp: covered_def)
  obtain h where h: "h \<in> set holds" "in_span i (held_span h)"
    using units_held_pos[of holds i] big assms(3) by auto
  have "meet (held_span h) st" using st(2) h(2) by (auto simp: meet_def in_span_def)
  then have "h \<in> set (would_not_fit env db rid POOLED (Some c) holds)"
    using h(1) st(1) by (auto simp: would_not_fit_def Let_def list_ex_iff)
  with assms(1) show False by simp
qed

lemma find_update:
  assumes "k res' = i" and "find (\<lambda>r. k r = i) rs \<noteq> None"
  shows "find (\<lambda>r. k r = j) (update_rows (\<lambda>r. k r = i) (\<lambda>_. res') rs) =
    (if j = i then Some res' else find (\<lambda>r. k r = j) rs)"
  using assms(2)
proof (induction rs)
  case (Cons r rs)
  show ?case
  proof (cases "find (\<lambda>r. k r = i) rs = None")
    case True
    then have "update_rows (\<lambda>r. k r = i) (\<lambda>_. res') rs = rs"
      by (auto simp: update_rows_def find_None_iff intro!: map_idI)
    with Cons.prems assms(1) True show ?thesis by (auto simp: update_rows_def split: if_splits)
  next
    case False
    with Cons.IH assms(1) show ?thesis by (auto simp: update_rows_def)
  qed
qed simp

lemma patch_resource_simps [simp]:
  "re_id (patch_resource p r) = re_id r"
  "re_mode (patch_resource p r) = patched (xu_mode p) (re_mode r)"
  "re_capacity (patch_resource p r) = patched (xu_capacity p) (re_capacity r)"
  by (simp_all add: patch_resource_def)

lemma update_resource_Inr:
  assumes "update_resource env (open_session db) u rid p = (Inr res', sess)"
  obtains res rows where "get_resource db rid = Some res" "res' = patch_resource p res"
    "re_mode res' = POOLED \<Longrightarrow> re_capacity res' \<noteq> None \<and> re_capacity res' \<noteq> Some 0"
    "re_mode res' \<noteq> re_mode res \<or> (re_mode res' = POOLED \<and> re_capacity res' \<noteq> re_capacity res) \<Longrightarrow>
      would_not_fit env db rid (re_mode res') (re_capacity res') (to_come env db rid) = []"
    "rows = (if re_mode res' \<noteq> re_mode res
      then update_rows (\<lambda>r. r \<in> set (to_come env db rid)) (\<lambda>r. r\<lparr>rv_mode := re_mode res'\<rparr>) (reservations db)
      else reservations db)"
    "env_backend env = PostgreSQL \<Longrightarrow> \<not> table_overlaps rows"
    "committed sess = record_change env ''resource'' rid ''updated'' (db\<lparr>reservations := rows,
      resources := update_rows (\<lambda>r. re_id r = rid) (\<lambda>_. res') (resources db)\<rparr>)"
proof (cases "bind_result (require_roles [ORG_ADMIN] u) (\<lambda>_. resource_or_404 db rid)")
  case (Inl e)
  with assms show ?thesis by (simp add: update_resource_def)
next
  case (Inr res)
  then have "get_resource db rid = Some res" "re_id res = rid"
    by (auto simp: result_simps resource_or_404_def dest: get_resource_Some split: option.splits)
  moreover obtain mode capacity where
    m: "patched (xu_mode p) (re_mode res) = mode" "patched (xu_capacity p) (re_capacity res) = capacity"
    by blast
  ultimately show ?thesis using that[of res] Inr assms
    unfolding update_resource_def Let_def session_simps patch_resource_simps m
    by (auto simp: m split: if_splits)
qed

lemma update_keeps_rows:
  assumes "tables_ok L db" and "env_backend env = PostgreSQL"
    and "update_resource env (open_session db) u rid p = (Inr res', sess)"
  shows "rows_kept (reservations (committed sess))"
proof (rule update_resource_Inr[OF assms(3)], goal_cases)
  case (1 res rows)
  note rows = 1(5) and free = 1(6)
  have sess: "reservations (committed sess) = rows" by (simp add: 1(7))
  have ok: "\<forall>r \<in> set rows. reservation_ok r"
    using tables_okD(1)[OF assms(1)] by (auto simp: rows set_update_rows reservation_ok_def)
  have "clear_of x y" if "(x, y) \<in> set (pairs rows)" for x y
  proof -
    have "reservation_ok x" "reservation_ok y" using set_pairs_subset[OF that] ok by auto
    then have "ranges_overlap (sql_span x) (sql_span y) \<longleftrightarrow> meets (held_span x) (held_span y)"
      using held_span_nonempty by (simp add: sql_span_held_span ranges_overlap_def)
    with free[OF assms(2)] that show ?thesis by (auto simp: table_overlaps_def list_ex_iff clear_of_def)
  qed
  then show ?thesis using ok sess by (auto simp: rows_kept_def no_double_booking_def sorted_wrt_iff_pairs)
qed

definition capacities_ok :: "database \<Rightarrow> bool" where
  "capacities_ok db \<longleftrightarrow> (\<forall>res \<in> set (resources db). case re_capacity res of None \<Rightarrow> True | Some c \<Rightarrow> 0 \<le> c)"

lemma held_on_mode:
  "units_held (held_on (db\<lparr>reservations := update_rows P (\<lambda>r. r\<lparr>rv_mode := m\<rparr>) (reservations db),
      resources := x\<rparr>) rid) i = units_held (held_on db rid) i"
proof -
  have "units_held (filter (\<lambda>r. rv_resource_id r = rid \<and> rv_status r = HELD)
      (update_rows P (\<lambda>r. r\<lparr>rv_mode := m\<rparr>) rows)) i =
    units_held (filter (\<lambda>r. rv_resource_id r = rid \<and> rv_status r = HELD) rows) i" for rows
    by (induction rows) (auto simp: update_rows_def held_span_def)
  then show ?thesis by (simp add: held_on_def)
qed

lemma update_keeps_fit:
  assumes "tables_ok L db" and "fits_from (env_today env) db" and "capacities_ok db"
    and "resource_update_ok p" and "update_resource env (open_session db) u rid p = (Inr res', sess)"
  shows "fits_from (env_today env) (committed sess)"
proof -
  from update_resource_Inr[OF assms(5)] obtain res rows where
    res: "get_resource db rid = Some res" "res' = patch_resource p res"
    and cap: "re_mode res' = POOLED \<Longrightarrow> re_capacity res' \<noteq> None \<and> re_capacity res' \<noteq> Some 0"
    and fit: "re_mode res' \<noteq> re_mode res \<or> (re_mode res' = POOLED \<and> re_capacity res' \<noteq> re_capacity res) \<Longrightarrow>
      would_not_fit env db rid (re_mode res') (re_capacity res') (to_come env db rid) = []"
    and rows: "rows = (if re_mode res' \<noteq> re_mode res
      then update_rows (\<lambda>r. r \<in> set (to_come env db rid)) (\<lambda>r. r\<lparr>rv_mode := re_mode res'\<rparr>) (reservations db)
      else reservations db)"
    and sess: "committed sess = record_change env ''resource'' rid ''updated'' (db\<lparr>reservations := rows,
      resources := update_rows (\<lambda>r. re_id r = rid) (\<lambda>_. res') (resources db)\<rparr>)" by metis
  have id: "re_id res' = rid" using res get_resource_Some by simp
  have get: "get_resource (committed sess) j = (if j = rid then Some res' else get_resource db j)" for j
    using find_update[of re_id res' rid "resources db" j] id res(1) by (simp add: get_resource_def sess)
  have units: "units_held (held_on (committed sess) j) i = units_held (held_on db j) i" for j i
    using held_on_mode by (simp add: sess rows held_on_def)
  have "units_held (held_on db rid) i \<le> the (re_capacity res')"
    if m: "re_mode res' = POOLED" and i: "combine (env_today env) 0 \<le> i" for i
  proof (cases "re_mode res' \<noteq> re_mode res \<or> re_capacity res' \<noteq> re_capacity res")
    case True
    obtain c where c: "re_capacity res' = Some c" "c \<noteq> 0" using cap[OF m] by auto
    have "0 \<le> c"
      using assms(3,4) c(1) res get_resource_Some[OF res(1)]
      by (auto simp: capacities_ok_def resource_update_ok_def patched_def split: option.splits)
    moreover have "proper_holds (to_come env db rid)"
      using tables_okD(1)[OF assms(1)] held_span_nonempty by (auto simp: proper_holds_def to_come_def)
    ultimately have "units_held (to_come env db rid) i \<le> c"
      using would_not_fit_pool[of env db rid c] fit m True c by auto
    then show ?thesis using to_come_holds[OF assms(1) i] c by simp
  next
    case False
    with assms(2) res m i show ?thesis by (auto simp: fits_from_def)
  qed
  with assms(2) show ?thesis by (auto simp: fits_from_def get units)
qed

section \<open>The properties\<close>



definition ex_booking :: reservation_create where
  "ex_booking = \<lparr>pc_date = monday, pc_start = hour 12, pc_end = hour 13, pc_purpose = ''surgery'',
     pc_quantity_set = None, pc_external_ref = None, pc_assignments = None\<rparr>"

definition grace :: user where
  "grace = ex_user ''grace'' ORG_ADMIN"

lemma ex_booking_ok: "reservation_create_ok ex_booking"
  by (simp add: reservation_create_ok_def ex_booking_def pc_quantity_def hour_def valid_time_def day_us_def)

lemma ex_env_simps [simp]: "env_rrule ex_env = weekly_lib" "env_backend ex_env = PostgreSQL"
  by (simp_all add: ex_env_def)

text \<open>C1: A booking keeps every rule of the reservations table, whatever is asked for and by whom:
  no double booking, no pool over its capacity, no unshared hold over the timetable, for the
  booking and for everything it requires.\<close>

theorem create_reservation_keeps_rules:
  assumes "rrule_lib_ok (env_rrule env)" and "booking_rules (env_rrule env) db" and "reservation_create_ok p"
  shows "booking_rules (env_rrule env)
    (committed (snd (create_reservation env (\<lambda>d. d) (open_session db) u rid p key)))"
proof (cases rule: create_cases[of env "\<lambda>d. d" db u rid p key])
  case (tried res a)
  then show ?thesis
    using book_keeps_rules[OF assms(1-3), of res] booking_checks_free[OF tried(4)] by simp
qed (use assms(2) in simp)

theorem create_reservation_keeps_rules_witness:
  "booking_rules weekly_lib ex_needs_db \<and>
   booking_rules weekly_lib (committed (snd (create_reservation ex_env (\<lambda>d. d) (open_session ex_needs_db)
     grace 1 ex_booking ''key-0001''))) \<and>
   map rv_resource_id (reservations (committed (snd (create_reservation ex_env (\<lambda>d. d)
     (open_session ex_needs_db) grace 1 ex_booking ''key-0001'')))) = [1, 3, 1, 2, 3]"
proof -
  have "map rv_resource_id (reservations (committed (snd (create_reservation ex_env (\<lambda>d. d)
     (open_session ex_needs_db) grace 1 ex_booking ''key-0001'')))) = [1, 3, 1, 2, 3]" by code_simp
  with create_reservation_keeps_rules[of ex_env ex_needs_db ex_booking grace 1 "''key-0001''"]
  show ?thesis using ex_needs_rules weekly_lib_ok ex_booking_ok by simp
qed

text \<open>C2: On PostgreSQL no interleaving makes a double booking: whatever other transactions commit
  between the check and the insert, as long as they kept the table's rule, the rule still holds
  when the booking is done.\<close>

theorem create_reservation_race_safe:
  assumes "env_backend env = PostgreSQL" and "reservation_create_ok p"
    and "rows_kept (reservations db)" and "rows_kept (reservations (others db))"
  shows "rows_kept (reservations
    (committed (snd (create_reservation env others (open_session db) u rid p key))))"
proof (cases rule: create_cases[of env others db u rid p key])
  case (tried res a)
  then show ?thesis using book_keeps_apart[OF assms(1,4,2)] by simp
qed (use assms(3) in simp)

definition ex_rival :: "database \<Rightarrow> database" where
  "ex_rival d = d\<lparr>reservations := reservations d @ [ex_hold 7 2 (hour 12) (hour 14) 1 EXCLUSIVE]\<rparr>"

theorem create_reservation_race_safe_witness:
  "rows_kept (reservations (ex_rival ex_db)) \<and>
   rows_kept (reservations (committed (snd (create_reservation ex_env ex_rival (open_session ex_db)
      grace 2 ex_booking ''key-0001'')))) \<and>
   length (reservations (committed (snd (create_reservation ex_env ex_rival (open_session ex_db)
      grace 2 ex_booking ''key-0001'')))) = 3"
proof -
  have base: "rows_kept (reservations ex_db)"
    using ex_booking_rules by (simp add: booking_rules_def tables_ok_def rows_kept_def)
  have rival: "rows_kept (reservations (ex_rival ex_db))"
    by (simp add: rows_kept_def ex_rival_def ex_db_def ex_hold_def no_double_booking_def clear_of_def
        reservation_ok_def valid_window_def hour_def valid_time_def day_us_def)
  have "length (reservations (committed (snd (create_reservation ex_env ex_rival (open_session ex_db)
      grace 2 ex_booking ''key-0001'')))) = 3" by code_simp
  with create_reservation_race_safe[of ex_env ex_booking ex_db ex_rival grace 2 "''key-0001''"]
    rival base ex_booking_ok show ?thesis by simp
qed


text \<open>C6: A request answered with 201 and sent again under its key is answered with 200 and the
  reservation it made the first time, and writes nothing.\<close>

theorem create_reservation_replay:
  assumes "create_reservation env others (open_session db) u rid p key = (Inr (201, v), sess)"
    and "resources_exist (others db)" and "resources (others db) = resources db"
    and "env_sha256 env' = env_sha256 env"
  shows "\<exists>v'. create_reservation env' others' (open_session (committed sess)) u rid p key =
      (Inr (200, v'), open_session (committed sess)) \<and> cr_reservation v' = cr_reservation v"
proof (cases rule: create_cases[of env others db u rid p key])
  case (tried res a)
  have same: "get_resource (others db) rid = get_resource db rid" using assms(3) by (simp add: get_resource_def)
  show ?thesis
  proof (cases rule: book_cases[of env "others db" u res p key a])
    case (booked row run w)
    have s: "committed sess = rn_db run" "cr_reservation v = reservation_view row res"
      using assms(1) tried(5) booked(3,4) by auto
    note rows = booked_rows[OF booked(1,2)]
    have get: "get_resource (others db) (re_id res) = Some res" using same tried(1,2) by simp
    have "bookable db u rid = Inr res"
      using assms(1) tried(1) bookable_Inr[of db u rid]
      by (cases "bookable db u rid") (auto simp: create_reservation_def)
    then have "bookable (rn_db run) u rid = Inr res"
      using bookable_cong[of "rn_db run" rid db u] rows(3)[OF get assms(2)] same by simp
    moreover have "rv_request_fingerprint row = fingerprint env' rid p"
      using insert_new_reservation(10)[OF booked(1)] tried(2) assms(4) by (simp add: fingerprint_def)
    ultimately show ?thesis
      using replay_answers rows(1,2)[OF get assms(2)] unfolding s by blast
  next
    case failed
    have "fst (book env (open_session (others db)) u res p key a) = Inr (201, v)"
      using assms(1) tried(5) by simp
    with failed(2) show ?thesis by auto
  qed
qed (use assms(1) in auto)

theorem create_reservation_replay_witness:
  "\<exists>v v' sess. create_reservation ex_env (\<lambda>d. d) (open_session ex_needs_db) grace 1 ex_booking ''key-0001'' =
      (Inr (201, v), sess) \<and>
    create_reservation ex_env (\<lambda>d. d) (open_session (committed sess)) grace 1 ex_booking ''key-0001'' =
      (Inr (200, v'), open_session (committed sess)) \<and> cr_reservation v' = cr_reservation v"
proof -
  let ?r = "create_reservation ex_env (\<lambda>d. d) (open_session ex_needs_db) grace 1 ex_booking ''key-0001''"
  have "case fst ?r of Inr (n, v) \<Rightarrow> n = 201 | Inl _ \<Rightarrow> False" by code_simp
  then obtain v sess where r: "?r = (Inr (201, v), sess)" by (cases ?r) (auto split: sum.splits)
  have "resources_exist ex_needs_db" by code_simp
  with create_reservation_replay[OF r] r show ?thesis by blast
qed

text \<open>C4: A window on a resource that requires nothing is booked, for a caller who may book it,
  exactly when it is free by the rule of the resource's mode.\<close>

theorem booked_iff_free:
  assumes "rrule_lib_ok (env_rrule env)" and "booking_rules (env_rrule env) db"
    and "reservation_create_ok p" and "bookable db u rid = Inr res"
    and "list_requirements db RESOURCE rid = []" and "pc_assignments p = None"
    and "pc_quantity p = 1 \<or> re_mode res = POOLED" and "by_key db (us_id u) key = None"
    and "pc_external_ref p = None \<or> by_ref db (us_id u) (the (pc_external_ref p)) = None"
  shows "(\<exists>v. fst (create_reservation env (\<lambda>d. d) (open_session db) u rid p key) = Inr (201, v)) \<longleftrightarrow>
    window_free (env_rrule env) db res (pc_date p) (pc_start p) (pc_end p) (pc_quantity p)"
proof (cases "window_free (env_rrule env) db res (pc_date p) (pc_start p) (pc_end p) (pc_quantity p)")
  case True
  have get: "get_resource db rid = Some res" "re_id res = rid"
    using bookable_Inr[OF assms(4)] get_resource_Some by auto
  obtain row where "insert_reservation (env_backend env) db (new_reservation env res u p key) =
      Inr (row, db\<lparr>reservations := reservations db @ [row]\<rparr>)"
    using insert_succeeds[OF assms(2,1,3) _ True assms(8,9)] get by blast
  with book_succeeds[of env db res u p key row] assms(5) get
  obtain v s where "book env (open_session db) u res p key [] = (Inr (201, v), s)" by auto
  moreover have "booking_checks env db u res p = Inr []"
    using True booking_checks_Inr_iff(1)[OF assms(9,7,6), of env] by simp
  ultimately show ?thesis using True assms(4,8) by (simp add: create_reservation_def)
next
  case False
  with booking_checks_Inr_iff(2)[OF assms(9,7,6) False] assms(4,8) show ?thesis
    by (auto simp: create_reservation_def)
qed

theorem booked_iff_free_witness:
  "(\<exists>v. fst (create_reservation ex_env (\<lambda>d. d) (open_session ex_db) grace 2 ex_booking ''key-0001'') = Inr (201, v)) \<and>
   window_free weekly_lib ex_db (ex_room 2 ''A2'') monday (hour 12) (hour 13) 1"
proof -
  have "bookable ex_db grace 2 = Inr (ex_room 2 ''A2'')" "list_requirements ex_db RESOURCE 2 = []"
    "pc_assignments ex_booking = None" "pc_quantity ex_booking = 1" "by_key ex_db (us_id grace) ''key-0001'' = None"
    "pc_external_ref ex_booking = None"
    "window_free weekly_lib ex_db (ex_room 2 ''A2'') monday (hour 12) (hour 13) 1"
    "pc_date ex_booking = monday" "pc_start ex_booking = hour 12" "pc_end ex_booking = hour 13"
    by code_simp+
  with booked_iff_free[of ex_env ex_db ex_booking grace 2 "ex_room 2 ''A2''" "''key-0001''"]
    ex_booking_rules weekly_lib_ok ex_booking_ok show ?thesis by simp
qed



text \<open>Two different requests can have one fingerprint: a reference spelled as a quantity is read
  as the quantity, and a purpose with a bar in it as a purpose and a reference, whatever the
  digest. Sent under one key, the second is answered with the first's booking.\<close>

theorem fingerprint_collides:
  "ex_booking\<lparr>pc_external_ref := Some ''quantity=2''\<rparr> \<noteq> ex_booking\<lparr>pc_quantity_set := Some 2\<rparr> \<and>
   fingerprint env rid (ex_booking\<lparr>pc_external_ref := Some ''quantity=2''\<rparr>) =
     fingerprint env rid (ex_booking\<lparr>pc_quantity_set := Some 2\<rparr>) \<and>
   fingerprint env rid (ex_booking\<lparr>pc_purpose := ''a|b''\<rparr>) =
     fingerprint env rid (ex_booking\<lparr>pc_purpose := ''a'', pc_external_ref := Some ''b''\<rparr>)"
proof -
  have "strip ''a|b'' = ''a|b''" "strip ''a'' = ''a''" "show_int 2 = ''2''" by code_simp+
  then show ?thesis by (simp add: fingerprint_def fingerprint_parts_def ex_booking_def)
qed

text \<open>C22: Cancelling keeps the rules of the table. Where the hold stood, afterwards neither it nor
  any hold taken for it is held, and every other row is as it was.\<close>

theorem cancel_reservation_frees:
  assumes "booking_rules L db" and "r \<in> set (reservations db)" and "rv_status r = HELD"
    and "us_role_type u = ORG_ADMIN" and "distinct (map rv_id (reservations db))"
  shows "booking_rules L (committed (snd (cancel_reservation env (open_session db) u (rv_resource_id r) (rv_id r)))) \<and>
    reservations (committed (snd (cancel_reservation env (open_session db) u (rv_resource_id r) (rv_id r)))) =
    map (\<lambda>x. if x = r \<or> (rv_parent_reservation_id x = Some (rv_id r) \<and> rv_status x = HELD)
      then cancelled (env_now env) x else x) (reservations db)"
proof (cases rule: cancel_cases[of env db u "rv_resource_id r" "rv_id r"])
  have uniq: "x = y" if "x \<in> set (reservations db)" "y \<in> set (reservations db)" "rv_id x = rv_id y" for x y
    using assms(5) that by (auto simp: distinct_map inj_on_def)
  {
    case (refused e)
    have "\<exists>r'. changeable db (rv_resource_id r) (rv_id r) u m = Inr r'" for m
      using assms(2,4) find_None_iff[of "\<lambda>x. rv_id x = rv_id r \<and> rv_resource_id x = rv_resource_id r"
          "reservations db"]
      by (auto simp: changeable_def split: option.splits)
    then obtain r' where "changeable db (rv_resource_id r) (rv_id r) u
        ''only the caller that took a hold may cancel it'' = Inr r'" by blast
    with refused assms(4) show ?thesis
      by (auto simp: cancel_reservation_def require_roles_def own_view_def Let_def split: option.splits if_splits)
  next
    case (gone r')
    with uniq[of r' r] assms(2,3) show ?thesis by simp
  next
    case (let_go r')
    with uniq[of r' r] assms(2) have r': "r' = r" by simp
    have "rv_id x \<in> set (map rv_id (r # held_children db (rv_id r))) \<longleftrightarrow>
        x = r \<or> (rv_parent_reservation_id x = Some (rv_id r) \<and> rv_status x = HELD)"
      if "x \<in> set (reservations db)" for x
      using uniq[OF that] assms(2) that by (auto simp: held_children_def)
    then have "reservations (cancel_rows env r db) =
        map (\<lambda>x. if x = r \<or> (rv_parent_reservation_id x = Some (rv_id r) \<and> rv_status x = HELD)
          then cancelled (env_now env) x else x) (reservations db)"
      unfolding reservations_cancel_rows update_rows_def by (intro map_cong) auto
    with let_go(5) cancel_rows_rules[OF assms(1)] show ?thesis unfolding r' by simp
  }
qed

theorem cancel_reservation_frees_witness:
  "booking_rules weekly_lib (committed (snd (cancel_reservation ex_env (open_session ex_db) grace 1 1))) \<and>
   map rv_status (reservations (committed (snd (cancel_reservation ex_env (open_session ex_db) grace 1 1)))) =
     [CANCELLED, HELD]"
proof -
  let ?r = "ex_hold 1 1 (hour 22) (hour 6) 1 EXCLUSIVE"
  have "?r \<in> set (reservations ex_db)" "rv_status ?r = HELD" "us_role_type grace = ORG_ADMIN"
    "distinct (map rv_id (reservations ex_db))" "rv_resource_id ?r = 1" "rv_id ?r = 1"
    by code_simp+
  moreover have "map rv_status (reservations (committed (snd (cancel_reservation ex_env
      (open_session ex_db) grace 1 1)))) = [CANCELLED, HELD]" by code_simp
  ultimately show ?thesis
    using cancel_reservation_frees[OF ex_booking_rules, of ?r grace ex_env] by simp
qed

text \<open>Cancelling twice is cancelling once: the second request changes nothing.\<close>

theorem cancel_reservation_idempotent:
  assumes "distinct (map rv_id (reservations db))"
  shows "snd (cancel_reservation env' (open_session (committed (snd (cancel_reservation env (open_session db) u rid i))))
      u rid i) = open_session (committed (snd (cancel_reservation env (open_session db) u rid i)))"
proof (cases rule: cancel_cases[of env db u rid i])
  case (refused e)
  then show ?thesis
    by (cases rule: cancel_cases[of env' db u rid i])
      (auto simp: cancel_reservation_def own_view_def Let_def split: sum.splits if_splits option.splits)
next
  case (gone r)
  have "rv_status x = CANCELLED" if "x \<in> set (reservations db)" "rv_id x = i" for x
    using assms that gone by (auto simp: distinct_map inj_on_def)
  then show ?thesis using gone by (cases rule: cancel_cases[of env' db u rid i]) auto
next
  case (let_go r)
  have gone: "rv_status x \<noteq> HELD" if "x \<in> set (reservations (cancel_rows env r db))" "rv_id x = i" for x
  proof -
    from that(1) obtain y where y: "x = (if rv_id y \<in> set (map rv_id (r # held_children db (rv_id r)))
        then cancelled (env_now env) y else y)"
      unfolding reservations_cancel_rows update_rows_def set_map by blast
    have "rv_id x = rv_id y" by (simp add: y)
    with that(2) let_go(2) have "x = cancelled (env_now env) y" by (simp add: y)
    then show ?thesis by simp
  qed
  have "snd (cancel_reservation env' (open_session (cancel_rows env r db)) u rid i) =
      open_session (cancel_rows env r db)"
  proof (cases rule: cancel_cases[of env' "cancel_rows env r db" u rid i])
    case (let_go x)
    with gone[of x] show ?thesis by blast
  qed simp_all
  then show ?thesis unfolding let_go(5) snd_conv session_simps .
qed

theorem cancel_reservation_idempotent_witness:
  "snd (cancel_reservation ex_env (open_session (committed (snd (cancel_reservation ex_env (open_session ex_db) grace 1 1))))
      grace 1 1) = open_session (committed (snd (cancel_reservation ex_env (open_session ex_db) grace 1 1))) \<and>
   map rv_status (reservations (committed (snd (cancel_reservation ex_env (open_session ex_db) grace 1 1)))) \<noteq>
     map rv_status (reservations ex_db)"
proof -
  have "distinct (map rv_id (reservations ex_db))"
    "map rv_status (reservations (committed (snd (cancel_reservation ex_env (open_session ex_db) grace 1 1)))) \<noteq>
     map rv_status (reservations ex_db)" by code_simp+
  with cancel_reservation_idempotent[of ex_db ex_env ex_env grace 1 1] show ?thesis by simp
qed

text \<open>C23: A change of a resource that goes through leaves every pool within its capacity at every
  moment from today on, and on PostgreSQL no two exclusive holds in one another's way.\<close>

theorem update_resource_fits:
  assumes "tables_ok L db" and "fits_from (env_today env) db" and "env_backend env = PostgreSQL"
    and "capacities_ok db" and "resource_update_ok p"
    and "update_resource env (open_session db) u rid p = (Inr res', sess)"
  shows "fits_from (env_today env) (committed sess) \<and> rows_kept (reservations (committed sess))"
  using update_keeps_fit[OF assms(1,2,4-6)] update_keeps_rows[OF assms(1,3,6)] by blast

definition ex_shrink :: resource_update where
  "ex_shrink = \<lparr>xu_label = None, xu_capacity = Some (Some 2), xu_mode = None, xu_latitude = None,
     xu_longitude = None, xu_altitude_target = None, xu_active = None\<rparr>"

theorem update_resource_fits_witness:
  "\<exists>res' sess. update_resource ex_env (open_session ex_db) grace 3 ex_shrink = (Inr res', sess) \<and>
     re_capacity res' = Some 2 \<and> fits_from monday (committed sess) \<and> rows_kept (reservations (committed sess))"
proof -
  let ?r = "update_resource ex_env (open_session ex_db) grace 3 ex_shrink"
  have "case fst ?r of Inr res \<Rightarrow> re_capacity res = Some 2 | Inl _ \<Rightarrow> False" by code_simp
  then obtain res' sess where r: "?r = (Inr res', sess)" "re_capacity res' = Some 2"
    by (cases ?r) (auto split: sum.splits)
  have "fits_from (env_today ex_env) ex_db"
    using ex_booking_rules by (auto simp: fits_from_def booking_rules_def pools_fit_def)
  moreover have "capacities_ok ex_db" "resource_update_ok ex_shrink"
    by (auto simp: capacities_ok_def ex_db_def ex_pool_def ex_room_def resource_update_ok_def ex_shrink_def)
  moreover have "env_today ex_env = monday" by (simp add: ex_env_def)
  ultimately show ?thesis
    using update_resource_fits[OF ex_tables_ok _ _ _ _ r(1)] r by auto
qed

end
