(* ===== verification/Conflicts_Props.thy ===== *)
theory Conflicts_Props
  imports Conflicts Reservations_Props
begin

text \<open>
  The conflict report against its two specifications: the sweep against the comparison of every
  window with every other, and the windows it reads against what availability reads.
\<close>

section \<open>The sweep finds every overlapping pair once\<close>

definition overlapping :: "entry \<times> entry \<Rightarrow> bool" where
  "overlapping p \<longleftrightarrow> meets (entry_span (fst p)) (entry_span (snd p))"

lemma filter_product_Cons:
  "mset (filter P (List.product xs (y # ys))) =
   mset (filter P (map (\<lambda>x. (x, y)) xs)) + mset (filter P (List.product xs ys))"
  by (induction xs) (auto simp: ac_simps)

lemma sweep_from_exact:
  assumes "sorted (map fst es)" and "\<forall>e \<in> set es. fst e < fst (snd e)"
    and "\<forall>x \<in> set open_now. \<forall>e \<in> set es. fst x \<le> fst e"
  shows "mset (sweep_from open_now es) =
    mset (filter overlapping (List.product open_now es)) + mset (filter overlapping (pairs es))"
  using assms
proof (induction es arbitrary: open_now)
  case (Cons e es)
  let ?still = "filter (\<lambda>x. fst (snd x) > fst e) open_now"
  have now: "filter overlapping (map (\<lambda>x. (x, e)) open_now) = map (\<lambda>x. (x, e)) ?still"
    using Cons.prems(2,3) by (induction open_now) (auto simp: overlapping_def entry_span_def meets_def)
  have later: "filter overlapping (List.product ?still es) = filter overlapping (List.product open_now es)"
  proof -
    have "filter overlapping (map (Pair x) es) = []" if "\<not> fst (snd x) > fst e" for x
      using that Cons.prems(1) by (auto simp: filter_empty_conv overlapping_def entry_span_def meets_def)
    then show ?thesis by (induction open_now) auto
  qed
  have "sorted (map fst es)" "\<forall>x \<in> set es. fst x < fst (snd x)"
    "\<forall>x \<in> set (?still @ [e]). \<forall>y \<in> set es. fst x \<le> fst y"
    using Cons.prems by auto
  note IH = Cons.IH[OF this]
  have snoc: "List.product (?still @ [e]) es = List.product ?still es @ map (Pair e) es" by (induction open_now) auto
  have "mset (sweep_from open_now (e # es)) = mset (map (\<lambda>x. (x, e)) ?still) + mset (sweep_from (?still @ [e]) es)"
    by (simp add: Let_def)
  also have "\<dots> = mset (map (\<lambda>x. (x, e)) ?still) + mset (filter overlapping (List.product open_now es)) +
      mset (filter overlapping (pairs (e # es)))"
    unfolding IH snoc filter_append later mset_append by (simp add: ac_simps)
  also have "mset (map (\<lambda>x. (x, e)) ?still) + mset (filter overlapping (List.product open_now es)) =
      mset (filter overlapping (List.product open_now (e # es)))"
    unfolding filter_product_Cons now ..
  finally show ?case .
qed (simp add: product_concat_map)

lemma fst_entry_key_sorted: "sorted (map fst (sort_key entry_key es))"
proof -
  have "sorted (map entry_key (sort_key entry_key es))" by simp
  then have "sorted (map fst (map entry_key (sort_key entry_key es)))"
    by (auto simp: sorted_wrt_map less_eq_prod_def intro: sorted_wrt_mono_rel[rotated])
  then show ?thesis by (simp add: entry_key_def[abs_def] o_def)
qed

lemma sweep_pairs:
  assumes "\<forall>e \<in> set es. fst e < fst (snd e)"
  shows "mset (sweep es) = mset (filter overlapping (pairs (sort_key entry_key es)))"
  unfolding sweep_def using sweep_from_exact[OF fst_entry_key_sorted, of es "[]"] assms by simp


section \<open>What holds a resource\<close>

text \<open>A day stands on the room of its slot: the hypothesis under which the two reports read the same rows.\<close>

definition days_on_slot_rooms :: "database \<Rightarrow> bool" where
  "days_on_slot_rooms db \<longleftrightarrow> (\<forall>d \<in> set (daily_ledger_rows db). \<forall>s \<in> set (structural_master_slots db).
     dl_master_slot_id d = Some (sl_id s) \<longrightarrow> dl_resource_id d = sl_resource_id s)"

definition entries_on :: "rrule_lib \<Rightarrow> database \<Rightarrow> date \<Rightarrow> date \<Rightarrow> int \<Rightarrow> entry list" where
  "entries_on L db a b rid = filter (\<lambda>e. ci_resource_id (entry_item e) = Some rid) (range_entries L db a b)"

lemma entry_of_simps [simp]:
  "entry_span (entry_of k i d s e a r) = window_span d s e" "ci_resource_id (entry_item (entry_of k i d s e a r)) = r"
  "ci_type (entry_item (entry_of k i d s e a r)) = k" "ci_id (entry_item (entry_of k i d s e a r)) = i"
  "ci_activity_id (entry_item (entry_of k i d s e a r)) = a"
  by (simp_all add: entry_of_def entry_span_def entry_item_def split_beta Let_def)

lemma set_range_entries:
  "e \<in> set (range_entries L db a b) \<longleftrightarrow> meets (entry_span e) (range_span a b) \<and>
   ((\<exists>s on. s \<in> set (structural_master_slots db) \<and> slot_counts db s \<and> a - 1 \<le> on \<and> on \<le> b \<and>
        e \<in> set (slot_entry_on L db (range_days db (a - 1) b) (a - 1) b on s)) \<or>
    (\<exists>d \<in> set (range_days db (a - 1) b). e = day_entry d) \<or> (\<exists>r \<in> set (range_holds db (a - 1) b). e = hold_entry r))"
  by (auto simp: range_entries_def Let_def range_slots_def entry_span_def meets_def range_span_def)

lemma slot_entry_iff:
  assumes "tables_ok L db" and "rrule_lib_ok L" and "s \<in> set (structural_master_slots db)" and "slot_counts db s"
    and "a - 1 \<le> on" and "on \<le> b"
  shows "e \<in> set (slot_entry_on L db days (a - 1) b on s) \<longleftrightarrow>
    slot_runs L db s on \<and> (on, sl_id s) \<notin> settled days \<and>
    e = entry_of SLOT (sl_id s) on (sl_time_window_start s) (sl_time_window_end s) (Some (sl_activity_id s)) (sl_resource_id s)"
proof -
  have "on \<in> set (occurrences L (sl_rrule s) (sl_dtstart s) (a - 1) b) \<longleftrightarrow> occurs_on L (sl_rrule s) (sl_dtstart s) on"
    using rec.occ_set[of L "sl_rrule s"] assms by (simp add: rule_ok_def tables_ok_def slot_ok_def)
  moreover obtain c where "slot_cycle db s = Some c" using slot_counts_lookup[OF assms(4)] by blast
  ultimately show ?thesis by (auto simp: slot_entry_on_def slot_runs_def within_cycle_def)
qed

lemma settled_range_days:
  assumes "days_on_slot_rooms db" and "s \<in> set (structural_master_slots db)" and "sl_resource_id s = Some rid"
    and "a - 1 \<le> d" and "d \<le> b"
  shows "(d, sl_id s) \<in> settled (range_days db (a - 1) b) \<longleftrightarrow>
    (d, Some (sl_id s)) \<in> (\<lambda>r. (dl_target_date r, dl_master_slot_id r)) ` days_on db rid"
  using assms by (force simp: settled_def range_days_def days_on_def days_on_slot_rooms_def image_iff)

lemma entries_exact:
  assumes "tables_ok L db" and "rrule_lib_ok L" and "days_on_slot_rooms db"
  shows "entry_span ` set (entries_on L db a b rid) = {sp \<in> occupancy L db rid. meets sp (range_span a b)}"
proof (intro equalityI subsetI)
  fix sp assume "sp \<in> entry_span ` set (entries_on L db a b rid)"
  then obtain e where e: "e \<in> set (range_entries L db a b)" "ci_resource_id (entry_item e) = Some rid" "sp = entry_span e"
    by (auto simp: entries_on_def)
  then have m: "meets sp (range_span a b)" by (simp add: set_range_entries)
  from e(1) consider
    (slot) s on where "s \<in> set (structural_master_slots db)" "slot_counts db s" "a - 1 \<le> on" "on \<le> b"
      "e \<in> set (slot_entry_on L db (range_days db (a - 1) b) (a - 1) b on s)"
  | (day) d where "d \<in> set (range_days db (a - 1) b)" "e = day_entry d"
  | (hold) r where "r \<in> set (range_holds db (a - 1) b)" "e = hold_entry r"
    unfolding set_range_entries by blast
  then have "sp \<in> occupancy L db rid"
  proof cases
    case slot
    note s = slot_entry_iff[OF assms(1,2) slot(1-4), THEN iffD1, OF slot(5)]
    then have rid: "sl_resource_id s = Some rid" using e(2) by simp
    have "(on, Some (sl_id s)) \<notin> (\<lambda>r. (dl_target_date r, dl_master_slot_id r)) ` days_on db rid"
      using settled_range_days[OF assms(3) slot(1) rid slot(3,4)] s by simp
    moreover have "s \<in> set (booked_slots db rid)" using slot(1,2) rid by (simp add: booked_slots_def)
    ultimately have "sp \<in> slot_spans L db rid" using s e(3) unfolding slot_spans_def by fastforce
    then show ?thesis by (simp add: occupancy_def timetable_def)
  next
    case day
    then show ?thesis using e by (auto simp: range_days_def day_entry_def occupancy_def timetable_def days_on_def day_span_def)
  next
    case hold
    then show ?thesis using e by (auto simp: range_holds_def hold_entry_def occupancy_def hold_spans_def held_span_def)
  qed
  with m show "sp \<in> {sp \<in> occupancy L db rid. meets sp (range_span a b)}" by simp
next
  fix sp assume "sp \<in> {sp \<in> occupancy L db rid. meets sp (range_span a b)}"
  then have occ: "sp \<in> slot_spans L db rid \<or> sp \<in> day_span ` days_on db rid \<or> sp \<in> hold_spans db rid"
    and m: "meets sp (range_span a b)" by (auto simp: occupancy_def timetable_def)
  from occ have "\<exists>e \<in> set (range_entries L db a b). ci_resource_id (entry_item e) = Some rid \<and> sp = entry_span e"
  proof (elim disjE)
    assume "sp \<in> slot_spans L db rid"
    then obtain s d where s: "s \<in> set (booked_slots db rid)" "slot_runs L db s d"
      "sp = window_span d (sl_time_window_start s) (sl_time_window_end s)"
      and free: "(d, Some (sl_id s)) \<notin> (\<lambda>r. (dl_target_date r, dl_master_slot_id r)) ` days_on db rid"
      unfolding slot_spans_def by blast
    then have s': "s \<in> set (structural_master_slots db)" "slot_counts db s" "sl_resource_id s = Some rid"
      by (auto simp: booked_slots_def)
    have ab: "a - 1 \<le> d" "d \<le> b"
      using window_range_dates[of "sl_time_window_start s" "sl_time_window_end s" d a b] m s(3) s'(1) assms(1)
      by (auto simp: tables_ok_def slot_ok_def)
    let ?e = "entry_of SLOT (sl_id s) d (sl_time_window_start s) (sl_time_window_end s) (Some (sl_activity_id s)) (sl_resource_id s)"
    have "?e \<in> set (slot_entry_on L db (range_days db (a - 1) b) (a - 1) b d s)"
      using slot_entry_iff[OF assms(1,2) s'(1,2) ab] s(2) settled_range_days[OF assms(3) s'(1,3) ab] free by blast
    then have "?e \<in> set (range_entries L db a b)"
      unfolding set_range_entries using m s(3) s' ab by auto
    with s(3) s'(3) show ?thesis by (intro bexI[of _ ?e]) auto
  next
    assume "sp \<in> day_span ` days_on db rid"
    then obtain d where d: "d \<in> days_on db rid" "sp = day_span d" by blast
    then have "a - 1 \<le> dl_target_date d \<and> dl_target_date d \<le> b"
      using window_range_dates[of "dl_start d" "dl_end d" "dl_target_date d" a b] m tables_okD(3)[OF assms(1)]
      by (simp add: day_span_def day_ok_def)
    then have "d \<in> set (range_days db (a - 1) b)" using d(1) by (simp add: range_days_def days_on_def)
    then have "day_entry d \<in> set (range_entries L db a b)"
      unfolding set_range_entries using m d(2) by (auto simp: day_entry_def day_span_def)
    with d show ?thesis by (intro bexI[of _ "day_entry d"]) (auto simp: day_entry_def day_span_def days_on_def)
  next
    assume "sp \<in> hold_spans db rid"
    then obtain r where r: "r \<in> set (reservations db)" "rv_resource_id r = rid" "rv_status r = HELD" "sp = held_span r"
      by (auto simp: hold_spans_def)
    then have "a - 1 \<le> rv_reserved_date r \<and> rv_reserved_date r \<le> b"
      using window_range_dates[of "rv_time_window_start r" "rv_time_window_end r" "rv_reserved_date r" a b] m
        tables_okD(1)[OF assms(1) r(1)] by (simp add: held_span_def reservation_ok_def)
    then have "r \<in> set (range_holds db (a - 1) b)" using r by (simp add: range_holds_def)
    then have "hold_entry r \<in> set (range_entries L db a b)"
      unfolding set_range_entries using m r(4) by (auto simp: hold_entry_def held_span_def)
    with r show ?thesis by (intro bexI[of _ "hold_entry r"]) (auto simp: hold_entry_def held_span_def)
  qed
  then show "sp \<in> entry_span ` set (entries_on L db a b rid)" by (auto simp: entries_on_def)
qed


section \<open>The overlaps of one room\<close>

lemma entries_nonempty:
  assumes "tables_ok L db" and "e \<in> set (range_entries L db a b)"
  shows "fst e < fst (snd e)"
proof -
  have win: "fst (window_span d s t) < snd (window_span d s t)" if "valid_window s t" for d s t
    using that by (auto simp: window_span_def valid_window_def combine_def valid_time_def Let_def algebra_simps day_us_def)
  have rows: "s \<in> set (structural_master_slots db) \<Longrightarrow> valid_window (sl_time_window_start s) (sl_time_window_end s)"
    "d \<in> set (daily_ledger_rows db) \<Longrightarrow> has_window d \<Longrightarrow> valid_window (dl_start d) (dl_end d)"
    "r \<in> set (reservations db) \<Longrightarrow> valid_window (rv_time_window_start r) (rv_time_window_end r)" for s d r
    using assms(1) by (auto simp: tables_ok_def reservation_ok_def day_ok_def slot_ok_def)
  have "fst (entry_span e) < snd (entry_span e)"
    using assms(2) unfolding set_range_entries
    by (auto simp: slot_entry_on_def range_days_def range_holds_def day_entry_def hold_entry_def split: if_splits
        intro!: win rows)
  then show ?thesis by (simp add: entry_span_def)
qed

lemma map_result_some: "map_result f xs = Inr ys \<Longrightarrow> ys = map (\<lambda>x. projr (f x)) xs \<and> (\<forall>x \<in> set xs. \<exists>y. f x = Inr y)"
  by (induction xs arbitrary: ys) (auto simp: bind_result_def split: sum.splits)

definition room_overlap :: "int \<Rightarrow> conflict \<Rightarrow> bool" where
  "room_overlap rid c \<longleftrightarrow> cf_kind c = RESOURCE_OVERLAP \<and> cf_resource_id c = Some rid"

lemma report_simps [simp]:
  "cf_kind (report k s e is) = k" "cf_kind (conflict_of k x y) = k"
  by (simp_all add: report_def conflict_of_def)

lemma other_kinds [simp]:
  "filter (room_overlap rid) (member_conflicts db es) = []"
  "filter (room_overlap rid) (lead_conflicts db es) = []"
  by (auto simp: filter_empty_conv room_overlap_def member_conflicts_def lead_conflicts_def)

lemma unmet_kind: "unmet_of_entry env db e = Inr cs \<Longrightarrow> filter (room_overlap rid) cs = []"
  by (auto simp: unmet_of_entry_def Let_def bind_result_def filter_empty_conv room_overlap_def split: if_splits sum.splits)

lemma other_room: "resource_conflicts db holds (r, es) = Inr cs \<Longrightarrow> r \<noteq> rid \<Longrightarrow> filter (room_overlap rid) cs = []"
  by (auto simp: resource_conflicts_def overbooked_def Let_def filter_empty_conv room_overlap_def split: option.splits if_splits)

lemma this_room:
  assumes "resource_conflicts db holds (rid, es) = Inr cs" and "get_resource db rid = Some res" and "re_mode res = EXCLUSIVE"
  shows "filter (room_overlap rid) cs =
    map (\<lambda>(x, y). (conflict_of RESOURCE_OVERLAP x y)\<lparr>cf_resource_id := Some rid\<rparr>) (sweep es)"
  using assms by (auto simp: resource_conflicts_def Let_def room_overlap_def filter_id_conv)

lemma group_only:
  assumes "\<And>k'. k' \<noteq> k \<Longrightarrow> h (k', filter (\<lambda>x. key x = Some k') xs) = []"
    and "filter (\<lambda>x. key x = Some k) xs = [] \<Longrightarrow> h (k, []) = []"
  shows "concat (map h (group_by key xs)) = h (k, filter (\<lambda>x. key x = Some k) xs)"
proof -
  have one: "concat (map g ks) = (if k \<in> set ks then g k else [])"
    if "distinct ks" "\<And>k'. k' \<noteq> k \<Longrightarrow> g k' = []" for ks and g :: "_ \<Rightarrow> _ list"
    using that(1)
  proof (induction ks)
    case (Cons x ks)
    then show ?case using that(2)[of x] by (cases "x = k") auto
  qed simp
  have "k \<in> set (List.map_filter key xs) \<longleftrightarrow> filter (\<lambda>x. key x = Some k) xs \<noteq> []"
    by (induction xs) (auto simp: map_filter_simps split: option.splits)
  then show ?thesis
    using one[of "rev (remdups (rev (List.map_filter key xs)))" "\<lambda>k. h (k, filter (\<lambda>x. key x = Some k) xs)"] assms
    by (auto simp: group_by_def o_def)
qed

lemma sweep_Nil [simp]: "sweep [] = []"
  by (simp add: sweep_def)

lemma filter_concat: "filter P (concat xss) = concat (map (filter P) xss)"
  by (induction xss) auto

lemma room_overlaps_swept:
  assumes "find_conflicts env db a b = Inr cs" and "get_resource db rid = Some res" and "re_mode res = EXCLUSIVE"
  shows "mset (filter (room_overlap rid) cs) =
    mset (map (\<lambda>(x, y). (conflict_of RESOURCE_OVERLAP x y)\<lparr>cf_resource_id := Some rid\<rparr>)
      (sweep (entries_on (env_rrule env) db a b rid)))"
proof -
  let ?es = "range_entries (env_rrule env) db a b" and ?holds = "range_holds db (a - 1) b"
  let ?key = "\<lambda>e :: entry. ci_resource_id (entry_item e)"
  obtain on_resources unmet where
    r: "map_result (resource_conflicts db ?holds) (group_by ?key ?es) = Inr on_resources" and
    u: "map_result (unmet_of_entry env db) ?es = Inr unmet" and
    cs: "cs = sort_key report_key (concat on_resources @ member_conflicts db ?es @ concat unmet @ lead_conflicts db ?es)"
    using assms(1) by (auto simp: find_conflicts_def Let_def bind_result_def split: sum.splits)
  note r' = map_result_some[OF r] and u' = map_result_some[OF u]
  let ?h = "\<lambda>g. if \<exists>y. resource_conflicts db ?holds g = Inr y
      then filter (room_overlap rid) (projr (resource_conflicts db ?holds g)) else []"
  have "concat (map (filter (room_overlap rid)) unmet) = []"
  proof -
    have "filter (room_overlap rid) cs' = []" if "cs' \<in> set unmet" for cs'
    proof -
      from that u' obtain e where "e \<in> set ?es" "cs' = projr (unmet_of_entry env db e)" by auto
      with u' obtain y where "unmet_of_entry env db e = Inr y" "cs' = y" by force
      then show ?thesis by (simp add: unmet_kind)
    qed
    then show ?thesis by auto
  qed
  moreover have "concat (map (filter (room_overlap rid)) on_resources) = concat (map ?h (group_by ?key ?es))"
    using r' by (auto intro!: arg_cong[of _ _ concat] map_cong)
  moreover have "\<dots> = ?h (rid, filter (\<lambda>e. ?key e = Some rid) ?es)"
    by (rule group_only) (auto dest: other_room simp: this_room[OF _ assms(2,3)])
  moreover have "?h (rid, es) = map (\<lambda>(x, y). (conflict_of RESOURCE_OVERLAP x y)\<lparr>cf_resource_id := Some rid\<rparr>) (sweep es)" for es
    using this_room[OF _ assms(2,3)] assms(2) by (auto simp: resource_conflicts_def Let_def)
  ultimately have "filter (room_overlap rid) (concat on_resources @ member_conflicts db ?es @ concat unmet @ lead_conflicts db ?es) =
    map (\<lambda>(x, y). (conflict_of RESOURCE_OVERLAP x y)\<lparr>cf_resource_id := Some rid\<rparr>) (sweep (entries_on (env_rrule env) db a b rid))"
    by (simp only: filter_append filter_concat other_kinds entries_on_def append_Nil append_Nil2)
  then show ?thesis unfolding cs by (metis mset_filter mset_sort)
qed


section \<open>Examples\<close>

text \<open>A booking over Monday's class, and a day left behind on the room its slot has moved from.\<close>

definition ex_clash :: database where
  "ex_clash = ex_db\<lparr>reservations := [ex_hold 1 1 (hour 9 + 1800000000) (hour 11) 1 EXCLUSIVE]\<rparr>"

definition ex_left_behind :: database where
  "ex_left_behind = ex_db\<lparr>structural_master_slots := [ex_slot\<lparr>sl_resource_id := Some 2\<rparr>],
     reservations := [ex_hold 1 2 (hour 9) (hour 10) 1 EXCLUSIVE]\<rparr>"

section \<open>Properties\<close>

text \<open>C13: The conflict report names the clashes of an exclusive resource exactly: one overlap for
  every pair of windows on it that share a moment, in the order they start, each pair once, and
  nothing else. The sweep over the sorted windows, which only keeps those still open, finds what
  comparing every window with every other would find.\<close>

theorem conflict_report_exact:
  assumes "find_conflicts env db a b = Inr cs" and "tables_ok (env_rrule env) db"
    and "get_resource db rid = Some res" and "re_mode res = EXCLUSIVE"
  shows "mset (filter (room_overlap rid) cs) =
    mset (map (\<lambda>(x, y). (conflict_of RESOURCE_OVERLAP x y)\<lparr>cf_resource_id := Some rid\<rparr>)
      (filter overlapping (pairs (sort_key entry_key (entries_on (env_rrule env) db a b rid)))))"
proof -
  have "\<forall>e \<in> set (entries_on (env_rrule env) db a b rid). fst e < fst (snd e)"
    using entries_nonempty[OF assms(2)] unfolding entries_on_def set_filter by blast
  from sweep_pairs[OF this] show ?thesis
    unfolding room_overlaps_swept[OF assms(1,3,4)] by (simp add: mset_map)
qed

theorem conflict_report_exact_witness:
  "\<exists>cs. find_conflicts ex_env ex_clash monday monday = Inr cs \<and> length (filter (room_overlap 1) cs) = 1 \<and>
   mset (filter (room_overlap 1) cs) =
    mset (map (\<lambda>(x, y). (conflict_of RESOURCE_OVERLAP x y)\<lparr>cf_resource_id := Some 1\<rparr>)
      (filter overlapping (pairs (sort_key entry_key (entries_on weekly_lib ex_clash monday monday 1)))))"
proof -
  have ok: "tables_ok (env_rrule ex_env) ex_clash"
    using ex_tables_ok by (simp add: ex_clash_def ex_env_def tables_ok_def ex_hold_def reservation_ok_def
        valid_window_def valid_time_def hour_def day_us_def)
  have room: "get_resource ex_clash 1 = Some (ex_room 1 ''A1'')" "re_mode (ex_room 1 ''A1'') = EXCLUSIVE"
    by (simp_all add: ex_clash_def get_resource_def ex_defs)
  have "case find_conflicts ex_env ex_clash monday monday of Inr cs \<Rightarrow> length (filter (room_overlap 1) cs) = 1 | _ \<Rightarrow> False"
    by code_simp
  then obtain cs where cs: "find_conflicts ex_env ex_clash monday monday = Inr cs" "length (filter (room_overlap 1) cs) = 1"
    by (auto split: sum.splits)
  from conflict_report_exact[OF cs(1) ok room] cs show ?thesis by (auto simp: ex_env_def)
qed

text \<open>C14: Where every generated day stands on the room of its slot, the conflict report and availability
  read the same windows of a room: the windows the report sweeps are exactly the busy intervals
  availability gives for the same dates.\<close>

theorem conflict_report_reads_availability:
  assumes "tables_ok L db" and "rrule_lib_ok L" and "days_on_slot_rooms db"
  shows "entry_span ` set (entries_on L db a b rid) =
    bounds ` set (occupied L db (booked_slots db rid) (held_reservations db rid a b) (booked_days db rid a b) a b)"
  unfolding entries_exact[OF assms] occupied_all_exact[OF assms(1,2)] ..

theorem conflict_report_reads_availability_witness:
  "days_on_slot_rooms ex_db \<and> entry_span ` set (entries_on weekly_lib ex_db monday (monday + 7) 1) =
    bounds ` set (occupied weekly_lib ex_db (booked_slots ex_db 1) (held_reservations ex_db 1 monday (monday + 7))
      (booked_days ex_db 1 monday (monday + 7)) monday (monday + 7)) \<and>
   entry_span ` set (entries_on weekly_lib ex_db monday (monday + 7) 1) \<noteq> {}"
proof -
  have d: "days_on_slot_rooms ex_db" by (simp add: days_on_slot_rooms_def ex_defs)
  have "entries_on weekly_lib ex_db monday (monday + 7) 1 \<noteq> []" by code_simp
  then have "entry_span ` set (entries_on weekly_lib ex_db monday (monday + 7) 1) \<noteq> {}" by simp
  with d show ?thesis using conflict_report_reads_availability[OF ex_tables_ok weekly_lib_ok d] by blast
qed

text \<open>A day kept on the room its slot has left (moving a slot moves only the days after
  today, and only those with no attendance and no notes) makes the two disagree. Availability counts the slot as taking its new room
  on that date, because no day of that room stands in for it, and refuses a booking there; the report
  counts the day, wherever it stands, in place of the slot, and a booking already on the new room is
  no clash.\<close>

theorem conflict_report_misses_left_behind_day:
  "find_conflicts ex_env ex_left_behind monday monday = Inr [] \<and>
   length (occupied weekly_lib ex_left_behind (booked_slots ex_left_behind 2) (held_reservations ex_left_behind 2 monday monday)
      (booked_days ex_left_behind 2 monday monday) monday monday) = 2"
  by (rule conjI; code_simp)

end
