(* ===== verification/Ledger_Generator.thy ===== *)
theory Ledger_Generator
  imports Requirements
begin

text \<open>
  \<^verbatim>\<open>backend/app/cron/ledger_generator.py\<close>: turning the weekly timetable into dated rows.

  The job writes with a savepoint around each insert, so a refused row is skipped and the run
  goes on: the database value is threaded through the loop. Between the check of a row and its
  insert another transaction may commit; \<open>race\<close> says what, for each row. The log is kept as
  data, because a day that is not written is mentioned nowhere else.
\<close>

section \<open>Rows and the constraints on them\<close>

type_synonym taken_day = "int option \<times> date \<times> time_of_day"

datatype ledger_log =
    Not_Written "int option" "string option" date "int option" "taken_day list"
  | Unmet_On "int option" date string

definition LEDGER_BATCH_SIZE :: nat where
  "LEDGER_BATCH_SIZE = 500"

text \<open>\<^verbatim>\<open>_day_fields\<close> with the defaults of the columns it does not name.\<close>

definition day_fields :: "master_slot \<Rightarrow> date \<Rightarrow> dynamic_state \<Rightarrow> daily_ledger" where
  "day_fields slot target_date state =
     \<lparr>dl_id = 0, dl_target_date = target_date,
      dl_time_window_start = Some (sl_time_window_start slot),
      dl_time_window_end = Some (sl_time_window_end slot),
      dl_master_slot_id = Some (sl_id slot), dl_activity_id = sl_activity_id slot,
      dl_active_lead_id = sl_primary_lead_id slot, dl_substitute_lead_id = None,
      dl_resource_id = sl_resource_id slot, dl_delivery_format = PHYSICAL,
      dl_virtual_connection_string = None, dl_latitude_target = None,
      dl_longitude_target = None, dl_altitude_target = None, dl_precision_radius_meters = Some 15,
      dl_operational_state = state, dl_organization_id = sl_organization_id slot\<rparr>"

definition claims_a_window :: "daily_ledger \<Rightarrow> bool" where
  "claims_a_window f \<longleftrightarrow> dl_resource_id f \<noteq> None \<and> dl_time_window_start f \<noteq> None \<and>
     dl_time_window_end f \<noteq> None"

text \<open>The unique key and the exclusion constraint of \<^verbatim>\<open>daily_ledger\<close>.\<close>

definition same_slot_date :: "daily_ledger \<Rightarrow> daily_ledger \<Rightarrow> bool" where
  "same_slot_date x y \<longleftrightarrow> dl_master_slot_id x \<noteq> None \<and> dl_master_slot_id x = dl_master_slot_id y \<and>
     dl_target_date x = dl_target_date y"

definition sql_day_span :: "daily_ledger \<Rightarrow> span" where
  "sql_day_span d = sql_window (dl_target_date d) (dl_start d) (dl_end d)"

definition insert_ledger_day ::
  "backend \<Rightarrow> database \<Rightarrow> daily_ledger \<Rightarrow> integrity_error + database" where
  "insert_ledger_day b db f =
     (let rows = daily_ledger_rows db; d = f\<lparr>dl_id := fresh_id (map dl_id rows)\<rparr> in
      if list_ex (\<lambda>x. same_slot_date x d) rows then Inl Key_Violation
      else if b = PostgreSQL \<and> claims_a_window d \<and> list_ex (\<lambda>x. claims_a_window x \<and>
          dl_resource_id x = dl_resource_id d \<and> ranges_overlap (sql_day_span x) (sql_day_span d)) rows
      then Inl Overlap_Violation
      else Inr (db\<lparr>daily_ledger_rows := rows @ [d]\<rparr>))"

section \<open>Reports\<close>

definition report_taken :: "database \<Rightarrow> daily_ledger \<Rightarrow> taken_day list \<Rightarrow> ledger_log" where
  "report_taken db f taken = Not_Written (dl_master_slot_id f)
     (map_option ac_activity_code (get_activity_row db (dl_activity_id f)))
     (dl_target_date f) (dl_resource_id f) taken"

definition report_unmet :: "app_env \<Rightarrow> database \<Rightarrow> daily_ledger list \<Rightarrow> walk_error + ledger_log list" where
  "report_unmet env db written =
     (let needing = owners_with_requirements db in
      if needing = {} then Inr []
      else fold_result (\<lambda>f logs.
          let activity_id = (if (ACTIVITY, dl_activity_id f) \<in> needing then Some (dl_activity_id f) else None);
              resource_id = (case dl_resource_id f of None \<Rightarrow> None
                | Some r \<Rightarrow> if (RESOURCE, r) \<in> needing then Some r else None)
          in if \<not> claims_a_window f \<or> (activity_id = None \<and> resource_id = None) then Inr logs
             else bind_result (unmet_for_window env db activity_id resource_id
                    (dl_target_date f, dl_start f, dl_end f)) (\<lambda>gaps.
               Inr (logs @ map (\<lambda>g. Unmet_On (dl_master_slot_id f) (dl_target_date f) (um_message g)) gaps)))
        written [])"

definition taken_by :: "database \<Rightarrow> daily_ledger \<Rightarrow> taken_day list" where
  "taken_by db f =
     (case dl_resource_id f of None \<Rightarrow> []
      | Some rid \<Rightarrow>
          if \<not> claims_a_window f then []
          else map (\<lambda>e. (bi_master_slot_id e, bi_date e, bi_start e))
            (days_against_window db rid (dl_target_date f) (dl_start f) (dl_end f) (dl_master_slot_id f)))"

section \<open>One date\<close>

type_synonym race = "daily_ledger \<Rightarrow> database \<Rightarrow> database"

definition insert_day ::
  "app_env \<Rightarrow> race \<Rightarrow> database \<Rightarrow> daily_ledger \<Rightarrow> bool \<times> database \<times> ledger_log list" where
  "insert_day env race db f =
     (let taken = taken_by db f in
      if taken \<noteq> [] then (False, db, [report_taken db f taken])
      else
        (let db1 = race f db in
         case insert_ledger_day (env_backend env) db1 f of
           Inr db2 \<Rightarrow> (True, db2, [])
         | Inl _ \<Rightarrow>
             if find (\<lambda>x. dl_master_slot_id x = dl_master_slot_id f \<and>
                  dl_target_date x = dl_target_date f) (daily_ledger_rows db1) \<noteq> None
             then (False, db1, [])
             else (False, db1, [report_taken db1 f (taken_by db1 f)])))"

definition leave_covers :: "rsvp_log \<Rightarrow> date \<Rightarrow> bool" where
  "leave_covers lg day \<longleftrightarrow> lg_target_absence_date lg \<le> day \<and>
     day \<le> (case lg_end_date lg of None \<Rightarrow> lg_target_absence_date lg | Some e \<Rightarrow> e)"

definition on_leave :: "database \<Rightarrow> string option \<Rightarrow> date \<Rightarrow> bool" where
  "on_leave db lead day \<longleftrightarrow>
     find (\<lambda>lg. Some (lg_submitting_user_id lg) = lead \<and> leave_covers lg day \<and>
       lg_approval_state lg = VERIFIED_APPROVED) (reverse_rsvp_logs db) \<noteq> None"

definition initial_state :: "database \<Rightarrow> master_slot \<Rightarrow> date \<Rightarrow> dynamic_state" where
  "initial_state db slot day = (if on_leave db (sl_primary_lead_id slot) day then ON_LEAVE else SCHEDULED)"

definition candidates :: "database \<Rightarrow> date \<Rightarrow> date \<Rightarrow> master_slot list" where
  "candidates db first final =
     sort_key sl_id (filter (\<lambda>s. slot_counts db s \<and>
       (case slot_cycle db s of None \<Rightarrow> False
        | Some c \<Rightarrow> cy_date_bounds_start c \<le> final \<and> cy_date_bounds_end c \<ge> first))
       (structural_master_slots db))"

text \<open>The loop over the slots of a date: the rows written so far, the database and the log.\<close>

definition generate_step ::
  "app_env \<Rightarrow> race \<Rightarrow> date \<Rightarrow> master_slot \<Rightarrow> daily_ledger list \<times> database \<times> ledger_log list
   \<Rightarrow> daily_ledger list \<times> database \<times> ledger_log list" where
  "generate_step env race target_date slot st =
     (case st of (written, db, logs) \<Rightarrow>
        if find (\<lambda>x. dl_master_slot_id x = Some (sl_id slot) \<and> dl_target_date x = target_date)
             (daily_ledger_rows db) \<noteq> None
        then st
        else
          (let f = day_fields slot target_date (initial_state db slot target_date) in
           case insert_day env race db f of (done, db', extra) \<Rightarrow>
             (if done then written @ [f] else written, db', logs @ extra)))"

definition generate_daily_ledger_entries ::
  "app_env \<Rightarrow> race \<Rightarrow> date \<Rightarrow> database \<Rightarrow> nat \<times> database \<times> ledger_log list" where
  "generate_daily_ledger_entries env race target_date db =
     (let slots = filter (\<lambda>s. occurs_on (env_rrule env) (sl_rrule s) (sl_dtstart s) target_date)
            (candidates db target_date target_date)
      in case fold (generate_step env race target_date) slots ([], db, []) of (written, db', logs) \<Rightarrow>
           (length written, db', logs @
             (case report_unmet env db' written of Inr extra \<Rightarrow> extra | Inl _ \<Rightarrow> [])))"

section \<open>The horizon\<close>

definition horizon_window :: "app_env \<Rightarrow> date \<times> date" where
  "horizon_window env = (env_today env + 1, env_today env + env_ledger_horizon_days env)"

definition have_days :: "database \<Rightarrow> int option \<Rightarrow> date \<Rightarrow> date \<Rightarrow> (int option \<times> date) list" where
  "have_days db cycle_id first final =
     map (\<lambda>d. (dl_master_slot_id d, dl_target_date d))
       (filter (\<lambda>d. first \<le> dl_target_date d \<and> dl_target_date d \<le> final \<and>
           (case cycle_id of None \<Rightarrow> True
            | Some c \<Rightarrow> (case get_activity_row db (dl_activity_id d) of None \<Rightarrow> False
                | Some a \<Rightarrow> ac_cycle_id a = c))) (daily_ledger_rows db))"

definition horizon_slots :: "database \<Rightarrow> int option \<Rightarrow> date \<Rightarrow> date \<Rightarrow> master_slot list" where
  "horizon_slots db cycle_id first final =
     filter (\<lambda>s. case cycle_id of None \<Rightarrow> True
       | Some c \<Rightarrow> map_option cy_id (slot_cycle db s) = Some c) (candidates db first final)"

definition slot_days :: "rrule_lib \<Rightarrow> database \<Rightarrow> date \<Rightarrow> date \<Rightarrow> master_slot \<Rightarrow> date list" where
  "slot_days L db first final slot = (case slot_cycle db slot of None \<Rightarrow> []
     | Some c \<Rightarrow> occurrences L (sl_rrule slot) (sl_dtstart slot)
         (max first (cy_date_bounds_start c)) (min final (cy_date_bounds_end c)))"

definition missing_days ::
  "rrule_lib \<Rightarrow> database \<Rightarrow> int option \<Rightarrow> date \<Rightarrow> date \<Rightarrow> (date \<times> master_slot) list" where
  "missing_days L db cycle_id first final =
     sort_key (\<lambda>(day, slot). (day, sl_id slot))
       (concat (map (\<lambda>slot. map (\<lambda>day. (day, slot))
           (filter (\<lambda>day. (Some (sl_id slot), day) \<notin> set (have_days db cycle_id first final))
             (slot_days L db first final slot)))
         (horizon_slots db cycle_id first final)))"

text \<open>The leave read once for the window, then asked per row.\<close>

definition leave_read :: "database \<Rightarrow> date \<Rightarrow> date \<Rightarrow> string set \<Rightarrow> (string \<times> date \<times> date) list" where
  "leave_read db first final leads =
     map (\<lambda>lg. (lg_submitting_user_id lg, lg_target_absence_date lg,
           (case lg_end_date lg of None \<Rightarrow> lg_target_absence_date lg | Some e \<Rightarrow> e)))
       (filter (\<lambda>lg. lg_submitting_user_id lg \<in> leads \<and> lg_target_absence_date lg \<le> final \<and>
           (case lg_end_date lg of None \<Rightarrow> lg_target_absence_date lg | Some e \<Rightarrow> e) \<ge> first \<and>
           lg_approval_state lg = VERIFIED_APPROVED) (reverse_rsvp_logs db))"

definition horizon_state ::
  "(string \<times> date \<times> date) list \<Rightarrow> master_slot \<Rightarrow> date \<Rightarrow> dynamic_state" where
  "horizon_state leave slot day =
     (if list_ex (\<lambda>(lead, a, b). Some lead = sl_primary_lead_id slot \<and> a \<le> day \<and> day \<le> b) leave
      then ON_LEAVE else SCHEDULED)"

text \<open>\<^verbatim>\<open>held\<close>: the rooms and the days on them, those of the table and those kept so far, in that order.\<close>

type_synonym room_day = "int option \<times> span \<times> taken_day"

definition held_day :: "daily_ledger \<Rightarrow> room_day" where
  "held_day d = (dl_resource_id d, window_span (dl_target_date d) (dl_start d) (dl_end d),
     (dl_master_slot_id d, dl_target_date d, dl_start d))"

fun keep_rows ::
  "database \<Rightarrow> room_day list \<Rightarrow> daily_ledger list \<Rightarrow> daily_ledger list \<times> ledger_log list" where
  "keep_rows db held [] = ([], [])"
| "keep_rows db held (f # rows) =
     (if \<not> claims_a_window f
      then (case keep_rows db held rows of (kept, logs) \<Rightarrow> (f # kept, logs))
      else
        (let (opens, closes) = window_span (dl_target_date f) (dl_start f) (dl_end f);
             taken = map (\<lambda>(_, _, t). t) (filter (\<lambda>(room, (other_opens, other_closes), _).
               room = dl_resource_id f \<and> other_opens < closes \<and> opens < other_closes) held)
         in if taken \<noteq> []
            then (case keep_rows db held rows of (kept, logs) \<Rightarrow> (kept, report_taken db f taken # logs))
            else (case keep_rows db (held @ [held_day f]) rows of (kept, logs) \<Rightarrow> (f # kept, logs))))"

definition without_overlaps ::
  "database \<Rightarrow> daily_ledger list \<Rightarrow> date \<Rightarrow> date \<Rightarrow> daily_ledger list \<times> ledger_log list" where
  "without_overlaps db rows first final =
     (let rooms = set (map dl_resource_id (filter claims_a_window rows)) in
      if rooms = {} then (rows, [])
      else keep_rows db
        (map held_day (filter (\<lambda>d. dl_resource_id d \<in> rooms \<and> dl_target_date d \<ge> first - 1 \<and>
           dl_target_date d \<le> final + 1 \<and> has_window d) (daily_ledger_rows db)))
        rows)"

definition insert_batch ::
  "backend \<Rightarrow> database \<Rightarrow> daily_ledger list \<Rightarrow> integrity_error + database" where
  "insert_batch b db batch = fold_result (\<lambda>f d. insert_ledger_day b d f) batch db"

definition batches :: "nat \<Rightarrow> 'a list \<Rightarrow> 'a list list" where
  "batches n rows = map (\<lambda>i. take n (drop (n * i) rows)) [0..<(length rows + n - 1) div n]"

definition row_by_row ::
  "app_env \<Rightarrow> race \<Rightarrow> daily_ledger list \<Rightarrow> daily_ledger list \<times> database \<times> ledger_log list
   \<Rightarrow> daily_ledger list \<times> database \<times> ledger_log list" where
  "row_by_row env race = fold (\<lambda>f (written, db, logs).
     case insert_day env race db f of (done, db', extra) \<Rightarrow>
       (if done then written @ [f] else written, db', logs @ extra))"

text \<open>A batch in one flush, or, when the database refuses it, a row at a time. \<open>between\<close> is what others commit before the batch.\<close>

definition write_batch ::
  "app_env \<Rightarrow> race \<Rightarrow> (database \<Rightarrow> database) \<Rightarrow> daily_ledger list
   \<Rightarrow> daily_ledger list \<times> database \<times> ledger_log list
   \<Rightarrow> daily_ledger list \<times> database \<times> ledger_log list" where
  "write_batch env race between batch st =
     (case st of (written, db0, logs) \<Rightarrow>
        let db = between db0 in
        case insert_batch (env_backend env) db batch of
          Inr db' \<Rightarrow> (written @ batch, db', logs)
        | Inl _ \<Rightarrow> row_by_row env race batch (written, db, logs))"

definition materialize_horizon ::
  "app_env \<Rightarrow> race \<Rightarrow> (database \<Rightarrow> database) \<Rightarrow> int option \<Rightarrow> database
   \<Rightarrow> nat \<times> database \<times> ledger_log list" where
  "materialize_horizon env race between cycle_id db =
     (case horizon_window env of (first, final) \<Rightarrow>
      let missing = missing_days (env_rrule env) db cycle_id first final;
          leads = set (List.map_filter (\<lambda>(_, slot). sl_primary_lead_id slot) missing);
          leave = leave_read db first final leads;
          rows = map (\<lambda>(day, slot). day_fields slot day (horizon_state leave slot day)) missing
      in if missing = [] then (0, db, [])
         else case without_overlaps db rows first final of (kept, logs0) \<Rightarrow>
           (case fold (write_batch env race between) (batches LEDGER_BATCH_SIZE kept) ([], db, logs0) of
              (written, db', logs) \<Rightarrow>
                (length written, db', logs @
                  (case report_unmet env db' written of Inr extra \<Rightarrow> extra | Inl _ \<Rightarrow> []))))"

section \<open>Catching up\<close>

definition hour_of :: "instant \<Rightarrow> int" where
  "hour_of i = time_of i div (60 * minute_us)"

definition missed_ledger_dates :: "instant \<Rightarrow> int \<Rightarrow> date list" where
  "missed_ledger_dates now nightly_hour =
     (let today = date_of now in
      if hour_of now \<ge> nightly_hour then [today, today + 1] else [today])"

end
