(* ===== verification/Master_Slot.thy ===== *)
theory Master_Slot
  imports Ledger_Generator Access
begin

text \<open>
  \<^verbatim>\<open>backend/app/services/master_slot.py\<close> and \<^verbatim>\<open>services/resource.py\<close>: keeping the days a slot has
  already produced in step with the slot, and the row a room's name stands for.

  The session runs with \<^verbatim>\<open>autoflush=False\<close>: a row handed to \<^verbatim>\<open>db.delete\<close> is still returned by the
  queries that follow it, until a flush. So taking days away returns the rows that are to go, and
  \<open>delete_days\<close> is the flush that takes them.
\<close>

section \<open>Days in use\<close>

definition rows_in_use :: "int list \<Rightarrow> database \<Rightarrow> int set" where
  "rows_in_use row_ids db =
     set (filter (\<lambda>i. i \<in> set row_ids) (map vl_ledger_instance_id (verification_ledger db))) \<union>
     set (filter (\<lambda>i. i \<in> set row_ids) (map an_ledger_instance_id (ledger_annotations db)))"

text \<open>The flush of deleted days, with the cascade to their attendance and their notes.\<close>

definition delete_days :: "int set \<Rightarrow> database \<Rightarrow> database" where
  "delete_days ids db = db\<lparr>
     daily_ledger_rows := filter (\<lambda>d. dl_id d \<notin> ids) (daily_ledger_rows db),
     verification_ledger := filter (\<lambda>v. vl_ledger_instance_id v \<notin> ids) (verification_ledger db),
     ledger_annotations := filter (\<lambda>a. an_ledger_instance_id a \<notin> ids) (ledger_annotations db)\<rparr>"

section \<open>Corrections\<close>

definition corrected_day :: "master_slot \<Rightarrow> daily_ledger \<Rightarrow> daily_ledger" where
  "corrected_day slot row =
     (let row1 = (if dl_resource_id row \<noteq> sl_resource_id slot
           then row\<lparr>dl_latitude_target := None, dl_longitude_target := None, dl_altitude_target := None\<rparr>
           else row)
      in row1\<lparr>dl_resource_id := sl_resource_id slot, dl_active_lead_id := sl_primary_lead_id slot,
           dl_time_window_start := Some (sl_time_window_start slot),
           dl_time_window_end := Some (sl_time_window_end slot)\<rparr>)"

text \<open>The slot a row is corrected by: the dict of slots by id, where a later slot takes the place of an earlier one.\<close>

definition slot_of_row :: "master_slot list \<Rightarrow> daily_ledger \<Rightarrow> master_slot option" where
  "slot_of_row slots row = find (\<lambda>s. dl_master_slot_id row = Some (sl_id s)) (rev slots)"

text \<open>The rows a correction reads: the days ahead of the slots, tomorrow first.\<close>

definition days_after_today :: "app_env \<Rightarrow> master_slot list \<Rightarrow> database \<Rightarrow> daily_ledger list" where
  "days_after_today env slots db =
     filter (\<lambda>d. slot_of_row slots d \<noteq> None \<and> dl_target_date d > env_today env) (daily_ledger_rows db)"

record correction =
  co_updated :: int
  co_kept :: int
  co_rows :: "daily_ledger list"
  co_kept_rows :: "daily_ledger list"

text \<open>The counts, the rows with their new values (not flushed yet) and the rows left alone.\<close>

definition propagate_slot_corrections :: "app_env \<Rightarrow> master_slot list \<Rightarrow> database \<Rightarrow> correction" where
  "propagate_slot_corrections env slots db =
     (let rows = days_after_today env slots db;
          in_use = rows_in_use (map dl_id rows) db;
          free = filter (\<lambda>d. dl_id d \<notin> in_use) rows
      in \<lparr>co_updated = int (length free), co_kept = int (length rows) - int (length free),
          co_rows = map (\<lambda>d. corrected_day (the (slot_of_row slots d)) d) free,
          co_kept_rows = filter (\<lambda>d. dl_id d \<in> in_use) rows\<rparr>)"

section \<open>Withdrawing and deleting\<close>

definition planned_days :: "app_env \<Rightarrow> master_slot \<Rightarrow> database \<Rightarrow> daily_ledger list" where
  "planned_days env slot db =
     filter (\<lambda>d. dl_master_slot_id d = Some (sl_id slot) \<and> dl_target_date d \<ge> env_today env)
       (daily_ledger_rows db)"

definition withdraw_planned_days ::
  "app_env \<Rightarrow> master_slot \<Rightarrow> database \<Rightarrow> string \<Rightarrow> api_error + daily_ledger list" where
  "withdraw_planned_days env slot db why =
     (let planned = planned_days env slot db;
          blocked = rows_in_use (map dl_id planned) db
      in if blocked \<noteq> {}
         then Inl (chronos_error 409 STATE_CONFLICT
           (Msg (''This slot cannot be '' @ why @ '' while days it has produced carry attendance or notes: '' @
              join_with '', '' (sort (map (\<lambda>d. iso_date (dl_target_date d))
                (filter (\<lambda>d. dl_id d \<in> blocked) planned))))))
         else Inr planned)"

definition delete_slot ::
  "app_env \<Rightarrow> master_slot \<Rightarrow> database \<Rightarrow> api_error + (int \<times> int \<times> database)" where
  "delete_slot env slot db =
     (let detached = filter (\<lambda>d. dl_master_slot_id d = Some (sl_id slot) \<and>
            dl_target_date d < env_today env) (daily_ledger_rows db)
      in bind_result (withdraw_planned_days env slot db ''deleted'') (\<lambda>planned.
           let db1 = delete_days (set (map dl_id planned)) db
           in Inr (int (length planned), int (length detached),
                db1\<lparr>daily_ledger_rows := update_rows (\<lambda>d. dl_master_slot_id d = Some (sl_id slot))
                      (\<lambda>d. d\<lparr>dl_master_slot_id := None\<rparr>) (daily_ledger_rows db1),
                    structural_master_slots := filter (\<lambda>s. sl_id s \<noteq> sl_id slot)
                      (structural_master_slots db1)\<rparr>)))"

section \<open>Rooms by name\<close>

definition ROOM_CLASS :: string where
  "ROOM_CLASS = ''ROOM''"

definition get_or_create_room :: "string \<Rightarrow> database \<Rightarrow> resource \<times> database" where
  "get_or_create_room code0 db =
     (let code = strip code0 in
      case find (\<lambda>r. re_code r = code) (resources db) of
        Some r \<Rightarrow> (r, db)
      | None \<Rightarrow>
          (let room = \<lparr>re_id = fresh_id (map re_id (resources db)), re_code = code, re_label = code,
                 re_resource_type = ROOM_CLASS, re_unit_code = None, re_capacity = None,
                 re_mode = EXCLUSIVE, re_user_id = None, re_latitude = None, re_longitude = None,
                 re_altitude_target = None, re_active = True\<rparr>
           in (room, db\<lparr>resources := resources db @ [room]\<rparr>)))"

section \<open>Flushing corrected days\<close>

text \<open>
  The updates go to the database one row after another, by primary key, and each is checked
  against the rows as they stand at that moment.
\<close>

definition day_refused :: "backend \<Rightarrow> daily_ledger list \<Rightarrow> daily_ledger \<Rightarrow> bool" where
  "day_refused b rows row \<longleftrightarrow> b = PostgreSQL \<and> claims_a_window row \<and>
     list_ex (\<lambda>x. dl_id x \<noteq> dl_id row \<and> claims_a_window x \<and> dl_resource_id x = dl_resource_id row \<and>
       ranges_overlap (sql_day_span x) (sql_day_span row)) rows"

definition flush_day ::
  "backend \<Rightarrow> daily_ledger \<Rightarrow> daily_ledger list \<Rightarrow> integrity_error + daily_ledger list" where
  "flush_day b row rows =
     (if day_refused b rows row then Inl Overlap_Violation
      else Inr (update_rows (\<lambda>x. dl_id x = dl_id row) (\<lambda>_. row) rows))"

definition flush_days ::
  "backend \<Rightarrow> daily_ledger list \<Rightarrow> daily_ledger list \<Rightarrow> integrity_error + daily_ledger list" where
  "flush_days b changed rows = fold_result (flush_day b) (sort_key dl_id changed) rows"

end
