(* ===== verification/Schedule.thy ===== *)
theory Schedule
  imports Master_Slot
begin

text \<open>
  \<^verbatim>\<open>backend/app/api/v1/endpoints/schedule.py\<close>, the routes that write the timetable: planning cycles,
  activities with their rosters and requirements, and the weekly slots.

  A route takes the session it is given and returns its answer with the session it leaves; a
  refusal leaves it as it was, since nothing was committed. \<open>others\<close> is what other transactions
  commit between a route's checks and its own write.
\<close>

section \<open>Payloads\<close>

record planning_cycle_create =
  kc_cycle_label :: string
  kc_date_bounds_start :: date
  kc_date_bounds_end :: date
  kc_operational_status :: bool

definition planning_cycle_create_ok :: "planning_cycle_create \<Rightarrow> bool" where
  "planning_cycle_create_ok p \<longleftrightarrow> \<not> kc_date_bounds_end p < kc_date_bounds_start p"

record activity_create =
  kv_activity_code :: string
  kv_activity_title :: string
  kv_unit_code :: string
  kv_cycle_id :: int

record master_slot_create =
  ks_rrule :: string
  ks_dtstart :: "date option"
  ks_time_window_start :: time_of_day
  ks_time_window_end :: time_of_day
  ks_activity_id :: int
  ks_primary_lead_id :: "string option"
  ks_target_room_identifier :: string

text \<open>The rule in the form it is stored in, and a window at all.\<close>

definition master_slot_create_ok :: "rrule_lib \<Rightarrow> master_slot_create \<Rightarrow> bool" where
  "master_slot_create_ok L p \<longleftrightarrow> stored_rule L (ks_rrule p) \<and>
     valid_time (ks_time_window_start p) \<and> valid_time (ks_time_window_end p) \<and>
     ks_time_window_end p \<noteq> ks_time_window_start p"

text \<open>A PATCH of a slot: every field may be left out, and only the lead may be null.\<close>

record master_slot_update =
  ku_rrule :: "string option"
  ku_dtstart :: "date option"
  ku_time_window_start :: "time_of_day option"
  ku_time_window_end :: "time_of_day option"
  ku_primary_lead_id :: "string option option"
  ku_target_room_identifier :: "string option"

definition master_slot_update_ok :: "rrule_lib \<Rightarrow> master_slot_update \<Rightarrow> bool" where
  "master_slot_update_ok L p \<longleftrightarrow>
     (case ku_rrule p of None \<Rightarrow> True | Some r \<Rightarrow> stored_rule L r) \<and>
     (case ku_time_window_start p of None \<Rightarrow> True | Some t \<Rightarrow> valid_time t) \<and>
     (case ku_time_window_end p of None \<Rightarrow> True | Some t \<Rightarrow> valid_time t)"

record retire_result =
  rt_retired_at :: instant
  rt_slots_retired :: int
  rt_ledger_rows_removed :: int
  rt_ledger_rows_kept :: int

section \<open>Refusals\<close>

definition anchored :: "app_env \<Rightarrow> string \<Rightarrow> date \<Rightarrow> api_error + date" where
  "anchored env rule on_or_after = (case anchor (env_rrule env) rule on_or_after of
     Inl message \<Rightarrow> Inl (chronos_error 422 INVALID_VALUE (Msg message)) | Inr d \<Rightarrow> Inr d)"

definition room_conflict :: "string \<Rightarrow> busy_interval list \<Rightarrow> api_error + unit" where
  "room_conflict message conflicts =
     (if conflicts \<noteq> [] then Inl (chronos_error 409 RESOURCE_CONFLICT (Msg_Conflicts message conflicts))
      else Inr ())"

definition cycle_is_open :: "planning_cycle option \<Rightarrow> bool" where
  "cycle_is_open cycle \<longleftrightarrow> (case cycle of None \<Rightarrow> False | Some c \<Rightarrow> cy_operational_status c)"

definition refuse_if_held ::
  "app_env \<Rightarrow> database \<Rightarrow> planning_cycle option \<Rightarrow> int \<Rightarrow> string \<Rightarrow> date \<Rightarrow> time_of_day \<Rightarrow> time_of_day
   \<Rightarrow> api_error + unit" where
  "refuse_if_held env db cycle resource_id rule dtstart start stop =
     (if \<not> cycle_is_open cycle then Inr ()
      else room_conflict ''the resource is held for part of that window''
        (held_against_slot (env_rrule env) (env_today env) db resource_id rule dtstart start stop cycle))"

definition refuse_if_scheduled ::
  "app_env \<Rightarrow> database \<Rightarrow> planning_cycle option \<Rightarrow> int \<Rightarrow> string \<Rightarrow> date \<Rightarrow> time_of_day \<Rightarrow> time_of_day
   \<Rightarrow> int option \<Rightarrow> api_error + unit" where
  "refuse_if_scheduled env db cycle resource_id rule dtstart start stop exclude_slot_id =
     (if \<not> cycle_is_open cycle then Inr ()
      else room_conflict ''the resource is already on the timetable for part of that window''
        (slots_against_slot (env_rrule env) (env_today env) db resource_id rule dtstart start stop
           exclude_slot_id cycle))"

definition refuse_if_a_day_is_there ::
  "app_env \<Rightarrow> database \<Rightarrow> planning_cycle option \<Rightarrow> int \<Rightarrow> string \<Rightarrow> date \<Rightarrow> time_of_day \<Rightarrow> time_of_day
   \<Rightarrow> int option \<Rightarrow> api_error + unit" where
  "refuse_if_a_day_is_there env db cycle resource_id rule dtstart start stop exclude_slot_id =
     room_conflict ''the resource already has a generated day in part of that window''
       (days_against_slot (env_rrule env) (env_today env) db resource_id rule dtstart start stop
          exclude_slot_id cycle)"

text \<open>The three checks in a row, as a new slot and a moved slot run them.\<close>

definition refuse_if_taken ::
  "app_env \<Rightarrow> database \<Rightarrow> planning_cycle option \<Rightarrow> int \<Rightarrow> string \<Rightarrow> date \<Rightarrow> time_of_day \<Rightarrow> time_of_day
   \<Rightarrow> int option \<Rightarrow> api_error + unit" where
  "refuse_if_taken env db cycle resource_id rule dtstart start stop exclude_slot_id =
     bind_result (refuse_if_held env db cycle resource_id rule dtstart start stop) (\<lambda>_.
     bind_result (refuse_if_scheduled env db cycle resource_id rule dtstart start stop exclude_slot_id) (\<lambda>_.
       refuse_if_a_day_is_there env db cycle resource_id rule dtstart start stop exclude_slot_id))"

definition refuse_if_retired :: "instant option \<Rightarrow> string \<Rightarrow> api_error + unit" where
  "refuse_if_retired retired_at what =
     (if retired_at \<noteq> None then Inl (chronos_error 409 STATE_CONFLICT (Msg (what @ '' is retired'')))
      else Inr ())"

definition refuse_unless_active :: "database \<Rightarrow> string \<Rightarrow> string \<Rightarrow> api_error + unit" where
  "refuse_unless_active db user_id role = (case get_user db user_id of
     None \<Rightarrow> Inl (chronos_error 404 NOT_FOUND (Msg (role @ '' not found'')))
   | Some u \<Rightarrow> if us_deactivated_at u \<noteq> None
       then Inl (chronos_error 422 USER_DEACTIVATED (Msg (role @ '' is deactivated''))) else Inr ())"

section \<open>Planning cycles\<close>

definition cycle_or_404 :: "database \<Rightarrow> int \<Rightarrow> api_error + planning_cycle" where
  "cycle_or_404 db cycle_id = (case get_cycle_row db cycle_id of
     None \<Rightarrow> Inl (chronos_error 404 NOT_FOUND (Msg ''Cycle not found'')) | Some c \<Rightarrow> Inr c)"

definition list_cycles :: "database \<Rightarrow> page \<Rightarrow> planning_cycle list \<times> nat" where
  "list_cycles db pg = page_rows pg cy_id (planning_cycles db)"

definition create_cycle ::
  "session \<Rightarrow> user \<Rightarrow> planning_cycle_create \<Rightarrow> (api_error + planning_cycle) \<times> session" where
  "create_cycle sess current_user p =
     (let db = working sess in
      case require_roles [ORG_ADMIN] current_user of
        Inl e \<Rightarrow> (Inl e, sess)
      | Inr _ \<Rightarrow>
          (let cycle = \<lparr>cy_id = fresh_id (map cy_id (planning_cycles db)),
                 cy_cycle_label = kc_cycle_label p, cy_date_bounds_start = kc_date_bounds_start p,
                 cy_date_bounds_end = kc_date_bounds_end p,
                 cy_operational_status = kc_operational_status p\<rparr>
           in (Inr cycle, db_commit (sess\<lparr>working :=
                db\<lparr>planning_cycles := planning_cycles db @ [cycle]\<rparr>\<rparr>))))"

definition set_cycle_status :: "int \<Rightarrow> bool \<Rightarrow> database \<Rightarrow> database" where
  "set_cycle_status cycle_id status db = db\<lparr>planning_cycles :=
     update_rows (\<lambda>c. cy_id c = cycle_id) (\<lambda>c. c\<lparr>cy_operational_status := status\<rparr>) (planning_cycles db)\<rparr>"

text \<open>\<^verbatim>\<open>_retire_days_ahead\<close>: of the days ahead, those still plans go and those in use stay.\<close>

definition retire_days_ahead :: "database \<Rightarrow> daily_ledger list \<Rightarrow> int \<times> int \<times> database" where
  "retire_days_ahead db rows =
     (let kept = rows_in_use (map dl_id rows) db
      in (int (length rows) - int (card kept), int (card kept),
          delete_days (set (map dl_id rows) - kept) db))"

definition close_cycle ::
  "app_env \<Rightarrow> session \<Rightarrow> user \<Rightarrow> int \<Rightarrow> (api_error + (int \<times> int)) \<times> session" where
  "close_cycle env sess current_user cycle_id =
     (let db = working sess in
      case bind_result (require_roles [ORG_ADMIN] current_user) (\<lambda>_. cycle_or_404 db cycle_id) of
        Inl e \<Rightarrow> (Inl e, sess)
      | Inr _ \<Rightarrow>
          (let ahead = filter (\<lambda>d. map_option ac_cycle_id (get_activity_row db (dl_activity_id d)) = Some cycle_id \<and>
                 dl_target_date d \<ge> env_today env) (daily_ledger_rows db)
           in case retire_days_ahead db ahead of (removed, kept, db') \<Rightarrow>
                (Inr (removed, kept), db_commit (sess\<lparr>working := set_cycle_status cycle_id False db'\<rparr>))))"

definition live_slots :: "database \<Rightarrow> int \<Rightarrow> master_slot list" where
  "live_slots db cycle_id = sort_key sl_id (filter (\<lambda>s. sl_retired_at s = None \<and>
     (case slot_activity db s of None \<Rightarrow> False
      | Some a \<Rightarrow> ac_cycle_id a = cycle_id \<and> ac_retired_at a = None)) (structural_master_slots db))"

definition slot_blocked ::
  "app_env \<Rightarrow> database \<Rightarrow> planning_cycle \<Rightarrow> master_slot \<Rightarrow> (busy_interval \<times> int) list" where
  "slot_blocked env db cycle slot =
     (case sl_resource_id slot of None \<Rightarrow> []
      | Some rid \<Rightarrow>
          (let L = env_rrule env; today = env_today env;
               found =
                 held_against_slot L today db rid (sl_rrule slot) (sl_dtstart slot)
                   (sl_time_window_start slot) (sl_time_window_end slot) (Some cycle) @
                 slots_against_slot L today db rid (sl_rrule slot) (sl_dtstart slot)
                   (sl_time_window_start slot) (sl_time_window_end slot) (Some (sl_id slot)) (Some cycle) @
                 days_against_slot L today db rid (sl_rrule slot) (sl_dtstart slot)
                   (sl_time_window_start slot) (sl_time_window_end slot) (Some (sl_id slot)) (Some cycle)
           in map (\<lambda>clash. (clash, sl_id slot)) found))"

datatype open_answer = Was_Already_Open | Opened

definition open_cycle ::
  "app_env \<Rightarrow> session \<Rightarrow> user \<Rightarrow> int \<Rightarrow> (api_error + open_answer) \<times> session" where
  "open_cycle env sess current_user cycle_id =
     (let db = working sess in
      case bind_result (require_roles [ORG_ADMIN] current_user) (\<lambda>_. cycle_or_404 db cycle_id) of
        Inl e \<Rightarrow> (Inl e, sess)
      | Inr cycle \<Rightarrow>
          if cy_operational_status cycle then (Inr Was_Already_Open, sess)
          else
            (let slots = live_slots db cycle_id;
                 db1 = set_cycle_status cycle_id True db;
                 conflicts = concat (map (slot_blocked env db1 (cycle\<lparr>cy_operational_status := True\<rparr>)) slots)
             in if conflicts \<noteq> []
                then (Inl (chronos_error 409 RESOURCE_CONFLICT (Msg_Activation
                    ''opening this cycle would put its slots on rooms already taken'' conflicts)),
                  db_rollback (sess\<lparr>working := db1\<rparr>))
                else (Inr Opened, db_commit (sess\<lparr>working := db1\<rparr>))))"

subsection \<open>Cloning\<close>

text \<open>The unique key on an activity's code and cycle.\<close>

definition insert_activity :: "database \<Rightarrow> activity \<Rightarrow> integrity_error + (activity \<times> database)" where
  "insert_activity db a0 =
     (let a = a0\<lparr>ac_id := fresh_id (map ac_id (activities db))\<rparr> in
      if list_ex (\<lambda>x. ac_activity_code x = ac_activity_code a \<and> ac_cycle_id x = ac_cycle_id a) (activities db)
      then Inl Key_Violation
      else Inr (a, db\<lparr>activities := activities db @ [a]\<rparr>))"

definition insert_slot :: "database \<Rightarrow> master_slot \<Rightarrow> master_slot \<times> database" where
  "insert_slot db s0 =
     (let s = s0\<lparr>sl_id := fresh_id (map sl_id (structural_master_slots db))\<rparr>
      in (s, db\<lparr>structural_master_slots := structural_master_slots db @ [s]\<rparr>))"

definition cloned_slot :: "app_env \<Rightarrow> planning_cycle \<Rightarrow> int \<Rightarrow> master_slot \<Rightarrow> master_slot" where
  "cloned_slot env new_cycle activity_id slot =
     slot\<lparr>sl_dtstart := (case first_occurrence (env_rrule env) (sl_rrule slot) (cy_date_bounds_start new_cycle) of
            Some d \<Rightarrow> d | None \<Rightarrow> sl_dtstart slot),
        sl_activity_id := activity_id, sl_retired_at := None,
        sl_organization_id := env_organization_id env\<rparr>"

definition slots_of :: "database \<Rightarrow> int \<Rightarrow> master_slot list" where
  "slots_of db activity_id = filter (\<lambda>s. sl_activity_id s = activity_id) (structural_master_slots db)"

definition clone_offering ::
  "app_env \<Rightarrow> planning_cycle \<Rightarrow> activity \<Rightarrow> database \<times> int \<Rightarrow> integrity_error + (database \<times> int)" where
  "clone_offering env new_cycle offering st =
     (case st of (db, cloned) \<Rightarrow>
        bind_result (insert_activity db (offering\<lparr>ac_cycle_id := cy_id new_cycle, ac_retired_at := None\<rparr>))
          (\<lambda>(new, db1).
             let copies = map (cloned_slot env new_cycle (ac_id new))
                   (filter (\<lambda>s. sl_retired_at s = None) (slots_of db (ac_id offering)))
             in Inr (fold (\<lambda>s d. snd (insert_slot d s)) copies db1, cloned + int (length copies))))"

definition clone_cycle_offerings ::
  "app_env \<Rightarrow> session \<Rightarrow> user \<Rightarrow> int \<Rightarrow> int \<Rightarrow> (walk_error + (int \<times> int)) \<times> session" where
  "clone_cycle_offerings env sess current_user old_id new_id =
     (let db = working sess in
      case bind_result (require_roles [ORG_ADMIN] current_user) (\<lambda>_.
           bind_result (cycle_or_404 db old_id) (\<lambda>_.
           bind_result (cycle_or_404 db new_id) (\<lambda>new_cycle.
             if cy_operational_status new_cycle
             then Inl (chronos_error 409 STATE_CONFLICT (Msg (''Cycle '' @ show_int new_id @
               '' is open. Clone into a closed cycle and open it afterwards: opening is what checks the copied slots against the rooms'')))
             else if find (\<lambda>a. ac_cycle_id a = new_id) (activities db) \<noteq> None
             then Inl (chronos_error 409 STATE_CONFLICT (Msg (''Cycle '' @ show_int new_id @
               '' already has activities. Clone into an empty cycle'')))
             else Inr new_cycle))) of
        Inl e \<Rightarrow> (Inl (Refused e), sess)
      | Inr new_cycle \<Rightarrow>
          (let old_offerings = sort_key ac_id (filter (\<lambda>a. ac_cycle_id a = old_id \<and> ac_retired_at a = None)
                 (activities db))
           in case fold_result (clone_offering env new_cycle) old_offerings (db, 0) of
                Inl e \<Rightarrow> (Inl (Integrity e), sess)
              | Inr (db', cloned_slots) \<Rightarrow>
                  (Inr (int (length old_offerings), cloned_slots), db_commit (sess\<lparr>working := db'\<rparr>))))"

section \<open>Activities\<close>

definition fill_horizon ::
  "app_env \<Rightarrow> race \<Rightarrow> (database \<Rightarrow> database) \<Rightarrow> session \<Rightarrow> int \<Rightarrow> session" where
  "fill_horizon env race between sess cycle_id =
     open_session (fst (snd (materialize_horizon env race between (Some cycle_id) (working sess))))"

definition get_activity :: "database \<Rightarrow> int \<Rightarrow> api_error + activity" where
  "get_activity db activity_id = (case get_activity_row db activity_id of
     None \<Rightarrow> Inl (chronos_error 404 NOT_FOUND (Msg ''Activity not found'')) | Some a \<Rightarrow> Inr a)"

text \<open>The opening lines of every activity route: an admin, the activity, the caller's unit.\<close>

definition own_activity :: "database \<Rightarrow> user \<Rightarrow> int \<Rightarrow> api_error + activity" where
  "own_activity db current_user activity_id =
     bind_result (require_roles [ORG_ADMIN, UNIT_ADMIN] current_user) (\<lambda>_.
     bind_result (get_activity db activity_id) (\<lambda>a.
     bind_result (ensure_unit_scope current_user (Some (ac_unit_code a))) (\<lambda>_. Inr a)))"

definition live_activity :: "database \<Rightarrow> user \<Rightarrow> int \<Rightarrow> api_error + activity" where
  "live_activity db current_user activity_id =
     bind_result (own_activity db current_user activity_id) (\<lambda>a.
     bind_result (refuse_if_retired (ac_retired_at a) ''Activity'') (\<lambda>_. Inr a))"

definition list_activities :: "database \<Rightarrow> int option \<Rightarrow> bool \<Rightarrow> page \<Rightarrow> activity list \<times> nat" where
  "list_activities db cycle_id include_retired pg =
     page_rows pg ac_id (filter (\<lambda>a. (case cycle_id of None \<Rightarrow> True
         | Some c \<Rightarrow> c = 0 \<or> ac_cycle_id a = c) \<and> (include_retired \<or> ac_retired_at a = None)) (activities db))"

definition quoted :: "string \<Rightarrow> string" where
  "quoted s = [CHR 0x27] @ s @ [CHR 0x27]"

definition activity_exists_message :: "activity_create \<Rightarrow> string" where
  "activity_exists_message p = ''Activity '' @ quoted (kv_activity_code p) @ '' already exists in cycle '' @
     show_int (kv_cycle_id p)"

definition create_activity ::
  "(database \<Rightarrow> database) \<Rightarrow> session \<Rightarrow> user \<Rightarrow> activity_create \<Rightarrow> (api_error + activity) \<times> session" where
  "create_activity others sess current_user p =
     (let db = working sess in
      case bind_result (require_roles [ORG_ADMIN, UNIT_ADMIN] current_user) (\<lambda>_.
           bind_result (ensure_unit_scope current_user (Some (kv_unit_code p))) (\<lambda>_.
           bind_result (cycle_or_404 db (kv_cycle_id p)) (\<lambda>_.
             case find (\<lambda>a. ac_cycle_id a = kv_cycle_id p \<and> ac_activity_code a = kv_activity_code p)
                    (activities db) of
               Some taken \<Rightarrow> Inl (chronos_error 409 ALREADY_EXISTS (Msg (activity_exists_message p @
                 '' as activity '' @ show_int (ac_id taken) @
                 (if ac_retired_at taken \<noteq> None then '', retired'' else ''''))))
             | None \<Rightarrow> Inr ()))) of
        Inl e \<Rightarrow> (Inl e, sess)
      | Inr _ \<Rightarrow>
          (let sess1 = open_session (others db) in
           case insert_activity (working sess1) \<lparr>ac_id = 0, ac_activity_code = kv_activity_code p,
                  ac_activity_title = kv_activity_title p, ac_unit_code = kv_unit_code p,
                  ac_cycle_id = kv_cycle_id p, ac_retired_at = None\<rparr> of
             Inl _ \<Rightarrow> (Inl (chronos_error 409 ALREADY_EXISTS (Msg (activity_exists_message p))), sess1)
           | Inr (a, db') \<Rightarrow> (Inr a, db_commit (sess1\<lparr>working := db'\<rparr>))))"

definition update_activity ::
  "session \<Rightarrow> user \<Rightarrow> int \<Rightarrow> string \<Rightarrow> (api_error + activity) \<times> session" where
  "update_activity sess current_user activity_id activity_title =
     (let db = working sess in
      case live_activity db current_user activity_id of
        Inl e \<Rightarrow> (Inl e, sess)
      | Inr a \<Rightarrow> (Inr (a\<lparr>ac_activity_title := activity_title\<rparr>), db_commit (sess\<lparr>working :=
          db\<lparr>activities := update_rows (\<lambda>x. ac_id x = activity_id)
            (\<lambda>x. x\<lparr>ac_activity_title := activity_title\<rparr>) (activities db)\<rparr>\<rparr>)))"

definition retire_activity ::
  "app_env \<Rightarrow> session \<Rightarrow> user \<Rightarrow> int \<Rightarrow> (api_error + retire_result) \<times> session" where
  "retire_activity env sess current_user activity_id =
     (let db = working sess in
      case live_activity db current_user activity_id of
        Inl e \<Rightarrow> (Inl e, sess)
      | Inr a \<Rightarrow>
          (let now = env_now env;
               live = (\<lambda>s. sl_activity_id s = activity_id \<and> sl_retired_at s = None);
               ahead = filter (\<lambda>d. dl_activity_id d = activity_id \<and> dl_target_date d \<ge> env_today env)
                 (daily_ledger_rows db)
           in case retire_days_ahead db ahead of (removed, kept, db1) \<Rightarrow>
                (Inr \<lparr>rt_retired_at = now,
                   rt_slots_retired = int (length (filter live (structural_master_slots db))),
                   rt_ledger_rows_removed = removed, rt_ledger_rows_kept = kept\<rparr>,
                 db_commit (sess\<lparr>working := db1\<lparr>
                   activities := update_rows (\<lambda>x. ac_id x = activity_id)
                     (\<lambda>x. x\<lparr>ac_retired_at := Some now\<rparr>) (activities db1),
                   structural_master_slots := update_rows live
                     (\<lambda>s. s\<lparr>sl_retired_at := Some now\<rparr>) (structural_master_slots db1)\<rparr>\<rparr>))))"

subsection \<open>Rosters and requirements\<close>

definition list_enrollments ::
  "database \<Rightarrow> user \<Rightarrow> int \<Rightarrow> page \<Rightarrow> api_error + activity_enrollment list \<times> nat" where
  "list_enrollments db current_user activity_id pg =
     bind_result (own_activity db current_user activity_id) (\<lambda>a.
       Inr (page_rows pg en_id (filter (\<lambda>e. en_activity_id e = ac_id a) (activity_enrollments db))))"

definition already_enrolled :: "string \<Rightarrow> api_error" where
  "already_enrolled member_id = chronos_error 409 ALREADY_EXISTS
     (Msg (''Member '' @ quoted member_id @ '' is already enrolled''))"

definition enrolled :: "database \<Rightarrow> int \<Rightarrow> string \<Rightarrow> bool" where
  "enrolled db activity_id member_id \<longleftrightarrow>
     list_ex (\<lambda>e. en_activity_id e = activity_id \<and> en_member_id e = member_id) (activity_enrollments db)"

definition create_enrollment ::
  "(database \<Rightarrow> database) \<Rightarrow> session \<Rightarrow> user \<Rightarrow> int \<Rightarrow> string \<Rightarrow> (api_error + activity_enrollment) \<times> session" where
  "create_enrollment others sess current_user activity_id member_id =
     (let db = working sess in
      case bind_result (live_activity db current_user activity_id) (\<lambda>a.
           bind_result (refuse_unless_active db member_id ''Member'') (\<lambda>_.
             if enrolled db (ac_id a) member_id then Inl (already_enrolled member_id) else Inr a)) of
        Inl e \<Rightarrow> (Inl e, sess)
      | Inr a \<Rightarrow>
          (let sess1 = open_session (others db); db1 = working sess1;
               row = \<lparr>en_id = fresh_id (map en_id (activity_enrollments db1)),
                 en_activity_id = ac_id a, en_member_id = member_id\<rparr>
           in if enrolled db1 (ac_id a) member_id then (Inl (already_enrolled member_id), sess1)
              else (Inr row, db_commit (sess1\<lparr>working :=
                db1\<lparr>activity_enrollments := activity_enrollments db1 @ [row]\<rparr>\<rparr>))))"

definition delete_enrollment ::
  "session \<Rightarrow> user \<Rightarrow> int \<Rightarrow> string \<Rightarrow> (api_error + unit) \<times> session" where
  "delete_enrollment sess current_user activity_id member_id =
     (let db = working sess in
      case bind_result (live_activity db current_user activity_id) (\<lambda>a.
           case find (\<lambda>e. en_activity_id e = ac_id a \<and> en_member_id e = member_id) (activity_enrollments db) of
             None \<Rightarrow> Inl (chronos_error 404 NOT_FOUND (Msg ''Enrollment not found''))
           | Some e \<Rightarrow> Inr e) of
        Inl e \<Rightarrow> (Inl e, sess)
      | Inr e \<Rightarrow> (Inr (), db_commit (sess\<lparr>working := db\<lparr>activity_enrollments :=
          filter (\<lambda>x. en_id x \<noteq> en_id e) (activity_enrollments db)\<rparr>\<rparr>)))"

definition list_activity_requirements ::
  "database \<Rightarrow> user \<Rightarrow> int \<Rightarrow> api_error + resource_requirement list" where
  "list_activity_requirements db current_user activity_id =
     bind_result (own_activity db current_user activity_id) (\<lambda>a.
       Inr (list_requirements db ACTIVITY (ac_id a)))"

definition create_activity_requirement ::
  "session \<Rightarrow> user \<Rightarrow> int \<Rightarrow> requirement_create \<Rightarrow> (api_error + resource_requirement) \<times> session" where
  "create_activity_requirement sess current_user activity_id p =
     (case live_activity (working sess) current_user activity_id of
        Inl e \<Rightarrow> (Inl e, sess) | Inr a \<Rightarrow> add_requirement sess ACTIVITY (ac_id a) p)"

definition delete_activity_requirement ::
  "session \<Rightarrow> user \<Rightarrow> int \<Rightarrow> int \<Rightarrow> (api_error + unit) \<times> session" where
  "delete_activity_requirement sess current_user activity_id requirement_id =
     (case own_activity (working sess) current_user activity_id of
        Inl e \<Rightarrow> (Inl e, sess) | Inr a \<Rightarrow> delete_requirement sess ACTIVITY (ac_id a) requirement_id)"

section \<open>Slots\<close>

definition list_master_slots ::
  "database \<Rightarrow> int option \<Rightarrow> bool \<Rightarrow> page \<Rightarrow> (master_slot \<times> string option) list" where
  "list_master_slots db cycle_id include_retired pg =
     map (\<lambda>s. (s, room_identifier db (sl_resource_id s)))
       (fst (page_rows pg sl_id (filter (\<lambda>s. (case cycle_id of None \<Rightarrow> True
           | Some c \<Rightarrow> c = 0 \<or> map_option ac_cycle_id (slot_activity db s) = Some c) \<and>
           (include_retired \<or> sl_retired_at s = None)) (structural_master_slots db))))"

definition slot_or_404 :: "database \<Rightarrow> int \<Rightarrow> api_error + master_slot" where
  "slot_or_404 db slot_id = (case find (\<lambda>s. sl_id s = slot_id) (structural_master_slots db) of
     None \<Rightarrow> Inl (chronos_error 404 NOT_FOUND (Msg ''Master slot not found'')) | Some s \<Rightarrow> Inr s)"

text \<open>The opening lines of the routes on one slot.\<close>

definition live_slot :: "database \<Rightarrow> user \<Rightarrow> int \<Rightarrow> walk_error + (master_slot \<times> activity)" where
  "live_slot db current_user slot_id =
     (case bind_result (require_roles [ORG_ADMIN, UNIT_ADMIN] current_user) (\<lambda>_. slot_or_404 db slot_id) of
        Inl e \<Rightarrow> Inl (Refused e)
      | Inr s \<Rightarrow> (case slot_activity db s of None \<Rightarrow> Inl Attribute_Error
          | Some a \<Rightarrow> (case bind_result (ensure_unit_scope current_user (Some (ac_unit_code a))) (\<lambda>_.
                refuse_if_retired (sl_retired_at s) ''Slot'') of
              Inl e \<Rightarrow> Inl (Refused e) | Inr _ \<Rightarrow> Inr (s, a))))"

text \<open>The slot's first date is asked from the start sent, or from the cycle's first date.\<close>

definition slot_start :: "app_env \<Rightarrow> planning_cycle option \<Rightarrow> string \<Rightarrow> date option \<Rightarrow> walk_error + date" where
  "slot_start env cycle rule dtstart =
     bind_result (case (dtstart, cycle) of (Some d, _) \<Rightarrow> Inr d
         | (None, Some c) \<Rightarrow> Inr (cy_date_bounds_start c) | (None, None) \<Rightarrow> Inl Attribute_Error) (\<lambda>d.
       case anchored env rule d of Inl e \<Rightarrow> Inl (Refused e) | Inr d' \<Rightarrow> Inr d')"

text \<open>Every check of a new slot, and the row it passes to the insert with the database that holds its room.\<close>

definition check_new_slot ::
  "app_env \<Rightarrow> database \<Rightarrow> user \<Rightarrow> master_slot_create \<Rightarrow> walk_error + (master_slot \<times> activity \<times> database)" where
  "check_new_slot env db current_user p =
     bind_result (lift_refusal (
       bind_result (require_roles [ORG_ADMIN, UNIT_ADMIN] current_user) (\<lambda>_.
       bind_result (case get_activity_row db (ks_activity_id p) of
           None \<Rightarrow> Inl (chronos_error 404 NOT_FOUND (Msg ''Activity offering not found'')) | Some a \<Rightarrow> Inr a) (\<lambda>a.
       bind_result (ensure_unit_scope current_user (Some (ac_unit_code a))) (\<lambda>_.
       bind_result (refuse_if_retired (ac_retired_at a) ''Activity'') (\<lambda>_.
       bind_result (case ks_primary_lead_id p of None \<Rightarrow> Inr ()
           | Some lead \<Rightarrow> refuse_unless_active db lead ''Lead'') (\<lambda>_. Inr a))))))) (\<lambda>offering.
     let cycle = get_cycle_row db (ac_cycle_id offering) in
     bind_result (slot_start env cycle (ks_rrule p) (ks_dtstart p)) (\<lambda>dtstart.
     case get_or_create_room (ks_target_room_identifier p) db of (room, db1) \<Rightarrow>
     bind_result (lift_refusal (
       bind_result (ensure_resource_scope current_user room) (\<lambda>_.
         refuse_if_taken env db1 cycle (re_id room) (ks_rrule p) dtstart (ks_time_window_start p)
           (ks_time_window_end p) None))) (\<lambda>_.
     Inr (\<lparr>sl_id = 0, sl_rrule = ks_rrule p, sl_dtstart = dtstart,
          sl_time_window_start = ks_time_window_start p, sl_time_window_end = ks_time_window_end p,
          sl_activity_id = ks_activity_id p, sl_primary_lead_id = ks_primary_lead_id p,
          sl_resource_id = Some (re_id room), sl_retired_at = None,
          sl_organization_id = env_organization_id env\<rparr>, offering, db1))))"

definition create_master_slot ::
  "app_env \<Rightarrow> race \<Rightarrow> (database \<Rightarrow> database) \<Rightarrow> session \<Rightarrow> user \<Rightarrow> master_slot_create
   \<Rightarrow> (walk_error + (int \<times> (int \<times> date \<times> string) list)) \<times> session" where
  "create_master_slot env race between sess current_user p =
     (case check_new_slot env (working sess) current_user p of
        Inl e \<Rightarrow> (Inl e, sess)
      | Inr (row, offering, db1) \<Rightarrow>
          (case insert_slot db1 row of (slot, db2) \<Rightarrow>
             (let sess2 = db_commit (sess\<lparr>working := db2\<rparr>);
                  sess3 = fill_horizon env race between sess2 (ac_cycle_id offering)
              in (bind_result (unmet_for_slot env (working sess3) slot) (\<lambda>unmet. Inr (sl_id slot, unmet)),
                  sess3))))"

subsection \<open>Changing a slot\<close>

text \<open>The slot with the fields that were sent, its rule, start and room already worked out.\<close>

definition patched_slot ::
  "master_slot_update \<Rightarrow> string \<Rightarrow> date \<Rightarrow> int option \<Rightarrow> master_slot \<Rightarrow> master_slot" where
  "patched_slot p rule dtstart resource_id slot = slot\<lparr>
     sl_rrule := rule, sl_dtstart := dtstart, sl_resource_id := resource_id,
     sl_time_window_start := (case ku_time_window_start p of None \<Rightarrow> sl_time_window_start slot | Some t \<Rightarrow> t),
     sl_time_window_end := (case ku_time_window_end p of None \<Rightarrow> sl_time_window_end slot | Some t \<Rightarrow> t),
     sl_primary_lead_id := (case ku_primary_lead_id p of None \<Rightarrow> sl_primary_lead_id slot | Some l \<Rightarrow> l)\<rparr>"

definition moved :: "master_slot \<Rightarrow> master_slot \<Rightarrow> bool" where
  "moved slot slot' \<longleftrightarrow>
     (sl_resource_id slot', sl_rrule slot', sl_dtstart slot', sl_time_window_start slot', sl_time_window_end slot') \<noteq>
     (sl_resource_id slot, sl_rrule slot, sl_dtstart slot, sl_time_window_start slot, sl_time_window_end slot)"

text \<open>
  A slot with no room is moved too, and the queries then compare the column with \<^verbatim>\<open>None\<close>, which is
  \<^verbatim>\<open>IS NULL\<close>: it is checked against the other slots and the days that have no room.
\<close>

definition slots_without_room ::
  "app_env \<Rightarrow> database \<Rightarrow> planning_cycle option \<Rightarrow> master_slot \<Rightarrow> busy_interval list" where
  "slots_without_room env db cycle slot' =
     List.map_filter (slot_clash (env_rrule env) (env_today env) db (sl_rrule slot') (sl_dtstart slot')
         (sl_time_window_start slot') (sl_time_window_end slot') cycle)
       (filter (\<lambda>s. sl_resource_id s = None \<and> slot_counts db s \<and> sl_id s \<noteq> sl_id slot')
         (structural_master_slots db))"

definition days_without_room ::
  "app_env \<Rightarrow> database \<Rightarrow> planning_cycle option \<Rightarrow> master_slot \<Rightarrow> busy_interval list" where
  "days_without_room env db cycle slot' =
     map (day_interval db)
       (filter (\<lambda>row. \<not> excluded_day (Some (sl_id slot')) row \<and>
           list_ex (\<lambda>slot_date. within_cycle cycle slot_date \<and>
               occurs_on (env_rrule env) (sl_rrule slot') (sl_dtstart slot') slot_date \<and>
               overlaps (bounds (day_interval db row))
                 (window_span slot_date (sl_time_window_start slot') (sl_time_window_end slot')))
             (three_dates (dl_target_date row)))
         (sort_key (\<lambda>d. (dl_target_date d, dl_start d))
           (filter (\<lambda>d. dl_resource_id d = None \<and> dl_target_date d \<ge> env_today env \<and> has_window d)
             (daily_ledger_rows db))))"

definition refuse_if_moved_onto ::
  "app_env \<Rightarrow> database \<Rightarrow> planning_cycle option \<Rightarrow> master_slot \<Rightarrow> api_error + unit" where
  "refuse_if_moved_onto env db cycle slot' =
     (case sl_resource_id slot' of
        Some rid \<Rightarrow> refuse_if_taken env db cycle rid (sl_rrule slot') (sl_dtstart slot')
          (sl_time_window_start slot') (sl_time_window_end slot') (Some (sl_id slot'))
      | None \<Rightarrow>
          bind_result (if \<not> cycle_is_open cycle then Inr ()
            else room_conflict ''the resource is already on the timetable for part of that window''
              (slots_without_room env db cycle slot')) (\<lambda>_.
          room_conflict ''the resource already has a generated day in part of that window''
            (days_without_room env db cycle slot')))"

text \<open>The second ask, after the database refused the write.\<close>

definition refuse_if_day_beat_it :: "app_env \<Rightarrow> database \<Rightarrow> master_slot \<Rightarrow> api_error + unit" where
  "refuse_if_day_beat_it env db slot' =
     (case sl_resource_id slot' of
        Some rid \<Rightarrow> refuse_if_a_day_is_there env db None rid (sl_rrule slot') (sl_dtstart slot')
          (sl_time_window_start slot') (sl_time_window_end slot') (Some (sl_id slot'))
      | None \<Rightarrow> room_conflict ''the resource already has a generated day in part of that window''
          (days_without_room env db None slot'))"

definition check_slot_update ::
  "app_env \<Rightarrow> database \<Rightarrow> user \<Rightarrow> int \<Rightarrow> master_slot_update
   \<Rightarrow> walk_error + (master_slot \<times> master_slot \<times> database)" where
  "check_slot_update env db current_user slot_id p =
     bind_result (live_slot db current_user slot_id) (\<lambda>(slot, act).
     bind_result (lift_refusal (case ku_primary_lead_id p of Some (Some lead) \<Rightarrow>
         refuse_unless_active db lead ''Lead'' | _ \<Rightarrow> Inr ())) (\<lambda>_.
     let start = (case ku_time_window_start p of None \<Rightarrow> sl_time_window_start slot | Some t \<Rightarrow> t);
         stop = (case ku_time_window_end p of None \<Rightarrow> sl_time_window_end slot | Some t \<Rightarrow> t);
         rule = (case ku_rrule p of None \<Rightarrow> sl_rrule slot | Some r \<Rightarrow> r);
         cycle = get_cycle_row db (ac_cycle_id act)
     in if stop = start
        then Inl (Refused (chronos_error 422 INVALID_VALUE
          (Msg ''time_window_end must not equal time_window_start'')))
        else
     bind_result (if rule \<noteq> sl_rrule slot \<or> ku_dtstart p \<noteq> None
         then slot_start env cycle rule (ku_dtstart p) else Inr (sl_dtstart slot)) (\<lambda>dtstart.
     bind_result (case ku_target_room_identifier p of None \<Rightarrow> Inr (sl_resource_id slot, db)
         | Some code \<Rightarrow> (case get_or_create_room code db of (room, db1) \<Rightarrow>
             bind_result (lift_refusal (ensure_resource_scope current_user room)) (\<lambda>_.
               Inr (Some (re_id room), db1)))) (\<lambda>(resource_id, db1).
     let slot' = patched_slot p rule dtstart resource_id slot
     in bind_result (lift_refusal (if moved slot slot' then refuse_if_moved_onto env db1 cycle slot' else Inr ()))
          (\<lambda>_. Inr (slot, slot', db1))))))"

text \<open>
  The write. The withdrawn days are marked for deletion and still read by the correction that
  follows; the flush deletes them and updates the others. A refused flush is asked about once
  more, without the cycle, and is raised again when that finds nothing.
\<close>

definition write_slot_update ::
  "app_env \<Rightarrow> database \<Rightarrow> master_slot \<Rightarrow> master_slot \<Rightarrow> walk_error + (int \<times> int \<times> int \<times> database)" where
  "write_slot_update env db slot slot' =
     bind_result (lift_refusal (
       if (sl_rrule slot', sl_dtstart slot') \<noteq> (sl_rrule slot, sl_dtstart slot)
       then withdraw_planned_days env slot db ''given another rule or start'' else Inr [])) (\<lambda>withdrawn.
     let gone = set (map dl_id withdrawn);
         result = propagate_slot_corrections env [slot'] db;
         changed = filter (\<lambda>d. dl_id d \<notin> gone) (co_rows result);
         db1 = db\<lparr>structural_master_slots := update_rows (\<lambda>s. sl_id s = sl_id slot) (\<lambda>_. slot')
                 (structural_master_slots db)\<rparr>
     in case flush_days (env_backend env) changed (daily_ledger_rows db1) of
          Inl e \<Rightarrow> Inl (Integrity e)
        | Inr rows \<Rightarrow> Inr (co_updated result, co_kept result, int (length withdrawn),
            delete_days gone (db1\<lparr>daily_ledger_rows := rows\<rparr>)))"

record slot_update_result =
  su_ledger_rows_updated :: int
  su_ledger_rows_kept :: int
  su_ledger_rows_removed :: int
  su_requirements_unmet :: "(int \<times> date \<times> string) list"

definition update_master_slot ::
  "app_env \<Rightarrow> (database \<Rightarrow> database) \<Rightarrow> session \<Rightarrow> user \<Rightarrow> int \<Rightarrow> master_slot_update
   \<Rightarrow> (walk_error + slot_update_result) \<times> session" where
  "update_master_slot env others sess current_user slot_id p =
     (case check_slot_update env (working sess) current_user slot_id p of
        Inl e \<Rightarrow> (Inl e, sess)
      | Inr (slot, slot', db1) \<Rightarrow>
          (let sess1 = open_session (others (committed sess)) in
           case write_slot_update env (others db1) slot slot' of
             Inl (Integrity e) \<Rightarrow>
               (case refuse_if_day_beat_it env (working sess1) slot' of
                  Inl refused \<Rightarrow> (Inl (Refused refused), sess1)
                | Inr _ \<Rightarrow> (Inl (Integrity e), sess1))
           | Inl e \<Rightarrow> (Inl e, sess1)
           | Inr (updated, kept, removed, db2) \<Rightarrow>
               (bind_result (unmet_for_slot env db2 slot') (\<lambda>unmet.
                  Inr \<lparr>su_ledger_rows_updated = updated, su_ledger_rows_kept = kept,
                    su_ledger_rows_removed = removed, su_requirements_unmet = unmet\<rparr>),
                db_commit (sess\<lparr>working := db2\<rparr>))))"

subsection \<open>Taking a slot off the timetable\<close>

definition delete_master_slot ::
  "app_env \<Rightarrow> session \<Rightarrow> user \<Rightarrow> int \<Rightarrow> (walk_error + (int \<times> int)) \<times> session" where
  "delete_master_slot env sess current_user slot_id =
     (case bind_result (live_slot (working sess) current_user slot_id) (\<lambda>(slot, _).
           lift_refusal (delete_slot env slot (working sess))) of
        Inl e \<Rightarrow> (Inl e, sess)
      | Inr (removed, detached, db') \<Rightarrow> (Inr (removed, detached), db_commit (sess\<lparr>working := db'\<rparr>)))"

definition retire_master_slot ::
  "app_env \<Rightarrow> session \<Rightarrow> user \<Rightarrow> int \<Rightarrow> (walk_error + retire_result) \<times> session" where
  "retire_master_slot env sess current_user slot_id =
     (let db = working sess in
      case live_slot db current_user slot_id of
        Inl e \<Rightarrow> (Inl e, sess)
      | Inr (slot, _) \<Rightarrow>
          (case retire_days_ahead db (planned_days env slot db) of (removed, kept, db1) \<Rightarrow>
             (Inr \<lparr>rt_retired_at = env_now env, rt_slots_retired = 1,
                rt_ledger_rows_removed = removed, rt_ledger_rows_kept = kept\<rparr>,
              db_commit (sess\<lparr>working := db1\<lparr>structural_master_slots :=
                update_rows (\<lambda>s. sl_id s = slot_id) (\<lambda>s. s\<lparr>sl_retired_at := Some (env_now env)\<rparr>)
                  (structural_master_slots db1)\<rparr>\<rparr>))))"

end
