(* ===== verification/Ledger_Props.thy ===== *)
theory Ledger_Props
  imports Ledger_Generator Requirements_Props
begin

text \<open>
  What the ledger generator promises. The specification is \<open>lay\<close>: go through the days the
  timetable plans, in order, and write each one whose slot has no row for its date yet and
  whose window no row of its room meets. The one-date job on PostgreSQL and the horizon job on
  either database both refine it; everything else (the rules of the table, that a second run
  writes nothing, that every planned day is there or its room is taken) follows from it, once,
  in the locale \<open>ledger_writer\<close>.
\<close>

section \<open>The specification\<close>

definition days_clear :: "daily_ledger \<Rightarrow> daily_ledger \<Rightarrow> bool" where
  "days_clear x y \<longleftrightarrow> (claims_a_window x \<and> claims_a_window y \<and> dl_resource_id x = dl_resource_id y \<longrightarrow>
     \<not> meets (day_span x) (day_span y))"

definition bars :: "daily_ledger \<Rightarrow> daily_ledger \<Rightarrow> bool" where
  "bars x y \<longleftrightarrow> same_slot_date x y \<or> \<not> days_clear x y"

definition ledger_ok :: "daily_ledger list \<Rightarrow> bool" where
  "ledger_ok rows \<longleftrightarrow> (\<forall>d \<in> set rows. day_ok d) \<and> sorted_wrt (\<lambda>x y. \<not> bars x y) rows"

definition numbered :: "daily_ledger list \<Rightarrow> daily_ledger \<Rightarrow> daily_ledger" where
  "numbered rows f = f\<lparr>dl_id := fresh_id (map dl_id rows)\<rparr>"

definition lay_step :: "daily_ledger \<Rightarrow> daily_ledger list \<Rightarrow> daily_ledger list" where
  "lay_step f rows = (if list_ex (\<lambda>x. bars x f) rows then rows else rows @ [numbered rows f])"

definition lay :: "daily_ledger list \<Rightarrow> daily_ledger list \<Rightarrow> daily_ledger list" where
  "lay rows fs = fold lay_step fs rows"

lemma numbered_simps [simp]:
  "dl_resource_id (numbered rows f) = dl_resource_id f" "dl_master_slot_id (numbered rows f) = dl_master_slot_id f"
  "dl_target_date (numbered rows f) = dl_target_date f" "day_span (numbered rows f) = day_span f"
  "claims_a_window (numbered rows f) = claims_a_window f" "day_ok (numbered rows f) = day_ok f"
  "dl_start (numbered rows f) = dl_start f" "dl_end (numbered rows f) = dl_end f"
  "has_window (numbered rows f) = has_window f"
  by (simp_all add: numbered_def day_span_def claims_a_window_def day_ok_def has_window_def dl_start_def dl_end_def)

lemma bars_numbered [simp]: "bars (numbered rows x) y = bars x y" "bars x (numbered rows y) = bars x y"
  by (simp_all add: bars_def same_slot_date_def days_clear_def)

lemma lay_simps [simp]: "lay rows [] = rows" "lay rows (f # fs) = lay (lay_step f rows) fs"
  by (simp_all add: lay_def)

lemma lay_append: "lay rows (fs @ gs) = lay (lay rows fs) gs"
  by (simp add: lay_def)

lemma lay_step_extends: "\<exists>new. lay_step f rows = rows @ new \<and> (\<forall>r \<in> set new. \<exists>rs. r = numbered rs f)"
  by (auto simp: lay_step_def)

lemma lay_extends: "\<exists>new. lay rows fs = rows @ new \<and> (\<forall>r \<in> set new. \<exists>f \<in> set fs. \<exists>rs. r = numbered rs f)"
proof (induction fs arbitrary: rows)
  case (Cons f fs)
  obtain new1 where 1: "lay_step f rows = rows @ new1" "\<forall>r \<in> set new1. \<exists>rs. r = numbered rs f"
    using lay_step_extends by blast
  obtain new2 where 2: "lay (rows @ new1) fs = (rows @ new1) @ new2"
    "\<forall>r \<in> set new2. \<exists>f \<in> set fs. \<exists>rs. r = numbered rs f"
    using Cons.IH by blast
  have "lay rows (f # fs) = rows @ (new1 @ new2)" by (simp add: 1(1) 2(1))
  with 1(2) 2(2) show ?case by (metis UnE list.set_intros set_append)
qed simp

lemma lay_mono: "set rows \<subseteq> set (lay rows fs)"
  using lay_extends[of rows fs] by auto

lemma lay_keeps_ok: "ledger_ok rows \<Longrightarrow> \<forall>f \<in> set fs. day_ok f \<Longrightarrow> ledger_ok (lay rows fs)"
proof (induction fs arbitrary: rows)
  case (Cons f fs)
  then have "ledger_ok (lay_step f rows)"
    by (auto simp: lay_step_def ledger_ok_def sorted_wrt_append list_ex_iff)
  with Cons show ?case by simp
qed simp

text \<open>A planned day, once its turn has come, is in the table or something in the table bars it.\<close>

lemma bars_self: "dl_master_slot_id f \<noteq> None \<Longrightarrow> bars f f"
  by (simp add: bars_def same_slot_date_def)

lemma lay_complete:
  assumes "f \<in> set fs" and "dl_master_slot_id f \<noteq> None"
  shows "\<exists>x \<in> set (lay rows fs). bars x f"
  using assms(1)
proof (induction fs arbitrary: rows)
  case (Cons g fs)
  show ?case
  proof (cases "f = g")
    case True
    have "\<exists>x \<in> set (lay_step f rows). bars x f"
      using bars_self[OF assms(2)] by (auto simp: lay_step_def list_ex_iff)
    then show ?thesis using lay_mono[of "lay_step f rows" fs] True by auto
  qed (use Cons in auto)
qed simp

lemma lay_nothing: "\<forall>f \<in> set fs. \<exists>x \<in> set rows. bars x f \<Longrightarrow> lay rows fs = rows"
  by (induction fs) (auto simp: lay_step_def list_ex_iff)

lemma lay_again: "\<forall>f \<in> set fs. dl_master_slot_id f \<noteq> None \<Longrightarrow> lay (lay rows fs) fs = lay rows fs"
  by (rule lay_nothing) (auto intro: lay_complete)

text \<open>Days that already have their row change nothing.\<close>

lemma lay_skip:
  "\<forall>f \<in> set fs. \<not> P f \<longrightarrow> (\<exists>x \<in> set rows. bars x f) \<Longrightarrow> lay rows (filter P fs) = lay rows fs"
proof (induction fs arbitrary: rows)
  case (Cons f fs)
  have "set rows \<subseteq> set (lay_step f rows)" by (auto simp: lay_step_def)
  with Cons.prems have "lay (lay_step f rows) (filter P fs) = lay (lay_step f rows) fs"
    by (intro Cons.IH) (meson list.set_intros(2) subsetD)
  moreover have "lay_step f rows = rows" if "\<not> P f" using Cons.prems that by (auto simp: lay_step_def list_ex_iff)
  ultimately show ?case by auto
qed simp

section \<open>Inserts\<close>

lemma claims_has_window: "claims_a_window d \<Longrightarrow> has_window d"
  by (simp add: claims_a_window_def has_window_def)

lemma sql_day_span_eq: "day_ok d \<Longrightarrow> claims_a_window d \<Longrightarrow> sql_day_span d = day_span d"
  using claims_has_window[of d]
  by (auto simp: day_ok_def valid_window_def sql_day_span_def day_span_def sql_window_eq)

lemma day_span_nonempty: "day_ok d \<Longrightarrow> claims_a_window d \<Longrightarrow> fst (day_span d) < snd (day_span d)"
  using claims_has_window[of d]
  by (auto simp: day_ok_def valid_window_def day_span_def intro: window_span_length(1))

lemma sql_days_overlap:
  "day_ok x \<Longrightarrow> day_ok y \<Longrightarrow> claims_a_window x \<Longrightarrow> claims_a_window y \<Longrightarrow>
   ranges_overlap (sql_day_span x) (sql_day_span y) \<longleftrightarrow> meets (day_span x) (day_span y)"
  using day_span_nonempty[of x] day_span_nonempty[of y] by (simp add: sql_day_span_eq ranges_overlap_def)

lemma numbered_row: "f\<lparr>dl_id := fresh_id (map dl_id (daily_ledger_rows db))\<rparr> = numbered (daily_ledger_rows db) f"
  by (simp add: numbered_def)

lemma insert_ledger_day_free:
  assumes "\<forall>d \<in> set (daily_ledger_rows db). day_ok d" and "day_ok f"
    and "\<not> (\<exists>x \<in> set (daily_ledger_rows db). bars x f)"
  shows "insert_ledger_day b db f =
    Inr (db\<lparr>daily_ledger_rows := daily_ledger_rows db @ [numbered (daily_ledger_rows db) f]\<rparr>)"
proof -
  have 1: "\<not> list_ex (\<lambda>x. same_slot_date x (numbered (daily_ledger_rows db) f)) (daily_ledger_rows db)"
    using assms(3) by (auto simp: list_ex_iff bars_def same_slot_date_def)
  have 2: "\<not> (claims_a_window f \<and> list_ex (\<lambda>x. claims_a_window x \<and> dl_resource_id x = dl_resource_id f \<and>
      ranges_overlap (sql_day_span x) (sql_day_span f)) (daily_ledger_rows db))"
    using assms sql_days_overlap[of _ f] by (auto simp: list_ex_iff bars_def days_clear_def)
  have "sql_day_span (numbered rs f) = sql_day_span f" for rs by (simp add: sql_day_span_def)
  with 1 2 show ?thesis by (auto simp: insert_ledger_day_def Let_def numbered_row)
qed

lemma insert_ledger_day_barred:
  assumes "\<forall>d \<in> set (daily_ledger_rows db). day_ok d" and "day_ok f"
    and "\<exists>x \<in> set (daily_ledger_rows db). bars x f"
  shows "\<exists>e. insert_ledger_day PostgreSQL db f = Inl e"
proof -
  have "sql_day_span (numbered rs f) = sql_day_span f" for rs by (simp add: sql_day_span_def)
  moreover have "same_slot_date x (numbered rs f) = same_slot_date x f" for x rs by (simp add: same_slot_date_def)
  ultimately show ?thesis
    using assms sql_days_overlap[of _ f]
    by (auto simp: insert_ledger_day_def Let_def numbered_row list_ex_iff bars_def days_clear_def)
qed

text \<open>On PostgreSQL an insert is a step of the specification, whatever is in the table.\<close>

lemma insert_day_lays:
  assumes "env_backend env = PostgreSQL" and "\<forall>d \<in> set (daily_ledger_rows db). day_ok d" and "day_ok f"
  shows "fst (snd (insert_day env (\<lambda>_ d. d) db f)) = db\<lparr>daily_ledger_rows := lay_step f (daily_ledger_rows db)\<rparr>"
proof (cases "\<exists>x \<in> set (daily_ledger_rows db). bars x f")
  case True
  then obtain e where "insert_ledger_day PostgreSQL db f = Inl e"
    using insert_ledger_day_barred[OF assms(2,3)] by blast
  with True assms(1) show ?thesis by (auto simp: insert_day_def Let_def lay_step_def list_ex_iff)
next
  case free: False
  note ins = insert_ledger_day_free[OF assms(2,3) free, of PostgreSQL]
  have "taken_by db f = []"
  proof (cases "claims_a_window f")
    case True
    then obtain rid where rid: "dl_resource_id f = Some rid" by (auto simp: claims_a_window_def)
    have "\<not> meets (bounds (day_interval db x)) (window_span (dl_target_date f) (dl_start f) (dl_end f))"
      if "x \<in> days_on db rid" for x
    proof -
      have x: "x \<in> set (daily_ledger_rows db)" "dl_resource_id x = Some rid" "has_window x" "day_ok x"
        using that assms(2) by (auto simp: days_on_def)
      then have "claims_a_window x" by (simp add: claims_a_window_def has_window_def)
      with free x True rid show ?thesis
        by (auto simp: bars_def days_clear_def bounds_day_interval day_span_def)
    qed
    then show ?thesis using rid True
      by (auto simp: taken_by_def days_against_window_def Let_def filter_empty_conv set_dated_days)
  qed (simp add: taken_by_def split: option.split)
  with ins assms(1) free show ?thesis by (auto simp: insert_day_def Let_def lay_step_def list_ex_iff)
qed

section \<open>The one-date job\<close>

definition planned :: "app_env \<Rightarrow> database \<Rightarrow> date \<Rightarrow> daily_ledger list" where
  "planned env db d = map (\<lambda>s. day_fields s d (initial_state db s d))
     (filter (\<lambda>s. occurs_on (env_rrule env) (sl_rrule s) (sl_dtstart s) d) (candidates db d d))"

lemma day_fields_simps [simp]:
  "dl_master_slot_id (day_fields s d st) = Some (sl_id s)" "dl_target_date (day_fields s d st) = d"
  "dl_resource_id (day_fields s d st) = sl_resource_id s" "has_window (day_fields s d st)"
  "dl_start (day_fields s d st) = sl_time_window_start s" "dl_end (day_fields s d st) = sl_time_window_end s"
  "claims_a_window (day_fields s d st) \<longleftrightarrow> sl_resource_id s \<noteq> None"
  "dl_activity_id (day_fields s d st) = sl_activity_id s"
  by (simp_all add: day_fields_def has_window_def dl_start_def dl_end_def claims_a_window_def)

lemma day_fields_ok: "slot_ok L s \<Longrightarrow> day_ok (day_fields s d st)"
  by (simp add: day_ok_def slot_ok_def)

lemma candidates_subset: "s \<in> set (candidates db a b) \<Longrightarrow> s \<in> set (structural_master_slots db) \<and> slot_counts db s"
  by (auto simp: candidates_def)

lemma ledger_frame [simp]:
  "initial_state (db\<lparr>daily_ledger_rows := x\<rparr>) = initial_state db"
  "candidates (db\<lparr>daily_ledger_rows := x\<rparr>) = candidates db"
  "slot_counts (db\<lparr>daily_ledger_rows := x\<rparr>) = slot_counts db"
  by (auto simp: initial_state_def on_leave_def candidates_def slot_counts_def fun_eq_iff
      cong: option.case_cong)

lemma planned_frame [simp]: "planned env (db\<lparr>daily_ledger_rows := x\<rparr>) = planned env db"
  by (simp add: planned_def fun_eq_iff)

lemma planned_ok: "tables_ok L db \<Longrightarrow> f \<in> set (planned env db d) \<Longrightarrow> day_ok f \<and> dl_master_slot_id f \<noteq> None"
  by (auto simp: planned_def tables_ok_def dest!: candidates_subset intro: day_fields_ok)

lemma generate_steps_lay:
  assumes "env_backend env = PostgreSQL" and "\<forall>s \<in> set slots. slot_ok L s"
    and "\<forall>d \<in> set rows. day_ok d" and "db' = db\<lparr>daily_ledger_rows := rows\<rparr>"
  shows "fst (snd (fold (generate_step env (\<lambda>_ d. d) d) slots (written, db', logs))) =
    db\<lparr>daily_ledger_rows := lay rows (map (\<lambda>s. day_fields s d (initial_state db s d)) slots)\<rparr>"
  using assms(2-4)
proof (induction slots arbitrary: written rows db' logs)
  case (Cons s slots)
  let ?f = "day_fields s d (initial_state db s d)"
  have ok: "day_ok ?f" using Cons.prems(1) by (auto intro: day_fields_ok)
  have rows': "\<forall>x \<in> set (lay_step ?f rows). day_ok x" using Cons.prems(2) ok by (auto simp: lay_step_def)
  have "fst (snd (generate_step env (\<lambda>_ d. d) d s (written, db', logs))) =
      db\<lparr>daily_ledger_rows := lay_step ?f rows\<rparr>"
  proof (cases "find (\<lambda>x. dl_master_slot_id x = Some (sl_id s) \<and> dl_target_date x = d) rows")
    case None
    then show ?thesis
      using insert_day_lays[OF assms(1), of db' ?f] Cons.prems(2,3) ok
      by (simp add: generate_step_def Let_def split_beta)
  next
    case (Some x)
    then have "bars x ?f" "x \<in> set rows"
      by (auto simp: bars_def same_slot_date_def dest!: find_Some_iff_first)
    with Some Cons.prems(3) show ?thesis by (auto simp: generate_step_def lay_step_def list_ex_iff)
  qed
  then obtain w l where step: "generate_step env (\<lambda>_ d. d) d s (written, db', logs) =
      (w, db\<lparr>daily_ledger_rows := lay_step ?f rows\<rparr>, l)"
    by (metis prod.collapse)
  show ?case
    using Cons.IH[of "lay_step ?f rows", OF _ rows' refl] Cons.prems(1) by (simp add: step)
qed simp

lemma generate_lays:
  assumes "env_backend env = PostgreSQL" and "tables_ok L db"
  shows "fst (snd (generate_daily_ledger_entries env (\<lambda>_ d. d) d db)) =
    db\<lparr>daily_ledger_rows := lay (daily_ledger_rows db) (planned env db d)\<rparr>"
proof -
  let ?slots = "filter (\<lambda>s. occurs_on (env_rrule env) (sl_rrule s) (sl_dtstart s) d) (candidates db d d)"
  have "\<forall>s \<in> set ?slots. slot_ok L s" "\<forall>x \<in> set (daily_ledger_rows db). day_ok x"
    using assms(2) by (auto simp: tables_ok_def dest: candidates_subset)
  from generate_steps_lay[OF assms(1) this, of db db d "[]" "[]"]
  show ?thesis by (simp add: generate_daily_ledger_entries_def planned_def split_beta Let_def)
qed

section \<open>The horizon job\<close>

fun append_days :: "daily_ledger list \<Rightarrow> daily_ledger list \<Rightarrow> daily_ledger list" where
  "append_days rows [] = rows"
| "append_days rows (f # fs) = append_days (rows @ [numbered rows f]) fs"

lemma append_days_append: "append_days rows (fs @ gs) = append_days (append_days rows fs) gs"
  by (induction fs arbitrary: rows) simp_all

lemma append_days_set: "x \<in> set (append_days rows fs) \<Longrightarrow> x \<in> set rows \<or> (\<exists>f \<in> set fs. \<exists>rs. x = numbered rs f)"
  by (induction fs arbitrary: rows) fastforce+

text \<open>The walk over the rows in memory takes the steps of the specification.\<close>

definition held_agree :: "room_day list \<Rightarrow> daily_ledger list \<Rightarrow> daily_ledger \<Rightarrow> bool" where
  "held_agree held rows f \<longleftrightarrow> (claims_a_window f \<longrightarrow>
     ((\<exists>(room, sp, t) \<in> set held. room = dl_resource_id f \<and> meets sp (day_span f)) \<longleftrightarrow>
      (\<exists>x \<in> set rows. \<not> days_clear x f)))"

lemma keep_rows_taken:
  assumes "held_agree held rows f" and "claims_a_window f"
  shows "(map (\<lambda>(_, _, t). t) (filter (\<lambda>(room, (oo, oc), _). room = dl_resource_id f \<and>
      oo < snd (day_span f) \<and> fst (day_span f) < oc) held) = []) \<longleftrightarrow> \<not> (\<exists>x \<in> set rows. \<not> days_clear x f)"
  using assms by (auto simp: held_agree_def filter_empty_conv meets_def split_beta)

lemma keep_rows_lays:
  assumes "\<forall>f \<in> set fs. held_agree held rows f" and "\<forall>f \<in> set fs. \<forall>x \<in> set rows. \<not> same_slot_date x f"
    and "sorted_wrt (\<lambda>x y. \<not> same_slot_date x y) fs"
  shows "lay rows fs = append_days rows (fst (keep_rows db held fs))"
  using assms
proof (induction fs arbitrary: rows held)
  case (Cons f fs)
  have span: "window_span (dl_target_date f) (dl_start f) (dl_end f) = day_span f" by (simp add: day_span_def)
  have barred: "list_ex (\<lambda>x. bars x f) rows \<longleftrightarrow> (\<exists>x \<in> set rows. \<not> days_clear x f)"
    using Cons.prems(2) by (auto simp: list_ex_iff bars_def)
  let ?rows = "rows @ [numbered rows f]"
  have slots: "\<forall>g \<in> set fs. \<forall>x \<in> set ?rows. \<not> same_slot_date x g"
    using Cons.prems(2,3) by (auto simp: same_slot_date_def)
  consider (plain) "\<not> claims_a_window f" | (taken) "claims_a_window f" "\<exists>x \<in> set rows. \<not> days_clear x f"
    | (free) "claims_a_window f" "\<not> (\<exists>x \<in> set rows. \<not> days_clear x f)" by blast
  then show ?case
  proof cases
    case plain
    have "\<forall>g \<in> set fs. held_agree held ?rows g"
      using Cons.prems(1) plain by (auto simp: held_agree_def days_clear_def)
    with Cons.IH[OF _ slots] Cons.prems plain barred show ?thesis
      by (auto simp: lay_step_def days_clear_def split: prod.split)
  next
    case taken
    then have "fst (keep_rows db held (f # fs)) = fst (keep_rows db held fs)"
      using keep_rows_taken[of held rows f] Cons.prems(1)
      by (simp add: span split_beta)
    with Cons taken barred show ?thesis by (simp add: lay_step_def)
  next
    case free
    then have "fst (keep_rows db held (f # fs)) = f # fst (keep_rows db (held @ [held_day f]) fs)"
      using keep_rows_taken[of held rows f] Cons.prems(1)
      by (simp add: span split_beta)
    moreover have "\<forall>g \<in> set fs. held_agree (held @ [held_day f]) ?rows g"
      using Cons.prems(1) free(1)
      by (auto simp: held_agree_def days_clear_def held_day_def day_span_def[symmetric])
    ultimately show ?thesis using Cons.IH[OF _ slots] Cons.prems free barred by (simp add: lay_step_def)
  qed
qed simp

lemma keep_rows_subset: "set (fst (keep_rows db held fs)) \<subseteq> set fs"
proof (induction fs arbitrary: held)
  case (Cons f fs)
  from Cons[of held] Cons[of "held @ [held_day f]"] show ?case by (auto simp: Let_def split_beta)
qed simp

text \<open>Rows none of which bars another, or is barred by the table, go in whole.\<close>

lemma insert_batch_ok:
  assumes "\<forall>d \<in> set (daily_ledger_rows db). day_ok d" and "\<forall>f \<in> set fs. day_ok f"
    and "\<forall>f \<in> set fs. \<forall>x \<in> set (daily_ledger_rows db). \<not> bars x f"
    and "sorted_wrt (\<lambda>x y. \<not> bars x y) fs"
  shows "insert_batch b db fs = Inr (db\<lparr>daily_ledger_rows := append_days (daily_ledger_rows db) fs\<rparr>)"
  using assms
proof (induction fs arbitrary: db)
  case (Cons f fs)
  let ?db = "db\<lparr>daily_ledger_rows := daily_ledger_rows db @ [numbered (daily_ledger_rows db) f]\<rparr>"
  have ins: "insert_ledger_day b db f = Inr ?db"
    using Cons.prems by (intro insert_ledger_day_free) auto
  have "insert_batch b ?db fs = Inr (?db\<lparr>daily_ledger_rows := append_days (daily_ledger_rows ?db) fs\<rparr>)"
    using Cons.prems by (intro Cons.IH) auto
  with ins show ?case by (simp add: insert_batch_def)
qed (simp add: insert_batch_def)

lemma concat_batches:
  assumes "0 < n"
  shows "concat (batches n xs) = xs"
proof -
  have "concat (map (\<lambda>i. take n (drop (n * i) xs)) [0..<k]) = take (n * k) xs" for k
  proof (induction k)
    case (Suc k)
    have "n * Suc k = n * k + n" by simp
    then show ?case using Suc take_add[of "n * k" n xs] by (simp add: add.commute)
  qed simp
  moreover have "length xs \<le> n * ((length xs + n - 1) div n)"
  proof -
    have "length xs + n - 1 < n * ((length xs + n - 1) div n) + n"
      using assms dividend_less_times_div[of n "length xs + n - 1"] by (simp add: add.commute)
    then show ?thesis using assms by linarith
  qed
  ultimately show ?thesis by (simp add: batches_def)
qed

definition whole :: "daily_ledger list \<Rightarrow> daily_ledger list \<Rightarrow> bool" where
  "whole rows fs \<longleftrightarrow> (\<forall>d \<in> set rows. day_ok d) \<and> (\<forall>f \<in> set fs. day_ok f) \<and>
     (\<forall>f \<in> set fs. \<forall>x \<in> set rows. \<not> bars x f) \<and> sorted_wrt (\<lambda>x y. \<not> bars x y) fs"

lemma whole_append:
  assumes "whole rows (fs @ gs)"
  shows "whole rows fs" and "whole (append_days rows fs) gs"
  using assms append_days_set[of _ rows fs]
  by (fastforce simp: whole_def sorted_wrt_append)+

lemma write_batches_ok:
  assumes "whole (daily_ledger_rows db) (concat bs)"
  shows "fold (write_batch env race (\<lambda>d. d)) bs (written, db, logs) =
    (written @ concat bs, db\<lparr>daily_ledger_rows := append_days (daily_ledger_rows db) (concat bs)\<rparr>, logs)"
  using assms
proof (induction bs arbitrary: db written)
  case (Cons b bs)
  have w: "whole (daily_ledger_rows db) b"
    "whole (append_days (daily_ledger_rows db) b) (concat bs)"
    using whole_append Cons.prems by auto
  then have "insert_batch (env_backend env) db b =
      Inr (db\<lparr>daily_ledger_rows := append_days (daily_ledger_rows db) b\<rparr>)"
    by (intro insert_batch_ok) (auto simp: whole_def)
  with Cons.IH[of "db\<lparr>daily_ledger_rows := append_days (daily_ledger_rows db) b\<rparr>"] w(2)
  show ?case by (simp add: write_batch_def append_days_append)
qed simp

text \<open>What is kept is whole, because the specification would have laid it.\<close>

lemma lay_append_whole:
  assumes "ledger_ok (append_days rows fs)"
  shows "whole rows fs"
  using assms
proof (induction fs arbitrary: rows)
  case (Cons f fs)
  then have w: "whole (rows @ [numbered rows f]) fs" by simp
  have "ledger_ok (rows @ [numbered rows f])"
  proof -
    have "\<exists>new. append_days rows' fs' = rows' @ new" for rows' fs'
    proof (induction fs' arbitrary: rows')
      case (Cons a fs')
      then show ?case by (metis append_assoc append_days.simps(2))
    qed simp
    then obtain new where "append_days rows (f # fs) = (rows @ [numbered rows f]) @ new"
      unfolding append_days.simps by blast
    with Cons.prems have "ledger_ok ((rows @ [numbered rows f]) @ new)" by simp
    then show ?thesis unfolding ledger_ok_def sorted_wrt_append[of _ _ new] by simp
  qed
  with w show ?case by (auto simp: whole_def ledger_ok_def sorted_wrt_append)
qed (simp add: whole_def ledger_ok_def)

section \<open>The days the horizon plans\<close>

definition in_cycle :: "database \<Rightarrow> int option \<Rightarrow> master_slot \<Rightarrow> bool" where
  "in_cycle db cycle_id s \<longleftrightarrow> (case cycle_id of None \<Rightarrow> True
     | Some c \<Rightarrow> map_option cy_id (slot_cycle db s) = Some c)"

text \<open>The (date, slot) pairs the timetable gives, date by date and older slot first.\<close>

definition plan_pairs :: "rrule_lib \<Rightarrow> database \<Rightarrow> int option \<Rightarrow> date \<Rightarrow> (date \<times> master_slot) list" where
  "plan_pairs L db cycle_id d = map (Pair d)
     (filter (\<lambda>s. in_cycle db cycle_id s \<and> occurs_on L (sl_rrule s) (sl_dtstart s) d) (candidates db d d))"

definition pair_key :: "date \<times> master_slot \<Rightarrow> date \<times> int" where
  "pair_key = (\<lambda>(day, slot). (day, sl_id slot))"

lemma sorted_key_unique:
  "sorted_wrt (<) (map k xs) \<Longrightarrow> sorted_wrt (<) (map k ys) \<Longrightarrow> set xs = set ys \<Longrightarrow> xs = ys"
  for k :: "'a \<Rightarrow> 'b::linorder"
proof -
  assume s: "sorted_wrt (<) (map k xs)" "sorted_wrt (<) (map k ys)" and eq: "set xs = set ys"
  then have "map k xs = map k ys" by (metis list.set_map strict_sorted_equal)
  moreover have "inj_on k (set xs \<union> set ys)" using s(1) eq by (auto simp: strict_sorted_iff distinct_map)
  ultimately show ?thesis using map_inj_on by blast
qed

lemma pair_key_less: "pair_key x < pair_key y \<longleftrightarrow> fst x < fst y \<or> (fst x = fst y \<and> sl_id (snd x) < sl_id (snd y))"
  by (auto simp: pair_key_def split_beta less_prod_def)

lemma distinct_candidates:
  "distinct (map sl_id (structural_master_slots db)) \<Longrightarrow> sorted_wrt (<) (map sl_id (candidates db a b))"
  by (auto simp: candidates_def strict_sorted_iff distinct_map inj_on_def)

lemma sorted_plan_pairs:
  assumes "distinct (map sl_id (structural_master_slots db))"
  shows "sorted_wrt (<) (map pair_key (plan_pairs L db c d))"
proof -
  have "sorted_wrt (\<lambda>x y. sl_id x < sl_id y) (filter P (candidates db d d))" for P
    using distinct_candidates[OF assms] by (simp add: sorted_wrt_map sorted_wrt_filter)
  then show ?thesis by (simp add: plan_pairs_def sorted_wrt_map pair_key_less)
qed

lemma sorted_plan_window:
  assumes "distinct (map sl_id (structural_master_slots db))"
  shows "sorted_wrt (<) (map pair_key (concat (map (plan_pairs L db c) [a..b])))"
proof -
  have "sorted_wrt (<) ds \<Longrightarrow> sorted_wrt (<) (map pair_key (concat (map (plan_pairs L db c) ds)))" for ds
  proof (induction ds)
    case (Cons d ds)
    have "\<forall>x \<in> set (plan_pairs L db c d). fst x = d" "\<forall>y \<in> set (concat (map (plan_pairs L db c) ds)). fst y \<in> set ds"
      by (auto simp: plan_pairs_def)
    with Cons sorted_plan_pairs[OF assms, of L c d] show ?case
      by (auto simp: sorted_wrt_append sorted_wrt_map pair_key_less)
  qed simp
  then show ?thesis by simp
qed

lemma slot_counts_cycle: "slot_counts db s \<Longrightarrow> \<exists>c. slot_cycle db s = Some c"
  by (auto simp: slot_counts_def slot_cycle_def split: option.splits)

lemma set_plan_window:
  assumes "tables_ok L db" and "rrule_lib_ok L"
  shows "set (concat (map (plan_pairs L db c) [a..b])) =
    {(d, s). s \<in> set (horizon_slots db c a b) \<and> d \<in> set (slot_days L db a b s)}"
proof -
  have occ: "set (occurrences L (sl_rrule s) (sl_dtstart s) x y) =
      {d. x \<le> d \<and> d \<le> y \<and> occurs_on L (sl_rrule s) (sl_dtstart s) d}"
    if "s \<in> set (structural_master_slots db)" for s x y
    using rec.occ_set[of L "sl_rrule s"] assms that by (auto simp: rule_ok_def tables_ok_def slot_ok_def)
  have left: "(d, s) \<in> set (concat (map (plan_pairs L db c) [a..b])) \<longleftrightarrow> a \<le> d \<and> d \<le> b \<and>
      s \<in> set (candidates db d d) \<and> in_cycle db c s \<and> occurs_on L (sl_rrule s) (sl_dtstart s) d" for d s
    by (auto simp: plan_pairs_def)
  have right: "s \<in> set (horizon_slots db c a b) \<and> d \<in> set (slot_days L db a b s) \<longleftrightarrow> a \<le> d \<and> d \<le> b \<and>
      s \<in> set (candidates db d d) \<and> in_cycle db c s \<and> occurs_on L (sl_rrule s) (sl_dtstart s) d" for d s
    by (cases "slot_cycle db s")
      (auto simp: horizon_slots_def candidates_def slot_days_def in_cycle_def occ)
  show ?thesis by (simp only: set_eq_iff split_paired_All left right mem_Collect_eq case_prod_conv) simp
qed

definition days_follow_slots :: "database \<Rightarrow> bool" where
  "days_follow_slots db \<longleftrightarrow> (\<forall>d \<in> set (daily_ledger_rows db). \<forall>s \<in> set (structural_master_slots db).
     dl_master_slot_id d = Some (sl_id s) \<longrightarrow> dl_activity_id d = sl_activity_id s)"

text \<open>A pair is in the read exactly when its row is in the table.\<close>

lemma have_days_iff:
  assumes "cycle_id = None \<or> days_follow_slots db" and "s \<in> set (horizon_slots db cycle_id a b)"
    and "a \<le> d" and "d \<le> b"
  shows "(Some (sl_id s), d) \<in> set (have_days db cycle_id a b) \<longleftrightarrow>
    (\<exists>x \<in> set (daily_ledger_rows db). dl_master_slot_id x = Some (sl_id s) \<and> dl_target_date x = d)"
proof -
  have s: "s \<in> set (structural_master_slots db)" using assms(2) by (auto simp: horizon_slots_def dest: candidates_subset)
  have "case cycle_id of None \<Rightarrow> True | Some c \<Rightarrow> (case get_activity_row db (dl_activity_id x) of
      None \<Rightarrow> False | Some act \<Rightarrow> ac_cycle_id act = c)"
    if "x \<in> set (daily_ledger_rows db)" "dl_master_slot_id x = Some (sl_id s)" for x
  proof (cases cycle_id)
    case (Some c)
    then have "dl_activity_id x = sl_activity_id s" using assms(1) s that by (auto simp: days_follow_slots_def)
    then show ?thesis using assms(2) Some
      by (auto simp: horizon_slots_def slot_cycle_def slot_activity_def dest: get_cycle_row_Some
          split: option.splits bind_splits)
  qed simp
  then show ?thesis using assms(3,4) by (force simp: have_days_def)
qed

lemma missing_days_filter:
  assumes "tables_ok L db" and "rrule_lib_ok L" and "distinct (map sl_id (structural_master_slots db))"
    and "cycle_id = None \<or> days_follow_slots db"
  shows "missing_days L db cycle_id a b = filter (\<lambda>(d, s). \<not> (\<exists>x \<in> set (daily_ledger_rows db).
      dl_master_slot_id x = Some (sl_id s) \<and> dl_target_date x = d))
    (concat (map (plan_pairs L db cycle_id) [a..b]))" (is "_ = filter ?P ?plan")
proof (rule sorted_key_unique[of pair_key])
  let ?raw = "concat (map (\<lambda>slot. map (\<lambda>day. (day, slot))
      (filter (\<lambda>day. (Some (sl_id slot), day) \<notin> set (have_days db cycle_id a b)) (slot_days L db a b slot)))
    (horizon_slots db cycle_id a b))"
  have miss: "missing_days L db cycle_id a b = sort_key pair_key ?raw"
    by (simp add: missing_days_def pair_key_def)
  have within: "a \<le> d \<and> d \<le> b" if "s \<in> set (horizon_slots db cycle_id a b)" "d \<in> set (slot_days L db a b s)" for d s
  proof -
    have "(d, s) \<in> set ?plan" using that by (simp only: set_plan_window[OF assms(1,2)]) simp
    then show ?thesis by (auto simp: plan_pairs_def)
  qed
  have dist: "distinct (map pair_key ?raw)"
  proof -
    have slots: "distinct (map sl_id (horizon_slots db cycle_id a b))"
      using distinct_candidates[OF assms(3), of a b]
      by (simp add: horizon_slots_def strict_sorted_iff distinct_map_filter)
    have days: "distinct (slot_days L db a b s)" if "s \<in> set (horizon_slots db cycle_id a b)" for s
    proof -
      have "rule_ok L (sl_rrule s)" using that assms(1,2)
        by (auto simp: horizon_slots_def rule_ok_def tables_ok_def slot_ok_def dest: candidates_subset)
      then show ?thesis using rec.occ_distinct by (simp add: slot_days_def split: option.split)
    qed
    have "distinct (map sl_id ss) \<Longrightarrow> (\<And>s. s \<in> set ss \<Longrightarrow> distinct (ds s)) \<Longrightarrow>
      distinct (map pair_key (concat (map (\<lambda>s. map (\<lambda>d. (d, s)) (ds s)) ss)))" for ss and ds :: "master_slot \<Rightarrow> date list"
      by (induction ss) (auto simp: pair_key_def distinct_map inj_on_def)
    from this[OF slots, of "\<lambda>s. filter (\<lambda>day. (Some (sl_id s), day) \<notin> set (have_days db cycle_id a b)) (slot_days L db a b s)"]
    show ?thesis using days by simp
  qed
  have raw: "(d, s) \<in> set ?raw \<longleftrightarrow> s \<in> set (horizon_slots db cycle_id a b) \<and> d \<in> set (slot_days L db a b s) \<and>
      \<not> (\<exists>x \<in> set (daily_ledger_rows db). dl_master_slot_id x = Some (sl_id s) \<and> dl_target_date x = d)" for d s
  proof -
    have "(d, s) \<in> set ?raw \<longleftrightarrow> s \<in> set (horizon_slots db cycle_id a b) \<and> d \<in> set (slot_days L db a b s) \<and>
      (Some (sl_id s), d) \<notin> set (have_days db cycle_id a b)" by auto
    then show ?thesis using have_days_iff[OF assms(4), of s a b d] within[of s d] by blast
  qed
  have "mset (map pair_key (sort_key pair_key ?raw)) = mset (map pair_key ?raw)" by simp
  from mset_eq_imp_distinct_iff[OF this] dist have "distinct (map pair_key (sort_key pair_key ?raw))" by (rule iffD2)
  then show "sorted_wrt (<) (map pair_key (missing_days L db cycle_id a b))"
    unfolding miss strict_sorted_iff using sorted_sort_key by simp
  show "sorted_wrt (<) (map pair_key (filter ?P ?plan))"
    using sorted_plan_window[OF assms(3), of L cycle_id a b] by (simp add: sorted_wrt_map sorted_wrt_filter)
  show "set (missing_days L db cycle_id a b) = set (filter ?P ?plan)"
    unfolding miss set_sort set_filter set_plan_window[OF assms(1,2)] using raw by auto
qed

section \<open>The horizon job refines the specification\<close>

lemma horizon_state_eq:
  assumes "a \<le> d" and "d \<le> b" and "\<And>lead. sl_primary_lead_id s = Some lead \<Longrightarrow> lead \<in> leads"
  shows "horizon_state (leave_read db a b leads) s d = initial_state db s d"
proof -
  have "list_ex (\<lambda>(lead, x, y). Some lead = sl_primary_lead_id s \<and> x \<le> d \<and> d \<le> y) (leave_read db a b leads) \<longleftrightarrow>
    on_leave db (sl_primary_lead_id s) d"
  proof -
    have "on_leave db (sl_primary_lead_id s) d \<longleftrightarrow> (\<exists>lg \<in> set (reverse_rsvp_logs db).
        Some (lg_submitting_user_id lg) = sl_primary_lead_id s \<and> leave_covers lg d \<and>
        lg_approval_state lg = VERIFIED_APPROVED)"
      by (auto simp: on_leave_def find_None_iff)
    moreover have "list_ex (\<lambda>(lead, x, y). Some lead = sl_primary_lead_id s \<and> x \<le> d \<and> d \<le> y) (leave_read db a b leads) \<longleftrightarrow>
        (\<exists>lg \<in> set (reverse_rsvp_logs db). lg_submitting_user_id lg \<in> leads \<and> lg_target_absence_date lg \<le> b \<and>
           (case lg_end_date lg of None \<Rightarrow> lg_target_absence_date lg | Some e \<Rightarrow> e) \<ge> a \<and>
           lg_approval_state lg = VERIFIED_APPROVED \<and>
           Some (lg_submitting_user_id lg) = sl_primary_lead_id s \<and> leave_covers lg d)"
      by (auto simp: leave_read_def list_ex_iff leave_covers_def)
    moreover have "lg_target_absence_date lg \<le> b" "(case lg_end_date lg of None \<Rightarrow> lg_target_absence_date lg | Some e \<Rightarrow> e) \<ge> a"
      if "leave_covers lg d" for lg using that assms(1,2) by (auto simp: leave_covers_def)
    moreover have "lg_submitting_user_id lg \<in> leads" if "Some (lg_submitting_user_id lg) = sl_primary_lead_id s" for lg
      using assms(3) that[symmetric] by blast
    ultimately show ?thesis by blast
  qed
  then show ?thesis by (simp add: horizon_state_def initial_state_def)
qed

definition planned_window :: "app_env \<Rightarrow> database \<Rightarrow> int option \<Rightarrow> daily_ledger list" where
  "planned_window env db cycle_id = (case horizon_window env of (first, final) \<Rightarrow>
     map (\<lambda>(d, s). day_fields s d (initial_state db s d))
       (concat (map (plan_pairs (env_rrule env) db cycle_id) [first..final])))"

lemma plan_pairs_in:
  "(d, s) \<in> set (concat (map (plan_pairs L db c) [a..b])) \<Longrightarrow>
   a \<le> d \<and> d \<le> b \<and> s \<in> set (structural_master_slots db) \<and> slot_counts db s \<and>
   occurs_on L (sl_rrule s) (sl_dtstart s) d \<and> within_cycle (slot_cycle db s) d"
  by (auto simp: plan_pairs_def candidates_def within_cycle_def split: option.splits)

lemma planned_window_ok:
  assumes "tables_ok (env_rrule env) db" and "f \<in> set (planned_window env db c)"
  shows "day_ok f \<and> dl_master_slot_id f \<noteq> None"
proof -
  obtain d s where "f = day_fields s d (initial_state db s d)" "s \<in> set (structural_master_slots db)"
    using assms(2) plan_pairs_in by (fastforce simp: planned_window_def split: prod.splits simp del: set_concat)
  with assms(1) show ?thesis by (auto simp: tables_ok_def intro: day_fields_ok)
qed

lemma keep_rows_plain: "\<forall>f \<in> set fs. \<not> claims_a_window f \<Longrightarrow> keep_rows db held fs = (fs, [])"
  by (induction fs) auto

lemma without_overlaps_lays:
  assumes "\<forall>d \<in> set (daily_ledger_rows db). day_ok d" and "\<forall>f \<in> set fs. day_ok f \<and> has_window f \<and>
      a \<le> dl_target_date f \<and> dl_target_date f \<le> b"
    and "\<forall>f \<in> set fs. \<forall>x \<in> set (daily_ledger_rows db). \<not> same_slot_date x f"
    and "sorted_wrt (\<lambda>x y. \<not> same_slot_date x y) fs"
  shows "lay (daily_ledger_rows db) fs =
    append_days (daily_ledger_rows db) (fst (without_overlaps db fs a b))"
proof -
  let ?rows = "daily_ledger_rows db" and ?rooms = "set (map dl_resource_id (filter claims_a_window fs))"
  let ?held = "map held_day (filter (\<lambda>d. dl_resource_id d \<in> ?rooms \<and> dl_target_date d \<ge> a - 1 \<and>
      dl_target_date d \<le> b + 1 \<and> has_window d) ?rows)"
  have "held_agree ?held ?rows f" if f: "f \<in> set fs" for f
    unfolding held_agree_def
  proof (intro impI iffI)
    assume c: "claims_a_window f"
      and "\<exists>(room, sp, t) \<in> set ?held. room = dl_resource_id f \<and> meets sp (day_span f)"
    then obtain x where "x \<in> set ?rows" "has_window x" "dl_resource_id x = dl_resource_id f"
      "meets (day_span x) (day_span f)" by (auto simp: held_day_def day_span_def)
    with c have "\<not> days_clear x f" by (auto simp: days_clear_def claims_a_window_def has_window_def)
    with \<open>x \<in> set ?rows\<close> show "\<exists>x \<in> set ?rows. \<not> days_clear x f" by blast
  next
    assume c: "claims_a_window f" and "\<exists>x \<in> set ?rows. \<not> days_clear x f"
    then obtain x where x: "x \<in> set ?rows" "claims_a_window x" "dl_resource_id x = dl_resource_id f"
      "meets (day_span x) (day_span f)" by (auto simp: days_clear_def)
    have v: "valid_window (dl_start x) (dl_end x)" "valid_window (dl_start f) (dl_end f)"
      using assms(1,2) x f claims_has_window[of x] by (auto simp: day_ok_def)
    have "dl_target_date f - 1 \<le> dl_target_date x" "dl_target_date x \<le> dl_target_date f + 1"
      using window_window_dates[OF v x(4)[unfolded day_span_def]] by auto
    then have "held_day x \<in> set ?held" using x f c assms(2) claims_has_window[of x] by fastforce
    then show "\<exists>(room, sp, t) \<in> set ?held. room = dl_resource_id f \<and> meets sp (day_span f)"
      using x by (intro bexI[of _ "held_day x"]) (auto simp: held_day_def day_span_def)
  qed
  then have "lay ?rows fs = append_days ?rows (fst (keep_rows db ?held fs))"
    using assms(3,4) by (intro keep_rows_lays) auto
  moreover have "fst (without_overlaps db fs a b) = fst (keep_rows db ?held fs)"
    by (auto simp: without_overlaps_def Let_def keep_rows_plain filter_empty_conv)
  ultimately show ?thesis by simp
qed

lemma materialize_lays:
  assumes "tables_ok (env_rrule env) db" and "rrule_lib_ok (env_rrule env)"
    and "distinct (map sl_id (structural_master_slots db))" and "cycle_id = None \<or> days_follow_slots db"
    and "ledger_ok (daily_ledger_rows db)"
  shows "fst (snd (materialize_horizon env race (\<lambda>d. d) cycle_id db)) =
    db\<lparr>daily_ledger_rows := lay (daily_ledger_rows db) (planned_window env db cycle_id)\<rparr>"
proof -
  let ?L = "env_rrule env" and ?rows = "daily_ledger_rows db"
  obtain a b where ab: "horizon_window env = (a, b)" by fastforce
  let ?plan = "concat (map (plan_pairs ?L db cycle_id) [a..b])"
  let ?P = "\<lambda>(d, s). \<not> (\<exists>x \<in> set ?rows. dl_master_slot_id x = Some (sl_id s) \<and> dl_target_date x = d)"
  let ?missing = "missing_days ?L db cycle_id a b"
  let ?leads = "set (List.map_filter (\<lambda>(_, slot). sl_primary_lead_id slot) ?missing)"
  let ?F = "\<lambda>(d, s). day_fields s d (initial_state db s d)"
  let ?fs = "map ?F ?missing"
  have miss: "?missing = filter ?P ?plan" by (rule missing_days_filter[OF assms(1-4)])
  have m: "a \<le> d \<and> d \<le> b \<and> s \<in> set (structural_master_slots db)" if "(d, s) \<in> set ?missing" for d s
    using that plan_pairs_in[of d s ?L db cycle_id a b] unfolding miss by simp
  have rows: "map (\<lambda>(day, slot). day_fields slot day (horizon_state (leave_read db a b ?leads) slot day)) ?missing = ?fs"
  proof (rule map_cong[OF refl])
    fix x assume x: "x \<in> set ?missing"
    obtain d s where ds: "x = (d, s)" by (cases x)
    have "lead \<in> ?leads" if "sl_primary_lead_id s = Some lead" for lead
      using x ds that by (force simp: List.map_filter_def)
    then show "(\<lambda>(day, slot). day_fields slot day (horizon_state (leave_read db a b ?leads) slot day)) x = ?F x"
      using horizon_state_eq[of a d b s ?leads db] m x ds by auto
  qed
  have fs_ok: "\<forall>f \<in> set ?fs. day_ok f \<and> has_window f \<and> a \<le> dl_target_date f \<and> dl_target_date f \<le> b"
    using m assms(1) by (auto simp: tables_ok_def intro: day_fields_ok)
  have sorted: "sorted_wrt (\<lambda>x y. \<not> same_slot_date x y) ?fs"
  proof -
    have "sorted_wrt (\<lambda>x y. pair_key x < pair_key y) ?missing"
      using sorted_plan_window[OF assms(3), of ?L cycle_id a b] unfolding miss
      by (simp add: sorted_wrt_map sorted_wrt_filter)
    then show ?thesis unfolding sorted_wrt_map
      by (rule sorted_wrt_mono_rel[rotated]) (auto simp: pair_key_less same_slot_date_def)
  qed
  have slots: "\<forall>f \<in> set ?fs. \<forall>x \<in> set ?rows. \<not> same_slot_date x f"
    unfolding miss by (auto simp: same_slot_date_def)
  have rows_ok: "\<forall>d \<in> set ?rows. day_ok d" using assms(1) by (simp add: tables_ok_def)
  let ?kept = "fst (without_overlaps db ?fs a b)"
  have lay: "lay ?rows ?fs = append_days ?rows ?kept"
    by (rule without_overlaps_lays[OF rows_ok fs_ok slots sorted])
  have "whole ?rows (concat (batches LEDGER_BATCH_SIZE ?kept))"
    using lay_append_whole lay_keeps_ok[OF assms(5), of ?fs] fs_ok lay
    by (simp add: concat_batches LEDGER_BATCH_SIZE_def)
  note wrote = write_batches_ok[OF this, of env race "[]"]
  have "fst (snd (materialize_horizon env race (\<lambda>d. d) cycle_id db)) = db\<lparr>daily_ledger_rows := lay ?rows ?fs\<rparr>"
  proof (cases "?missing = []")
    case True
    then show ?thesis by (simp add: materialize_horizon_def ab)
  next
    case False
    then show ?thesis
      using wrote unfolding lay materialize_horizon_def ab Let_def prod.case rows
      by (simp add: split_beta concat_batches LEDGER_BATCH_SIZE_def)
  qed
  moreover have "lay ?rows ?fs = lay ?rows (planned_window env db cycle_id)"
  proof -
    let ?Q = "\<lambda>f. \<not> (\<exists>x \<in> set ?rows. dl_master_slot_id x = dl_master_slot_id f \<and> dl_target_date x = dl_target_date f)"
    have "?fs = filter ?Q (planned_window env db cycle_id)"
      unfolding miss planned_window_def ab by (auto simp: filter_map o_def split_beta intro!: arg_cong2[where f=map] filter_cong)
    moreover have "\<forall>f \<in> set (planned_window env db cycle_id). \<not> ?Q f \<longrightarrow> (\<exists>x \<in> set ?rows. bars x f)"
      using planned_window_ok[OF assms(1)] by (fastforce simp: bars_def same_slot_date_def)
    ultimately show ?thesis using lay_skip[of "planned_window env db cycle_id" ?Q ?rows] by simp
  qed
  ultimately show ?thesis by simp
qed

section \<open>What every refinement has\<close>

locale ledger_writer =
  fixes ready :: "database \<Rightarrow> bool" and job :: "database \<Rightarrow> database" and plan :: "database \<Rightarrow> daily_ledger list"
  assumes refines: "ready db \<Longrightarrow> job db = db\<lparr>daily_ledger_rows := lay (daily_ledger_rows db) (plan db)\<rparr>"
    and plan_frame: "plan (db\<lparr>daily_ledger_rows := x\<rparr>) = plan db"
    and plan_ok: "ready db \<Longrightarrow> f \<in> set (plan db) \<Longrightarrow> day_ok f \<and> dl_master_slot_id f \<noteq> None"
    and ready_ok: "ready db \<Longrightarrow> ledger_ok (daily_ledger_rows db)"
    and ready_keeps: "ready db \<Longrightarrow> ready (db\<lparr>daily_ledger_rows := lay (daily_ledger_rows db) (plan db)\<rparr>)"
begin

lemma keeps_ready: "ready db \<Longrightarrow> ready (job db)"
  by (simp add: refines ready_keeps)

lemma keeps_ok: "ready db \<Longrightarrow> ledger_ok (daily_ledger_rows (job db))"
  by (simp add: keeps_ready ready_ok)

lemma only_adds:
  assumes "ready db"
  shows "\<exists>new. daily_ledger_rows (job db) = daily_ledger_rows db @ new \<and>
    (\<forall>r \<in> set new. \<exists>f \<in> set (plan db). \<exists>rs. r = numbered rs f)"
  using lay_extends by (simp add: refines[OF assms])

lemma again: "ready db \<Longrightarrow> job (job db) = job db"
proof -
  assume r: "ready db"
  let ?db = "db\<lparr>daily_ledger_rows := lay (daily_ledger_rows db) (plan db)\<rparr>"
  have "job ?db = ?db\<lparr>daily_ledger_rows := lay (daily_ledger_rows ?db) (plan ?db)\<rparr>"
    by (rule refines[OF ready_keeps[OF r]])
  also have "\<dots> = ?db" using plan_ok[OF r] by (simp add: plan_frame lay_again)
  finally show ?thesis by (simp add: refines[OF r])
qed

lemma complete: "ready db \<Longrightarrow> f \<in> set (plan db) \<Longrightarrow> \<exists>x \<in> set (daily_ledger_rows (job db)). bars x f"
  using lay_complete[of f "plan db"] plan_ok by (simp add: refines)

end

definition horizon_ready :: "app_env \<Rightarrow> int option \<Rightarrow> database \<Rightarrow> bool" where
  "horizon_ready env cycle_id db \<longleftrightarrow> tables_ok (env_rrule env) db \<and> rrule_lib_ok (env_rrule env) \<and>
     distinct (map sl_id (structural_master_slots db)) \<and> (cycle_id = None \<or> days_follow_slots db) \<and>
     ledger_ok (daily_ledger_rows db)"

definition date_ready :: "app_env \<Rightarrow> database \<Rightarrow> bool" where
  "date_ready env db \<longleftrightarrow> env_backend env = PostgreSQL \<and> tables_ok (env_rrule env) db \<and>
     ledger_ok (daily_ledger_rows db)"

lemma in_cycle_frame [simp]: "in_cycle (db\<lparr>daily_ledger_rows := x\<rparr>) = in_cycle db"
  by (auto simp: in_cycle_def fun_eq_iff split: option.split)

lemma plan_pairs_frame [simp]: "plan_pairs L (db\<lparr>daily_ledger_rows := x\<rparr>) = plan_pairs L db"
  by (simp add: plan_pairs_def fun_eq_iff)

lemma planned_window_frame [simp]: "planned_window env (db\<lparr>daily_ledger_rows := x\<rparr>) = planned_window env db"
  by (simp add: planned_window_def fun_eq_iff)

lemma planned_window_from:
  assumes "f \<in> set (planned_window env db c)"
  obtains d s where "f = day_fields s d (initial_state db s d)" and "s \<in> set (structural_master_slots db)"
    and "slot_counts db s" and "occurs_on (env_rrule env) (sl_rrule s) (sl_dtstart s) d"
    and "within_cycle (slot_cycle db s) d"
    and "fst (horizon_window env) \<le> d" and "d \<le> snd (horizon_window env)"
proof -
  obtain a b where ab: "horizon_window env = (a, b)" by fastforce
  obtain x where x: "x \<in> set (concat (map (plan_pairs (env_rrule env) db c) [a..b]))"
    "f = (\<lambda>(d, s). day_fields s d (initial_state db s d)) x"
    using assms unfolding planned_window_def ab prod.case set_map by blast
  obtain d s where "x = (d, s)" by (cases x)
  with plan_pairs_in[of d s "env_rrule env" db c a b] x that[of s d] ab show ?thesis by simp
qed

lemma tables_ok_rows:
  "tables_ok L db \<Longrightarrow> ledger_ok rows \<Longrightarrow> tables_ok L (db\<lparr>daily_ledger_rows := rows\<rparr>)"
  by (simp add: tables_ok_def ledger_ok_def)

lemma lay_follows_slots:
  assumes "days_follow_slots db" and "distinct (map sl_id (structural_master_slots db))"
  shows "days_follow_slots (db\<lparr>daily_ledger_rows := lay (daily_ledger_rows db) (planned_window env db c)\<rparr>)"
proof -
  have "dl_activity_id r = sl_activity_id s'"
    if r: "r = numbered rs f" "f \<in> set (planned_window env db c)"
      and s': "s' \<in> set (structural_master_slots db)" "dl_master_slot_id r = Some (sl_id s')" for r rs f s'
  proof -
    obtain d s where f: "f = day_fields s d (initial_state db s d)" "s \<in> set (structural_master_slots db)"
      by (rule planned_window_from[OF r(2)])
    then have "s = s'" using assms(2) s' r(1) by (auto simp: distinct_map inj_on_def)
    then show ?thesis by (simp add: r(1) f(1) numbered_def)
  qed
  note fresh = this
  obtain new where new: "lay (daily_ledger_rows db) (planned_window env db c) = daily_ledger_rows db @ new"
    "\<forall>r \<in> set new. \<exists>f \<in> set (planned_window env db c). \<exists>rs. r = numbered rs f"
    using lay_extends by blast
  show ?thesis
    using assms(1) new(2) fresh unfolding days_follow_slots_def new(1) by fastforce
qed

interpretation horizon: ledger_writer "horizon_ready env cycle_id"
  "\<lambda>db. fst (snd (materialize_horizon env race (\<lambda>d. d) cycle_id db))" "\<lambda>db. planned_window env db cycle_id"
proof (unfold_locales, goal_cases)
  case (1 db)
  then show ?case by (intro materialize_lays) (auto simp: horizon_ready_def)
next
  case (3 db f)
  then show ?case by (intro planned_window_ok) (auto simp: horizon_ready_def)
next
  case (5 db)
  let ?rows = "lay (daily_ledger_rows db) (planned_window env db cycle_id)"
  have "\<forall>f \<in> set (planned_window env db cycle_id). day_ok f"
    using 5 planned_window_ok by (auto simp: horizon_ready_def)
  then have "ledger_ok ?rows" using 5 by (intro lay_keeps_ok) (auto simp: horizon_ready_def)
  with 5 show ?case by (auto simp: horizon_ready_def tables_ok_rows lay_follows_slots)
qed (simp_all add: horizon_ready_def)

interpretation date: ledger_writer "date_ready env"
  "\<lambda>db. fst (snd (generate_daily_ledger_entries env (\<lambda>_ d. d) day db))" "\<lambda>db. planned env db day"
proof (unfold_locales, goal_cases)
  case (1 db)
  then show ?case by (intro generate_lays) (auto simp: date_ready_def)
next
  case (3 db f)
  then show ?case by (intro planned_ok) (auto simp: date_ready_def)
next
  case (5 db)
  let ?rows = "lay (daily_ledger_rows db) (planned env db day)"
  have "\<forall>f \<in> set (planned env db day). day_ok f" using 5 planned_ok by (auto simp: date_ready_def)
  then have "ledger_ok ?rows" using 5 by (intro lay_keeps_ok) (auto simp: date_ready_def)
  with 5 show ?case by (auto simp: date_ready_def tables_ok_rows)
qed (simp_all add: date_ready_def)

section \<open>The two jobs agree\<close>

lemma planned_window_dates:
  "horizon_window env = (a, b) \<Longrightarrow> planned_window env db None = concat (map (planned env db) [a..b])"
  by (simp add: planned_window_def planned_def[abs_def] plan_pairs_def[abs_def] in_cycle_def map_concat o_def)

lemma generate_dates:
  assumes "date_ready env db"
  shows "fold (\<lambda>d db'. fst (snd (generate_daily_ledger_entries env (\<lambda>_ x. x) d db'))) ds db =
    db\<lparr>daily_ledger_rows := lay (daily_ledger_rows db) (concat (map (planned env db) ds))\<rparr>"
  using assms
proof (induction ds arbitrary: db)
  case (Cons d ds)
  let ?db = "db\<lparr>daily_ledger_rows := lay (daily_ledger_rows db) (planned env db d)\<rparr>"
  have "fst (snd (generate_daily_ledger_entries env (\<lambda>_ x. x) d db)) = ?db"
    by (rule date.refines[OF Cons.prems])
  with Cons.IH[OF date.ready_keeps[OF Cons.prems, of d]] show ?case by (simp add: lay_append)
qed simp

section \<open>Writers at the same time\<close>

lemma insert_day_race:
  assumes "env_backend env = PostgreSQL" and "ledger_ok (daily_ledger_rows db)" and "day_ok f"
    and "\<And>g d. ledger_ok (daily_ledger_rows d) \<Longrightarrow> ledger_ok (daily_ledger_rows (race g d))"
  shows "ledger_ok (daily_ledger_rows (fst (snd (insert_day env race db f))))"
proof -
  let ?d = "race f db"
  have ok: "ledger_ok (daily_ledger_rows ?d)" by (rule assms(4)[OF assms(2)])
  then have rows: "\<forall>x \<in> set (daily_ledger_rows ?d). day_ok x" by (simp add: ledger_ok_def)
  show ?thesis
  proof (cases "\<exists>x \<in> set (daily_ledger_rows ?d). bars x f")
    case True
    then obtain e where "insert_ledger_day PostgreSQL ?d f = Inl e"
      using insert_ledger_day_barred[OF rows assms(3)] by blast
    then show ?thesis using ok assms(1,2) by (auto simp: insert_day_def Let_def)
  next
    case False
    with ok assms(1-3) show ?thesis
      by (auto simp: insert_day_def Let_def insert_ledger_day_free[OF rows assms(3) False] ledger_ok_def
          sorted_wrt_append)
  qed
qed

lemma generate_race:
  assumes "env_backend env = PostgreSQL" and "tables_ok L db" and "ledger_ok (daily_ledger_rows db)"
    and "\<And>g d. ledger_ok (daily_ledger_rows d) \<Longrightarrow> ledger_ok (daily_ledger_rows (race g d))"
  shows "ledger_ok (daily_ledger_rows (fst (snd (generate_daily_ledger_entries env race day db))))"
proof -
  have step: "ledger_ok (daily_ledger_rows (fst (snd (fold (generate_step env race day) slots st))))"
    if "\<forall>s \<in> set slots. slot_ok L s" "ledger_ok (daily_ledger_rows (fst (snd st)))" for slots st
    using that
  proof (induction slots arbitrary: st)
    case (Cons s slots)
    obtain w d l where st: "st = (w, d, l)" by (cases st)
    have "ledger_ok (daily_ledger_rows (fst (snd (generate_step env race day s st))))"
      using Cons.prems insert_day_race[OF assms(1) _ day_fields_ok assms(4)] st
      by (auto simp: generate_step_def Let_def split_beta)
    with Cons show ?case by simp
  qed simp
  have "\<forall>s \<in> set (candidates db day day). slot_ok L s"
    using assms(2) by (auto simp: tables_ok_def dest: candidates_subset)
  with step[of _ "([], db, [])"] assms(3) show ?thesis
    by (simp add: generate_daily_ledger_entries_def Let_def split_beta)
qed

lemma insert_ledger_day_keeps:
  assumes "ledger_ok (daily_ledger_rows db)" and "day_ok f" and "insert_ledger_day PostgreSQL db f = Inr db'"
  shows "ledger_ok (daily_ledger_rows db')"
proof -
  have rows: "\<forall>x \<in> set (daily_ledger_rows db). day_ok x" using assms(1) by (simp add: ledger_ok_def)
  have free: "\<not> (\<exists>x \<in> set (daily_ledger_rows db). bars x f)"
    using insert_ledger_day_barred[OF rows assms(2)] assms(3) by force
  with insert_ledger_day_free[OF rows assms(2) free, of PostgreSQL] assms show ?thesis
    by (auto simp: ledger_ok_def sorted_wrt_append)
qed

lemma insert_batch_keeps:
  "ledger_ok (daily_ledger_rows db) \<Longrightarrow> \<forall>f \<in> set batch. day_ok f \<Longrightarrow>
   insert_batch PostgreSQL db batch = Inr db' \<Longrightarrow> ledger_ok (daily_ledger_rows db')"
proof (induction batch arbitrary: db)
  case (Cons f batch)
  then obtain d where "insert_ledger_day PostgreSQL db f = Inr d" "insert_batch PostgreSQL d batch = Inr db'"
    by (auto simp: insert_batch_def bind_result_def split: sum.splits)
  with Cons insert_ledger_day_keeps[of db f d] show ?case by simp
qed (simp add: insert_batch_def)

lemma row_by_row_race:
  assumes "env_backend env = PostgreSQL" and "ledger_ok (daily_ledger_rows (fst (snd st)))"
    and "\<forall>f \<in> set batch. day_ok f"
    and "\<And>g d. ledger_ok (daily_ledger_rows d) \<Longrightarrow> ledger_ok (daily_ledger_rows (race g d))"
  shows "ledger_ok (daily_ledger_rows (fst (snd (row_by_row env race batch st))))"
  using assms(2,3)
proof (induction batch arbitrary: st)
  case (Cons f batch)
  let ?step = "\<lambda>f (written, db, logs). case insert_day env race db f of (done, db', extra) \<Rightarrow>
       (if done then written @ [f] else written, db', logs @ extra)"
  have "ledger_ok (daily_ledger_rows (fst (snd (?step f st))))"
    using Cons.prems insert_day_race[OF assms(1) _ _ assms(4)] by (simp add: split_beta)
  from Cons.IH[OF this] Cons.prems(2) show ?case by (simp add: row_by_row_def)
qed (simp add: row_by_row_def)

lemma write_batches_race:
  assumes "env_backend env = PostgreSQL" and "ledger_ok (daily_ledger_rows (fst (snd st)))"
    and "\<forall>b \<in> set bs. \<forall>f \<in> set b. day_ok f"
    and "\<And>g d. ledger_ok (daily_ledger_rows d) \<Longrightarrow> ledger_ok (daily_ledger_rows (race g d))"
    and "\<And>d. ledger_ok (daily_ledger_rows d) \<Longrightarrow> ledger_ok (daily_ledger_rows (between d))"
  shows "ledger_ok (daily_ledger_rows (fst (snd (fold (write_batch env race between) bs st))))"
  using assms(2,3)
proof (induction bs arbitrary: st)
  case (Cons b bs)
  obtain w d l where st: "st = (w, d, l)" by (cases st)
  have ok: "ledger_ok (daily_ledger_rows (between d))" using Cons.prems st assms(5) by simp
  have "ledger_ok (daily_ledger_rows (fst (snd (write_batch env race between b st))))"
  proof (cases "insert_batch PostgreSQL (between d) b")
    case (Inl e)
    with ok Cons.prems(2) row_by_row_race[OF assms(1) _ _ assms(4), of "(w, between d, l)" b] show ?thesis
      by (simp add: write_batch_def st assms(1))
  next
    case (Inr d')
    with ok Cons.prems(2) insert_batch_keeps[OF ok _ Inr] show ?thesis
      by (simp add: write_batch_def st assms(1))
  qed
  with Cons show ?case by simp
qed simp

lemma missing_days_slots: "(d, s) \<in> set (missing_days L db c a b) \<Longrightarrow> s \<in> set (structural_master_slots db)"
  by (auto simp: missing_days_def horizon_slots_def dest: candidates_subset)

lemma materialize_race:
  assumes "env_backend env = PostgreSQL" and "tables_ok L db" and "ledger_ok (daily_ledger_rows db)"
    and "\<And>g d. ledger_ok (daily_ledger_rows d) \<Longrightarrow> ledger_ok (daily_ledger_rows (race g d))"
    and "\<And>d. ledger_ok (daily_ledger_rows d) \<Longrightarrow> ledger_ok (daily_ledger_rows (between d))"
  shows "ledger_ok (daily_ledger_rows (fst (snd (materialize_horizon env race between c db))))"
proof -
  obtain a b where ab: "horizon_window env = (a, b)" by fastforce
  let ?missing = "missing_days (env_rrule env) db c a b"
  define fs where "fs = map (\<lambda>(day, slot). day_fields slot day (horizon_state (leave_read db a b
      (set (List.map_filter (\<lambda>(_, slot). sl_primary_lead_id slot) ?missing))) slot day)) ?missing"
  have "\<forall>f \<in> set fs. day_ok f"
    using assms(2) by (auto simp: fs_def tables_ok_def intro: day_fields_ok dest!: missing_days_slots)
  moreover have "set (fst (without_overlaps db fs a b)) \<subseteq> set fs"
    using keep_rows_subset by (auto simp: without_overlaps_def Let_def)
  moreover have "set (concat (batches LEDGER_BATCH_SIZE ks)) = set ks" for ks :: "daily_ledger list"
    by (simp only: concat_batches LEDGER_BATCH_SIZE_def)
  ultimately have "\<forall>k \<in> set (batches LEDGER_BATCH_SIZE (fst (without_overlaps db fs a b))). \<forall>f \<in> set k. day_ok f"
    by (metis (no_types, lifting) UN_I set_concat subset_iff)
  from write_batches_race[OF assms(1) _ this assms(4,5), of "([], db, snd (without_overlaps db fs a b))"] assms(3)
  show ?thesis by (simp add: materialize_horizon_def ab Let_def split_beta fs_def[symmetric])
qed

section \<open>Examples\<close>

lemma ex_ledger_ok: "ledger_ok (daily_ledger_rows ex_db)"
  using ex_tables_ok by (simp add: ledger_ok_def tables_ok_def) (simp add: ex_defs)

lemma ex_horizon_ready: "horizon_ready ex_env None ex_db"
proof -
  have "distinct (map sl_id (structural_master_slots ex_db))" by (simp add: ex_defs)
  then show ?thesis using ex_tables_ok weekly_lib_ok ex_ledger_ok by (simp add: horizon_ready_def ex_env_def)
qed

definition ex_horizon :: database where
  "ex_horizon = fst (snd (materialize_horizon ex_env (\<lambda>_ d. d) (\<lambda>d. d) None ex_db))"

definition ex_intruder :: daily_ledger where
  "ex_intruder = ex_day\<lparr>dl_id := 9, dl_target_date := monday + 7, dl_master_slot_id := Some 5\<rparr>"

text \<open>Another writer, which puts a day on the room just before the job does.\<close>

definition ex_rival :: "database \<Rightarrow> database" where
  "ex_rival db = (case insert_ledger_day PostgreSQL db ex_intruder of Inr db' \<Rightarrow> db' | Inl _ \<Rightarrow> db)"

section \<open>Properties\<close>

text \<open>The slots the generator has to lay: in an open cycle whose dates cover the day, not retired, and
  the day is one of the rule's.\<close>

definition due :: "app_env \<Rightarrow> database \<Rightarrow> master_slot \<Rightarrow> date \<Rightarrow> bool" where
  "due env db s d \<longleftrightarrow> s \<in> set (structural_master_slots db) \<and> slot_counts db s \<and>
     within_cycle (slot_cycle db s) d \<and> occurs_on (env_rrule env) (sl_rrule s) (sl_dtstart s) d \<and>
     fst (horizon_window env) \<le> d \<and> d \<le> snd (horizon_window env)"

lemma due_planned:
  assumes "due env db s d"
  shows "day_fields s d (initial_state db s d) \<in> set (planned_window env db None)"
proof -
  obtain a b where ab: "horizon_window env = (a, b)" by fastforce
  obtain c where "slot_cycle db s = Some c" using assms slot_counts_cycle by (auto simp: due_def)
  then have "s \<in> set (candidates db d d)" using assms by (auto simp: due_def candidates_def within_cycle_def)
  then have "(d, s) \<in> set (concat (map (plan_pairs (env_rrule env) db None) [a..b]))"
    using assms by (auto simp: due_def ab plan_pairs_def in_cycle_def)
  then show ?thesis unfolding planned_window_def ab prod.case set_map by force
qed

lemma planned_window_due:
  assumes "f \<in> set (planned_window env db c)"
  shows "\<exists>d s. f = day_fields s d (initial_state db s d) \<and> due env db s d"
  by (rule planned_window_from[OF assms]) (unfold due_def, blast)

text \<open>C8: Filling the horizon writes the timetable and nothing else. Every slot that is due on a
  date ahead has its row for that date afterwards, unless a row of its room already meets its
  window; and every row added is the row of such a slot and date, with the slot's window, room
  and lead.\<close>

theorem materialize_exact:
  assumes "horizon_ready env None db"
    and "db' = fst (snd (materialize_horizon env race (\<lambda>d. d) None db))"
  shows "(\<forall>s d. due env db s d \<longrightarrow> (\<exists>x \<in> set (daily_ledger_rows db').
      dl_master_slot_id x = Some (sl_id s) \<and> dl_target_date x = d \<or>
      sl_resource_id s \<noteq> None \<and> dl_resource_id x = sl_resource_id s \<and>
        meets (day_span x) (window_span d (sl_time_window_start s) (sl_time_window_end s)))) \<and>
    (\<exists>new. db' = db\<lparr>daily_ledger_rows := daily_ledger_rows db @ new\<rparr> \<and>
      (\<forall>r \<in> set new. \<exists>s d. due env db s d \<and> dl_master_slot_id r = Some (sl_id s) \<and> dl_target_date r = d \<and>
        dl_resource_id r = sl_resource_id s \<and> dl_active_lead_id r = sl_primary_lead_id s \<and>
        day_span r = window_span d (sl_time_window_start s) (sl_time_window_end s)))"
proof (intro conjI allI impI)
  fix s d assume "due env db s d"
  from horizon.complete[OF assms(1) due_planned[OF this], of race]
  obtain x where "x \<in> set (daily_ledger_rows db')" "bars x (day_fields s d (initial_state db s d))"
    unfolding assms(2) by blast
  then show "\<exists>x \<in> set (daily_ledger_rows db'). dl_master_slot_id x = Some (sl_id s) \<and> dl_target_date x = d \<or>
      sl_resource_id s \<noteq> None \<and> dl_resource_id x = sl_resource_id s \<and>
        meets (day_span x) (window_span d (sl_time_window_start s) (sl_time_window_end s))"
    by (intro bexI[of _ x]) (auto simp: bars_def same_slot_date_def days_clear_def day_span_def)
next
  obtain new where new: "daily_ledger_rows db' = daily_ledger_rows db @ new"
    "\<forall>r \<in> set new. \<exists>f \<in> set (planned_window env db None). \<exists>rs. r = numbered rs f"
    using horizon.only_adds[OF assms(1), of race] unfolding assms(2) by blast
  have "db' = db\<lparr>daily_ledger_rows := daily_ledger_rows db @ new\<rparr>"
    using horizon.refines[OF assms(1), of race] new(1) unfolding assms(2) by simp
  moreover have "\<exists>s d. due env db s d \<and> dl_master_slot_id r = Some (sl_id s) \<and> dl_target_date r = d \<and>
      dl_resource_id r = sl_resource_id s \<and> dl_active_lead_id r = sl_primary_lead_id s \<and>
      day_span r = window_span d (sl_time_window_start s) (sl_time_window_end s)" if r: "r \<in> set new" for r
  proof -
    obtain f rs where f: "f \<in> set (planned_window env db None)" "r = numbered rs f" using new(2) r by blast
    obtain d s where s: "f = day_fields s d (initial_state db s d)" "due env db s d"
      using planned_window_due[OF f(1)] by blast
    have "dl_active_lead_id f = sl_primary_lead_id s" by (simp add: s(1) day_fields_def)
    moreover have "dl_active_lead_id r = dl_active_lead_id f" by (simp add: f(2) numbered_def)
    ultimately show ?thesis using s(2) by (intro exI[of _ s] exI[of _ d]) (simp add: f(2) s(1) day_span_def)
  qed
  ultimately show "\<exists>new. db' = db\<lparr>daily_ledger_rows := daily_ledger_rows db @ new\<rparr> \<and>
      (\<forall>r \<in> set new. \<exists>s d. due env db s d \<and> dl_master_slot_id r = Some (sl_id s) \<and> dl_target_date r = d \<and>
        dl_resource_id r = sl_resource_id s \<and> dl_active_lead_id r = sl_primary_lead_id s \<and>
        day_span r = window_span d (sl_time_window_start s) (sl_time_window_end s))" by blast
qed

theorem materialize_exact_witness:
  "(\<exists>new. ex_horizon = ex_db\<lparr>daily_ledger_rows := daily_ledger_rows ex_db @ new\<rparr>) \<and>
   map dl_target_date (daily_ledger_rows ex_horizon) = [739677, 739684, 739691, 739698, 739705]"
proof
  show "\<exists>new. ex_horizon = ex_db\<lparr>daily_ledger_rows := daily_ledger_rows ex_db @ new\<rparr>"
    using materialize_exact[OF ex_horizon_ready ex_horizon_def] by blast
  show "map dl_target_date (daily_ledger_rows ex_horizon) = [739677, 739684, 739691, 739698, 739705]" by code_simp
qed

text \<open>C9: Filling the horizon in one pass and running the nightly job once for each of its dates
  leave the same database on PostgreSQL; and a second pass writes nothing.\<close>

theorem materialize_is_nightly_job:
  assumes "horizon_ready env None db" and "env_backend env = PostgreSQL" and "horizon_window env = (first, final)"
    and "db' = fst (snd (materialize_horizon env race (\<lambda>d. d) None db))"
  shows "db' = fold (\<lambda>d x. fst (snd (generate_daily_ledger_entries env (\<lambda>_ y. y) d x))) [first..final] db \<and>
    fst (snd (materialize_horizon env race (\<lambda>d. d) None db')) = db'"
proof -
  have "date_ready env db" using assms(1,2) by (auto simp: horizon_ready_def date_ready_def)
  note generate_dates[OF this, of "[first..final]"]
  with horizon.refines[OF assms(1), of race] horizon.again[OF assms(1), of race] show ?thesis
    unfolding assms(4) by (simp add: planned_window_dates[OF assms(3)])
qed

theorem materialize_is_nightly_job_witness:
  "ex_horizon = fold (\<lambda>d x. fst (snd (generate_daily_ledger_entries ex_env (\<lambda>_ y. y) d x)))
     [monday + 1..monday + 28] ex_db \<and>
   fst (snd (materialize_horizon ex_env (\<lambda>_ d. d) (\<lambda>d. d) None ex_horizon)) = ex_horizon \<and>
   length (daily_ledger_rows ex_horizon) = 5"
proof -
  have "env_backend ex_env = PostgreSQL" "horizon_window ex_env = (monday + 1, monday + 28)"
    by (simp_all add: ex_env_def horizon_window_def)
  note materialize_is_nightly_job[OF ex_horizon_ready this ex_horizon_def]
  moreover have "length (daily_ledger_rows ex_horizon) = 5" by code_simp
  ultimately show ?thesis by simp
qed

text \<open>C10: Whatever other writers commit between a check and its insert, as long as they keep the
  table's rules themselves, both jobs keep them on PostgreSQL: one row per slot and date, and
  no two rows of one room whose windows meet.\<close>

theorem jobs_keep_ledger_rules:
  assumes "env_backend env = PostgreSQL" and "tables_ok L db" and "ledger_ok (daily_ledger_rows db)"
    and "\<And>g d. ledger_ok (daily_ledger_rows d) \<Longrightarrow> ledger_ok (daily_ledger_rows (race g d))"
    and "\<And>d. ledger_ok (daily_ledger_rows d) \<Longrightarrow> ledger_ok (daily_ledger_rows (between d))"
  shows "ledger_ok (daily_ledger_rows (fst (snd (materialize_horizon env race between cycle_id db)))) \<and>
    ledger_ok (daily_ledger_rows (fst (snd (generate_daily_ledger_entries env race day db))))"
  using materialize_race[OF assms(1-3), of race between] generate_race[OF assms(1-3), of race] assms(4,5) by blast

theorem jobs_keep_ledger_rules_witness:
  "ledger_ok (daily_ledger_rows (fst (snd (materialize_horizon ex_env (\<lambda>_. ex_rival) ex_rival None ex_db)))) \<and>
   map dl_master_slot_id (daily_ledger_rows (fst (snd (materialize_horizon ex_env (\<lambda>_. ex_rival) ex_rival None ex_db)))) =
     [Some 1, Some 5, Some 1, Some 1, Some 1]"
proof
  have pg: "env_backend ex_env = PostgreSQL" by (simp add: ex_env_def)
  have "day_ok ex_intruder"
    by (simp add: ex_intruder_def ex_defs day_ok_def valid_window_def valid_time_def day_us_def dl_start_def dl_end_def)
  then have rival: "ledger_ok (daily_ledger_rows (ex_rival d))" if "ledger_ok (daily_ledger_rows d)" for d
    using that insert_ledger_day_keeps[of d ex_intruder] by (auto simp: ex_rival_def split: sum.split)
  show "ledger_ok (daily_ledger_rows (fst (snd (materialize_horizon ex_env (\<lambda>_. ex_rival) ex_rival None ex_db))))"
    using jobs_keep_ledger_rules[OF pg ex_tables_ok ex_ledger_ok, of "\<lambda>_. ex_rival" ex_rival] rival by blast
  show "map dl_master_slot_id (daily_ledger_rows (fst (snd (materialize_horizon ex_env (\<lambda>_. ex_rival) ex_rival None ex_db)))) =
     [Some 1, Some 5, Some 1, Some 1, Some 1]" by code_simp
qed

end
