(* ===== verification/Timetable_Rules.thy ===== *)
theory Timetable_Rules
  imports Schedule Ledger_Props
begin

text \<open>
  The rules a timetable keeps, read off the tables with no query and no range, and the two kinds
  of change that keep them: one that only takes away (closing, retiring, deleting, and laying
  days where their slot already had the room), proved once in \<open>only_less_rules\<close>, and one that puts
  slots into service after their checks (a new slot, an opened cycle), proved once in
  \<open>more_slots_apart\<close> and \<open>more_slots_clear\<close>.
\<close>

section \<open>The rules of the timetable\<close>

text \<open>Two slots that count never run on one room at once, on the dates ahead.\<close>

definition slots_apart :: "rrule_lib \<Rightarrow> date \<Rightarrow> database \<Rightarrow> bool" where
  "slots_apart L today db \<longleftrightarrow> (\<forall>rid. \<forall>s \<in> set (booked_slots db rid). \<forall>s' \<in> set (booked_slots db rid).
     sl_id s \<noteq> sl_id s' \<longrightarrow> (\<forall>d d'. today < d \<longrightarrow> today < d' \<longrightarrow> slot_runs L db s d \<longrightarrow> slot_runs L db s' d' \<longrightarrow>
       \<not> meets (window_span d (sl_time_window_start s) (sl_time_window_end s))
         (window_span d' (sl_time_window_start s') (sl_time_window_end s'))))"

text \<open>A booking still to come has its room to itself: no slot and no generated day is laid over it.\<close>

definition holds_clear :: "rrule_lib \<Rightarrow> date \<Rightarrow> database \<Rightarrow> bool" where
  "holds_clear L today db \<longleftrightarrow>
     (\<forall>r \<in> set (reservations db). today \<le> rv_reserved_date r \<longrightarrow> timetable_clear L db r)"

text \<open>The primary and foreign keys the tables declare.\<close>

definition keys_ok :: "database \<Rightarrow> bool" where
  "keys_ok db \<longleftrightarrow> distinct (map sl_id (structural_master_slots db)) \<and>
     distinct (map dl_id (daily_ledger_rows db)) \<and>
     ac_cycle_id ` set (activities db) \<subseteq> cy_id ` set (planning_cycles db) \<and>
     sl_activity_id ` set (structural_master_slots db) \<subseteq> ac_id ` set (activities db) \<and>
     dl_activity_id ` set (daily_ledger_rows db) \<subseteq> ac_id ` set (activities db) \<and>
     (\<forall>d \<in> set (daily_ledger_rows db). \<forall>i. dl_master_slot_id d = Some i \<longrightarrow>
        i \<in> sl_id ` set (structural_master_slots db))"

definition rows_ok :: "rrule_lib \<Rightarrow> database \<Rightarrow> bool" where
  "rows_ok L db \<longleftrightarrow> tables_ok L db \<and> keys_ok db \<and> ledger_ok (daily_ledger_rows db) \<and> days_follow_slots db"

definition timetable_rules :: "rrule_lib \<Rightarrow> date \<Rightarrow> database \<Rightarrow> bool" where
  "timetable_rules L today db \<longleftrightarrow> rows_ok L db \<and> slots_apart L today db \<and> holds_clear L today db"

text \<open>Time passing keeps them.\<close>

lemma timetable_rules_later: "timetable_rules L today db \<Longrightarrow> today \<le> later \<Longrightarrow> timetable_rules L later db"
  by (auto simp: timetable_rules_def slots_apart_def holds_clear_def)

section \<open>Changes that only take away\<close>

text \<open>
  The slots that count afterwards counted before and run as they did; the days that are left
  have a window their room was already taken for; and no day of a slot that still counts has gone.
\<close>

definition only_less :: "rrule_lib \<Rightarrow> database \<Rightarrow> database \<Rightarrow> bool" where
  "only_less L db db' \<longleftrightarrow> reservations db' = reservations db \<and>
     (\<forall>rid. \<forall>s \<in> set (booked_slots db' rid). s \<in> set (booked_slots db rid) \<and>
        (\<forall>d. slot_runs L db' s d \<longrightarrow> slot_runs L db s d) \<and>
        (\<forall>r \<in> days_on db rid. dl_master_slot_id r = Some (sl_id s) \<longrightarrow> r \<in> days_on db' rid)) \<and>
     (\<forall>rid. day_span ` days_on db' rid \<subseteq> timetable L db rid)"

lemma only_lessD:
  assumes "only_less L db db'"
  shows "reservations db' = reservations db"
    and "s \<in> set (booked_slots db' rid) \<Longrightarrow> s \<in> set (booked_slots db rid)"
    and "s \<in> set (booked_slots db' rid) \<Longrightarrow> slot_runs L db' s d \<Longrightarrow> slot_runs L db s d"
    and "s \<in> set (booked_slots db' rid) \<Longrightarrow> r \<in> days_on db rid \<Longrightarrow> dl_master_slot_id r = Some (sl_id s) \<Longrightarrow>
      r \<in> days_on db' rid"
    and "day_span ` days_on db' rid \<subseteq> timetable L db rid"
  using assms unfolding only_less_def by blast+

lemma only_less_timetable:
  assumes "only_less L db db'"
  shows "timetable L db' rid \<subseteq> timetable L db rid"
proof -
  note less = only_lessD[OF assms]
  have "slot_spans L db' rid \<subseteq> slot_spans L db rid"
  proof
    fix sp assume "sp \<in> slot_spans L db' rid"
    then obtain s d where s: "s \<in> set (booked_slots db' rid)" "slot_runs L db' s d"
      "sp = window_span d (sl_time_window_start s) (sl_time_window_end s)"
      and free: "(d, Some (sl_id s)) \<notin> (\<lambda>r. (dl_target_date r, dl_master_slot_id r)) ` days_on db' rid"
      unfolding slot_spans_def by blast
    have "(d, Some (sl_id s)) \<notin> (\<lambda>r. (dl_target_date r, dl_master_slot_id r)) ` days_on db rid"
      using free less(4)[OF s(1)] by (force simp: image_iff)
    with s less(2,3) show "sp \<in> slot_spans L db rid" unfolding slot_spans_def by blast
  qed
  with less(5)[of rid] show ?thesis unfolding timetable_def[of L db'] by (auto simp: timetable_def)
qed

lemma only_less_apart:
  assumes "only_less L db db'" and "slots_apart L today db"
  shows "slots_apart L today db'"
  using assms(2) only_lessD(2,3)[OF assms(1)] unfolding slots_apart_def by meson

lemma only_less_clear:
  assumes "only_less L db db'" and "holds_clear L today db"
  shows "holds_clear L today db'"
  unfolding holds_clear_def timetable_clear_def only_lessD(1)[OF assms(1)]
proof (intro ballI impI)
  fix r sp assume r: "r \<in> set (reservations db)" "today \<le> rv_reserved_date r"
    "rv_status r = HELD \<and> rv_mode r \<noteq> SHARED" "sp \<in> timetable L db' (rv_resource_id r)"
  then have "sp \<in> timetable L db (rv_resource_id r)" using only_less_timetable[OF assms(1)] by blast
  with r assms(2) show "\<not> meets sp (held_span r)" by (simp add: holds_clear_def timetable_clear_def)
qed

lemma only_less_rules:
  "timetable_rules L today db \<Longrightarrow> only_less L db db' \<Longrightarrow> rows_ok L db' \<Longrightarrow> timetable_rules L today db'"
  by (simp add: timetable_rules_def only_less_apart only_less_clear)

section \<open>Frames\<close>

lemma find_update_rows:
  "(\<And>x. P (f x) = P x) \<Longrightarrow> find P (update_rows Q f xs) = map_option (\<lambda>x. if Q x then f x else x) (find P xs)"
  by (induction xs) (auto simp: update_rows_def)

lemma delete_days_frame [simp]:
  "reservations (delete_days ids db) = reservations db"
  "structural_master_slots (delete_days ids db) = structural_master_slots db"
  "activities (delete_days ids db) = activities db"
  "planning_cycles (delete_days ids db) = planning_cycles db"
  "get_activity_row (delete_days ids db) = get_activity_row db"
  "get_cycle_row (delete_days ids db) = get_cycle_row db"
  "daily_ledger_rows (delete_days ids db) = filter (\<lambda>d. dl_id d \<notin> ids) (daily_ledger_rows db)"
  by (simp_all add: delete_days_def get_activity_row_def get_cycle_row_def fun_eq_iff)

text \<open>What counts and what runs is read off the slots, the activities and the cycles.\<close>

lemma counts_runs_cong:
  assumes "get_activity_row db' (sl_activity_id s) = get_activity_row db (sl_activity_id s)"
    and "\<And>a. get_activity_row db (sl_activity_id s) = Some a \<Longrightarrow>
      get_cycle_row db' (ac_cycle_id a) = get_cycle_row db (ac_cycle_id a)"
  shows "slot_counts db' s = slot_counts db s" and "slot_runs L db' s = slot_runs L db s"
  using assms
  by (auto simp: slot_counts_def slot_runs_def slot_cycle_def slot_activity_def fun_eq_iff
      split: option.splits bind_splits)

lemma days_on_filter:
  "days_on (db\<lparr>daily_ledger_rows := filter P (daily_ledger_rows db)\<rparr>) rid = {d \<in> days_on db rid. P d}"
  by (auto simp: days_on_def)

lemma days_on_rows: "daily_ledger_rows db' = filter P (daily_ledger_rows db) \<Longrightarrow>
  days_on db' rid = {d \<in> days_on db rid. P d}"
  by (auto simp: days_on_def)

text \<open>Days go, and nothing is left of the slots they belonged to: the shape of closing and of retiring.\<close>

lemma withdrawn_only_less:
  assumes "reservations db' = reservations db"
    and "daily_ledger_rows db' = filter (\<lambda>d. dl_id d \<notin> ids) (daily_ledger_rows db)"
    and "\<And>s. s \<in> set (structural_master_slots db') \<Longrightarrow> slot_counts db' s \<Longrightarrow>
      s \<in> set (structural_master_slots db) \<and> slot_counts db s \<and> slot_runs L db' s = slot_runs L db s"
    and "\<And>s d. s \<in> set (structural_master_slots db') \<Longrightarrow> slot_counts db' s \<Longrightarrow> d \<in> set (daily_ledger_rows db) \<Longrightarrow>
      dl_master_slot_id d = Some (sl_id s) \<Longrightarrow> dl_id d \<notin> ids"
  shows "only_less L db db'"
  unfolding only_less_def
proof (intro conjI allI ballI impI)
  fix rid s assume "s \<in> set (booked_slots db' rid)"
  then have s: "s \<in> set (structural_master_slots db')" "slot_counts db' s" "sl_resource_id s = Some rid"
    by (auto simp: booked_slots_def)
  show "s \<in> set (booked_slots db rid)" using assms(3)[OF s(1,2)] s(3) by (simp add: booked_slots_def)
  show "slot_runs L db s d" if "slot_runs L db' s d" for d using assms(3)[OF s(1,2)] that by simp
  fix r assume "r \<in> days_on db rid" "dl_master_slot_id r = Some (sl_id s)"
  with assms(4)[OF s(1,2), of r] show "r \<in> days_on db' rid"
    by (simp add: days_on_rows[OF assms(2)]) (simp add: days_on_def)
qed (auto simp: assms(1) days_on_rows[OF assms(2)] timetable_def)

text \<open>The columns of a slot no route but an edit changes.\<close>

definition slot_core :: "master_slot \<Rightarrow> int \<times> string \<times> time_of_day \<times> time_of_day \<times> int" where
  "slot_core s = (sl_id s, sl_rrule s, sl_time_window_start s, sl_time_window_end s, sl_activity_id s)"

lemma rows_ok_fewer_days:
  assumes "rows_ok L db" and "daily_ledger_rows db' = filter P (daily_ledger_rows db)"
    and "reservations db' = reservations db"
    and "map slot_core (structural_master_slots db') = map slot_core (structural_master_slots db)"
    and "map ac_id (activities db') = map ac_id (activities db)"
    and "map ac_cycle_id (activities db') = map ac_cycle_id (activities db)"
    and "map cy_id (planning_cycles db') = map cy_id (planning_cycles db)"
  shows "rows_ok L db'"
proof -
  have ids: "map sl_id (structural_master_slots db') = map sl_id (structural_master_slots db)"
    "map sl_activity_id (structural_master_slots db') = map sl_activity_id (structural_master_slots db)"
    using arg_cong[OF assms(4), of "map fst"] arg_cong[OF assms(4), of "map (snd \<circ> snd \<circ> snd \<circ> snd)"]
    by (simp_all add: slot_core_def o_def)
  have images: "sl_id ` set (structural_master_slots db') = sl_id ` set (structural_master_slots db)"
    "sl_activity_id ` set (structural_master_slots db') = sl_activity_id ` set (structural_master_slots db)"
    "ac_id ` set (activities db') = ac_id ` set (activities db)"
    "ac_cycle_id ` set (activities db') = ac_cycle_id ` set (activities db)"
    "cy_id ` set (planning_cycles db') = cy_id ` set (planning_cycles db)"
    using ids assms(5-7) by (metis set_map)+
  have core: "\<exists>s \<in> set (structural_master_slots db). slot_core s = slot_core s'"
    if "s' \<in> set (structural_master_slots db')" for s'
    using that arg_cong[OF assms(4), of set] by (auto simp: image_iff) (metis imageI image_iff)
  have "slot_ok L s'" if s': "s' \<in> set (structural_master_slots db')" for s'
  proof -
    obtain s where "s \<in> set (structural_master_slots db)" "slot_core s = slot_core s'" using core[OF s'] by blast
    with assms(1) show ?thesis by (auto simp: rows_ok_def tables_ok_def slot_ok_def slot_core_def)
  qed
  moreover have "days_follow_slots db'"
    unfolding days_follow_slots_def
  proof (intro ballI impI)
    fix d s' assume d: "d \<in> set (daily_ledger_rows db')" and s': "s' \<in> set (structural_master_slots db')"
      and id: "dl_master_slot_id d = Some (sl_id s')"
    obtain s where "s \<in> set (structural_master_slots db)" "slot_core s = slot_core s'" using core[OF s'] by blast
    with d id assms(1,2) show "dl_activity_id d = sl_activity_id s'"
      by (auto simp: rows_ok_def days_follow_slots_def slot_core_def)
  qed
  moreover have "ledger_ok (daily_ledger_rows db')"
    using assms(1,2) by (auto simp: rows_ok_def ledger_ok_def sorted_wrt_filter)
  moreover have "keys_ok db'"
    using assms(1,2) by (auto simp: rows_ok_def keys_ok_def images ids(1) distinct_map_filter)
  ultimately show ?thesis using assms(1,2,3) by (auto simp: rows_ok_def tables_ok_def)
qed

lemma counts_runs_same:
  assumes "get_activity_row db' (sl_activity_id s) = get_activity_row db (sl_activity_id s)"
    and "get_cycle_row db' = get_cycle_row db"
  shows "slot_counts db' s = slot_counts db s" and "slot_runs L db' s = slot_runs L db s"
  by (rule counts_runs_cong, rule assms(1), simp only: assms(2))+

section \<open>Laying the days ahead\<close>

lemma lay_ids:
  "distinct (map dl_id rows) \<Longrightarrow> distinct (map dl_id (lay rows fs))"
proof (induction fs arbitrary: rows)
  case (Cons f fs)
  then have "distinct (map dl_id (lay_step f rows))"
    using fresh_id_notin[of "map dl_id rows"] by (auto simp: lay_step_def numbered_def)
  with Cons show ?case by simp
qed simp

lemma horizon_ready_of_rules:
  "rows_ok (env_rrule env) db \<Longrightarrow> rrule_lib_ok (env_rrule env) \<Longrightarrow> horizon_ready env c db"
  by (simp add: horizon_ready_def rows_ok_def keys_ok_def)

lemma materialize_new:
  assumes "horizon_ready env c db" and "db' = fst (snd (materialize_horizon env race (\<lambda>d. d) c db))"
    and "r \<in> set (daily_ledger_rows db')" and "r \<notin> set (daily_ledger_rows db)"
  obtains s d where "due env db s d" and "dl_master_slot_id r = Some (sl_id s)" and "dl_target_date r = d"
    and "dl_resource_id r = sl_resource_id s" and "dl_activity_id r = sl_activity_id s"
    and "day_span r = window_span d (sl_time_window_start s) (sl_time_window_end s)"
    and "\<forall>x \<in> set (daily_ledger_rows db). \<not> same_slot_date x r"
proof -
  obtain new where new: "daily_ledger_rows db' = daily_ledger_rows db @ new"
    "\<forall>r \<in> set new. \<exists>f \<in> set (planned_window env db c). \<exists>rs. r = numbered rs f"
    using horizon.only_adds[OF assms(1), of race] unfolding assms(2) by blast
  then have rn: "r \<in> set new" using assms(3,4) by auto
  then obtain f rs where f: "f \<in> set (planned_window env db c)" "r = numbered rs f" using new(2) by blast
  obtain d s where s: "f = day_fields s d (initial_state db s d)" "due env db s d"
    using planned_window_due[OF f(1)] by blast
  have "ledger_ok (daily_ledger_rows db @ new)" using horizon.keeps_ok[OF assms(1), of race] new(1) unfolding assms(2) by simp
  then have "\<forall>x \<in> set (daily_ledger_rows db). \<not> same_slot_date x r"
    using rn by (auto simp: ledger_ok_def sorted_wrt_append bars_def)
  moreover have "dl_activity_id r = sl_activity_id s" by (simp add: f(2) s(1) numbered_def)
  ultimately show ?thesis using that[OF s(2)] by (simp add: f(2) s(1) day_span_def)
qed

lemma materialize_frame:
  assumes "horizon_ready env c db"
  shows "fst (snd (materialize_horizon env race (\<lambda>d. d) c db)) =
    db\<lparr>daily_ledger_rows := lay (daily_ledger_rows db) (planned_window env db c)\<rparr>"
  by (rule horizon.refines[OF assms])

lemma materialize_rules:
  assumes "timetable_rules (env_rrule env) today db" and "rrule_lib_ok (env_rrule env)"
  shows "timetable_rules (env_rrule env) today (fst (snd (materialize_horizon env race (\<lambda>d. d) c db)))"
    (is "timetable_rules ?L today ?db'")
proof (rule only_less_rules[OF assms(1)])
  have rows: "rows_ok ?L db" using assms(1) by (simp add: timetable_rules_def)
  note ready = horizon_ready_of_rules[OF rows assms(2), of c]
  note db' = materialize_frame[OF ready, of race]
  obtain new where new: "daily_ledger_rows ?db' = daily_ledger_rows db @ new"
    using horizon.only_adds[OF ready, of race] by blast
  have look: "get_activity_row ?db' = get_activity_row db" "get_cycle_row ?db' = get_cycle_row db"
    by (simp_all add: db' get_activity_row_def get_cycle_row_def fun_eq_iff)
  have same: "slot_counts ?db' s = slot_counts db s" "slot_runs ?L ?db' s = slot_runs ?L db s" for s
    by (rule counts_runs_same[OF fun_cong[OF look(1)] look(2)])+
  have booked: "booked_slots ?db' rid = booked_slots db rid" for rid
    by (simp add: booked_slots_def same(1)) (simp add: db')
  show "only_less ?L db ?db'"
    unfolding only_less_def booked same(2)
  proof (intro conjI allI ballI impI subsetI)
    fix rid sp assume "sp \<in> day_span ` days_on ?db' rid"
    then obtain r where r: "r \<in> set (daily_ledger_rows ?db')" "dl_resource_id r = Some rid" "has_window r" "sp = day_span r"
      by (auto simp: days_on_def)
    show "sp \<in> timetable ?L db rid"
    proof (cases "r \<in> set (daily_ledger_rows db)")
      case True
      then show ?thesis using r by (auto simp: timetable_def days_on_def)
    next
      case False
      from materialize_new[OF ready refl r(1) False] obtain s d where s: "due env db s d"
        "dl_master_slot_id r = Some (sl_id s)" "dl_target_date r = d" "dl_resource_id r = sl_resource_id s"
        "day_span r = window_span d (sl_time_window_start s) (sl_time_window_end s)"
        "\<forall>x \<in> set (daily_ledger_rows db). \<not> same_slot_date x r" by metis
      have "(d, Some (sl_id s)) \<notin> (\<lambda>r. (dl_target_date r, dl_master_slot_id r)) ` days_on db rid"
        using s(2,3,6) by (auto simp: days_on_def same_slot_date_def)
      moreover have "s \<in> set (booked_slots db rid)" "slot_runs ?L db s d"
        using s(1,4) r(2) by (auto simp: due_def booked_slots_def slot_runs_def)
      ultimately have "sp \<in> slot_spans ?L db rid" using s(5) r(4) unfolding slot_spans_def by blast
      then show ?thesis by (simp add: timetable_def)
    qed
  qed (use lay_mono in \<open>auto simp: days_on_def db'\<close>)
  show "rows_ok ?L ?db'"
  proof -
    have "horizon_ready env c ?db'" by (rule horizon.keeps_ready[OF ready])
    moreover have "keys_ok ?db'"
    proof -
      have k: "keys_ok db" using rows by (simp add: rows_ok_def)
      have d: "distinct (map dl_id (daily_ledger_rows ?db'))" using k by (simp add: db' lay_ids keys_ok_def)
      have fk: "dl_activity_id r \<in> ac_id ` set (activities db) \<and>
          (\<forall>i. dl_master_slot_id r = Some i \<longrightarrow> i \<in> sl_id ` set (structural_master_slots db))"
        if r: "r \<in> set (daily_ledger_rows ?db')" for r
      proof (cases "r \<in> set (daily_ledger_rows db)")
        case True
        then show ?thesis using k by (auto simp: keys_ok_def)
      next
        case False
        from materialize_new[OF ready refl r False] obtain s d where s: "due env db s d"
          "dl_master_slot_id r = Some (sl_id s)" "dl_activity_id r = sl_activity_id s" by metis
        then show ?thesis using k by (auto simp: keys_ok_def due_def)
      qed
      have "structural_master_slots ?db' = structural_master_slots db" "activities ?db' = activities db"
        "planning_cycles ?db' = planning_cycles db" by (simp_all add: db')
      with k d fk show ?thesis unfolding keys_ok_def by auto
    qed
    moreover have "days_follow_slots ?db'"
      unfolding db' using rows by (intro lay_follows_slots) (simp_all add: rows_ok_def keys_ok_def)
    ultimately show ?thesis by (simp add: horizon_ready_def rows_ok_def)
  qed
qed

section \<open>Putting slots into service\<close>

text \<open>What the checks establish of a slot on a room: no booking still to come and no other slot that counts.\<close>

definition slot_fits :: "rrule_lib \<Rightarrow> date \<Rightarrow> database \<Rightarrow> int \<Rightarrow> master_slot \<Rightarrow> bool" where
  "slot_fits L today db rid s \<longleftrightarrow>
     (\<forall>r \<in> set (reservations db). rv_resource_id r = rid \<longrightarrow> rv_status r = HELD \<longrightarrow> rv_mode r \<noteq> SHARED \<longrightarrow>
        today \<le> rv_reserved_date r \<longrightarrow> (\<forall>d. slot_runs L db s d \<longrightarrow>
          \<not> meets (window_span d (sl_time_window_start s) (sl_time_window_end s)) (held_span r))) \<and>
     (\<forall>s' \<in> set (booked_slots db rid). sl_id s' \<noteq> sl_id s \<longrightarrow> (\<forall>d d'. today < d \<longrightarrow> slot_runs L db s d \<longrightarrow>
        slot_runs L db s' d' \<longrightarrow> \<not> meets (window_span d (sl_time_window_start s) (sl_time_window_end s))
          (window_span d' (sl_time_window_start s') (sl_time_window_end s'))))"

lemma more_slots_apart:
  assumes "slots_apart L today db"
    and "\<And>rid s. s \<in> set (booked_slots db' rid) \<Longrightarrow>
      s \<in> set (booked_slots db rid) \<and> slot_runs L db' s = slot_runs L db s \<or> slot_fits L today db' rid s"
  shows "slots_apart L today db'"
  unfolding slots_apart_def
proof (intro allI ballI impI)
  fix rid s s' d d'
  assume s: "s \<in> set (booked_slots db' rid)" and s': "s' \<in> set (booked_slots db' rid)" and ne: "sl_id s \<noteq> sl_id s'"
    and d: "today < d" "today < d'" "slot_runs L db' s d" "slot_runs L db' s' d'"
  let ?m = "meets (window_span d (sl_time_window_start s) (sl_time_window_end s))
    (window_span d' (sl_time_window_start s') (sl_time_window_end s'))"
  consider (fits) "slot_fits L today db' rid s" | (fits') "slot_fits L today db' rid s'"
    | (old) "s \<in> set (booked_slots db rid)" "slot_runs L db' s = slot_runs L db s"
        "s' \<in> set (booked_slots db rid)" "slot_runs L db' s' = slot_runs L db s'"
    using assms(2)[OF s] assms(2)[OF s'] by blast
  then show "\<not> ?m"
  proof cases
    case fits
    then show ?thesis using s' ne d unfolding slot_fits_def by (metis (no_types))
  next
    case fits'
    have "\<not> meets (window_span d' (sl_time_window_start s') (sl_time_window_end s'))
        (window_span d (sl_time_window_start s) (sl_time_window_end s))"
      using fits' s ne d unfolding slot_fits_def by (metis (no_types))
    then show ?thesis by (simp add: meets_sym)
  next
    case old
    then show ?thesis using assms(1) ne d unfolding slots_apart_def by (metis (no_types))
  qed
qed

lemma more_slots_clear:
  assumes "holds_clear L today db" and "reservations db' = reservations db" and "daily_ledger_rows db' = daily_ledger_rows db"
    and "\<And>rid s. s \<in> set (booked_slots db' rid) \<Longrightarrow>
      s \<in> set (booked_slots db rid) \<and> slot_runs L db' s = slot_runs L db s \<or> slot_fits L today db' rid s"
  shows "holds_clear L today db'"
  unfolding holds_clear_def timetable_clear_def
proof (intro ballI impI)
  fix r sp assume r: "r \<in> set (reservations db')" "today \<le> rv_reserved_date r"
    and held: "rv_status r = HELD \<and> rv_mode r \<noteq> SHARED" and sp: "sp \<in> timetable L db' (rv_resource_id r)"
  have days: "days_on db' = days_on db" by (simp add: days_on_def assms(3) fun_eq_iff)
  have clear: "\<not> meets sp (held_span r)" if "sp \<in> timetable L db (rv_resource_id r)"
    using assms(1,2) r held that by (simp add: holds_clear_def timetable_clear_def)
  show "\<not> meets sp (held_span r)"
  proof (cases "sp \<in> timetable L db (rv_resource_id r)")
    case False
    then have "sp \<in> slot_spans L db' (rv_resource_id r)" "sp \<notin> slot_spans L db (rv_resource_id r)"
      using sp days by (auto simp: timetable_def)
    then obtain s d where s: "s \<in> set (booked_slots db' (rv_resource_id r))" "slot_runs L db' s d"
      "sp = window_span d (sl_time_window_start s) (sl_time_window_end s)"
      "\<not> (s \<in> set (booked_slots db (rv_resource_id r)) \<and> slot_runs L db' s = slot_runs L db s)"
      unfolding slot_spans_def days by (smt (verit, best) mem_Collect_eq)
    then have "slot_fits L today db' (rv_resource_id r) s" using assms(4) by blast
    then show ?thesis using r held s(2,3) unfolding slot_fits_def by blast
  qed (rule clear)
qed

text \<open>The checks of the code give it.\<close>

lemma checks_fit:
  assumes "tables_ok L db" and "rrule_lib_ok L" and "slot_ok L s"
    and "held_against_slot L today db rid (sl_rrule s) (sl_dtstart s) (sl_time_window_start s) (sl_time_window_end s) cycle = []"
    and "slots_against_slot L today db rid (sl_rrule s) (sl_dtstart s) (sl_time_window_start s) (sl_time_window_end s) excl cycle = []"
    and "\<And>d. slot_runs L db s d \<longleftrightarrow> within_cycle cycle d \<and> occurs_on L (sl_rrule s) (sl_dtstart s) d"
    and "excl = None \<or> excl = Some (sl_id s)"
  shows "slot_fits L today db rid s"
proof -
  have w: "valid_window (sl_time_window_start s) (sl_time_window_end s)" "stored_rule L (sl_rrule s)"
    using assms(3) by (simp_all add: slot_ok_def)
  have "held_interval ` {r \<in> set (reservations db). rv_resource_id r = rid \<and> rv_status r = HELD \<and>
      rv_mode r \<noteq> SHARED \<and> today \<le> rv_reserved_date r \<and>
      (\<exists>d. within_cycle cycle d \<and> occurs_on L (sl_rrule s) (sl_dtstart s) d \<and>
         meets (window_span d (sl_time_window_start s) (sl_time_window_end s)) (held_span r))} = {}"
    using held_against_slot_exact[OF assms(1) w(1), of today rid "sl_rrule s" "sl_dtstart s" cycle] assms(4) by simp
  moreover have "\<forall>s' \<in> set (booked_slots db rid). Some (sl_id s') \<noteq> excl \<longrightarrow>
       (\<forall>d d'. today < d \<longrightarrow> within_cycle cycle d \<longrightarrow> occurs_on L (sl_rrule s) (sl_dtstart s) d \<longrightarrow> slot_runs L db s' d' \<longrightarrow>
          \<not> meets (window_span d (sl_time_window_start s) (sl_time_window_end s))
            (window_span d' (sl_time_window_start s') (sl_time_window_end s')))"
    using slots_against_slot_Nil[OF assms(1,2) w(2,1)] assms(5) by blast
  ultimately show ?thesis
    using assms(7) unfolding slot_fits_def assms(6) by auto
qed

lemma room_conflict_Inr [simp]: "room_conflict m cs = Inr () \<longleftrightarrow> cs = []"
  by (simp add: room_conflict_def)

end
