(* ===== verification/Schedule_Props.thy ===== *)
theory Schedule_Props
  imports Timetable_Rules Reservations_Props
begin

text \<open>
  The timetable routes of \<^verbatim>\<open>api/v1/endpoints/schedule.py\<close> keep the rules of the timetable, and are
  the steps of a state machine on the date and the tables. The examples at the end
  show ways an edit of a slot goes wrong.
\<close>

section \<open>Closing and retiring\<close>

lemma set_cycle_status_frame [simp]:
  "reservations (set_cycle_status c st db) = reservations db"
  "structural_master_slots (set_cycle_status c st db) = structural_master_slots db"
  "activities (set_cycle_status c st db) = activities db"
  "daily_ledger_rows (set_cycle_status c st db) = daily_ledger_rows db"
  "map cy_id (planning_cycles (set_cycle_status c st db)) = map cy_id (planning_cycles db)"
  "get_activity_row (set_cycle_status c st db) = get_activity_row db"
  by (simp_all add: set_cycle_status_def map_update_rows_id get_activity_row_def fun_eq_iff)

lemma get_cycle_row_status:
  "get_cycle_row (set_cycle_status c st db) i =
   map_option (\<lambda>x. if cy_id x = c then x\<lparr>cy_operational_status := st\<rparr> else x) (get_cycle_row db i)"
  by (simp add: get_cycle_row_def set_cycle_status_def find_update_rows)

lemma slot_runs_status [simp]: "slot_runs L (set_cycle_status c st db) = slot_runs L db"
proof -
  have "within_cycle (slot_cycle (set_cycle_status c st db) s) d = within_cycle (slot_cycle db s) d" for s d
    by (auto simp: slot_cycle_def slot_activity_def get_cycle_row_status within_cycle_def
        split: option.splits bind_splits)
  then show ?thesis by (simp add: slot_runs_def fun_eq_iff)
qed

lemma slot_counts_status:
  "slot_counts (set_cycle_status c st db) s \<longleftrightarrow>
   (if map_option ac_cycle_id (slot_activity db s) = Some c
    then st \<and> sl_retired_at s = None \<and> (\<exists>a. slot_activity db s = Some a \<and> ac_retired_at a = None) \<and>
      get_cycle_row db c \<noteq> None
    else slot_counts db s)"
  by (auto simp: slot_counts_def slot_activity_def get_cycle_row_status dest: get_cycle_row_Some split: option.splits)

lemma not_retired_by:
  "s \<in> set (update_rows Q (\<lambda>x. x\<lparr>sl_retired_at := Some t\<rparr>) xs) \<Longrightarrow> sl_retired_at s = None \<Longrightarrow> s \<in> set xs \<and> \<not> Q s"
  unfolding set_update_rows by fastforce

lemma retire_days_ahead_eq:
  "snd (snd (retire_days_ahead db rows)) = delete_days (set (map dl_id rows) - rows_in_use (map dl_id rows) db) db"
  by (simp add: retire_days_ahead_def Let_def)

lemma dl_id_inj: "keys_ok db \<Longrightarrow> d \<in> set (daily_ledger_rows db) \<Longrightarrow> d' \<in> set (daily_ledger_rows db) \<Longrightarrow>
  dl_id d = dl_id d' \<Longrightarrow> d = d'"
  by (auto simp: keys_ok_def distinct_map inj_on_def)

lemma not_in_deleted:
  "keys_ok db \<Longrightarrow> d \<in> set (daily_ledger_rows db) \<Longrightarrow> \<not> P d \<Longrightarrow>
   dl_id d \<notin> set (map dl_id (filter P (daily_ledger_rows db))) - kept"
  by (auto dest: dl_id_inj)

lemma close_cycle_rules:
  assumes "timetable_rules L today (working sess)" and "committed sess = working sess"
  shows "timetable_rules L today (committed (snd (close_cycle env sess u cid)))"
proof (cases "bind_result (require_roles [ORG_ADMIN] u) (\<lambda>_. cycle_or_404 (working sess) cid)")
  case (Inl e)
  then show ?thesis using assms by (simp add: close_cycle_def)
next
  case (Inr c)
  let ?db = "working sess"
  let ?P = "\<lambda>d. map_option ac_cycle_id (get_activity_row ?db (dl_activity_id d)) = Some cid \<and> dl_target_date d \<ge> env_today env"
  let ?ids = "set (map dl_id (filter ?P (daily_ledger_rows ?db))) -
     rows_in_use (map dl_id (filter ?P (daily_ledger_rows ?db))) ?db"
  let ?db' = "set_cycle_status cid False (delete_days ?ids ?db)"
  have kept: "slot_counts (delete_days ids ?db) s = slot_counts ?db s" "slot_runs L (delete_days ids ?db) s = slot_runs L ?db s"
    for ids s by (rule counts_runs_cong; simp)+
  have rows: "rows_ok L ?db" using assms(1) by (simp add: timetable_rules_def)
  have "only_less L ?db ?db'"
  proof (rule withdrawn_only_less)
    fix s assume s: "s \<in> set (structural_master_slots ?db')" "slot_counts ?db' s"
    then have cnt: "slot_counts ?db s" "map_option ac_cycle_id (slot_activity ?db s) \<noteq> Some cid"
      by (simp_all add: slot_counts_status slot_activity_def kept split: if_splits)
    with s(1) show "s \<in> set (structural_master_slots ?db) \<and> slot_counts ?db s \<and> slot_runs L ?db' s = slot_runs L ?db s"
      by (simp add: kept)
    fix d assume d: "d \<in> set (daily_ledger_rows ?db)" "dl_master_slot_id d = Some (sl_id s)"
    then have "dl_activity_id d = sl_activity_id s" using rows s by (simp add: rows_ok_def days_follow_slots_def)
    then have "\<not> ?P d" using cnt(2) by (simp add: slot_activity_def)
    with d(1) rows show "dl_id d \<notin> ?ids" by (intro not_in_deleted) (simp_all add: rows_ok_def)
  qed simp_all
  moreover have "rows_ok L ?db'" by (rule rows_ok_fewer_days[OF rows]) simp_all
  moreover have "committed (snd (close_cycle env sess u cid)) = ?db'"
    using Inr by (simp add: close_cycle_def Let_def split_beta retire_days_ahead_eq)
  ultimately show ?thesis using only_less_rules[OF assms(1)] by simp
qed

lemma retire_activity_rules:
  assumes "timetable_rules L today (working sess)" and "committed sess = working sess"
  shows "timetable_rules L today (committed (snd (retire_activity env sess u aid)))"
proof (cases "live_activity (working sess) u aid")
  case (Inl e)
  then show ?thesis using assms by (simp add: retire_activity_def)
next
  case (Inr a)
  let ?db = "working sess"
  let ?P = "\<lambda>d. dl_activity_id d = aid \<and> dl_target_date d \<ge> env_today env"
  let ?ids = "set (map dl_id (filter ?P (daily_ledger_rows ?db))) -
     rows_in_use (map dl_id (filter ?P (daily_ledger_rows ?db))) ?db"
  let ?live = "\<lambda>s. sl_activity_id s = aid \<and> sl_retired_at s = None"
  let ?db' = "(delete_days ?ids ?db)\<lparr>
     activities := update_rows (\<lambda>x. ac_id x = aid) (\<lambda>x. x\<lparr>ac_retired_at := Some (env_now env)\<rparr>) (activities ?db),
     structural_master_slots := update_rows ?live (\<lambda>s. s\<lparr>sl_retired_at := Some (env_now env)\<rparr>) (structural_master_slots ?db)\<rparr>"
  have rows: "rows_ok L ?db" using assms(1) by (simp add: timetable_rules_def)
  have act: "get_activity_row ?db' i = map_option (\<lambda>x. if ac_id x = aid then x\<lparr>ac_retired_at := Some (env_now env)\<rparr> else x)
      (get_activity_row ?db i)" for i
    by (simp add: get_activity_row_def find_update_rows)
  have cyc: "get_cycle_row ?db' = get_cycle_row ?db" by (simp add: get_cycle_row_def fun_eq_iff)
  have "only_less L ?db ?db'"
  proof (rule withdrawn_only_less)
    fix s assume s: "s \<in> set (structural_master_slots ?db')" "slot_counts ?db' s"
    then have "sl_retired_at s = None" by (simp add: slot_counts_def)
    with s(1) have s': "s \<in> set (structural_master_slots ?db)" "sl_activity_id s \<noteq> aid"
      using not_retired_by[of s ?live "env_now env" "structural_master_slots ?db"] by auto
    have row: "get_activity_row ?db' (sl_activity_id s) = get_activity_row ?db (sl_activity_id s)"
      using s'(2) unfolding act by (cases "get_activity_row ?db (sl_activity_id s)") (auto dest: get_activity_row_Some)
    have same: "slot_counts ?db' s = slot_counts ?db s" "slot_runs L ?db' s = slot_runs L ?db s"
      by (rule counts_runs_same[OF row cyc])+
    have "slot_counts ?db s" using s(2) unfolding same(1) .
    with same(2) s'(1) show "s \<in> set (structural_master_slots ?db) \<and> slot_counts ?db s \<and> slot_runs L ?db' s = slot_runs L ?db s"
      by blast
    fix d assume d: "d \<in> set (daily_ledger_rows ?db)" "dl_master_slot_id d = Some (sl_id s)"
    then have "dl_activity_id d = sl_activity_id s" using rows s'(1) by (simp add: rows_ok_def days_follow_slots_def)
    with d(1) rows s'(2) show "dl_id d \<notin> ?ids" by (intro not_in_deleted) (simp_all add: rows_ok_def)
  qed simp_all
  moreover have "rows_ok L ?db'"
    by (rule rows_ok_fewer_days[OF rows]) (simp_all add: map_update_rows_id slot_core_def[abs_def])
  moreover have "committed (snd (retire_activity env sess u aid)) = ?db'"
    using Inr by (simp add: retire_activity_def Let_def split_beta retire_days_ahead_eq)
  ultimately show ?thesis using only_less_rules[OF assms(1)] by simp
qed

lemma live_slot_Inr:
  assumes "live_slot db u i = Inr (s, a)"
  shows "s \<in> set (structural_master_slots db)" and "sl_id s = i" and "slot_activity db s = Some a"
    and "sl_retired_at s = None"
  using assms
  by (auto simp: live_slot_def slot_or_404_def refuse_if_retired_def result_simps dest: find_Some_iff_first
      split: sum.splits option.splits if_splits)

lemma retire_master_slot_rules:
  assumes "timetable_rules L today (working sess)" and "committed sess = working sess"
  shows "timetable_rules L today (committed (snd (retire_master_slot env sess u sid)))"
proof (cases "live_slot (working sess) u sid")
  case (Inl e)
  then show ?thesis using assms by (simp add: retire_master_slot_def)
next
  case (Inr sa)
  obtain slot a where sa: "sa = (slot, a)" by (cases sa)
  note slot = live_slot_Inr[OF Inr[unfolded sa]]
  let ?db = "working sess"
  let ?P = "\<lambda>d. dl_master_slot_id d = Some (sl_id slot) \<and> dl_target_date d \<ge> env_today env"
  let ?ids = "set (map dl_id (filter ?P (daily_ledger_rows ?db))) -
     rows_in_use (map dl_id (filter ?P (daily_ledger_rows ?db))) ?db"
  let ?db' = "(delete_days ?ids ?db)\<lparr>structural_master_slots := update_rows (\<lambda>s. sl_id s = sid)
     (\<lambda>s. s\<lparr>sl_retired_at := Some (env_now env)\<rparr>) (structural_master_slots ?db)\<rparr>"
  have rows: "rows_ok L ?db" using assms(1) by (simp add: timetable_rules_def)
  have look: "get_activity_row ?db' = get_activity_row ?db" "get_cycle_row ?db' = get_cycle_row ?db"
    by (simp_all add: get_activity_row_def get_cycle_row_def fun_eq_iff)
  have "only_less L ?db ?db'"
  proof (rule withdrawn_only_less)
    fix s assume s: "s \<in> set (structural_master_slots ?db')" "slot_counts ?db' s"
    then have "sl_retired_at s = None" by (simp add: slot_counts_def)
    with s(1) have s': "s \<in> set (structural_master_slots ?db)" "sl_id s \<noteq> sid"
      using not_retired_by[of s "\<lambda>s. sl_id s = sid" "env_now env" "structural_master_slots ?db"] by auto
    have same: "slot_counts ?db' s = slot_counts ?db s" "slot_runs L ?db' s = slot_runs L ?db s"
      by (rule counts_runs_same[OF fun_cong[OF look(1)] look(2)])+
    have "slot_counts ?db s" using s(2) unfolding same(1) .
    with same(2) s'(1)
    show "s \<in> set (structural_master_slots ?db) \<and> slot_counts ?db s \<and> slot_runs L ?db' s = slot_runs L ?db s" by blast
    fix d assume "d \<in> set (daily_ledger_rows ?db)" "dl_master_slot_id d = Some (sl_id s)"
    with rows s'(2) slot(2) show "dl_id d \<notin> ?ids" by (intro not_in_deleted) (simp_all add: rows_ok_def)
  qed simp_all
  moreover have "rows_ok L ?db'"
    by (rule rows_ok_fewer_days[OF rows]) (simp_all add: map_update_rows_id slot_core_def[abs_def])
  moreover have "committed (snd (retire_master_slot env sess u sid)) = ?db'"
    using Inr sa by (simp add: retire_master_slot_def Let_def split_beta retire_days_ahead_eq planned_days_def)
  ultimately show ?thesis using only_less_rules[OF assms(1)] by simp
qed

section \<open>Deleting\<close>

lemma lift_refusal_iff [simp]:
  "lift_refusal m = Inr x \<longleftrightarrow> m = Inr x" "lift_refusal m = Inl e \<longleftrightarrow> (\<exists>r. m = Inl r \<and> e = Refused r)"
  by (auto simp: lift_refusal_def split: sum.splits)

definition detach :: "int \<Rightarrow> daily_ledger \<Rightarrow> daily_ledger" where
  "detach i d = (if dl_master_slot_id d = Some i then d\<lparr>dl_master_slot_id := None\<rparr> else d)"

lemma detach_simps [simp]:
  "dl_resource_id (detach i d) = dl_resource_id d" "dl_target_date (detach i d) = dl_target_date d"
  "has_window (detach i d) = has_window d" "day_span (detach i d) = day_span d" "day_ok (detach i d) = day_ok d"
  "dl_id (detach i d) = dl_id d" "dl_activity_id (detach i d) = dl_activity_id d"
  "claims_a_window (detach i d) = claims_a_window d"
  by (simp_all add: detach_def has_window_def day_span_def day_ok_def dl_start_def dl_end_def claims_a_window_def)

lemma detach_slot: "dl_master_slot_id (detach i d) = Some j \<longleftrightarrow> dl_master_slot_id d = Some j \<and> j \<noteq> i"
  by (auto simp: detach_def)

lemma detach_other: "dl_master_slot_id d = Some j \<Longrightarrow> j \<noteq> i \<Longrightarrow> detach i d = d"
  by (simp add: detach_def)

lemma bars_detach: "bars (detach i x) (detach i y) \<Longrightarrow> bars x y"
  by (auto simp: bars_def days_clear_def same_slot_date_def detach_def day_span_def dl_start_def dl_end_def
      claims_a_window_def split: if_splits)

definition slot_deleted :: "int set \<Rightarrow> int \<Rightarrow> database \<Rightarrow> database" where
  "slot_deleted ids i db = (delete_days ids db)\<lparr>
     daily_ledger_rows := map (detach i) (filter (\<lambda>d. dl_id d \<notin> ids) (daily_ledger_rows db)),
     structural_master_slots := filter (\<lambda>s. sl_id s \<noteq> i) (structural_master_slots db)\<rparr>"

lemma delete_slot_eq:
  assumes "delete_slot env slot db = Inr (removed, detached, db')"
  shows "db' = slot_deleted (set (map dl_id (planned_days env slot db))) (sl_id slot) db"
  using assms
  by (auto simp: delete_slot_def withdraw_planned_days_def Let_def result_simps slot_deleted_def update_rows_def
      detach_def[abs_def] split: if_splits)

lemma slot_deleted_lookup:
  "get_activity_row (slot_deleted ids i db) = get_activity_row db"
  "get_cycle_row (slot_deleted ids i db) = get_cycle_row db"
  by (simp_all add: slot_deleted_def delete_days_def get_activity_row_def get_cycle_row_def fun_eq_iff)

lemma slot_deleted_only_less:
  assumes "keys_ok db" and ids: "\<And>d. d \<in> set (daily_ledger_rows db) \<Longrightarrow> dl_id d \<in> ids \<Longrightarrow> dl_master_slot_id d = Some i"
  shows "only_less L db (slot_deleted ids i db)" (is "only_less L db ?db'")
  unfolding only_less_def
proof (intro conjI allI ballI impI)
  fix rid s assume s: "s \<in> set (booked_slots ?db' rid)"
  have same: "slot_counts ?db' s = slot_counts db s" "slot_runs L ?db' s = slot_runs L db s"
    by (rule counts_runs_same[OF fun_cong[OF slot_deleted_lookup(1)] slot_deleted_lookup(2)])+
  from s have s': "s \<in> set (structural_master_slots db)" "sl_id s \<noteq> i" "sl_resource_id s = Some rid" "slot_counts db s"
    using same(1) by (auto simp: booked_slots_def slot_deleted_def)
  then show "s \<in> set (booked_slots db rid)" by (simp add: booked_slots_def)
  show "slot_runs L db s d" if "slot_runs L ?db' s d" for d using that same(2) by simp
  fix r assume r: "r \<in> days_on db rid" "dl_master_slot_id r = Some (sl_id s)"
  then have "dl_id r \<notin> ids" using ids[of r] s'(2) by (auto simp: days_on_def)
  moreover have "detach i r = r" using r(2) s'(2) by (rule detach_other)
  ultimately show "r \<in> days_on ?db' rid" using r(1)
    by (auto simp: days_on_def slot_deleted_def intro: image_eqI[of r "detach i" r])
next
  fix rid show "day_span ` days_on ?db' rid \<subseteq> timetable L db rid"
    by (auto simp: days_on_def slot_deleted_def timetable_def)
qed (simp add: slot_deleted_def)

lemma slot_deleted_rows_ok:
  assumes "rows_ok L db"
  shows "rows_ok L (slot_deleted ids i db)" (is "rows_ok L ?db'")
proof -
  let ?days = "map (detach i) (filter (\<lambda>d. dl_id d \<notin> ids) (daily_ledger_rows db))"
  have rows: "daily_ledger_rows ?db' = ?days"
    "structural_master_slots ?db' = filter (\<lambda>s. sl_id s \<noteq> i) (structural_master_slots db)"
    "activities ?db' = activities db" "planning_cycles ?db' = planning_cycles db" "reservations ?db' = reservations db"
    by (simp_all add: slot_deleted_def)
  have "sorted_wrt (\<lambda>x y. \<not> bars x y) ?days"
    unfolding sorted_wrt_map using assms
    by (auto simp: rows_ok_def ledger_ok_def sorted_wrt_filter intro: sorted_wrt_mono_rel[of _ "\<lambda>x y. \<not> bars x y"]
        dest: bars_detach)
  then have "ledger_ok (daily_ledger_rows ?db')"
    using assms unfolding rows by (auto simp: rows_ok_def ledger_ok_def)
  moreover have "keys_ok ?db'"
  proof -
    have k: "keys_ok db" using assms by (simp add: rows_ok_def)
    have "distinct (map dl_id ?days)" using k by (simp add: keys_ok_def o_def distinct_map_filter)
    moreover have "dl_activity_id ` set ?days \<subseteq> dl_activity_id ` set (daily_ledger_rows db)" by auto
    moreover have "j \<in> sl_id ` set (structural_master_slots ?db')"
      if "d \<in> set ?days" "dl_master_slot_id d = Some j" for d j
      using that k unfolding rows by (fastforce simp: keys_ok_def detach_slot)
    ultimately show ?thesis using k unfolding keys_ok_def rows by (auto simp: distinct_map_filter)
  qed
  moreover have "days_follow_slots ?db'"
    using assms unfolding rows_ok_def days_follow_slots_def rows by (auto simp: detach_slot)
  moreover have "tables_ok L ?db'" using assms unfolding rows_ok_def tables_ok_def rows by auto
  ultimately show ?thesis by (simp add: rows_ok_def)
qed

lemma delete_master_slot_rules:
  assumes "timetable_rules L today (working sess)" and "committed sess = working sess"
  shows "timetable_rules L today (committed (snd (delete_master_slot env sess u sid)))"
proof (cases "bind_result (live_slot (working sess) u sid) (\<lambda>(slot, _). lift_refusal (delete_slot env slot (working sess)))")
  case (Inl e)
  then show ?thesis using assms by (simp add: delete_master_slot_def)
next
  case (Inr x)
  let ?db = "working sess"
  obtain removed detached db' where x: "x = (removed, detached, db')" by (cases x)
  obtain slot a where slot: "delete_slot env slot ?db = Inr (removed, detached, db')"
    using Inr x by (auto simp: result_simps)
  have rows: "rows_ok L ?db" using assms(1) by (simp add: timetable_rules_def)
  let ?ids = "set (map dl_id (planned_days env slot ?db))"
  have keys: "keys_ok ?db" using rows by (simp add: rows_ok_def)
  have "only_less L ?db (slot_deleted ?ids (sl_id slot) ?db)"
    using keys by (rule slot_deleted_only_less) (auto simp: planned_days_def dest: dl_id_inj[OF keys])
  from only_less_rules[OF assms(1) this slot_deleted_rows_ok[OF rows]] delete_slot_eq[OF slot]
  show ?thesis using Inr x by (simp add: delete_master_slot_def)
qed

section \<open>Opening a cycle\<close>

lemma cycle_or_404_Inr [simp]: "cycle_or_404 db cid = Inr c \<longleftrightarrow> get_cycle_row db cid = Some c"
  by (auto simp: cycle_or_404_def split: option.split)

lemma open_cycle_cases:
  obtains "committed (snd (open_cycle env sess u cid)) = committed sess"
  | c where "get_cycle_row (working sess) cid = Some c"
      and "concat (map (slot_blocked env (set_cycle_status cid True (working sess)) (c\<lparr>cy_operational_status := True\<rparr>))
         (live_slots (working sess) cid)) = []"
      and "committed (snd (open_cycle env sess u cid)) = set_cycle_status cid True (working sess)"
proof (cases "bind_result (require_roles [ORG_ADMIN] u) (\<lambda>_. cycle_or_404 (working sess) cid)")
  case (Inl e)
  then show ?thesis using that(1) by (simp add: open_cycle_def)
next
  case (Inr c)
  then have c: "get_cycle_row (working sess) cid = Some c" by (auto simp: result_simps)
  let ?cs = "concat (map (slot_blocked env (set_cycle_status cid True (working sess)) (c\<lparr>cy_operational_status := True\<rparr>))
    (live_slots (working sess) cid))"
  consider "cy_operational_status c" | "\<not> cy_operational_status c" "?cs \<noteq> []" | "\<not> cy_operational_status c" "?cs = []" by blast
  then show ?thesis
  proof cases
    case 1
    then show ?thesis using that(1) Inr by (simp add: open_cycle_def)
  next
    case 2
    then have "open_cycle env sess u cid = (Inl (chronos_error 409 RESOURCE_CONFLICT (Msg_Activation
        ''opening this cycle would put its slots on rooms already taken'' ?cs)),
        db_rollback (sess\<lparr>working := set_cycle_status cid True (working sess)\<rparr>))"
      using Inr unfolding open_cycle_def Let_def by (simp only: sum.case if_False if_True simp_thms)
    then show ?thesis using that(1) by simp
  next
    case 3
    then have "open_cycle env sess u cid = (Inr Opened, db_commit (sess\<lparr>working := set_cycle_status cid True (working sess)\<rparr>))"
      using Inr unfolding open_cycle_def Let_def by (simp only: sum.case if_False if_True simp_thms)
    then show ?thesis using that(2)[OF c 3(2)] by simp
  qed
qed

lemma open_cycle_rules:
  assumes "timetable_rules (env_rrule env) (env_today env) (working sess)" and "rrule_lib_ok (env_rrule env)"
    and "committed sess = working sess"
  shows "timetable_rules (env_rrule env) (env_today env) (committed (snd (open_cycle env sess u cid)))"
    (is "timetable_rules ?L ?t _")
proof (rule open_cycle_cases[of env sess u cid])
  assume "committed (snd (open_cycle env sess u cid)) = committed sess"
  then show ?thesis using assms(1,3) by simp
next
  let ?db = "working sess" and ?db1 = "set_cycle_status cid True (working sess)"
  fix c assume c: "get_cycle_row ?db cid = Some c"
    and nil: "concat (map (slot_blocked env ?db1 (c\<lparr>cy_operational_status := True\<rparr>)) (live_slots ?db cid)) = []"
    and opened: "committed (snd (open_cycle env sess u cid)) = ?db1"
  have rules: "rows_ok ?L ?db" "slots_apart ?L ?t ?db" "holds_clear ?L ?t ?db"
    using assms(1) by (simp_all add: timetable_rules_def)
  have rows1: "rows_ok ?L ?db1"
    by (rule rows_ok_fewer_days[OF rules(1), where P = "\<lambda>_. True"]) simp_all
  have fits: "s \<in> set (booked_slots ?db rid) \<and> slot_runs ?L ?db1 s = slot_runs ?L ?db s \<or> slot_fits ?L ?t ?db1 rid s"
    if "s \<in> set (booked_slots ?db1 rid)" for rid s
  proof (cases "map_option ac_cycle_id (slot_activity ?db s) = Some cid")
    case False
    then show ?thesis using that by (simp add: booked_slots_def slot_counts_status)
  next
    case ours: True
    then have s: "s \<in> set (live_slots ?db cid)" "sl_resource_id s = Some rid" "s \<in> set (structural_master_slots ?db)"
      using that by (auto simp: booked_slots_def slot_counts_status live_slots_def)
    have blocked: "slot_blocked env ?db1 (c\<lparr>cy_operational_status := True\<rparr>) s = []" using nil s(1) by simp
    have cyc: "slot_cycle ?db1 s = Some (c\<lparr>cy_operational_status := True\<rparr>)"
      using ours c get_cycle_row_Some[OF c]
      by (auto simp: slot_cycle_def slot_activity_def get_cycle_row_status split: option.splits)
    have "slot_fits ?L ?t ?db1 rid s"
    proof (rule checks_fit[where cycle = "Some (c\<lparr>cy_operational_status := True\<rparr>)" and excl = "Some (sl_id s)"])
      show "tables_ok ?L ?db1" using rows1 by (simp add: rows_ok_def)
      show "slot_ok ?L s" using rules(1) s(3) by (simp add: rows_ok_def tables_ok_def)
      show "slot_runs ?L ?db1 s d \<longleftrightarrow> within_cycle (Some (c\<lparr>cy_operational_status := True\<rparr>)) d \<and>
          occurs_on ?L (sl_rrule s) (sl_dtstart s) d" for d
        unfolding slot_runs_def cyc by blast
    qed (use blocked s(2) assms(2) in \<open>simp_all add: slot_blocked_def Let_def\<close>)
    then show ?thesis ..
  qed
  have "slots_apart ?L ?t ?db1" by (rule more_slots_apart[OF rules(2) fits])
  moreover have "holds_clear ?L ?t ?db1" by (rule more_slots_clear[OF rules(3) _ _ fits]) simp_all
  ultimately show ?thesis using rows1 opened by (simp add: timetable_rules_def)
qed

section \<open>New slots\<close>

lemma insert_slot_eq:
  "insert_slot db s = (s\<lparr>sl_id := fresh_id (map sl_id (structural_master_slots db))\<rparr>,
     db\<lparr>structural_master_slots := structural_master_slots db @ [s\<lparr>sl_id := fresh_id (map sl_id (structural_master_slots db))\<rparr>]\<rparr>)"
  by (simp add: insert_slot_def Let_def)

lemma lookup_slots [simp]:
  "get_activity_row (db\<lparr>structural_master_slots := x\<rparr>) = get_activity_row db"
  "get_cycle_row (db\<lparr>structural_master_slots := x\<rparr>) = get_cycle_row db"
  "slot_counts (db\<lparr>structural_master_slots := x\<rparr>) = slot_counts db"
  "slot_runs L (db\<lparr>structural_master_slots := x\<rparr>) = slot_runs L db"
  by (auto simp: get_activity_row_def get_cycle_row_def slot_counts_def slot_runs_def slot_cycle_def
      slot_activity_def fun_eq_iff cong: option.case_cong Option.bind_cong)

lemma insert_slot_rules:
  assumes "timetable_rules L t db" and "slot_ok L s" and "sl_activity_id s \<in> ac_id ` set (activities db)"
    and "\<And>rid. slot_counts db s \<Longrightarrow> sl_resource_id s = Some rid \<Longrightarrow> slot_fits L t db rid (fst (insert_slot db s))"
  shows "timetable_rules L t (snd (insert_slot db s))"
proof -
  let ?i = "fresh_id (map sl_id (structural_master_slots db))"
  let ?s = "s\<lparr>sl_id := ?i\<rparr>" and ?db' = "snd (insert_slot db s)"
  have db': "?db' = db\<lparr>structural_master_slots := structural_master_slots db @ [?s]\<rparr>" by (simp add: insert_slot_eq)
  have rules: "rows_ok L db" "slots_apart L t db" "holds_clear L t db" using assms(1) by (simp_all add: timetable_rules_def)
  have fresh: "?i \<notin> sl_id ` set (structural_master_slots db)"
    using fresh_id_notin[of "map sl_id (structural_master_slots db)"] by simp
  have none: "dl_master_slot_id d \<noteq> Some ?i" if "d \<in> set (daily_ledger_rows db)" for d
    using that fresh rules(1) by (auto simp: rows_ok_def keys_ok_def)
  have "slot_ok L ?s" using assms(2) by (simp add: slot_ok_def)
  then have rows': "rows_ok L ?db'"
    using rules(1) assms(3) fresh none
    by (auto simp: db' rows_ok_def tables_ok_def keys_ok_def days_follow_slots_def)
  have same_s: "slot_counts db ?s = slot_counts db s" by (simp add: slot_counts_def slot_activity_def)
  have fits: "x \<in> set (booked_slots db rid) \<and> slot_runs L ?db' x = slot_runs L db x \<or> slot_fits L t ?db' rid x"
    if x: "x \<in> set (booked_slots ?db' rid)" for rid x
  proof (cases "x = ?s")
    case True
    then have "slot_fits L t db rid ?s" using x assms(4)[of rid] same_s by (auto simp: booked_slots_def db' insert_slot_eq split: if_splits)
    then have "slot_fits L t ?db' rid ?s" by (auto simp: slot_fits_def booked_slots_def db')
    with True show ?thesis by simp
  next
    case False
    with x show ?thesis by (auto simp: booked_slots_def db' split: if_splits)
  qed
  have "slots_apart L t ?db'" by (rule more_slots_apart[OF rules(2) fits])
  moreover have "holds_clear L t ?db'" by (rule more_slots_clear[OF rules(3) _ _ fits]) (simp_all add: db')
  ultimately show ?thesis using rows' by (simp add: timetable_rules_def)
qed

lemma resources_frame:
  "timetable_rules L t (db\<lparr>resources := x\<rparr>) = timetable_rules L t db"
proof -
  have look: "get_activity_row (db\<lparr>resources := x\<rparr>) = get_activity_row db" "get_cycle_row (db\<lparr>resources := x\<rparr>) = get_cycle_row db"
    by (simp_all add: get_activity_row_def get_cycle_row_def fun_eq_iff)
  have same: "slot_counts (db\<lparr>resources := x\<rparr>) = slot_counts db" "slot_runs L (db\<lparr>resources := x\<rparr>) = slot_runs L db"
    using counts_runs_same[of "db\<lparr>resources := x\<rparr>" _ db] look by (auto simp: fun_eq_iff)
  have booked: "booked_slots (db\<lparr>resources := x\<rparr>) = booked_slots db" by (simp add: booked_slots_def same fun_eq_iff)
  have "timetable L (db\<lparr>resources := x\<rparr>) = timetable L db"
    by (simp add: timetable_def slot_spans_def days_on_def booked same fun_eq_iff)
  then show ?thesis
    by (simp add: timetable_rules_def rows_ok_def tables_ok_def keys_ok_def days_follow_slots_def slots_apart_def
        holds_clear_def timetable_clear_def booked same)
qed

lemma get_or_create_room_db: "snd (get_or_create_room code db) = db \<or> (\<exists>x. snd (get_or_create_room code db) = db\<lparr>resources := x\<rparr>)"
  by (auto simp: get_or_create_room_def Let_def split: option.split)

lemma room_rules: "timetable_rules L t db \<Longrightarrow> timetable_rules L t (snd (get_or_create_room code db))"
  using get_or_create_room_db[of code db] by (auto simp: resources_frame)

lemma check_new_slot_Inr:
  assumes "check_new_slot env db u p = Inr (row, offering, db1)"
  shows "db1 = snd (get_or_create_room (ks_target_room_identifier p) db)"
    and "get_activity_row db (ks_activity_id p) = Some offering"
    and "sl_rrule row = ks_rrule p" and "sl_time_window_start row = ks_time_window_start p"
    and "sl_time_window_end row = ks_time_window_end p" and "sl_activity_id row = ks_activity_id p"
    and "sl_retired_at row = None"
    and "\<exists>rid. sl_resource_id row = Some rid \<and>
      refuse_if_taken env db1 (get_cycle_row db (ac_cycle_id offering)) rid (sl_rrule row) (sl_dtstart row)
        (sl_time_window_start row) (sl_time_window_end row) None = Inr ()"
  using assms
  by (cases "get_or_create_room (ks_target_room_identifier p) db";
      auto simp: check_new_slot_def Let_def result_simps split: option.splits)+

lemma refuse_if_taken_Inr:
  "refuse_if_taken env db cycle rid rule ds start stop excl = Inr () \<longleftrightarrow>
   (cycle_is_open cycle \<longrightarrow>
      held_against_slot (env_rrule env) (env_today env) db rid rule ds start stop cycle = [] \<and>
      slots_against_slot (env_rrule env) (env_today env) db rid rule ds start stop excl cycle = []) \<and>
   days_against_slot (env_rrule env) (env_today env) db rid rule ds start stop excl cycle = []"
  by (auto simp: refuse_if_taken_def refuse_if_held_def refuse_if_scheduled_def refuse_if_a_day_is_there_def result_simps)

lemma room_lookup:
  "get_activity_row (snd (get_or_create_room code db)) = get_activity_row db"
  "get_cycle_row (snd (get_or_create_room code db)) = get_cycle_row db"
  using get_or_create_room_db[of code db] by (auto simp: get_activity_row_def get_cycle_row_def fun_eq_iff)

lemma create_master_slot_rules:
  assumes "timetable_rules (env_rrule env) (env_today env) (working sess)" and "rrule_lib_ok (env_rrule env)"
    and "committed sess = working sess" and "master_slot_create_ok (env_rrule env) p"
  shows "timetable_rules (env_rrule env) (env_today env)
    (committed (snd (create_master_slot env race (\<lambda>d. d) sess u p)))" (is "timetable_rules ?L ?t _")
proof (cases "check_new_slot env (working sess) u p")
  case (Inl e)
  then show ?thesis using assms(1,3) by (simp add: create_master_slot_def)
next
  case (Inr x)
  obtain row offering db1 where x: "x = (row, offering, db1)" by (cases x)
  note chk = check_new_slot_Inr[OF Inr[unfolded x]]
  have rules1: "timetable_rules ?L ?t db1" unfolding chk(1) using assms(1) by (rule room_rules)
  have tables: "tables_ok ?L db1" using rules1 by (simp add: timetable_rules_def rows_ok_def)
  have ok: "slot_ok ?L row" using assms(4) chk(3-5)
    by (auto simp: slot_ok_def master_slot_create_ok_def valid_window_def)
  let ?s = "fst (insert_slot db1 row)"
  have act: "get_activity_row db1 (sl_activity_id row) = Some offering" using chk(1,2,6) by (simp add: room_lookup)
  have s: "sl_rrule ?s = sl_rrule row" "sl_dtstart ?s = sl_dtstart row" "sl_activity_id ?s = sl_activity_id row"
    "sl_time_window_start ?s = sl_time_window_start row" "sl_time_window_end ?s = sl_time_window_end row"
    by (simp_all add: insert_slot_eq)
  have cyc: "slot_cycle db1 ?s = get_cycle_row db1 (ac_cycle_id offering)"
    using act by (simp add: slot_cycle_def slot_activity_def s)
  have fits: "slot_fits ?L ?t db1 rid ?s" if cnt: "slot_counts db1 row" and rid: "sl_resource_id row = Some rid" for rid
  proof (rule checks_fit[OF tables assms(2), where excl = None and cycle = "get_cycle_row db1 (ac_cycle_id offering)"])
    show "slot_ok ?L ?s" using ok by (simp add: slot_ok_def s)
    have "cycle_is_open (get_cycle_row db1 (ac_cycle_id offering))"
      using cnt act by (auto simp: slot_counts_def slot_activity_def cycle_is_open_def split: option.splits)
    moreover have "get_cycle_row db1 = get_cycle_row (working sess)" unfolding chk(1) by (rule room_lookup(2))
    ultimately have "held_against_slot ?L ?t db1 rid (sl_rrule row) (sl_dtstart row) (sl_time_window_start row) (sl_time_window_end row)
        (get_cycle_row db1 (ac_cycle_id offering)) = [] \<and>
      slots_against_slot ?L ?t db1 rid (sl_rrule row) (sl_dtstart row) (sl_time_window_start row) (sl_time_window_end row)
        None (get_cycle_row db1 (ac_cycle_id offering)) = []"
      using chk(8) rid by (simp add: refuse_if_taken_Inr)
    then show "held_against_slot ?L ?t db1 rid (sl_rrule ?s) (sl_dtstart ?s) (sl_time_window_start ?s) (sl_time_window_end ?s)
        (get_cycle_row db1 (ac_cycle_id offering)) = []"
      "slots_against_slot ?L ?t db1 rid (sl_rrule ?s) (sl_dtstart ?s) (sl_time_window_start ?s) (sl_time_window_end ?s)
        None (get_cycle_row db1 (ac_cycle_id offering)) = []"
      unfolding s by blast+
    show "slot_runs ?L db1 ?s d \<longleftrightarrow> within_cycle (get_cycle_row db1 (ac_cycle_id offering)) d \<and>
        occurs_on ?L (sl_rrule ?s) (sl_dtstart ?s) d" for d
      unfolding slot_runs_def cyc by blast
  qed simp
  have "sl_activity_id row \<in> ac_id ` set (activities db1)"
    using get_activity_row_Some[OF act] by (metis imageI)
  note new = insert_slot_rules[OF rules1 ok this fits]
  have "committed (snd (create_master_slot env race (\<lambda>d. d) sess u p)) =
      fst (snd (materialize_horizon env race (\<lambda>d. d) (Some (ac_cycle_id offering)) (snd (insert_slot db1 row))))"
    using Inr x by (simp add: create_master_slot_def split_beta Let_def fill_horizon_def)
  with materialize_rules[OF new assms(2)] show ?thesis by simp
qed

section \<open>New cycles and activities\<close>

lemma find_ids_some: "i \<in> k ` set xs \<Longrightarrow> \<exists>x. find (\<lambda>x. k x = i) xs = Some x"
  by (induction xs) auto

text \<open>Rows added under a fresh id are behind every row a lookup finds.\<close>

lemma lookups_kept_only_less:
  assumes "keys_ok db" and "reservations db' = reservations db" and "daily_ledger_rows db' = daily_ledger_rows db"
    and "structural_master_slots db' = structural_master_slots db"
    and "\<And>i. i \<in> ac_id ` set (activities db) \<Longrightarrow> get_activity_row db' i = get_activity_row db i"
    and "\<And>i. i \<in> cy_id ` set (planning_cycles db) \<Longrightarrow> get_cycle_row db' i = get_cycle_row db i"
  shows "only_less L db db'"
proof (rule withdrawn_only_less[where ids = "{}"])
  fix s assume s: "s \<in> set (structural_master_slots db')" "slot_counts db' s"
  then have a: "sl_activity_id s \<in> ac_id ` set (activities db)" using assms(1,4) by (auto simp: keys_ok_def)
  have "slot_counts db' s = slot_counts db s" "slot_runs L db' s = slot_runs L db s"
  proof -
    have "get_cycle_row db' (ac_cycle_id x) = get_cycle_row db (ac_cycle_id x)"
      if "get_activity_row db (sl_activity_id s) = Some x" for x
      using get_activity_row_Some[OF that] assms(1) by (intro assms(6)) (auto simp: keys_ok_def)
    from counts_runs_cong[OF assms(5)[OF a] this]
    show "slot_counts db' s = slot_counts db s" "slot_runs L db' s = slot_runs L db s" by simp_all
  qed
  with s assms(4) show "s \<in> set (structural_master_slots db) \<and> slot_counts db s \<and> slot_runs L db' s = slot_runs L db s" by simp
qed (simp_all add: assms)

lemma get_activity_append:
  "i \<in> ac_id ` set (activities db) \<Longrightarrow> get_activity_row (db\<lparr>activities := activities db @ xs\<rparr>) i = get_activity_row db i"
  using find_ids_some[of i ac_id "activities db"] by (auto simp: get_activity_row_def find_append)

lemma get_cycle_append:
  "i \<in> cy_id ` set (planning_cycles db) \<Longrightarrow>
   get_cycle_row (db\<lparr>planning_cycles := planning_cycles db @ xs\<rparr>) i = get_cycle_row db i"
  using find_ids_some[of i cy_id "planning_cycles db"] by (auto simp: get_cycle_row_def find_append)

lemma add_activity_rules:
  assumes "timetable_rules L t db" and "ac_cycle_id a \<in> cy_id ` set (planning_cycles db)"
  shows "timetable_rules L t (db\<lparr>activities := activities db @ [a]\<rparr>)" (is "timetable_rules L t ?db'")
proof (rule only_less_rules[OF assms(1)])
  have rows: "rows_ok L db" using assms(1) by (simp add: timetable_rules_def)
  then show "rows_ok L ?db'" using assms(2)
    by (auto simp: rows_ok_def tables_ok_def keys_ok_def days_follow_slots_def)
  show "only_less L db ?db'"
    using rows by (intro lookups_kept_only_less) (simp_all add: rows_ok_def get_activity_append, simp add: get_cycle_row_def)
qed

lemma add_cycle_rules:
  assumes "timetable_rules L t db"
  shows "timetable_rules L t (db\<lparr>planning_cycles := planning_cycles db @ [c]\<rparr>)" (is "timetable_rules L t ?db'")
proof (rule only_less_rules[OF assms(1)])
  have rows: "rows_ok L db" using assms(1) by (simp add: timetable_rules_def)
  then show "rows_ok L ?db'" by (auto simp: rows_ok_def tables_ok_def keys_ok_def days_follow_slots_def)
  show "only_less L db ?db'"
    using rows by (intro lookups_kept_only_less) (simp_all add: rows_ok_def get_cycle_append, simp add: get_activity_row_def)
qed

lemma create_cycle_rules:
  assumes "timetable_rules L t (working sess)" and "committed sess = working sess"
  shows "timetable_rules L t (committed (snd (create_cycle sess u p)))"
  using assms add_cycle_rules by (auto simp: create_cycle_def Let_def split: sum.split)

lemma insert_activity_rules:
  assumes "timetable_rules L t db" and "insert_activity db a0 = Inr (a, db')"
    and "ac_cycle_id a0 \<in> cy_id ` set (planning_cycles db)"
  shows "timetable_rules L t db'" and "get_activity_row db' (ac_id a) = Some a" and "ac_cycle_id a = ac_cycle_id a0"
    and "planning_cycles db' = planning_cycles db" and "structural_master_slots db' = structural_master_slots db"
    and "a \<in> set (activities db')"
proof -
  let ?a = "a0\<lparr>ac_id := fresh_id (map ac_id (activities db))\<rparr>"
  have a: "a = ?a" "db' = db\<lparr>activities := activities db @ [?a]\<rparr>"
    using assms(2) by (auto simp: insert_activity_def Let_def split: if_splits)
  then show "timetable_rules L t db'" using assms(1,3) by (simp add: add_activity_rules)
  show "ac_cycle_id a = ac_cycle_id a0" "planning_cycles db' = planning_cycles db"
    "structural_master_slots db' = structural_master_slots db" "a \<in> set (activities db')" by (simp_all add: a)
  have "find (\<lambda>x. ac_id x = ac_id ?a) (activities db) = None"
    using fresh_id_notin[of "map ac_id (activities db)"] by (simp add: find_None_iff) (metis imageI)
  then show "get_activity_row db' (ac_id a) = Some a" by (simp add: a get_activity_row_def find_append)
qed

lemma create_activity_rules:
  assumes "timetable_rules L t (working sess)" and "committed sess = working sess"
  shows "timetable_rules L t (committed (snd (create_activity (\<lambda>d. d) sess u p)))"
proof -
  have "timetable_rules L t db'"
    if "get_cycle_row (working sess) (kv_cycle_id p) = Some c" "insert_activity (working sess) a0 = Inr (a, db')"
      "ac_cycle_id a0 = kv_cycle_id p" for a0 a db' c
    using insert_activity_rules(1)[OF assms(1) that(2)] that(3) get_cycle_row_Some[OF that(1)] by (metis imageI)
  then show ?thesis
    using assms by (auto simp: create_activity_def Let_def result_simps split: sum.splits)
qed

section \<open>Cloning\<close>

text \<open>A slot of a closed cycle counts for nothing, so it is added without a check.\<close>

lemma insert_slots_rules:
  assumes "timetable_rules L t db" and "\<forall>s \<in> set ss. slot_ok L s \<and> \<not> slot_counts db s \<and> sl_activity_id s \<in> ac_id ` set (activities db)"
  shows "timetable_rules L t (fold (\<lambda>s d. snd (insert_slot d s)) ss db) \<and>
    planning_cycles (fold (\<lambda>s d. snd (insert_slot d s)) ss db) = planning_cycles db"
  using assms
proof (induction ss arbitrary: db)
  case (Cons s ss)
  have "timetable_rules L t (snd (insert_slot db s))" using Cons.prems by (intro insert_slot_rules) auto
  moreover have "\<forall>x \<in> set ss. slot_ok L x \<and> \<not> slot_counts (snd (insert_slot db s)) x \<and>
      sl_activity_id x \<in> ac_id ` set (activities (snd (insert_slot db s)))"
    using Cons.prems by (simp add: insert_slot_eq)
  ultimately show ?case using Cons.IH[of "snd (insert_slot db s)"] by (simp add: insert_slot_eq)
qed simp

lemma clone_offering_rules:
  assumes "timetable_rules L t db" and "get_cycle_row db (cy_id new_cycle) = Some new_cycle"
    and "\<not> cy_operational_status new_cycle" and "clone_offering env new_cycle offering (db, n) = Inr (db', n')"
  shows "timetable_rules L t db' \<and> get_cycle_row db' (cy_id new_cycle) = Some new_cycle"
proof -
  let ?a0 = "offering\<lparr>ac_cycle_id := cy_id new_cycle, ac_retired_at := None\<rparr>"
  obtain new db1 where ins: "insert_activity db ?a0 = Inr (new, db1)"
    and db': "db' = fold (\<lambda>s d. snd (insert_slot d s)) (map (cloned_slot env new_cycle (ac_id new))
        (filter (\<lambda>s. sl_retired_at s = None) (slots_of db (ac_id offering)))) db1"
    using assms(4) by (auto simp: clone_offering_def result_simps Let_def)
  have "ac_cycle_id ?a0 \<in> cy_id ` set (planning_cycles db)"
    using get_cycle_row_Some[OF assms(2)] by (auto simp: image_iff)
  note act = insert_activity_rules[OF assms(1) ins this]
  have cyc: "get_cycle_row db1 = get_cycle_row db" using act(4) by (simp add: get_cycle_row_def fun_eq_iff)
  have "\<forall>s \<in> set (map (cloned_slot env new_cycle (ac_id new)) (filter (\<lambda>s. sl_retired_at s = None) (slots_of db (ac_id offering)))).
      slot_ok L s \<and> \<not> slot_counts db1 s \<and> sl_activity_id s \<in> ac_id ` set (activities db1)"
  proof
    fix s assume "s \<in> set (map (cloned_slot env new_cycle (ac_id new))
        (filter (\<lambda>s. sl_retired_at s = None) (slots_of db (ac_id offering))))"
    then obtain s0 where s0: "s0 \<in> set (structural_master_slots db)" "s = cloned_slot env new_cycle (ac_id new) s0"
      by (auto simp: slots_of_def)
    have "slot_ok L s0" using assms(1) s0(1) by (simp add: timetable_rules_def rows_ok_def tables_ok_def)
    then have "slot_ok L s" by (simp add: s0(2) cloned_slot_def slot_ok_def)
    moreover have "\<not> slot_counts db1 s"
      using act(2,3) assms(2,3) by (simp add: slot_counts_def slot_activity_def s0(2) cloned_slot_def cyc)
    moreover have "sl_activity_id s \<in> ac_id ` set (activities db1)" using act(6) by (simp add: s0(2) cloned_slot_def)
    ultimately show "slot_ok L s \<and> \<not> slot_counts db1 s \<and> sl_activity_id s \<in> ac_id ` set (activities db1)" by blast
  qed
  from insert_slots_rules[OF act(1) this] have "timetable_rules L t db'" "planning_cycles db' = planning_cycles db1"
    unfolding db' by blast+
  with act(4) assms(2) show ?thesis by (simp add: get_cycle_row_def)
qed

lemma clone_cycle_rules:
  assumes "timetable_rules L t (working sess)" and "committed sess = working sess"
  shows "timetable_rules L t (committed (snd (clone_cycle_offerings env sess u old new)))"
proof -
  let ?P = "\<lambda>nc st. timetable_rules L t (fst st) \<and> get_cycle_row (fst st) (cy_id nc) = Some nc"
  have loop: "timetable_rules L t db'"
    if "fold_result (clone_offering env nc) offs (working sess, 0) = Inr (db', n)"
      "get_cycle_row (working sess) new = Some nc" "\<not> cy_operational_status nc" for nc offs db' n
  proof -
    have "?P nc (db', n)"
    proof (rule fold_result_inv[OF that(1)])
      show "?P nc (working sess, 0)" using assms(1) that(2) get_cycle_row_Some[OF that(2)] by simp
      fix x st st' assume st: "?P nc st" "clone_offering env nc x st = Inr st'"
      obtain d k d' k' where "st = (d, k)" "st' = (d', k')" by (cases st, cases st')
      with st clone_offering_rules[of L t d nc env x k d' k'] that(3) show "?P nc st'" by simp
    qed
    then show ?thesis by simp
  qed
  then show ?thesis
    using assms by (auto simp: clone_cycle_offerings_def Let_def result_simps split: sum.splits if_splits)
qed

section \<open>The timetable as a state machine\<close>

text \<open>
  A state is the organization's date and its committed tables; a step is the passing of a day, the
  nightly job, or a request that makes, opens, closes or copies a cycle, makes or retires an
  activity, or makes, retires or deletes a slot, whatever it is answered. The change of a slot
  (PATCH) is no step here: it also moves days already generated, by rules of its own, and
  \<open>slot_move_fails_on_its_own_days\<close> below is about it. Steps follow one another: two requests
  that overlap are not modelled at this level.
\<close>

inductive timetable_step :: "rrule_lib \<Rightarrow> date \<times> database \<Rightarrow> date \<times> database \<Rightarrow> bool" for L where
  day_passes: "t \<le> t' \<Longrightarrow> timetable_step L (t, db) (t', db)"
| cycle_created: "create_cycle (open_session db) u kp = (ans, s') \<Longrightarrow> timetable_step L (t, db) (t, committed s')"
| cycle_closed: "close_cycle env (open_session db) u cid = (ans', s') \<Longrightarrow> timetable_step L (t, db) (t, committed s')"
| cycle_opened: "env_rrule env = L \<Longrightarrow> env_today env = t \<Longrightarrow> open_cycle env (open_session db) u cid = (ans'', s') \<Longrightarrow>
    timetable_step L (t, db) (t, committed s')"
| cycle_cloned: "clone_cycle_offerings env (open_session db) u old new = (ans3, s') \<Longrightarrow>
    timetable_step L (t, db) (t, committed s')"
| activity_created: "create_activity (\<lambda>d. d) (open_session db) u ap = (ans4, s') \<Longrightarrow>
    timetable_step L (t, db) (t, committed s')"
| activity_retired: "retire_activity env (open_session db) u aid = (ans5, s') \<Longrightarrow>
    timetable_step L (t, db) (t, committed s')"
| slot_created: "env_rrule env = L \<Longrightarrow> env_today env = t \<Longrightarrow> master_slot_create_ok L p \<Longrightarrow>
    create_master_slot env race (\<lambda>d. d) (open_session db) u p = (ans6, s') \<Longrightarrow>
    timetable_step L (t, db) (t, committed s')"
| slot_retired: "retire_master_slot env (open_session db) u sid = (ans7, s') \<Longrightarrow>
    timetable_step L (t, db) (t, committed s')"
| slot_deleted: "delete_master_slot env (open_session db) u sid = (ans8, s') \<Longrightarrow>
    timetable_step L (t, db) (t, committed s')"
| nightly_run: "env_rrule env = L \<Longrightarrow> env_today env = t \<Longrightarrow>
    materialize_horizon env race (\<lambda>d. d) c db = (n, db', logs) \<Longrightarrow> timetable_step L (t, db) (t, db')"

lemma timetable_step_rules:
  assumes "timetable_step L st st'" and "rrule_lib_ok L" and "timetable_rules L (fst st) (snd st)"
  shows "timetable_rules L (fst st') (snd st')"
  using assms(1)
proof (cases rule: timetable_step.cases)
  case (day_passes t t' db)
  then show ?thesis using assms(3) timetable_rules_later by simp
next
  case (cycle_created db u kp ans s' t)
  then show ?thesis using assms(3) create_cycle_rules[of L t "open_session db" u kp] by simp
next
  case (cycle_closed env db u cid ans s' t)
  then show ?thesis using assms(3) close_cycle_rules[of L t "open_session db" env u cid] by simp
next
  case (cycle_opened env t db u cid ans s')
  then show ?thesis using assms(2,3) open_cycle_rules[of env "open_session db" u cid] by simp
next
  case (cycle_cloned env db u old new ans s' t)
  then show ?thesis using assms(3) clone_cycle_rules[of L t "open_session db" env u old new] by simp
next
  case (activity_created db u ap ans s' t)
  then show ?thesis using assms(3) create_activity_rules[of L t "open_session db" u ap] by simp
next
  case (activity_retired env db u aid ans s' t)
  then show ?thesis using assms(3) retire_activity_rules[of L t "open_session db" env u aid] by simp
next
  case (slot_created env t p race db u ans s')
  then show ?thesis using assms(2,3) create_master_slot_rules[of env "open_session db" p race u] by simp
next
  case (slot_retired env db u sid ans s' t)
  then show ?thesis using assms(3) retire_master_slot_rules[of L t "open_session db" env u sid] by simp
next
  case (slot_deleted env db u sid ans s' t)
  then show ?thesis using assms(3) delete_master_slot_rules[of L t "open_session db" env u sid] by simp
next
  case (nightly_run env t race c db n db' logs)
  then show ?thesis using assms(2,3) materialize_rules[of env t db race c] by simp
qed

section \<open>Examples\<close>

definition ex_roomless :: database where
  "ex_roomless = ex_db\<lparr>daily_ledger_rows := [], structural_master_slots :=
     [ex_slot\<lparr>sl_resource_id := None\<rparr>,
      ex_slot\<lparr>sl_id := 2, sl_resource_id := None, sl_time_window_start := hour 11, sl_time_window_end := hour 12\<rparr>]\<rparr>"

definition no_slot_change :: master_slot_update where
  "no_slot_change = \<lparr>ku_rrule = None, ku_dtstart = None, ku_time_window_start = None, ku_time_window_end = None,
     ku_primary_lead_id = None, ku_target_room_identifier = None\<rparr>"

definition ex_move :: master_slot_update where
  "ex_move = no_slot_change\<lparr>ku_time_window_start := Some (hour 9), ku_time_window_end := Some (hour 10)\<rparr>"

definition ex_restart :: master_slot_update where
  "ex_restart = no_slot_change\<lparr>ku_dtstart := Some (monday + 7)\<rparr>"

text \<open>An expansion in which every rule repeats every day from its start.\<close>

definition daily_lib :: rrule_lib where
  "daily_lib = \<lparr>rr_error = (\<lambda>_ _. None),
     rr_between = (\<lambda>_ start a b.
       let k = (max a start - start + (day_us - 1)) div day_us; n = (b - start) div day_us
       in map (\<lambda>i. start + i * day_us) [k..n]),
     rr_after = (\<lambda>_ start x. Some (start + ((max x start - start + (day_us - 1)) div day_us) * day_us))\<rparr>"

definition ex_daily_env :: app_env where
  "ex_daily_env = ex_env\<lparr>env_rrule := daily_lib, env_ledger_horizon_days := 3\<rparr>"

definition ex_daily_db :: database where
  "ex_daily_db = fst (snd (materialize_horizon ex_daily_env (\<lambda>_ d. d) (\<lambda>d. d) None
     (ex_db\<lparr>reservations := [], daily_ledger_rows := [], structural_master_slots :=
        [ex_slot\<lparr>sl_rrule := ''FREQ=DAILY'', sl_time_window_start := hour 5, sl_time_window_end := hour 6\<rparr>]\<rparr>)))"

definition ex_to_nights :: master_slot_update where
  "ex_to_nights = no_slot_change\<lparr>ku_time_window_start := Some (hour 22), ku_time_window_end := Some (hour 5 + 1800000000)\<rparr>"

lemma ex_timetable_rules: "timetable_rules weekly_lib monday ex_db"
proof -
  have "slots_apart weekly_lib monday ex_db"
    by (simp add: slots_apart_def booked_slots_def ex_db_def)
  moreover have "holds_clear weekly_lib monday ex_db"
    using ex_booking_rules by (simp add: holds_clear_def booking_rules_def)
  moreover have "keys_ok ex_db" "days_follow_slots ex_db"
    by (simp_all add: keys_ok_def days_follow_slots_def ex_defs)
  ultimately show ?thesis using ex_tables_ok ex_ledger_ok by (simp add: timetable_rules_def rows_ok_def)
qed

definition ex_new_slot :: master_slot_create where
  "ex_new_slot = \<lparr>ks_rrule = weekly_monday, ks_dtstart = None, ks_time_window_start = hour 10,
     ks_time_window_end = hour 11, ks_activity_id = 1, ks_primary_lead_id = None, ks_target_room_identifier = ''A1''\<rparr>"

definition ex_after_slot :: session where
  "ex_after_slot = snd (create_master_slot ex_env (\<lambda>_ d. d) (\<lambda>d. d) (open_session ex_db) grace ex_new_slot)"

section \<open>Properties\<close>

text \<open>C11: From tables that keep the timetable's rules, every sequence of nightly runs, days passing and
  requests that make, open, close, copy, retire or delete cycles, activities and slots leads to tables
  that keep them: no two slots in service run on one room
  at once on the dates ahead, no slot and no generated day is laid over a booking still to come,
  and no two generated days share a room.\<close>

theorem timetable_stays_apart:
  assumes "rrule_lib_ok L" and "timetable_rules L t db" and "(timetable_step L)\<^sup>*\<^sup>* (t, db) (t', db')"
  shows "slots_apart L t' db' \<and> holds_clear L t' db' \<and> ledger_ok (daily_ledger_rows db')"
proof -
  have "timetable_rules L (fst (t', db')) (snd (t', db'))"
    using assms(3)
  proof (induction rule: rtranclp_induct)
    case (step y z)
    then show ?case using timetable_step_rules[OF step(2) assms(1)] by blast
  qed (use assms(2) in simp)
  then show ?thesis by (simp add: timetable_rules_def rows_ok_def)
qed

theorem timetable_stays_apart_witness:
  "slots_apart weekly_lib monday (committed ex_after_slot) \<and> holds_clear weekly_lib monday (committed ex_after_slot) \<and>
   ledger_ok (daily_ledger_rows (committed ex_after_slot)) \<and>
   (case check_new_slot ex_env ex_db grace ex_new_slot of Inr (s, _) \<Rightarrow> sl_resource_id s = Some 1 | _ \<Rightarrow> False)"
proof -
  have ok: "master_slot_create_ok weekly_lib ex_new_slot"
    using weekly_lib_stored by (simp add: master_slot_create_ok_def ex_new_slot_def weekly_monday_def hour_def
        valid_time_def day_us_def)
  have env: "env_rrule ex_env = weekly_lib" "env_today ex_env = monday" by (simp_all add: ex_env_def)
  let ?call = "create_master_slot ex_env (\<lambda>_ d. d) (\<lambda>d. d) (open_session ex_db) grace ex_new_slot"
  have "?call = (fst ?call, ex_after_slot)" unfolding ex_after_slot_def by (rule prod.collapse[symmetric])
  from timetable_step.slot_created[OF env ok this]
  have "(timetable_step weekly_lib)\<^sup>*\<^sup>* (monday, ex_db) (monday, committed ex_after_slot)" by (rule r_into_rtranclp)
  note timetable_stays_apart[OF weekly_lib_ok ex_timetable_rules this]
  moreover have "case check_new_slot ex_env ex_db grace ex_new_slot of Inr (s, _) \<Rightarrow> sl_resource_id s = Some 1 | _ \<Rightarrow> False"
    by code_simp
  ultimately show ?thesis by simp
qed


text \<open>A slot with no room takes no room, and is still refused over another slot with none.\<close>

lemma roomless_slot_refused:
  "case fst (update_master_slot ex_env (\<lambda>d. d) (open_session ex_roomless) grace 2 ex_move) of
     Inl (Refused e) \<Rightarrow> status_code e = 409 \<and> error_code_of e = RESOURCE_CONFLICT | _ \<Rightarrow> False"
  by code_simp

text \<open>The days a new start withdraws are reported as updated too.\<close>

lemma withdrawn_days_counted_as_updated:
  "case update_master_slot ex_env (\<lambda>d. d) (open_session ex_horizon) grace 1 ex_restart of
     (Inr r, sess) \<Rightarrow> su_ledger_rows_removed r = 5 \<and> su_ledger_rows_updated r = 4 \<and> daily_ledger_rows (committed sess) = []
   | _ \<Rightarrow> False"
  by code_simp

end
