(* ===== verification/Location.thy ===== *)
theory Location
  imports Ledger_Generator Access
begin

text \<open>
  \<^verbatim>\<open>backend/app/services/location_resolver.py\<close>: where members of staff are right now. Four tiers are
  asked in turn about everybody at once, and the first that says something about a person answers
  for them: a status override kept in Redis, the generated days of yesterday and today, the
  timetable where no day has been generated yet (and the leaves), and the base station.

  The answers are a map from a person's id. Redis is a parameter: the value of each key, or nothing
  at all when it cannot be reached. The moment asked about is the organization's wall clock reading.
\<close>

record located =
  lo_resolved_location :: "string option"
  lo_status :: string

type_synonym answers = "string \<rightharpoonup> located"

type_synonym redis_cache = "(string \<Rightarrow> string option) option"

definition COVERABLE :: "dynamic_state set" where
  "COVERABLE = {SCHEDULED, PROXY_SUBSTITUTE, ON_LEAVE}"

definition covers :: "date \<Rightarrow> time_of_day \<Rightarrow> time_of_day \<Rightarrow> instant \<Rightarrow> bool" where
  "covers day start stop i = (case window_span day start stop of (starts, ends) \<Rightarrow> starts \<le> i \<and> i < ends)"

text \<open>An f-string shows a missing room as \<^verbatim>\<open>None\<close>.\<close>

definition shown :: "string option \<Rightarrow> string" where
  "shown r = (case r of None \<Rightarrow> ''None'' | Some c \<Rightarrow> c)"

definition on_approved_leave :: located where
  "on_approved_leave = \<lparr>lo_resolved_location = Some ''OFF_SITE'', lo_status = ''On Approved Leave''\<rparr>"

definition leading :: "string \<Rightarrow> string option \<Rightarrow> located" where
  "leading code room = \<lparr>lo_resolved_location = room, lo_status = ''Leading '' @ code @ '' in Room '' @ shown room\<rparr>"

definition substituting :: "string option \<Rightarrow> located" where
  "substituting room = \<lparr>lo_resolved_location = room, lo_status = ''Substituting in Room '' @ shown room\<rparr>"

section \<open>Tier 1: the status override\<close>

text \<open>An empty value is no override.\<close>

definition override_of :: "redis_cache \<Rightarrow> string \<Rightarrow> located option" where
  "override_of cache uid = (case cache of None \<Rightarrow> None
     | Some get \<Rightarrow> (case get (''state_override:'' @ uid) of None \<Rightarrow> None
         | Some v \<Rightarrow> if v = [] then None else Some \<lparr>lo_resolved_location = Some ''UNKNOWN'', lo_status = v\<rparr>))"

definition tier_override :: "redis_cache \<Rightarrow> user list \<Rightarrow> answers" where
  "tier_override cache staff =
     fold (\<lambda>p res. case override_of cache (us_id p) of None \<Rightarrow> res | Some l \<Rightarrow> res(us_id p \<mapsto> l)) staff Map.empty"

section \<open>Tier 2: the generated days\<close>

definition running_days :: "database \<Rightarrow> instant \<Rightarrow> string list \<Rightarrow> daily_ledger list" where
  "running_days db i unresolved =
     filter (\<lambda>d. covers (dl_target_date d) (dl_start d) (dl_end d) i)
       (sort_key (\<lambda>d. (dl_target_date d, dl_start d))
         (filter (\<lambda>d. ((\<exists>l \<in> set unresolved. dl_active_lead_id d = Some l) \<or>
               (\<exists>l \<in> set unresolved. dl_substitute_lead_id d = Some l)) \<and>
             (dl_target_date d = date_of i - 1 \<or> dl_target_date d = date_of i) \<and> has_window d)
           (daily_ledger_rows db)))"

text \<open>What a running day says of the person covering it, and of the lead it was generated with.\<close>

definition cover_answer :: "database \<Rightarrow> daily_ledger \<Rightarrow> located option" where
  "cover_answer db d = (if dl_operational_state d \<in> COVERABLE
     then Some (substituting (room_identifier db (dl_resource_id d))) else None)"

definition lead_answer :: "database \<Rightarrow> daily_ledger \<Rightarrow> located option" where
  "lead_answer db d =
     (if dl_operational_state d = ON_LEAVE then Some on_approved_leave
      else if dl_operational_state d = SCHEDULED \<and> dl_substitute_lead_id d = None
      then Some (leading (case get_activity_row db (dl_activity_id d) of None \<Rightarrow> ''a session'' | Some a \<Rightarrow> ac_activity_code a)
             (room_identifier db (dl_resource_id d)))
      else None)"

text \<open>An answer is written for a person who was asked about and has none yet.\<close>

definition answer :: "string list \<Rightarrow> string option \<Rightarrow> located option \<Rightarrow> answers \<Rightarrow> answers" where
  "answer asked who l res = (case who of None \<Rightarrow> res
     | Some p \<Rightarrow> if p \<in> set asked \<and> res p = None then (case l of None \<Rightarrow> res | Some x \<Rightarrow> res(p \<mapsto> x)) else res)"

definition day_step :: "database \<Rightarrow> string list \<Rightarrow> daily_ledger \<Rightarrow> answers \<Rightarrow> answers" where
  "day_step db asked d res =
     answer asked (dl_active_lead_id d) (lead_answer db d)
       (answer asked (dl_substitute_lead_id d) (cover_answer db d) res)"

section \<open>Tier 3: the timetable and the leaves\<close>

definition occurrence_candidates :: "rrule_lib \<Rightarrow> database \<Rightarrow> instant \<Rightarrow> string list \<Rightarrow> (date \<times> master_slot \<times> activity) list" where
  "occurrence_candidates L db i unresolved =
     concat (map (\<lambda>s. case (slot_activity db s, slot_cycle db s) of
         (Some a, Some c) \<Rightarrow>
           if slot_counts db s \<and> (\<exists>l \<in> set unresolved. sl_primary_lead_id s = Some l) \<and>
              cy_date_bounds_start c \<le> date_of i \<and> cy_date_bounds_end c \<ge> date_of i - 1
           then map (\<lambda>day. (day, s, a))
             (occurrences L (sl_rrule s) (sl_dtstart s) (max (date_of i - 1) (cy_date_bounds_start c))
               (min (date_of i) (cy_date_bounds_end c)))
           else []
       | _ \<Rightarrow> []) (structural_master_slots db))"

definition already_generated :: "database \<Rightarrow> instant \<Rightarrow> int \<Rightarrow> date \<Rightarrow> bool" where
  "already_generated db i slot_id day = list_ex (\<lambda>d. dl_master_slot_id d = Some slot_id \<and> dl_target_date d = day \<and>
     (dl_target_date d = date_of i - 1 \<or> dl_target_date d = date_of i)) (daily_ledger_rows db)"

definition absent_on :: "database \<Rightarrow> string \<Rightarrow> date \<Rightarrow> bool" where
  "absent_on db person day = list_ex (\<lambda>g. lg_submitting_user_id g = person \<and>
     lg_approval_state g = VERIFIED_APPROVED \<and> leave_covers g day) (reverse_rsvp_logs db)"

definition slot_answer :: "database \<Rightarrow> instant \<Rightarrow> date \<times> master_slot \<times> activity \<Rightarrow> located option" where
  "slot_answer db i c = (case c of (day, s, a) \<Rightarrow>
     if already_generated db i (sl_id s) day \<or>
        \<not> covers day (sl_time_window_start s) (sl_time_window_end s) i then None
     else if (case sl_primary_lead_id s of None \<Rightarrow> False | Some l \<Rightarrow> absent_on db l day) then Some on_approved_leave
     else Some (leading (ac_activity_code a) (room_identifier db (sl_resource_id s))))"

definition slot_step :: "database \<Rightarrow> instant \<Rightarrow> string list \<Rightarrow> date \<times> master_slot \<times> activity \<Rightarrow> answers \<Rightarrow> answers" where
  "slot_step db i asked c res = answer asked (sl_primary_lead_id (fst (snd c))) (slot_answer db i c) res"

definition leave_step :: "database \<Rightarrow> instant \<Rightarrow> string list \<Rightarrow> string \<Rightarrow> answers \<Rightarrow> answers" where
  "leave_step db i asked l res =
     answer asked (Some l) (if absent_on db l (date_of i) then Some on_approved_leave else None) res"

section \<open>Tier 4 and the whole\<close>

definition base_station :: "user \<Rightarrow> located" where
  "base_station p = \<lparr>lo_resolved_location = Some (case us_assigned_base_station p of
       None \<Rightarrow> ''Unassigned'' | Some b \<Rightarrow> if b = [] then ''Unassigned'' else b),
     lo_status = ''Available / Unassigned''\<rparr>"

definition determine_staff_current_states ::
  "rrule_lib \<Rightarrow> redis_cache \<Rightarrow> instant \<Rightarrow> database \<Rightarrow> user list \<Rightarrow> answers" where
  "determine_staff_current_states L cache i db staff =
     (let resolved1 = tier_override cache staff;
          unresolved = map us_id (filter (\<lambda>p. resolved1 (us_id p) = None) staff);
          resolved2 = fold (day_step db unresolved) (running_days db i unresolved) resolved1;
          still = filter (\<lambda>l. resolved2 l = None) unresolved;
          found = sort_key (\<lambda>c. (fst c, sl_time_window_start (fst (snd c)))) (occurrence_candidates L db i still);
          resolved3 = fold (slot_step db i still) found resolved2;
          resolved4 = fold (leave_step db i still) still resolved3
      in fold (\<lambda>p res. if res (us_id p) = None then res(us_id p \<mapsto> base_station p) else res) staff resolved4)"

end
