(* ===== verification/Ledger_Routes.thy ===== *)
theory Ledger_Routes
  imports Conflicts Schedule Location
begin

text \<open>
  \<^verbatim>\<open>backend/app/api/v1/endpoints/schedule.py\<close>, the routes that read the ledger and the conflict report,
  change one day, and say where staff are. Dates and times of a row are kept as values where the
  response has their text.
\<close>

section \<open>Reading the ledger\<close>

definition visible_ledger :: "database \<Rightarrow> user \<Rightarrow> daily_ledger list \<Rightarrow> daily_ledger list" where
  "visible_ledger db current_user q = (case us_role_type current_user of
     STAFF \<Rightarrow> filter (\<lambda>d. dl_active_lead_id d = Some (us_id current_user) \<or>
       dl_substitute_lead_id d = Some (us_id current_user)) q
   | UNIT_ADMIN \<Rightarrow> (case us_unit_code current_user of None \<Rightarrow> []
       | Some unit \<Rightarrow> filter (\<lambda>d. dl_activity_id d \<in> set (map ac_id (filter (\<lambda>a. ac_unit_code a = unit) (activities db)))) q)
   | MEMBER \<Rightarrow> filter (\<lambda>d. dl_activity_id d \<in> set (map en_activity_id
       (filter (\<lambda>e. en_member_id e = us_id current_user) (activity_enrollments db)))) q
   | ORG_ADMIN \<Rightarrow> q)"

record ledger_row =
  lr_id :: int
  lr_target_date :: date
  lr_activity_code :: "string option"
  lr_activity_title :: "string option"
  lr_resource_id :: "int option"
  lr_target_room_identifier :: "string option"
  lr_time_window_start :: "time_of_day option"
  lr_time_window_end :: "time_of_day option"
  lr_delivery_format :: execution_mode
  lr_virtual_connection_string :: "string option"
  lr_operational_state :: dynamic_state
  lr_active_lead_id :: "string option"
  lr_substitute_lead_id :: "string option"
  lr_latitude_target :: "decimal option"
  lr_longitude_target :: "decimal option"
  lr_altitude_target :: "decimal option"
  lr_precision_radius_meters :: "int option"

text \<open>\<^verbatim>\<open>float(x) if x else None\<close>: a coordinate of zero is shown as none.\<close>

definition truthy :: "decimal option \<Rightarrow> decimal option" where
  "truthy x = (case x of None \<Rightarrow> None | Some v \<Rightarrow> if v = 0 then None else Some v)"

definition ledger_row_of :: "database \<Rightarrow> daily_ledger \<Rightarrow> ledger_row" where
  "ledger_row_of db e =
     (let offering = get_activity_row db (dl_activity_id e)
      in \<lparr>lr_id = dl_id e, lr_target_date = dl_target_date e,
          lr_activity_code = map_option ac_activity_code offering,
          lr_activity_title = map_option ac_activity_title offering,
          lr_resource_id = dl_resource_id e, lr_target_room_identifier = room_identifier db (dl_resource_id e),
          lr_time_window_start = dl_time_window_start e, lr_time_window_end = dl_time_window_end e,
          lr_delivery_format = dl_delivery_format e, lr_virtual_connection_string = dl_virtual_connection_string e,
          lr_operational_state = dl_operational_state e, lr_active_lead_id = dl_active_lead_id e,
          lr_substitute_lead_id = dl_substitute_lead_id e, lr_latitude_target = truthy (dl_latitude_target e),
          lr_longitude_target = truthy (dl_longitude_target e), lr_altitude_target = truthy (dl_altitude_target e),
          lr_precision_radius_meters = dl_precision_radius_meters e\<rparr>)"

definition get_today_ledger :: "app_env \<Rightarrow> database \<Rightarrow> user \<Rightarrow> page \<Rightarrow> ledger_row list \<times> nat" where
  "get_today_ledger env db current_user pg =
     (case page_rows pg dl_id (visible_ledger db current_user
         (filter (\<lambda>d. dl_target_date d = env_today env) (daily_ledger_rows db))) of
        (rows, n) \<Rightarrow> (map (ledger_row_of db) rows, n))"

text \<open>A day without a start sorts last on PostgreSQL and first on SQLite.\<close>

definition start_key :: "backend \<Rightarrow> daily_ledger \<Rightarrow> int \<times> time_of_day" where
  "start_key b d = (case dl_time_window_start d of
     None \<Rightarrow> (if b = PostgreSQL then 1 else -1, 0) | Some t \<Rightarrow> (0, t))"

definition get_ledger_range ::
  "app_env \<Rightarrow> database \<Rightarrow> user \<Rightarrow> date \<Rightarrow> date \<Rightarrow> int option \<Rightarrow> page \<Rightarrow> api_error + (ledger_row list \<times> nat)" where
  "get_ledger_range env db current_user from_date to_date resource_id pg =
     (if to_date < from_date then Inl (chronos_error 422 INVALID_VALUE (Msg ''to is before from''))
      else (let q = filter (\<lambda>d. dl_target_date d \<ge> from_date \<and> dl_target_date d \<le> to_date \<and>
                  (case resource_id of None \<Rightarrow> True | Some r \<Rightarrow> dl_resource_id d = Some r)) (daily_ledger_rows db)
            in case page_rows pg (\<lambda>d. (dl_target_date d, start_key (env_backend env) d, dl_id d))
                 (visible_ledger db current_user q) of
                 (rows, n) \<Rightarrow> Inr (map (ledger_row_of db) rows, n)))"

section \<open>The conflict report\<close>

definition MAX_CONFLICT_RANGE_DAYS :: int where
  "MAX_CONFLICT_RANGE_DAYS = 92"

definition belongs :: "database \<Rightarrow> string \<Rightarrow> conflict_item \<Rightarrow> bool" where
  "belongs db unit item = (case ci_activity_id item of
     Some a \<Rightarrow> list_ex (\<lambda>x. ac_id x = a \<and> ac_unit_code x = unit) (activities db)
   | None \<Rightarrow> (case ci_resource_id item of None \<Rightarrow> False
       | Some r \<Rightarrow> list_ex (\<lambda>x. re_id x = r \<and> re_unit_code x = Some unit) (resources db)))"

definition conflicts_in_unit :: "database \<Rightarrow> conflict list \<Rightarrow> string option \<Rightarrow> conflict list" where
  "conflicts_in_unit db conflicts unit_code = (case unit_code of None \<Rightarrow> []
     | Some unit \<Rightarrow> filter (\<lambda>c. list_ex (belongs db unit) (cf_items c)) conflicts)"

definition get_conflict_report ::
  "app_env \<Rightarrow> database \<Rightarrow> user \<Rightarrow> date \<Rightarrow> date \<Rightarrow> walk_error + (date \<times> date \<times> conflict list)" where
  "get_conflict_report env db current_user from_date to_date =
     bind_result (lift_refusal (bind_result (require_roles [ORG_ADMIN, UNIT_ADMIN] current_user) (\<lambda>_.
       if from_date > to_date then Inl (chronos_error 422 INVALID_VALUE (Msg ''from must not be after to''))
       else if to_date - from_date + 1 > MAX_CONFLICT_RANGE_DAYS
       then Inl (chronos_error 422 INVALID_VALUE (Msg ''the range must not exceed 92 days''))
       else Inr ()))) (\<lambda>_.
     bind_result (find_conflicts env db from_date to_date) (\<lambda>conflicts.
       Inr (from_date, to_date, if us_role_type current_user = UNIT_ADMIN
         then conflicts_in_unit db conflicts (us_unit_code current_user) else conflicts)))"

section \<open>Changing one day\<close>

text \<open>A field left out is \<open>None\<close>; a null that was sent is \<open>Some None\<close>, where the payload allows it.\<close>

record daily_ledger_update =
  du_operational_state :: "dynamic_state option"
  du_substitute_lead_id :: "string option option"
  du_delivery_format :: "execution_mode option"
  du_virtual_connection_string :: "string option option"
  du_latitude_target :: "decimal option option"
  du_longitude_target :: "decimal option option"
  du_altitude_target :: "decimal option option"
  du_precision_radius_meters :: "int option option"

definition patched_day :: "daily_ledger_update \<Rightarrow> daily_ledger \<Rightarrow> daily_ledger" where
  "patched_day p d = d\<lparr>
     dl_operational_state := case_option (dl_operational_state d) id (du_operational_state p),
     dl_substitute_lead_id := case_option (dl_substitute_lead_id d) id (du_substitute_lead_id p),
     dl_delivery_format := case_option (dl_delivery_format d) id (du_delivery_format p),
     dl_virtual_connection_string := case_option (dl_virtual_connection_string d) id (du_virtual_connection_string p),
     dl_latitude_target := case_option (dl_latitude_target d) id (du_latitude_target p),
     dl_longitude_target := case_option (dl_longitude_target d) id (du_longitude_target p),
     dl_altitude_target := case_option (dl_altitude_target d) id (du_altitude_target p),
     dl_precision_radius_meters := case_option (dl_precision_radius_meters d) id (du_precision_radius_meters p)\<rparr>"

definition update_ledger_entry ::
  "session \<Rightarrow> user \<Rightarrow> int \<Rightarrow> daily_ledger_update \<Rightarrow> (walk_error + unit) \<times> session" where
  "update_ledger_entry sess current_user ledger_id p =
     (let db = working sess in
      case bind_result (lift_refusal (bind_result (require_roles [ORG_ADMIN, UNIT_ADMIN] current_user) (\<lambda>_.
             case find (\<lambda>d. dl_id d = ledger_id) (daily_ledger_rows db) of
               None \<Rightarrow> Inl (chronos_error 404 NOT_FOUND (Msg ''Ledger entry not found'')) | Some d \<Rightarrow> Inr d))) (\<lambda>d.
           case get_activity_row db (dl_activity_id d) of None \<Rightarrow> Inl Attribute_Error
           | Some a \<Rightarrow> lift_refusal (bind_result (ensure_unit_scope current_user (Some (ac_unit_code a))) (\<lambda>_.
               case du_substitute_lead_id p of Some (Some l) \<Rightarrow> refuse_unless_active db l ''Substitute'' | _ \<Rightarrow> Inr ()))) of
        Inl e \<Rightarrow> (Inl e, sess)
      | Inr _ \<Rightarrow> (Inr (), db_commit (sess\<lparr>working := db\<lparr>daily_ledger_rows :=
          update_rows (\<lambda>d. dl_id d = ledger_id) (patched_day p) (daily_ledger_rows db)\<rparr>\<rparr>)))"

section \<open>Where staff are\<close>

record staff_location =
  st_staff_id :: string
  st_full_name :: string
  st_unit_code :: "string option"
  st_occupancy_index :: access_readiness
  st_resolved_location :: "string option"
  st_status :: string

definition location_row :: "user \<Rightarrow> located \<Rightarrow> staff_location" where
  "location_row u l = \<lparr>st_staff_id = us_id u, st_full_name = us_full_name u, st_unit_code = us_unit_code u,
     st_occupancy_index = us_current_occupancy_index u, st_resolved_location = lo_resolved_location l,
     st_status = lo_status l\<rparr>"

text \<open>The response of the single lookup requires a place: \<^verbatim>\<open>resolved_location: str\<close>.\<close>

datatype location_error = Not_Found api_error | Response_Invalid | Key_Missing string

definition get_staff_location ::
  "rrule_lib \<Rightarrow> redis_cache \<Rightarrow> instant \<Rightarrow> database \<Rightarrow> string \<Rightarrow> location_error + staff_location" where
  "get_staff_location L cache i db staff_id =
     (case get_user db staff_id of
        Some u \<Rightarrow>
          if us_deactivated_at u \<noteq> None then Inl (Not_Found (chronos_error 404 NOT_FOUND (Msg ''Staff not found'')))
          else (case determine_staff_current_states L cache i db [u] staff_id of
            None \<Rightarrow> Inl (Key_Missing staff_id)
          | Some l \<Rightarrow> if lo_resolved_location l = None then Inl Response_Invalid else Inr (location_row u l))
      | None \<Rightarrow> Inl (Not_Found (chronos_error 404 NOT_FOUND (Msg ''Staff not found''))))"

definition get_all_staff_locations ::
  "rrule_lib \<Rightarrow> redis_cache \<Rightarrow> instant \<Rightarrow> database \<Rightarrow> page \<Rightarrow> location_error + (staff_location list \<times> nat)" where
  "get_all_staff_locations L cache i db pg =
     (case page_rows pg us_id (filter (\<lambda>u. us_role_type u = STAFF \<and> us_deactivated_at u = None) (users db)) of
        (staff, n) \<Rightarrow>
          (let locations = determine_staff_current_states L cache i db staff
           in bind_result (map_result (\<lambda>u. case locations (us_id u) of None \<Rightarrow> Inl (Key_Missing (us_id u))
                | Some l \<Rightarrow> Inr (location_row u l)) staff) (\<lambda>rows. Inr (rows, n))))"

end
