(* ===== verification/Geo_Fence.thy ===== *)
theory Geo_Fence
  imports Prelude
begin

text \<open>
  \<^verbatim>\<open>backend/app/services/geo_fence.py\<close>: whether a device is inside a radius of a target and on its
  floor. The code computes in floating point; the model computes in the real numbers, so what is
  proved here is about the formula and not about its rounding.
\<close>

definition FLOOR_TOLERANCE_METERS :: real where
  "FLOOR_TOLERANCE_METERS = 4"

definition earth_radius :: real where
  "earth_radius = 6371000"

definition radians :: "real \<Rightarrow> real" where
  "radians x = x * pi / 180"

definition haversine :: "real \<Rightarrow> real \<Rightarrow> real \<Rightarrow> real \<Rightarrow> real" where
  "haversine user_lat user_lon target_lat target_lon =
     (let d_lat = radians (target_lat - user_lat); d_lon = radians (target_lon - user_lon)
      in sin (d_lat / 2) ^ 2 + cos (radians user_lat) * cos (radians target_lat) * sin (d_lon / 2) ^ 2)"

definition surface_distance :: "real \<Rightarrow> real \<Rightarrow> real \<Rightarrow> real \<Rightarrow> real" where
  "surface_distance user_lat user_lon target_lat target_lon =
     2 * earth_radius * arcsin (sqrt (haversine user_lat user_lon target_lat target_lon))"

definition validate_3d_presence ::
  "real \<Rightarrow> real \<Rightarrow> real option \<Rightarrow> real \<Rightarrow> real \<Rightarrow> real option \<Rightarrow> real \<Rightarrow> bool" where
  "validate_3d_presence user_lat user_lon user_alt target_lat target_lon target_alt allowed_radius_meters =
     (if (case (user_alt, target_alt) of (Some u, Some t) \<Rightarrow> \<bar>u - t\<bar> > FLOOR_TOLERANCE_METERS | _ \<Rightarrow> False) then False
      else surface_distance user_lat user_lon target_lat target_lon \<le> allowed_radius_meters)"

section \<open>The formula is a chord of the sphere\<close>

text \<open>The number under the root is a quarter of the squared chord between the two points on the unit sphere.\<close>

lemma half_angle_square: "sin (x / 2) ^ 2 = (1 - cos x) / (2 :: real)"
  using cos_double_sin[of "x / 2"] by simp

lemma haversine_chord:
  fixes p l q m :: real
  shows "4 * (sin ((q - p) / 2) ^ 2 + cos p * cos q * sin ((m - l) / 2) ^ 2) =
    (cos p * cos l - cos q * cos m) ^ 2 + (cos p * sin l - cos q * sin m) ^ 2 + (sin p - sin q) ^ 2"
proof -
  have unit: "cos p ^ 2 * cos l ^ 2 + cos p ^ 2 * sin l ^ 2 = cos p ^ 2" for p l :: real
    by (metis distrib_left mult.right_neutral add.commute sin_cos_squared_add)
  have "(cos p * cos l - cos q * cos m) ^ 2 + (cos p * sin l - cos q * sin m) ^ 2 + (sin p - sin q) ^ 2 =
    (cos p ^ 2 * cos l ^ 2 + cos p ^ 2 * sin l ^ 2) + (cos q ^ 2 * cos m ^ 2 + cos q ^ 2 * sin m ^ 2) +
    sin p ^ 2 + sin q ^ 2 - 2 * cos p * cos q * (cos m * cos l + sin m * sin l) - 2 * sin p * sin q"
    by (simp add: power2_eq_square algebra_simps)
  also have "\<dots> = 2 - 2 * cos p * cos q * cos (m - l) - 2 * sin p * sin q"
    unfolding unit cos_diff using sin_cos_squared_add[of p] sin_cos_squared_add[of q] by linarith
  finally show ?thesis
    unfolding half_angle_square by (simp add: cos_diff field_simps)
qed

lemma haversine_bounds: "0 \<le> haversine a b c d" "haversine a b c d \<le> 1"
proof -
  define p l q m where [simp]: "p = radians a" "l = radians b" "q = radians c" "m = radians d"
  have d: "radians (c - a) = q - p" "radians (d - b) = m - l" by (simp_all add: radians_def left_diff_distrib diff_divide_distrib)
  have h: "haversine a b c d = sin ((q - p) / 2) ^ 2 + cos p * cos q * sin ((m - l) / 2) ^ 2"
    unfolding haversine_def d Let_def by simp
  have "0 \<le> 4 * haversine a b c d" unfolding h haversine_chord by simp
  then show "0 \<le> haversine a b c d" by simp
  have "haversine a b c d \<le> (1 + cos (q + p)) / 2 \<or> haversine a b c d \<le> sin ((q - p) / 2) ^ 2"
  proof (cases "0 \<le> cos p * cos q")
    case True
    have "sin ((m - l) / 2) ^ 2 \<le> 1" by (simp add: abs_square_le_1)
    then have "cos p * cos q * sin ((m - l) / 2) ^ 2 \<le> cos p * cos q" using True by (simp add: mult_left_le)
    then have "haversine a b c d \<le> (1 - cos (q - p)) / 2 + cos p * cos q" unfolding h half_angle_square by simp
    also have "\<dots> = (1 + cos (q + p)) / 2" by (simp add: cos_diff cos_add field_simps)
    finally show ?thesis ..
  next
    case False
    then have "cos p * cos q \<le> 0" by linarith
    then have "cos p * cos q * sin ((m - l) / 2) ^ 2 \<le> 0" by (rule mult_nonpos_nonneg) simp
    then show ?thesis unfolding h by simp
  qed
  moreover have "(1 + cos (q + p)) / 2 \<le> 1" using cos_le_one[of "q + p"] by simp
  moreover have "sin ((q - p) / 2) ^ 2 \<le> 1" by (simp add: abs_square_le_1)
  ultimately show "haversine a b c d \<le> 1" by linarith
qed

lemma haversine_sym: "haversine a b c d = haversine c d a b"
proof -
  have neg: "sin (radians (x - y) / 2) ^ 2 = sin (radians (y - x) / 2) ^ 2" for x y
    unfolding half_angle_square radians_def by (metis cos_minus minus_diff_eq minus_divide_left minus_mult_left)
  show ?thesis unfolding haversine_def Let_def neg[of a c] neg[of b d] by (simp add: mult.commute)
qed

section \<open>Properties\<close>


end
