(* ===== verification/Attendance.thy ===== *)
theory Attendance
  imports Ledger_Generator Access Geo_Fence
begin

text \<open>
  \<^verbatim>\<open>backend/app/api/v1/endpoints/attendance.py\<close> and \<^verbatim>\<open>services/reverse_rsvp.py\<close>: marking attendance
  on a session, absence requests and their decision, and notes. A notice sent to a socket after the
  response is a value returned with the answer.
\<close>

section \<open>Payloads\<close>

record attendance_mark_request =
  am_ledger_instance_id :: int
  am_member_id :: string
  am_marking_status :: verification_metric
  am_user_lat :: "real option"
  am_user_lon :: "real option"
  am_user_alt :: "real option"
  am_user_accuracy :: "real option"

record attendance_batch_request =
  ab_ledger_instance_id :: int
  ab_records :: "attendance_mark_request list"

record reverse_rsvp_create =
  ra_target_absence_date :: date
  ra_end_date :: "date option"
  ra_context_justification :: string

definition reverse_rsvp_create_ok :: "reverse_rsvp_create \<Rightarrow> bool" where
  "reverse_rsvp_create_ok p \<longleftrightarrow> (case ra_end_date p of None \<Rightarrow> True | Some e \<Rightarrow> \<not> e < ra_target_absence_date p)"

record annotation_create =
  nc_ledger_instance_id :: int
  nc_classification_tag :: string
  nc_annotation_payload :: string

definition annotation_create_ok :: "annotation_create \<Rightarrow> bool" where
  "annotation_create_ok p \<longleftrightarrow> 1 \<le> length (nc_classification_tag p) \<and> length (nc_classification_tag p) \<le> 30 \<and>
     1 \<le> length (nc_annotation_payload p) \<and> length (nc_annotation_payload p) \<le> 4000"

section \<open>Who runs a session\<close>

definition get_ledger_day :: "database \<Rightarrow> int \<Rightarrow> daily_ledger option" where
  "get_ledger_day db i = find (\<lambda>d. dl_id d = i) (daily_ledger_rows db)"

definition ledger_or_404 :: "database \<Rightarrow> int \<Rightarrow> api_error + daily_ledger" where
  "ledger_or_404 db i = (case get_ledger_day db i of
     None \<Rightarrow> Inl (chronos_error 404 NOT_FOUND (Msg ''Ledger instance not found'')) | Some d \<Rightarrow> Inr d)"

text \<open>A day has an activity by its foreign key; an admin asked about one with none would raise.\<close>

definition has_ledger_authority :: "database \<Rightarrow> user \<Rightarrow> daily_ledger \<Rightarrow> walk_error + bool" where
  "has_ledger_authority db current_user ledger =
     (if Some (us_id current_user) \<in> {dl_active_lead_id ledger, dl_substitute_lead_id ledger} then Inr True
      else if us_role_type current_user \<notin> {ORG_ADMIN, UNIT_ADMIN} then Inr False
      else (case get_activity_row db (dl_activity_id ledger) of None \<Rightarrow> Inl Attribute_Error
            | Some a \<Rightarrow> Inr (in_unit_scope current_user (Some (ac_unit_code a)))))"

definition not_authorized :: api_error where
  "not_authorized = chronos_error 403 FORBIDDEN (Msg ''Not authorized for this ledger'')"

definition ensure_ledger_authority :: "database \<Rightarrow> user \<Rightarrow> daily_ledger \<Rightarrow> walk_error + unit" where
  "ensure_ledger_authority db current_user ledger =
     bind_result (has_ledger_authority db current_user ledger) (\<lambda>ok.
       if ok then Inr () else Inl (Refused not_authorized))"

section \<open>The fence\<close>

type_synonym fence = "real \<times> real \<times> real option"

definition triple :: "decimal option \<Rightarrow> decimal option \<Rightarrow> decimal option \<Rightarrow> fence option" where
  "triple lat lon alt = (case (lat, lon) of
     (Some x, Some y) \<Rightarrow> Some (of_rat x, of_rat y, map_option of_rat alt) | _ \<Rightarrow> None)"

definition fence_target :: "database \<Rightarrow> daily_ledger \<Rightarrow> fence option" where
  "fence_target db ledger =
     (case triple (dl_latitude_target ledger) (dl_longitude_target ledger) (dl_altitude_target ledger) of
        Some f \<Rightarrow> Some f
      | None \<Rightarrow> (case Option.bind (dl_resource_id ledger) (get_resource db) of None \<Rightarrow> None
          | Some room \<Rightarrow> triple (re_latitude room) (re_longitude room) (re_altitude_target room)))"

text \<open>\<^verbatim>\<open>ledger.precision_radius_meters or 15\<close>.\<close>

definition fence_radius :: "daily_ledger \<Rightarrow> int" where
  "fence_radius ledger = (case dl_precision_radius_meters ledger of None \<Rightarrow> 15 | Some r \<Rightarrow> if r = 0 then 15 else r)"

text \<open>\<^verbatim>\<open>{x:.0f}\<close>: the nearest integer, the even one when two are as near.\<close>

definition fixed0 :: "real \<Rightarrow> string" where
  "fixed0 x = show_int (let n = \<lfloor>x\<rfloor>; r = x - of_int n in
     if r < 1 / 2 \<or> (r = 1 / 2 \<and> even n) then n else n + 1)"

definition too_coarse :: "real \<Rightarrow> int \<Rightarrow> real \<Rightarrow> api_error" where
  "too_coarse accuracy radius limit = chronos_error 400 LOCATION_TOO_COARSE
     (Msg (''Location accuracy of '' @ fixed0 accuracy @ '' m is too coarse for this session's '' @
        fixed0 (of_int radius) @ '' m fence; the limit is '' @ fixed0 limit @ '' m''))"

definition check_fence :: "real \<Rightarrow> database \<Rightarrow> daily_ledger \<Rightarrow> attendance_mark_request \<Rightarrow> api_error + unit" where
  "check_fence factor db ledger p =
     (case fence_target db ledger of None \<Rightarrow> Inr ()
      | Some (lat, lon, alt) \<Rightarrow>
          if dl_delivery_format ledger \<noteq> PHYSICAL then Inr ()
          else (case (am_user_lat p, am_user_lon p) of
            (Some ulat, Some ulon) \<Rightarrow>
              (let radius = fence_radius ledger; limit = of_int radius * factor
               in if factor \<noteq> 0 \<and> (case am_user_accuracy p of None \<Rightarrow> False | Some acc \<Rightarrow> acc > limit)
                  then Inl (too_coarse (the (am_user_accuracy p)) radius limit)
                  else if \<not> validate_3d_presence ulat ulon (am_user_alt p) lat lon alt (of_int radius)
                  then Inl (chronos_error 400 OUTSIDE_GEOFENCE (Msg ''Location outside geofence boundary''))
                  else Inr ())
          | _ \<Rightarrow> Inl (chronos_error 400 LOCATION_REQUIRED
              (Msg ''This session is geo-fenced; location coordinates are required''))))"

section \<open>Marking\<close>

definition refuse_unknown_members :: "database \<Rightarrow> string list \<Rightarrow> api_error + unit" where
  "refuse_unknown_members db member_ids =
     (let unknown = sort (remdups (filter (\<lambda>m. m \<notin> set (map us_id (users db))) member_ids))
      in if unknown \<noteq> [] then Inl (chronos_error 404 NOT_FOUND (Msg (''Member not found: '' @ join_with '', '' unknown)))
         else Inr ())"

text \<open>
  One record of a batch against the rows the batch read. A row read is written by its primary key;
  a new one is refused when another transaction has written the member's row in between.
\<close>

definition write_mark ::
  "app_env \<Rightarrow> string \<Rightarrow> int \<Rightarrow> verification_row list \<Rightarrow> attendance_mark_request \<Rightarrow> verification_row list
   \<Rightarrow> integrity_error + verification_row list" where
  "write_mark env agent_id ledger_id existing p rows =
     (case find (\<lambda>r. vl_ledger_instance_id r = ledger_id \<and> vl_member_id r = am_member_id p) existing of
        None \<Rightarrow>
          if list_ex (\<lambda>r. vl_ledger_instance_id r = ledger_id \<and> vl_member_id r = am_member_id p) rows
          then Inl Key_Violation
          else Inr (rows @ [\<lparr>vl_id = fresh_id (map vl_id rows), vl_ledger_instance_id = ledger_id,
            vl_member_id = am_member_id p, vl_marking_status = am_marking_status p,
            vl_authorizing_agent_id = Some agent_id, vl_modification_timestamp = env_now env\<rparr>])
      | Some row \<Rightarrow>
          if vl_marking_status row = am_marking_status p then Inr rows
          else Inr (update_rows (\<lambda>r. vl_id r = vl_id row)
            (\<lambda>r. r\<lparr>vl_marking_status := am_marking_status p, vl_authorizing_agent_id := Some agent_id,
               vl_modification_timestamp := env_now env\<rparr>) rows))"

definition write_marks ::
  "app_env \<Rightarrow> (database \<Rightarrow> database) \<Rightarrow> session \<Rightarrow> int \<Rightarrow> attendance_mark_request list \<Rightarrow> string
   \<Rightarrow> (walk_error + unit) \<times> session" where
  "write_marks env others sess ledger_id records agent_id =
     (let existing = verification_ledger (working sess); db1 = others (working sess);
          sess1 = open_session (others (committed sess))
      in case fold_result (write_mark env agent_id ledger_id existing) records (verification_ledger db1) of
           Inl e \<Rightarrow> (Inl (Integrity e), sess1)
         | Inr rows \<Rightarrow> (Inr (), db_commit (sess1\<lparr>working := db1\<lparr>verification_ledger := rows\<rparr>\<rparr>)))"

definition check_mark ::
  "real \<Rightarrow> database \<Rightarrow> user \<Rightarrow> attendance_mark_request \<Rightarrow> walk_error + daily_ledger" where
  "check_mark factor db current_user p =
     bind_result (lift_refusal (ledger_or_404 db (am_ledger_instance_id p))) (\<lambda>ledger.
     bind_result (if us_role_type current_user = MEMBER
       then (if am_member_id p \<noteq> us_id current_user
             then Inl (Refused (chronos_error 403 FORBIDDEN (Msg ''Cannot mark attendance for another member'')))
             else lift_refusal (check_fence factor db ledger p))
       else ensure_ledger_authority db current_user ledger) (\<lambda>_.
     bind_result (lift_refusal (refuse_unknown_members db [am_member_id p])) (\<lambda>_. Inr ledger)))"

definition mark_attendance ::
  "app_env \<Rightarrow> real \<Rightarrow> (database \<Rightarrow> database) \<Rightarrow> session \<Rightarrow> user \<Rightarrow> attendance_mark_request
   \<Rightarrow> (walk_error + (string \<times> verification_metric)) \<times> session" where
  "mark_attendance env factor others sess current_user p =
     (case check_mark factor (working sess) current_user p of
        Inl e \<Rightarrow> (Inl e, sess)
      | Inr ledger \<Rightarrow> (case write_marks env others sess (dl_id ledger) [p] (us_id current_user) of
          (Inl e, sess') \<Rightarrow> (Inl e, sess')
        | (Inr _, sess') \<Rightarrow> (Inr (am_member_id p, am_marking_status p), sess')))"

definition check_batch :: "database \<Rightarrow> user \<Rightarrow> attendance_batch_request \<Rightarrow> walk_error + daily_ledger" where
  "check_batch db current_user b =
     bind_result (lift_refusal (ledger_or_404 db (ab_ledger_instance_id b))) (\<lambda>ledger.
     bind_result (ensure_ledger_authority db current_user ledger) (\<lambda>_.
     let stray = sort (remdups (filter (\<lambda>i. i \<noteq> dl_id ledger) (map am_ledger_instance_id (ab_records b))));
         members = map am_member_id (ab_records b);
         repeated = sort (remdups (filter (\<lambda>m. 1 < length (filter (\<lambda>x. x = m) members)) members))
     in if stray \<noteq> [] then Inl (Refused (chronos_error 422 INVALID_VALUE
          (Msg (''Every record must name ledger '' @ show_int (dl_id ledger) @ '', not '' @
             join_with '', '' (map show_int stray)))))
        else if repeated \<noteq> [] then Inl (Refused (chronos_error 422 INVALID_VALUE
          (Msg (''Listed more than once: '' @ join_with '', '' repeated))))
        else bind_result (lift_refusal (refuse_unknown_members db members)) (\<lambda>_. Inr ledger)))"

definition batch_mark_attendance ::
  "app_env \<Rightarrow> (database \<Rightarrow> database) \<Rightarrow> session \<Rightarrow> user \<Rightarrow> attendance_batch_request
   \<Rightarrow> (walk_error + nat) \<times> session" where
  "batch_mark_attendance env others sess current_user b =
     (case check_batch (working sess) current_user b of
        Inl e \<Rightarrow> (Inl e, sess)
      | Inr ledger \<Rightarrow> (case write_marks env others sess (dl_id ledger) (ab_records b) (us_id current_user) of
          (Inl e, sess') \<Rightarrow> (Inl e, sess')
        | (Inr _, sess') \<Rightarrow> (Inr (length (ab_records b)), sess')))"

definition get_attendance_for_ledger ::
  "database \<Rightarrow> user \<Rightarrow> int \<Rightarrow> walk_error + verification_row list" where
  "get_attendance_for_ledger db current_user ledger_id =
     bind_result (lift_refusal (ledger_or_404 db ledger_id)) (\<lambda>ledger.
     let rows = filter (\<lambda>r. vl_ledger_instance_id r = ledger_id) (verification_ledger db) in
     bind_result (has_ledger_authority db current_user ledger) (\<lambda>ok.
       if ok then Inr rows
       else if us_role_type current_user = MEMBER then Inr (filter (\<lambda>r. vl_member_id r = us_id current_user) rows)
       else Inl (Refused not_authorized)))"

section \<open>Absence requests\<close>

definition get_log :: "database \<Rightarrow> int \<Rightarrow> rsvp_log option" where
  "get_log db i = find (\<lambda>g. lg_id g = i) (reverse_rsvp_logs db)"

definition route_absence_declaration ::
  "session \<Rightarrow> string \<Rightarrow> date \<Rightarrow> string \<Rightarrow> date option \<Rightarrow> (api_error + rsvp_log) \<times> session" where
  "route_absence_declaration sess submitting_user absence_date reasoning end_date =
     (let db = working sess;
          manager = Option.bind (Option.bind (get_user db submitting_user) us_reporting_line_manager) (get_user db)
      in if (case manager of None \<Rightarrow> True | Some m \<Rightarrow> us_deactivated_at m \<noteq> None)
         then (Inl (chronos_error 400 MANAGER_NOT_SET
           (Msg ''Reporting hierarchy missing. Contact admin to set your manager.'')), sess)
         else (let entry = \<lparr>lg_id = fresh_id (map lg_id (reverse_rsvp_logs db)),
                 lg_submitting_user_id = submitting_user, lg_target_absence_date = absence_date,
                 lg_end_date = end_date, lg_context_justification = reasoning,
                 lg_approval_state = PENDING_VERIFICATION,
                 lg_authorized_by_user_id = Option.bind (get_user db submitting_user) us_reporting_line_manager\<rparr>
               in (Inr entry, db_commit (sess\<lparr>working := db\<lparr>reverse_rsvp_logs := reverse_rsvp_logs db @ [entry]\<rparr>\<rparr>))))"

text \<open>The days a request is about: those its submitter leads, from the first to the last date.\<close>

definition in_leave_range :: "rsvp_log \<Rightarrow> daily_ledger \<Rightarrow> bool" where
  "in_leave_range g d \<longleftrightarrow> dl_active_lead_id d = Some (lg_submitting_user_id g) \<and> leave_covers g (dl_target_date d)"

definition commit_absence_override ::
  "session \<Rightarrow> int \<Rightarrow> string \<Rightarrow> log_verification_state \<Rightarrow> session" where
  "commit_absence_override sess log_id execution_agent new_state =
     (let db = working sess in
      case get_log db log_id of None \<Rightarrow> sess
      | Some g \<Rightarrow>
          (let db1 = db\<lparr>reverse_rsvp_logs := update_rows (\<lambda>x. lg_id x = log_id)
                 (\<lambda>x. x\<lparr>lg_approval_state := new_state, lg_authorized_by_user_id := Some execution_agent\<rparr>)
                 (reverse_rsvp_logs db)\<rparr>;
               rows = (if new_state = VERIFIED_APPROVED
                 then update_rows (in_leave_range g)
                   (\<lambda>d. d\<lparr>dl_operational_state := ON_LEAVE, dl_substitute_lead_id := None\<rparr>) (daily_ledger_rows db)
                 else update_rows (\<lambda>d. in_leave_range g d \<and> dl_operational_state d = ON_LEAVE)
                   (\<lambda>d. d\<lparr>dl_operational_state := SCHEDULED\<rparr>) (daily_ledger_rows db))
           in db_commit (sess\<lparr>working := db1\<lparr>daily_ledger_rows := rows\<rparr>\<rparr>)))"

text \<open>A notice for a socket: to whom, and which request it is about.\<close>

datatype notice = Approval_Required "string option" int string date "date option" | Decided string int log_verification_state

definition submit_absence ::
  "session \<Rightarrow> user \<Rightarrow> reverse_rsvp_create \<Rightarrow> (api_error + (rsvp_log \<times> notice)) \<times> session" where
  "submit_absence sess current_user p =
     (case route_absence_declaration sess (us_id current_user) (ra_target_absence_date p)
         (ra_context_justification p) (ra_end_date p) of
        (Inl e, s) \<Rightarrow> (Inl e, s)
      | (Inr g, s) \<Rightarrow> (Inr (g, Approval_Required (lg_authorized_by_user_id g) (lg_id g)
          (us_full_name current_user) (ra_target_absence_date p) (ra_end_date p)), s))"

definition decidable_by :: "database \<Rightarrow> user \<Rightarrow> rsvp_log \<Rightarrow> bool" where
  "decidable_by db current_user g =
     (let mine = (lg_authorized_by_user_id g = Some (us_id current_user));
          left_behind = ((case lg_authorized_by_user_id g of None \<Rightarrow> True
              | Some a \<Rightarrow> list_ex (\<lambda>u. us_id u = a \<and> us_deactivated_at u \<noteq> None) (users db)) \<and>
            lg_submitting_user_id g \<noteq> us_id current_user)
      in case us_role_type current_user of
           ORG_ADMIN \<Rightarrow> mine \<or> left_behind
         | UNIT_ADMIN \<Rightarrow> mine \<or> (us_unit_code current_user \<noteq> None \<and> left_behind \<and>
             list_ex (\<lambda>u. us_id u = lg_submitting_user_id g \<and> us_unit_code u = us_unit_code current_user \<and>
               us_role_type u \<notin> {ORG_ADMIN, UNIT_ADMIN}) (users db))
         | _ \<Rightarrow> mine)"

definition get_pending_absences :: "database \<Rightarrow> user \<Rightarrow> rsvp_log list" where
  "get_pending_absences db current_user =
     filter (\<lambda>g. decidable_by db current_user g \<and> lg_approval_state g = PENDING_VERIFICATION) (reverse_rsvp_logs db)"

definition decide_absence ::
  "session \<Rightarrow> user \<Rightarrow> int \<Rightarrow> log_verification_state \<Rightarrow> (api_error + (log_verification_state \<times> notice)) \<times> session" where
  "decide_absence sess current_user log_id decision =
     (case find (\<lambda>g. lg_id g = log_id \<and> decidable_by (working sess) current_user g) (reverse_rsvp_logs (working sess)) of
        None \<Rightarrow> (Inl (chronos_error 404 NOT_FOUND (Msg ''Absence request not found or not authorized'')), sess)
      | Some g \<Rightarrow> (Inr (decision, Decided (lg_submitting_user_id g) log_id decision),
          commit_absence_override sess log_id (us_id current_user) decision))"

section \<open>Notes\<close>

definition create_annotation ::
  "app_env \<Rightarrow> session \<Rightarrow> user \<Rightarrow> annotation_create \<Rightarrow> (walk_error + ledger_annotation) \<times> session" where
  "create_annotation env sess current_user p =
     (let db = working sess in
      case bind_result (lift_refusal (ledger_or_404 db (nc_ledger_instance_id p))) (\<lambda>ledger.
           ensure_ledger_authority db current_user ledger) of
        Inl e \<Rightarrow> (Inl e, sess)
      | Inr _ \<Rightarrow>
          (let note = \<lparr>an_id = fresh_id (map an_id (ledger_annotations db)),
                 an_ledger_instance_id = nc_ledger_instance_id p, an_creator_id = us_id current_user,
                 an_classification_tag = nc_classification_tag p,
                 an_annotation_payload = nc_annotation_payload p, an_distribution_timestamp = env_now env\<rparr>
           in (Inr note, db_commit (sess\<lparr>working := db\<lparr>ledger_annotations := ledger_annotations db @ [note]\<rparr>\<rparr>))))"

definition get_annotations :: "database \<Rightarrow> user \<Rightarrow> int \<Rightarrow> walk_error + ledger_annotation list" where
  "get_annotations db current_user ledger_id =
     bind_result (lift_refusal (ledger_or_404 db ledger_id)) (\<lambda>ledger.
     bind_result (ensure_ledger_authority db current_user ledger) (\<lambda>_.
       Inr (filter (\<lambda>n. an_ledger_instance_id n = ledger_id) (ledger_annotations db))))"

end
