(* ===== verification/Location_Props.thy ===== *)
theory Location_Props
  imports Ledger_Routes Attendance Reservations_Props
begin

text \<open>
  The locator asks each tier about everybody at once. Here it is shown to answer for each person
  what a lookup of that person alone would: the reference definition \<open>locate\<close> reads the rows of one
  person and takes the first that says something.
\<close>

section \<open>The reference: one person\<close>

fun first_some :: "('a \<Rightarrow> 'b option) \<Rightarrow> 'a list \<Rightarrow> 'b option" where
  "first_some f [] = None"
| "first_some f (x # xs) = (case f x of None \<Rightarrow> first_some f xs | Some y \<Rightarrow> Some y)"

definition or_else :: "'a option \<Rightarrow> 'a option \<Rightarrow> 'a option" where
  "or_else x y = (case x of None \<Rightarrow> y | Some _ \<Rightarrow> x)"

definition day_answer :: "database \<Rightarrow> string \<Rightarrow> daily_ledger \<Rightarrow> located option" where
  "day_answer db p d = or_else
     (if dl_substitute_lead_id d = Some p then cover_answer db d else None)
     (if dl_active_lead_id d = Some p then lead_answer db d else None)"

definition locate :: "rrule_lib \<Rightarrow> redis_cache \<Rightarrow> instant \<Rightarrow> database \<Rightarrow> user \<Rightarrow> located" where
  "locate L cache i db u =
     (let p = us_id u in
      case or_else (override_of cache p)
          (or_else (first_some (day_answer db p) (running_days db i [p]))
          (or_else (first_some (slot_answer db i) (sort_key (\<lambda>c. (fst c, sl_time_window_start (fst (snd c))))
              (occurrence_candidates L db i [p])))
            (if absent_on db p (date_of i) then Some on_approved_leave else None))) of
        Some l \<Rightarrow> l | None \<Rightarrow> base_station u)"

section \<open>Folding answers\<close>

lemma or_else_simps [simp]: "or_else None y = y" "or_else (Some x) y = Some x"
  by (simp_all add: or_else_def)

lemma or_else_assoc: "or_else (or_else x y) z = or_else x (or_else y z)"
  by (cases x) simp_all

lemma or_else_None [simp]: "or_else x None = x"
  by (cases x) simp_all

lemma answer_at:
  "answer asked who l res p =
     (if p \<in> set asked then or_else (res p) (if who = Some p then l else None) else res p)"
  by (auto simp: answer_def or_else_def split: option.splits)

lemma first_some_or_else: "first_some f (x # xs) = or_else (f x) (first_some f xs)"
  by (cases "f x") simp_all

lemma fold_answers:
  assumes "\<And>x res. step x res p = (if p \<in> set asked then or_else (res p) (f x) else res p)"
  shows "fold step xs res p = (if p \<in> set asked then or_else (res p) (first_some f xs) else res p)"
proof (induction xs arbitrary: res)
  case (Cons x xs)
  then show ?case by (simp add: assms first_some_or_else or_else_assoc del: first_some.simps(2))
qed simp

lemma first_some_filter: "(\<And>x. x \<in> set xs \<Longrightarrow> \<not> P x \<Longrightarrow> f x = None) \<Longrightarrow> first_some f (filter P xs) = first_some f xs"
  by (induction xs) (auto split: option.splits)

lemma first_some_cong: "(\<And>x. x \<in> set xs \<Longrightarrow> f x = g x) \<Longrightarrow> first_some f xs = first_some g xs"
  by (induction xs) (auto split: option.splits)

lemma day_step_at:
  "day_step db asked d res p = (if p \<in> set asked then or_else (res p) (day_answer db p d) else res p)"
  by (simp add: day_step_def answer_at day_answer_def or_else_assoc)

lemma slot_step_at:
  "slot_step db i asked c res p =
     (if p \<in> set asked then or_else (res p) (if sl_primary_lead_id (fst (snd c)) = Some p then slot_answer db i c else None)
      else res p)"
  by (simp add: slot_step_def answer_at)

lemma leave_step_at:
  "leave_step db i asked l res p =
     (if p \<in> set asked then or_else (res p)
        (if l = p then (if absent_on db p (date_of i) then Some on_approved_leave else None) else None) else res p)"
  by (auto simp: leave_step_def answer_at)

lemma fold_days_at:
  "fold (day_step db asked) xs res p = (if p \<in> set asked then or_else (res p) (first_some (day_answer db p) xs) else res p)"
  by (rule fold_answers) (rule day_step_at)

lemma fold_slots_at:
  "fold (slot_step db i asked) xs res p = (if p \<in> set asked then or_else (res p) (first_some
     (\<lambda>c. if sl_primary_lead_id (fst (snd c)) = Some p then slot_answer db i c else None) xs) else res p)"
  by (rule fold_answers) (rule slot_step_at)

lemma fold_leaves_at:
  "fold (leave_step db i asked) xs res p = (if p \<in> set asked then or_else (res p) (first_some
     (\<lambda>l. if l = p then (if absent_on db p (date_of i) then Some on_approved_leave else None) else None) xs) else res p)"
  by (rule fold_answers) (rule leave_step_at)

section \<open>The rows of one person\<close>

text \<open>Asking about more people adds rows that say nothing about this one.\<close>

lemma running_days_one:
  assumes "p \<in> set asked"
  shows "first_some (day_answer db p) (running_days db i asked) = first_some (day_answer db p) (running_days db i [p])"
proof -
  let ?mine = "\<lambda>d. dl_active_lead_id d = Some p \<or> dl_substitute_lead_id d = Some p"
  have "running_days db i [p] = filter ?mine (running_days db i asked)"
    unfolding running_days_def filter_filter filter_sort[symmetric]
    by (simp add: filter_sort) (rule arg_cong[of _ _ "sort_key _"], rule filter_cong, use assms in auto)
  then show ?thesis using first_some_filter[of "running_days db i asked" ?mine "day_answer db p"]
    by (simp add: day_answer_def)
qed

lemma candidates_mine:
  "c \<in> set (occurrence_candidates L db i asked) \<Longrightarrow> \<exists>l \<in> set asked. sl_primary_lead_id (fst (snd c)) = Some l"
  by (auto simp: occurrence_candidates_def split: option.splits if_splits)

lemma candidates_one:
  assumes "p \<in> set asked"
  shows "occurrence_candidates L db i [p] = filter (\<lambda>c. sl_primary_lead_id (fst (snd c)) = Some p) (occurrence_candidates L db i asked)"
  unfolding occurrence_candidates_def List.filter_concat map_map
proof (rule arg_cong[of _ _ concat], rule map_cong[OF refl])
  fix s
  show "(case (slot_activity db s, slot_cycle db s) of
      (Some a, Some c) \<Rightarrow> if slot_counts db s \<and> (\<exists>l \<in> set [p]. sl_primary_lead_id s = Some l) \<and>
          cy_date_bounds_start c \<le> date_of i \<and> cy_date_bounds_end c \<ge> date_of i - 1
        then map (\<lambda>day. (day, s, a)) (occurrences L (sl_rrule s) (sl_dtstart s) (max (date_of i - 1) (cy_date_bounds_start c))
          (min (date_of i) (cy_date_bounds_end c))) else []
    | _ \<Rightarrow> []) =
    (filter (\<lambda>c. sl_primary_lead_id (fst (snd c)) = Some p) \<circ> (\<lambda>s. case (slot_activity db s, slot_cycle db s) of
      (Some a, Some c) \<Rightarrow> if slot_counts db s \<and> (\<exists>l \<in> set asked. sl_primary_lead_id s = Some l) \<and>
          cy_date_bounds_start c \<le> date_of i \<and> cy_date_bounds_end c \<ge> date_of i - 1
        then map (\<lambda>day. (day, s, a)) (occurrences L (sl_rrule s) (sl_dtstart s) (max (date_of i - 1) (cy_date_bounds_start c))
          (min (date_of i) (cy_date_bounds_end c))) else []
    | _ \<Rightarrow> [])) s"
    using assms by (cases "sl_primary_lead_id s = Some p") (auto simp: filter_map o_def split: option.splits)
qed

lemma slots_one:
  assumes "p \<in> set asked"
  shows "first_some (\<lambda>c. if sl_primary_lead_id (fst (snd c)) = Some p then slot_answer db i c else None)
      (sort_key k (occurrence_candidates L db i asked)) =
    first_some (slot_answer db i) (sort_key k (occurrence_candidates L db i [p]))" (is "first_some ?f _ = _")
proof -
  let ?mine = "\<lambda>c. sl_primary_lead_id (fst (snd c)) = Some p"
  have "first_some ?f (sort_key k (occurrence_candidates L db i asked)) =
      first_some ?f (filter ?mine (sort_key k (occurrence_candidates L db i asked)))"
    by (rule first_some_filter[symmetric]) simp
  also have "\<dots> = first_some ?f (sort_key k (occurrence_candidates L db i [p]))"
    by (simp add: filter_sort candidates_one[OF assms])
  also have "\<dots> = first_some (slot_answer db i) (sort_key k (occurrence_candidates L db i [p]))"
    by (rule first_some_cong) (auto dest: candidates_mine)
  finally show ?thesis .
qed

lemma leaves_one:
  "first_some (\<lambda>l. if l = p then x else None) asked = (if p \<in> set asked then x else None)"
  by (induction asked) (auto split: option.splits)

section \<open>The locator\<close>

lemma tier_override_at: "tier_override cache staff p = (if p \<in> us_id ` set staff then override_of cache p else None)"
proof -
  have "fold (\<lambda>u res. case override_of cache (us_id u) of None \<Rightarrow> res | Some l \<Rightarrow> res(us_id u \<mapsto> l)) staff res p =
      (if p \<in> us_id ` set staff then or_else (override_of cache p) (res p) else res p)" for res
    by (induction staff arbitrary: res) (auto split: option.splits)
  then show ?thesis by (simp add: tier_override_def)
qed

lemma base_fold_at:
  "fold (\<lambda>u res. if res (us_id u) = None then res(us_id u \<mapsto> base_station u) else res) staff res p =
   or_else (res p) (first_some (\<lambda>u. if us_id u = p then Some (base_station u) else None) staff)"
  by (induction staff arbitrary: res) (auto simp: or_else_def split: option.splits)

lemma base_first:
  assumes "u \<in> set staff" and "inj_on us_id (set staff)"
  shows "first_some (\<lambda>x. if us_id x = us_id u then Some (base_station x) else None) staff = Some (base_station u)"
  using assms by (induction staff) (auto simp: inj_on_def)

lemma locator_at:
  assumes "u \<in> set staff" and "inj_on us_id (set staff)"
  shows "determine_staff_current_states L cache i db staff (us_id u) = Some (locate L cache i db u)"
proof -
  let ?p = "us_id u" and ?k = "\<lambda>c. (fst c, sl_time_window_start (fst (snd c)))"
  define r1 where "r1 = tier_override cache staff"
  define unres where "unres = map us_id (filter (\<lambda>p. r1 (us_id p) = None) staff)"
  define r2 where "r2 = fold (day_step db unres) (running_days db i unres) r1"
  define still where "still = filter (\<lambda>l. r2 l = None) unres"
  define r3 where "r3 = fold (slot_step db i still) (sort_key ?k (occurrence_candidates L db i still)) r2"
  define r4 where "r4 = fold (leave_step db i still) still r3"
  have det: "determine_staff_current_states L cache i db staff =
      fold (\<lambda>u res. if res (us_id u) = None then res(us_id u \<mapsto> base_station u) else res) staff r4"
    unfolding determine_staff_current_states_def Let_def r1_def unres_def r2_def still_def r3_def r4_def ..
  let ?days = "first_some (day_answer db ?p) (running_days db i [?p])"
  let ?slots = "first_some (slot_answer db i) (sort_key ?k (occurrence_candidates L db i [?p]))"
  let ?leave = "if absent_on db ?p (date_of i) then Some on_approved_leave else None"
  have 1: "r1 ?p = override_of cache ?p" unfolding r1_def tier_override_at using assms(1) by simp
  have asked: "?p \<in> set unres \<longleftrightarrow> r1 ?p = None"
    unfolding unres_def using assms(1) by (auto intro: rev_image_eqI)
  have 2: "r2 ?p = or_else (override_of cache ?p) ?days"
  proof (cases "?p \<in> set unres")
    case True
    then show ?thesis unfolding r2_def fold_days_at using running_days_one[OF True] 1 by simp
  next
    case False
    then have "\<exists>l. r1 ?p = Some l" using asked by auto
    with False show ?thesis unfolding r2_def fold_days_at using 1 by auto
  qed
  have still: "?p \<in> set still \<longleftrightarrow> r2 ?p = None"
    unfolding still_def using asked 1 2 by (auto simp: or_else_def split: option.splits)
  have 3: "r3 ?p = or_else (r2 ?p) ?slots"
  proof (cases "?p \<in> set still")
    case True
    then show ?thesis unfolding r3_def fold_slots_at slots_one[OF True] by simp
  next
    case False
    then have "\<exists>l. r2 ?p = Some l" using still by auto
    with False show ?thesis unfolding r3_def fold_slots_at by auto
  qed
  have 4: "r4 ?p = or_else (r3 ?p) ?leave"
  proof (cases "?p \<in> set still")
    case True
    then show ?thesis unfolding r4_def fold_leaves_at leaves_one by simp
  next
    case False
    then have "\<exists>l. r3 ?p = Some l" using still 3 by auto
    with False show ?thesis unfolding r4_def fold_leaves_at by auto
  qed
  show ?thesis
    unfolding det base_fold_at base_first[OF assms] locate_def Let_def 4 3 2 or_else_assoc
    by (simp add: or_else_def split: option.splits)
qed

section \<open>Examples\<close>

definition ada :: user where
  "ada = ex_user ''ada'' STAFF"

definition ex_leave :: "date \<Rightarrow> date option \<Rightarrow> reverse_rsvp_create" where
  "ex_leave d e = \<lparr>ra_target_absence_date = d, ra_end_date = e, ra_context_justification = ''conference''\<rparr>"

text \<open>Two requests of one lead that overlap on Monday, both approved, and the second withdrawn.\<close>

definition ex_two_leaves :: database where
  "ex_two_leaves =
     (let s1 = snd (submit_absence (open_session ex_db) ada (ex_leave monday (Some (monday + 2))));
          s2 = snd (submit_absence s1 ada (ex_leave (monday - 1) (Some monday)));
          s3 = snd (decide_absence s2 grace 1 VERIFIED_APPROVED);
          s4 = snd (decide_absence s3 grace 2 VERIFIED_APPROVED)
      in committed s4)"

definition ex_one_leave :: database where
  "ex_one_leave = committed (snd (decide_absence (open_session ex_two_leaves) grace 2 VERIFIED_DENIED))"

definition no_redis :: redis_cache where
  "no_redis = None"

definition ex_no_room :: database where
  "ex_no_room = ex_db\<lparr>daily_ledger_rows := [ex_day\<lparr>dl_resource_id := None\<rparr>]\<rparr>"

text \<open>A lead of a class with no room cannot be looked up alone, and is listed with no place.\<close>

lemma roomless_lead_breaks_lookup:
  "get_staff_location weekly_lib no_redis (combine monday (hour 9)) ex_no_room ''ada'' = Inl Response_Invalid \<and>
   map_sum id (map st_resolved_location \<circ> fst) (get_all_staff_locations weekly_lib no_redis (combine monday (hour 9)) ex_no_room
     \<lparr>pg_limit = None, pg_offset = 0\<rparr>) = Inr [None]"
  by (rule conjI; code_simp)

text \<open>A session on the equator is fenced there, and its row shows no latitude.\<close>

lemma equator_row_shows_no_latitude:
  "lr_latitude_target (ledger_row_of db (d\<lparr>dl_latitude_target := Some 0, dl_longitude_target := Some 30\<rparr>)) = None \<and>
   (\<exists>alt. fence_target db (d\<lparr>dl_latitude_target := Some 0, dl_longitude_target := Some 30\<rparr>) = Some (0, 30, alt))"
  by (simp add: ledger_row_of_def Let_def truthy_def fence_target_def triple_def)

section \<open>Properties\<close>

text \<open>C24: The locator answers for each person on its list what a lookup of that person alone answers: the
  first of the tiers (override, running days, timetable and leave, base station) that says something
  about them, read off their own rows. Who else is on the list changes nothing, and nobody on it is
  left without an answer.\<close>

theorem locator_answers_each_alone:
  assumes "u \<in> set staff" and "inj_on us_id (set staff)"
  shows "determine_staff_current_states L cache i db staff (us_id u) = Some (locate L cache i db u) \<and>
    determine_staff_current_states L cache i db [u] (us_id u) = Some (locate L cache i db u)"
  using locator_at[OF assms] locator_at[of u "[u]"] by simp

theorem locator_answers_each_alone_witness:
  "determine_staff_current_states weekly_lib no_redis (combine monday (hour 9)) ex_db [grace, ada] (us_id ada) =
     Some (locate weekly_lib no_redis (combine monday (hour 9)) ex_db ada) \<and>
   lo_status (locate weekly_lib no_redis (combine monday (hour 9)) ex_db ada) = ''Leading CS1 in Room A1''"
proof -
  have "ada \<in> set [grace, ada]" "inj_on us_id (set [grace, ada])"
    by (simp_all add: grace_def ada_def ex_user_def)
  from locator_answers_each_alone[OF this]
  have "determine_staff_current_states weekly_lib no_redis (combine monday (hour 9)) ex_db [grace, ada] (us_id ada) =
     Some (locate weekly_lib no_redis (combine monday (hour 9)) ex_db ada)" by blast
  moreover have "lo_status (locate weekly_lib no_redis (combine monday (hour 9)) ex_db ada) = ''Leading CS1 in Room A1''"
    by code_simp
  ultimately show ?thesis by simp
qed

text \<open>Taking back one approved absence puts its lead back on days another approved absence still covers:
  the rows are set to SCHEDULED without asking whether another request holds them. The generator
  would still mark a new day of that date as leave, and the locator reports the absent lead as
  leading the class.\<close>

theorem denied_leave_unmarks_other_leave:
  "on_leave ex_one_leave (Some ''ada'') monday \<and>
   map dl_operational_state (daily_ledger_rows ex_two_leaves) = [ON_LEAVE] \<and>
   map dl_operational_state (daily_ledger_rows ex_one_leave) = [SCHEDULED] \<and>
   map_option lo_status (determine_staff_current_states weekly_lib no_redis (combine monday (hour 9)) ex_one_leave [ada] ''ada'') =
     Some ''Leading CS1 in Room A1''"
  by (intro conjI; code_simp)

end
