(* ===== verification/Sessions.thy ===== *)
theory Sessions
  imports App_Env Py_Strings
begin

text \<open>
  Signing in and staying signed in: \<^verbatim>\<open>backend/app/api/v1/endpoints/auth.py\<close> (login, refresh, logout,
  change of password), \<^verbatim>\<open>cron/refresh_token_cleanup.py\<close>, and of \<^verbatim>\<open>core/security.py\<close> the visit codes, the
  scopes of API keys and the decision who a request speaks for.

  bcrypt, the JWT library, SHA-256 and the random generators are parameters. A raw token that is
  minted is an argument of the call that mints it. The columns of the users table that only this
  code reads are kept in \<open>account\<close>.
\<close>

section \<open>Tables\<close>

record refresh_token =
  rt_id :: int
  rt_token_hash :: string
  rt_user_id :: string
  rt_family_id :: string
  rt_expires_at :: instant
  rt_consumed_at :: "instant option"
  rt_created_at :: instant

record account =
  at_id :: string
  at_full_name :: string
  at_email_address :: string
  at_credential_secure_hash :: string
  at_role_type :: institutional_role
  at_organization_id :: string
  at_initial_login_state :: bool
  at_calendar_feed_token :: "string option"
  at_deactivated_at :: "instant option"

record api_key =
  ak_id :: int
  ak_key_hash :: string
  ak_user_id :: string
  ak_organization_id :: string
  ak_scopes :: string
  ak_expires_at :: "instant option"
  ak_key_prefix :: string
  ak_label :: string
  ak_created_at :: instant

record auth_tables =
  refresh_tokens :: "refresh_token list"
  accounts :: "account list"
  api_keys :: "api_key list"

text \<open>What the code takes from outside: the digest, the password check and the settings.\<close>

record auth_env =
  ae_now :: instant
  ae_sha256 :: "string \<Rightarrow> string"
  ae_checkpw :: "string \<Rightarrow> string \<Rightarrow> bool"
  ae_absent_account_hash :: string
  ae_refresh_days :: int

datatype auth_code =
    INVALID_CREDENTIALS | TOKEN_INVALID | API_KEY_INVALID | API_KEY_EXPIRED | ACCOUNT_NOT_FOUND
  | ACCOUNT_DEACTIVATED | REFRESH_TOKEN_INVALID | REFRESH_TOKEN_EXPIRED | REFRESH_TOKEN_USED
  | REFRESH_TOKEN_REUSED | CURRENT_PASSWORD_INCORRECT | PASSWORD_UNCHANGED
  | PASSWORD_CHANGE_REQUIRED | SCOPE_MISSING | IMPERSONATION_NOT_ALLOWED | IMPERSONATION_REFUSED
  | NOT_AUTHENTICATED | RATE_LIMITED

text \<open>A refusal with its status, code and message, or a write the database refused.\<close>

datatype auth_error = Auth_Refused int auth_code string | Auth_Integrity

section \<open>Minting\<close>

definition hash_refresh_token :: "auth_env \<Rightarrow> string \<Rightarrow> string" where
  "hash_refresh_token env raw = ae_sha256 env raw"

definition mint_refresh_token ::
  "auth_env \<Rightarrow> string \<Rightarrow> string \<Rightarrow> string \<Rightarrow> refresh_token list \<Rightarrow> auth_error + refresh_token list" where
  "mint_refresh_token env raw user_id family_id rows =
     (if hash_refresh_token env raw \<in> set (map rt_token_hash rows) then Inl Auth_Integrity
      else Inr (rows @ [\<lparr>rt_id = fresh_id (map rt_id rows), rt_token_hash = hash_refresh_token env raw,
        rt_user_id = user_id, rt_family_id = family_id,
        rt_expires_at = ae_now env + ae_refresh_days env * day_us, rt_consumed_at = None,
        rt_created_at = ae_now env\<rparr>]))"

definition get_account :: "auth_tables \<Rightarrow> string \<Rightarrow> account option" where
  "get_account t uid = find (\<lambda>a. at_id a = uid) (accounts t)"

record token_response =
  tr_refresh_token :: string
  tr_user_id :: string
  tr_role :: institutional_role
  tr_full_name :: string
  tr_initial_login_state :: bool

definition token_response_of :: "string \<Rightarrow> account \<Rightarrow> token_response" where
  "token_response_of raw a = \<lparr>tr_refresh_token = raw, tr_user_id = at_id a, tr_role = at_role_type a,
     tr_full_name = at_full_name a, tr_initial_login_state = at_initial_login_state a\<rparr>"

section \<open>Signing in\<close>

definition normalize_email :: "string \<Rightarrow> string" where
  "normalize_email v = lower (strip v)"

text \<open>
  The budgets of the caller's address and of the account are asked first; \<open>over_budget\<close> is the refusal
  of the first that is spent. The comparison is made even when no account matches. A refused
  sign-in is counted against both budgets: the flag of the answer.
\<close>

definition login ::
  "auth_env \<Rightarrow> auth_error option \<Rightarrow> auth_tables \<Rightarrow> string \<Rightarrow> string \<Rightarrow> string \<Rightarrow> string
   \<Rightarrow> (auth_error + token_response) \<times> bool \<times> auth_tables" where
  "login env over_budget t email password raw family =
     (case over_budget of Some e \<Rightarrow> (Inl e, False, t)
      | None \<Rightarrow>
          (let user = find (\<lambda>a. lower (at_email_address a) = normalize_email email) (accounts t);
               stored = (case user of None \<Rightarrow> ae_absent_account_hash env | Some a \<Rightarrow> at_credential_secure_hash a)
           in case user of
                Some a \<Rightarrow>
                  if \<not> ae_checkpw env password stored \<or> at_deactivated_at a \<noteq> None
                  then (Inl (Auth_Refused 401 INVALID_CREDENTIALS ''Invalid credentials''), True, t)
                  else (case mint_refresh_token env raw (at_id a) family (refresh_tokens t) of
                      Inl e \<Rightarrow> (Inl e, False, t)
                    | Inr rows \<Rightarrow> (Inr (token_response_of raw a), False, t\<lparr>refresh_tokens := rows\<rparr>))
              | None \<Rightarrow> (Inl (Auth_Refused 401 INVALID_CREDENTIALS ''Invalid credentials''), True, t)))"

section \<open>Refreshing\<close>

definition REUSE_GRACE :: int where
  "REUSE_GRACE = 10 * 1000000"

definition end_family :: "string \<Rightarrow> refresh_token list \<Rightarrow> refresh_token list" where
  "end_family family rows = filter (\<lambda>r. rt_family_id r \<noteq> family) rows"

text \<open>
  \<open>others\<close> is what other requests commit between the read of the row and the update that spends it.
  The update is conditional, so it finds nothing when another request has spent the token first.
\<close>

definition refresh ::
  "auth_env \<Rightarrow> (auth_tables \<Rightarrow> auth_tables) \<Rightarrow> auth_tables \<Rightarrow> string \<Rightarrow> string
   \<Rightarrow> (auth_error + token_response) \<times> auth_tables" where
  "refresh env others t raw new_raw =
     (case find (\<lambda>r. rt_token_hash r = hash_refresh_token env raw) (refresh_tokens t) of
        None \<Rightarrow> (Inl (Auth_Refused 401 REFRESH_TOKEN_INVALID ''Invalid refresh token''), t)
      | Some row \<Rightarrow>
          (case rt_consumed_at row of
             Some used \<Rightarrow>
               if ae_now env - used > REUSE_GRACE
               then (let t1 = others t in
                 (Inl (Auth_Refused 401 REFRESH_TOKEN_REUSED ''Refresh token reused; sign in again''),
                  t1\<lparr>refresh_tokens := end_family (rt_family_id row) (refresh_tokens t1)\<rparr>))
               else (Inl (Auth_Refused 401 REFRESH_TOKEN_USED ''Refresh token already used''), t)
           | None \<Rightarrow>
               let t1 = others t in
               if rt_expires_at row < ae_now env
               then (Inl (Auth_Refused 401 REFRESH_TOKEN_EXPIRED ''Refresh token expired''),
                 t1\<lparr>refresh_tokens := filter (\<lambda>r. rt_id r \<noteq> rt_id row) (refresh_tokens t1)\<rparr>)
               else if \<not> list_ex (\<lambda>r. rt_id r = rt_id row \<and> rt_consumed_at r = None) (refresh_tokens t1)
               then (Inl (Auth_Refused 401 REFRESH_TOKEN_USED ''Refresh token already used''), t1)
               else
                 (let t2 = t1\<lparr>refresh_tokens := update_rows (\<lambda>r. rt_id r = rt_id row \<and> rt_consumed_at r = None)
                        (\<lambda>r. r\<lparr>rt_consumed_at := Some (ae_now env)\<rparr>) (refresh_tokens t1)\<rparr>
                  in case get_account t2 (rt_user_id row) of
                       Some a \<Rightarrow>
                         if at_deactivated_at a \<noteq> None
                         then (Inl (Auth_Refused 401 REFRESH_TOKEN_INVALID ''Invalid refresh token''), t2)
                         else (case mint_refresh_token env new_raw (at_id a) (rt_family_id row) (refresh_tokens t2) of
                             Inl e \<Rightarrow> (Inl e, t1)
                           | Inr rows \<Rightarrow> (Inr (token_response_of new_raw a), t2\<lparr>refresh_tokens := rows\<rparr>))
                     | None \<Rightarrow> (Inl (Auth_Refused 401 REFRESH_TOKEN_INVALID ''Invalid refresh token''), t2))))"

definition logout :: "auth_env \<Rightarrow> auth_tables \<Rightarrow> string \<Rightarrow> auth_tables" where
  "logout env t raw =
     (case find (\<lambda>r. rt_token_hash r = hash_refresh_token env raw) (refresh_tokens t) of
        None \<Rightarrow> t | Some row \<Rightarrow> t\<lparr>refresh_tokens := end_family (rt_family_id row) (refresh_tokens t)\<rparr>)"

text \<open>The hash of the new password and the new feed token are drawn outside.\<close>

definition change_password ::
  "auth_env \<Rightarrow> auth_tables \<Rightarrow> account \<Rightarrow> string \<Rightarrow> string \<Rightarrow> string \<Rightarrow> string \<Rightarrow> string \<Rightarrow> string
   \<Rightarrow> (auth_error + string) \<times> auth_tables" where
  "change_password env t current_user current_password new_password new_hash feed_token raw family =
     (if \<not> ae_checkpw env current_password (at_credential_secure_hash current_user)
      then (Inl (Auth_Refused 400 CURRENT_PASSWORD_INCORRECT ''Current password is incorrect''), t)
      else if new_password = current_password
      then (Inl (Auth_Refused 400 PASSWORD_UNCHANGED ''The new password is the one you already have''), t)
      else (case mint_refresh_token env raw (at_id current_user) family
          (filter (\<lambda>r. rt_user_id r \<noteq> at_id current_user) (refresh_tokens t)) of
          Inl e \<Rightarrow> (Inl e, t)
        | Inr rows \<Rightarrow> (Inr raw, t\<lparr>refresh_tokens := rows,
            accounts := update_rows (\<lambda>a. at_id a = at_id current_user)
              (\<lambda>a. a\<lparr>at_credential_secure_hash := new_hash, at_initial_login_state := False,
                 at_calendar_feed_token := Some feed_token\<rparr>) (accounts t)\<rparr>)))"

definition SLACK :: int where
  "SLACK = day_us"

definition purge_expired_refresh_tokens :: "instant \<Rightarrow> auth_tables \<Rightarrow> nat \<times> auth_tables" where
  "purge_expired_refresh_tokens now t =
     (let gone = filter (\<lambda>r. rt_expires_at r < now - SLACK) (refresh_tokens t)
      in (length gone, t\<lparr>refresh_tokens := filter (\<lambda>r. \<not> rt_expires_at r < now - SLACK) (refresh_tokens t)\<rparr>))"

section \<open>Visit codes\<close>

definition VISIT_CODE_ALPHABET :: string where
  "VISIT_CODE_ALPHABET = ''23456789ABCDEFGHJKMNPQRSTUVWXYZ''"

definition VISIT_CODE_LENGTH :: nat where
  "VISIT_CODE_LENGTH = 16"

text \<open>The characters drawn are an argument; the code shows them in groups of four.\<close>

definition generate_visit_code :: "string \<Rightarrow> string" where
  "generate_visit_code raw = join_with ''-'' (map (\<lambda>i. take 4 (drop i raw)) [0, 4, 8, 12])"

definition is_alnum :: "char \<Rightarrow> bool" where
  "is_alnum c \<longleftrightarrow> (let n = of_char c :: nat in (48 \<le> n \<and> n \<le> 57) \<or> (65 \<le> n \<and> n \<le> 90) \<or> (97 \<le> n \<and> n \<le> 122))"

definition hash_visit_code :: "(string \<Rightarrow> string) \<Rightarrow> string \<Rightarrow> string option" where
  "hash_visit_code sha code =
     (let cleaned = upper (filter is_alnum code)
      in if length cleaned \<noteq> VISIT_CODE_LENGTH then None else Some (sha cleaned))"

section \<open>Scopes\<close>

definition is_read :: "string \<Rightarrow> bool" where
  "is_read meth \<longleftrightarrow> meth \<in> {''GET'', ''HEAD'', ''OPTIONS''}"

definition strip_slashes :: "string \<Rightarrow> string" where
  "strip_slashes p = rev (dropWhile (\<lambda>c. c = CHR ''/'') (rev (dropWhile (\<lambda>c. c = CHR ''/'') p)))"

definition required_scope :: "string \<Rightarrow> string \<Rightarrow> string option" where
  "required_scope meth path =
     (let parts = split_on CHR ''/'' (strip_slashes path)
      in if length parts < 3 \<or> parts ! 0 \<noteq> ''api'' then None
         else Some (parts ! 2 @ '':'' @ (if is_read meth then ''read'' else ''write'')))"

definition held_scopes :: "string \<Rightarrow> string list" where
  "held_scopes scopes = map strip (split_on CHR '','' scopes)"

definition key_allows :: "string \<Rightarrow> string option \<Rightarrow> bool" where
  "key_allows scopes needed =
     (let held = filter (\<lambda>s. s \<noteq> []) (held_scopes scopes)
      in ''*'' \<in> set held \<or> (case needed of None \<Rightarrow> False | Some n \<Rightarrow> n \<in> set held))"

definition key_may_impersonate :: "string \<Rightarrow> bool" where
  "key_may_impersonate scopes \<longleftrightarrow> ''impersonate'' \<in> set (held_scopes scopes)"

definition acting_for_refused :: "string \<Rightarrow> string \<Rightarrow> bool" where
  "acting_for_refused meth path \<longleftrightarrow>
     required_scope meth path \<in> {Some ''auth:write'', Some ''api-keys:write'', Some ''federation:write''} \<or>
     (\<not> is_read meth \<and> endswith (rev (dropWhile (\<lambda>c. c = CHR ''/'') (rev path))) ''/reset-password'')"

section \<open>Who a request speaks for\<close>

record credentials =
  cr_bearer :: "string option"
  cr_api_key :: "string option"
  cr_acting_for :: "string option"
  cr_method :: string
  cr_path :: string

text \<open>The account a request acts as and the caller an idempotency key belongs to.\<close>

record caller =
  ca_user_id :: string
  ca_identity :: string
  ca_by_key :: bool

definition refuse :: "int \<Rightarrow> auth_code \<Rightarrow> string \<Rightarrow> auth_error + 'a" where
  "refuse s c m = Inl (Auth_Refused s c m)"

definition impersonated :: "auth_tables \<Rightarrow> api_key \<Rightarrow> credentials \<Rightarrow> string \<Rightarrow> auth_error + string" where
  "impersonated t row req acting_for =
     (if \<not> key_may_impersonate (ak_scopes row)
      then refuse 403 IMPERSONATION_NOT_ALLOWED ''This API key does not hold the impersonate scope''
      else if acting_for_refused (cr_method req) (cr_path req)
      then refuse 403 IMPERSONATION_NOT_ALLOWED ''A key acting for someone cannot issue or change credentials''
      else (case (if acting_for = [] then None else get_account t acting_for) of
          None \<Rightarrow> refuse 403 IMPERSONATION_REFUSED ''That user cannot be acted for''
        | Some person \<Rightarrow>
            if at_organization_id person \<noteq> ak_organization_id row \<or> at_deactivated_at person \<noteq> None
            then refuse 403 IMPERSONATION_REFUSED ''That user cannot be acted for''
            else Inr (at_id person)))"

text \<open>\<open>decode\<close> is the subject of a bearer token that verifies, \<^verbatim>\<open>decode_token\<close>.\<close>

definition get_current_user_id ::
  "auth_env \<Rightarrow> (string \<Rightarrow> string option) \<Rightarrow> auth_tables \<Rightarrow> credentials \<Rightarrow> auth_error + caller" where
  "get_current_user_id env decode t req =
     (let acting_for = map_option strip (cr_acting_for req) in
      case cr_bearer req of
        Some token \<Rightarrow>
          (case decode token of None \<Rightarrow> refuse 401 TOKEN_INVALID ''Invalid or expired token''
           | Some sub \<Rightarrow>
               if acting_for \<noteq> None
               then refuse 403 IMPERSONATION_NOT_ALLOWED ''Only an API key with the impersonate scope can send X-Chronos-Actor''
               else Inr \<lparr>ca_user_id = sub, ca_identity = ''user:'' @ sub, ca_by_key = False\<rparr>)
      | None \<Rightarrow>
          (case cr_api_key req of
             None \<Rightarrow> refuse 401 NOT_AUTHENTICATED ''Not authenticated''
           | Some key \<Rightarrow>
               if key = [] then refuse 401 NOT_AUTHENTICATED ''Not authenticated'' else
               (case find (\<lambda>k. ak_key_hash k = ae_sha256 env key) (api_keys t) of
                  None \<Rightarrow> refuse 401 API_KEY_INVALID ''Invalid API key''
                | Some row \<Rightarrow>
                    if (case ak_expires_at row of None \<Rightarrow> False | Some e \<Rightarrow> e \<le> ae_now env)
                    then refuse 401 API_KEY_EXPIRED ''API key expired''
                    else
                      (let needed = required_scope (cr_method req) (cr_path req);
                           identity = ''key:'' @ show_int (ak_id row)
                       in if \<not> key_allows (ak_scopes row) needed
                          then refuse 403 SCOPE_MISSING (''API key is not scoped for '' @
                            (case needed of None \<Rightarrow> ''this request'' | Some n \<Rightarrow> n))
                          else (case acting_for of
                              None \<Rightarrow> Inr \<lparr>ca_user_id = ak_user_id row, ca_identity = identity, ca_by_key = True\<rparr>
                            | Some person \<Rightarrow> bind_result (impersonated t row req person) (\<lambda>pid.
                                Inr \<lparr>ca_user_id = pid, ca_identity = identity, ca_by_key = True\<rparr>))))))"

definition first_login_blocks :: "account \<Rightarrow> bool" where
  "first_login_blocks a \<longleftrightarrow> at_initial_login_state a \<and> at_role_type a \<in> {ORG_ADMIN, UNIT_ADMIN}"

definition get_current_user ::
  "auth_env \<Rightarrow> (string \<Rightarrow> string option) \<Rightarrow> auth_tables \<Rightarrow> credentials \<Rightarrow> auth_error + account" where
  "get_current_user env decode t req =
     bind_result (get_current_user_id env decode t req) (\<lambda>c.
     case get_account t (ca_user_id c) of
       None \<Rightarrow> refuse 401 ACCOUNT_NOT_FOUND ''User not found''
     | Some a \<Rightarrow>
         if at_deactivated_at a \<noteq> None then refuse 401 ACCOUNT_DEACTIVATED ''Account deactivated''
         else if \<not> ca_by_key c \<and> first_login_blocks a \<and>
           \<not> (endswith (cr_path req) ''/auth/me'' \<or> endswith (cr_path req) ''/auth/change-password'')
         then refuse 403 PASSWORD_CHANGE_REQUIRED ''Change the initial password before using other endpoints''
         else Inr a)"

end
