(* ===== verification/Sessions_Props.thy ===== *)
theory Sessions_Props
  imports Sessions
begin

text \<open>
  A sign-in is a family of refresh tokens, and the family has one token that still works: no sequence
  of requests, overlapping ones included, gives it a second. Also the way back from a visit code as
  a visitor types it to the check-in the kiosk showed it for.
\<close>

section \<open>One live token per family\<close>

definition one_live :: "refresh_token list \<Rightarrow> bool" where
  "one_live rows \<longleftrightarrow> (\<forall>r \<in> set rows. \<forall>r' \<in> set rows. rt_family_id r = rt_family_id r' \<longrightarrow>
     rt_consumed_at r = None \<longrightarrow> rt_consumed_at r' = None \<longrightarrow> r = r')"

definition sessions_ok :: "auth_tables \<Rightarrow> bool" where
  "sessions_ok t \<longleftrightarrow> distinct (map rt_id (refresh_tokens t)) \<and> distinct (map rt_token_hash (refresh_tokens t)) \<and>
     one_live (refresh_tokens t)"

lemma sessions_ok_filter:
  "sessions_ok t \<Longrightarrow> sessions_ok (t\<lparr>refresh_tokens := filter P (refresh_tokens t)\<rparr>)"
  by (auto simp: sessions_ok_def one_live_def distinct_map_filter)

lemma sessions_ok_accounts [simp]: "sessions_ok (t\<lparr>accounts := x\<rparr>) = sessions_ok t"
  by (simp add: sessions_ok_def)

lemma one_live_snoc:
  "one_live xs \<Longrightarrow> \<forall>r \<in> set xs. rt_family_id r = rt_family_id x \<longrightarrow> rt_consumed_at r \<noteq> None \<Longrightarrow> one_live (xs @ [x])"
  unfolding one_live_def set_append by (metis Un_iff empty_iff insert_iff list.simps(15) empty_set)

lemma mint_ok:
  assumes "sessions_ok t" and "mint_refresh_token env raw uid family (refresh_tokens t) = Inr rows"
    and "\<forall>r \<in> set (refresh_tokens t). rt_family_id r = family \<longrightarrow> rt_consumed_at r \<noteq> None"
  shows "sessions_ok (t\<lparr>refresh_tokens := rows\<rparr>)"
proof -
  from assms(2) obtain x where x: "rows = refresh_tokens t @ [x]" "rt_id x = fresh_id (map rt_id (refresh_tokens t))"
    "rt_token_hash x \<notin> set (map rt_token_hash (refresh_tokens t))" "rt_family_id x = family"
    unfolding mint_refresh_token_def by (cases "hash_refresh_token env raw \<in> set (map rt_token_hash (refresh_tokens t))") auto
  have "one_live rows" unfolding x(1) using assms(1,3) x(4) by (intro one_live_snoc) (auto simp: sessions_ok_def)
  moreover have "distinct (map rt_id rows)" "distinct (map rt_token_hash rows)"
    unfolding x(1) using assms(1) x(2,3) fresh_id_notin[of "map rt_id (refresh_tokens t)"] by (auto simp: sessions_ok_def)
  ultimately show ?thesis by (simp add: sessions_ok_def)
qed

text \<open>Spending a token: its row keeps its id, its hash and its family.\<close>

definition spend :: "(refresh_token \<Rightarrow> bool) \<Rightarrow> instant \<Rightarrow> refresh_token list \<Rightarrow> refresh_token list" where
  "spend P n rows = update_rows P (\<lambda>r. r\<lparr>rt_consumed_at := Some n\<rparr>) rows"

lemma live_spend: "r \<in> set (spend P n rows) \<Longrightarrow> rt_consumed_at r = None \<Longrightarrow> r \<in> set rows \<and> \<not> P r"
  by (auto simp: spend_def update_rows_def split: if_splits)

lemma spend_ok: "sessions_ok t \<Longrightarrow> sessions_ok (t\<lparr>refresh_tokens := spend P n (refresh_tokens t)\<rparr>)"
proof -
  assume ok: "sessions_ok t"
  have "map rt_id (spend P n xs) = map rt_id xs" "map rt_token_hash (spend P n xs) = map rt_token_hash xs" for xs
    by (induction xs) (auto simp: spend_def update_rows_def)
  moreover have "one_live (spend P n xs)" if "one_live xs" for xs
    using that live_spend[of _ P n xs] unfolding one_live_def by meson
  ultimately show ?thesis using ok by (simp add: sessions_ok_def)
qed

section \<open>Requests\<close>

text \<open>
  A row keeps its number: the numbers of deleted rows are not handed out again (a PostgreSQL sequence;
  on SQLite every request is one write transaction, and nothing comes between its read and its write).
\<close>

definition numbers_kept :: "auth_tables \<Rightarrow> auth_tables \<Rightarrow> bool" where
  "numbers_kept t t' \<longleftrightarrow> (\<forall>r \<in> set (refresh_tokens t). \<forall>r' \<in> set (refresh_tokens t').
     rt_id r = rt_id r' \<longrightarrow> rt_family_id r = rt_family_id r')"

definition new_family :: "string \<Rightarrow> auth_tables \<Rightarrow> bool" where
  "new_family family t \<longleftrightarrow> family \<notin> set (map rt_family_id (refresh_tokens t))"

text \<open>
  What the sessions go through: sign-ins and changes of password under a family id that is new (a
  random UUID), refreshes with whatever other requests commit between the read and the update,
  sign-outs, and the nightly purge.
\<close>

inductive auth_run :: "auth_tables \<Rightarrow> auth_tables \<Rightarrow> bool" where
  stay: "auth_run t t"
| signed_in: "auth_run t t1 \<Longrightarrow> new_family family t1 \<Longrightarrow> login env budget t1 email pw raw family = (ans, spent, t2) \<Longrightarrow>
    auth_run t t2"
| refreshed: "auth_run t t1 \<Longrightarrow> auth_run t1 t2 \<Longrightarrow> numbers_kept t1 t2 \<Longrightarrow>
    refresh env (\<lambda>_. t2) t1 raw new_raw = (ans', t3) \<Longrightarrow> auth_run t t3"
| signed_out: "auth_run t t1 \<Longrightarrow> auth_run t (logout env t1 raw)"
| password_changed: "auth_run t t1 \<Longrightarrow> new_family family t1 \<Longrightarrow>
    change_password env t1 u old new new_hash feed raw family = (ans'', t2) \<Longrightarrow> auth_run t t2"
| purged: "auth_run t t1 \<Longrightarrow> auth_run t (snd (purge_expired_refresh_tokens now t1))"

lemma login_cases:
  assumes "login env budget t email pw raw family = (ans, spent, t')"
  obtains "t' = t" | uid rows where "mint_refresh_token env raw uid family (refresh_tokens t) = Inr rows"
    "t' = t\<lparr>refresh_tokens := rows\<rparr>"
proof (cases budget)
  case (Some e)
  then show ?thesis using assms that(1) by (simp add: login_def)
next
  case None
  show ?thesis
  proof (cases "find (\<lambda>a. lower (at_email_address a) = normalize_email email) (accounts t)")
    case None
    with \<open>budget = None\<close> show ?thesis using assms that(1) by (simp add: login_def)
  next
    case (Some a)
    have login: "login env budget t email pw raw family =
        (if \<not> ae_checkpw env pw (at_credential_secure_hash a) \<or> at_deactivated_at a \<noteq> None
         then (Inl (Auth_Refused 401 INVALID_CREDENTIALS ''Invalid credentials''), True, t)
         else (case mint_refresh_token env raw (at_id a) family (refresh_tokens t) of
             Inl e \<Rightarrow> (Inl e, False, t)
           | Inr rows \<Rightarrow> (Inr (token_response_of raw a), False, t\<lparr>refresh_tokens := rows\<rparr>)))"
      unfolding login_def None Some Let_def by simp
    show ?thesis
    proof (cases "mint_refresh_token env raw (at_id a) family (refresh_tokens t)")
      case (Inl e)
      then show ?thesis using assms that(1) unfolding login by (auto split: if_splits)
    next
      case (Inr rows)
      then show ?thesis using assms that(1) that(2)[OF Inr] unfolding login by (simp split: if_split_asm)
    qed
  qed
qed

lemma login_ok:
  assumes "sessions_ok t" and "new_family family t" and "login env budget t email pw raw family = (ans, spent, t')"
  shows "sessions_ok t'"
  using assms(3)
proof (cases rule: login_cases)
  case (2 uid rows)
  show ?thesis unfolding 2(2) using assms(2) by (intro mint_ok[OF assms(1) 2(1)]) (auto simp: new_family_def)
qed (use assms(1) in simp)

lemma change_password_ok:
  assumes "sessions_ok t" and "new_family family t"
    and "change_password env t u old new new_hash feed raw family = (ans, t')"
  shows "sessions_ok t'"
proof -
  let ?t0 = "t\<lparr>refresh_tokens := filter (\<lambda>r. rt_user_id r \<noteq> at_id u) (refresh_tokens t)\<rparr>"
  have fresh: "\<forall>r \<in> set (refresh_tokens ?t0). rt_family_id r = family \<longrightarrow> rt_consumed_at r \<noteq> None"
    using assms(2) by (auto simp: new_family_def)
  show ?thesis
  proof (cases "mint_refresh_token env raw (at_id u) family (refresh_tokens ?t0)")
    case (Inl e)
    then show ?thesis using assms(1,3) by (simp add: change_password_def split: if_splits)
  next
    case (Inr rows)
    have "sessions_ok (?t0\<lparr>refresh_tokens := rows\<rparr>)"
      by (rule mint_ok[OF sessions_ok_filter[OF assms(1)] Inr fresh])
    with Inr show ?thesis using assms(1,3)
      by (auto simp: change_password_def sessions_ok_def split: if_splits)
  qed
qed

lemma refresh_ok:
  assumes "sessions_ok t" and "sessions_ok t1" and "numbers_kept t t1" and "refresh env (\<lambda>_. t1) t raw new_raw = (ans, t')"
  shows "sessions_ok t'"
proof (cases "find (\<lambda>r. rt_token_hash r = hash_refresh_token env raw) (refresh_tokens t)")
  case None
  with assms show ?thesis by (simp add: refresh_def)
next
  case (Some row)
  then have row: "row \<in> set (refresh_tokens t)" by (auto dest: find_Some_iff_first)
  define P where "P = (\<lambda>r :: refresh_token. rt_id r = rt_id row \<and> rt_consumed_at r = None)"
  define t2 where "t2 = t1\<lparr>refresh_tokens := spend P (ae_now env) (refresh_tokens t1)\<rparr>"
  have t2: "sessions_ok t2" unfolding t2_def by (rule spend_ok[OF assms(2)])
  have spent: "\<forall>r \<in> set (refresh_tokens t2). rt_family_id r = rt_family_id row \<longrightarrow> rt_consumed_at r \<noteq> None"
    if live: "list_ex P (refresh_tokens t1)"
  proof (intro ballI impI notI)
    fix r assume r: "r \<in> set (refresh_tokens t2)" "rt_family_id r = rt_family_id row" "rt_consumed_at r = None"
    from live obtain x where x: "x \<in> set (refresh_tokens t1)" "P x" by (auto simp: list_ex_iff)
    have fam: "rt_family_id x = rt_family_id row"
      using assms(3) row x unfolding numbers_kept_def P_def by metis
    from r(1,3) have r1: "r \<in> set (refresh_tokens t1)" "\<not> P r"
      using live_spend[of r P "ae_now env"] by (auto simp: t2_def)
    have "r = x" using assms(2) r1(1) x fam r(2,3) unfolding sessions_ok_def one_live_def P_def by metis
    with x(2) r1(2) show False by simp
  qed
  have *: "refresh env (\<lambda>_. t1) t raw new_raw = (case rt_consumed_at row of
      Some used \<Rightarrow> if ae_now env - used > REUSE_GRACE
        then (Inl (Auth_Refused 401 REFRESH_TOKEN_REUSED ''Refresh token reused; sign in again''),
          t1\<lparr>refresh_tokens := end_family (rt_family_id row) (refresh_tokens t1)\<rparr>)
        else (Inl (Auth_Refused 401 REFRESH_TOKEN_USED ''Refresh token already used''), t)
    | None \<Rightarrow> if rt_expires_at row < ae_now env
        then (Inl (Auth_Refused 401 REFRESH_TOKEN_EXPIRED ''Refresh token expired''),
          t1\<lparr>refresh_tokens := filter (\<lambda>r. rt_id r \<noteq> rt_id row) (refresh_tokens t1)\<rparr>)
        else if \<not> list_ex P (refresh_tokens t1)
        then (Inl (Auth_Refused 401 REFRESH_TOKEN_USED ''Refresh token already used''), t1)
        else (case get_account t2 (rt_user_id row) of
            Some a \<Rightarrow> if at_deactivated_at a \<noteq> None
              then (Inl (Auth_Refused 401 REFRESH_TOKEN_INVALID ''Invalid refresh token''), t2)
              else (case mint_refresh_token env new_raw (at_id a) (rt_family_id row) (refresh_tokens t2) of
                  Inl e \<Rightarrow> (Inl e, t1)
                | Inr rows \<Rightarrow> (Inr (token_response_of new_raw a), t2\<lparr>refresh_tokens := rows\<rparr>))
          | None \<Rightarrow> (Inl (Auth_Refused 401 REFRESH_TOKEN_INVALID ''Invalid refresh token''), t2)))"
    unfolding refresh_def Some t2_def P_def spend_def Let_def by simp
  have minted: "sessions_ok (t2\<lparr>refresh_tokens := rows\<rparr>)"
    if "mint_refresh_token env new_raw uid (rt_family_id row) (refresh_tokens t2) = Inr rows" "list_ex P (refresh_tokens t1)"
    for uid rows using mint_ok[OF t2 that(1) spent[OF that(2)]] .
  show ?thesis using assms(4) unfolding * end_family_def
    using assms(1,2) t2 sessions_ok_filter[OF assms(2)] minted
    by (auto split: option.splits if_split_asm sum.splits)
qed

lemma logout_ok: "sessions_ok t \<Longrightarrow> sessions_ok (logout env t raw)"
  by (auto simp: logout_def end_family_def sessions_ok_filter split: option.splits)

lemma purge_ok: "sessions_ok t \<Longrightarrow> sessions_ok (snd (purge_expired_refresh_tokens now t))"
  by (simp add: purge_expired_refresh_tokens_def Let_def sessions_ok_filter)

text \<open>A used token that comes back after the grace ends its family.\<close>

lemma reused_token_ends_family:
  assumes "find (\<lambda>r. rt_token_hash r = hash_refresh_token env raw) (refresh_tokens t) = Some row"
    and "rt_consumed_at row = Some used" and "ae_now env - used > REUSE_GRACE"
  shows "refresh env others t raw new_raw = (Inl (Auth_Refused 401 REFRESH_TOKEN_REUSED ''Refresh token reused; sign in again''),
      (others t)\<lparr>refresh_tokens := end_family (rt_family_id row) (refresh_tokens (others t))\<rparr>)"
    and "\<forall>r \<in> set (end_family (rt_family_id row) (refresh_tokens (others t))). rt_family_id r \<noteq> rt_family_id row"
  using assms by (simp_all add: refresh_def Let_def end_family_def)

text \<open>The wildcard admits a request whose path has no area.\<close>

lemma wildcard_reaches_no_area: "required_scope ''GET'' ''/health'' = None \<and> key_allows ''*'' None"
  by (rule conjI; code_simp)


section \<open>Sessions do not fork\<close>

lemma one_live_count: "distinct rows \<Longrightarrow> one_live rows \<Longrightarrow>
    length (filter (\<lambda>r. rt_family_id r = f \<and> rt_consumed_at r = None) rows) \<le> 1"
proof -
  assume d: "distinct rows" and l: "one_live rows"
  let ?S = "{r \<in> set rows. rt_family_id r = f \<and> rt_consumed_at r = None}"
  have "card ?S \<le> 1"
  proof (cases "?S = {}")
    case True
    show ?thesis unfolding True by simp
  next
    case False
    then obtain r where "r \<in> ?S" by blast
    then have "?S \<subseteq> {r}" using l unfolding one_live_def by blast
    then show ?thesis using card_mono[of "{r}" ?S] by simp
  qed
  with d show ?thesis by (simp add: distinct_length_filter Int_def conj_commute)
qed

lemma auth_run_ok: "auth_run t t' \<Longrightarrow> sessions_ok t \<Longrightarrow> sessions_ok t'"
  by (induction rule: auth_run.induct)
    (blast intro: login_ok refresh_ok logout_ok change_password_ok purge_ok)+

definition demo_auth :: auth_env where
  "demo_auth = \<lparr>ae_now = 1000, ae_sha256 = (\<lambda>x. x), ae_checkpw = (\<lambda>p h. p = h), ae_absent_account_hash = ''none'',
     ae_refresh_days = 7\<rparr>"

definition demo_accounts :: auth_tables where
  "demo_accounts = \<lparr>refresh_tokens = [], accounts = [\<lparr>at_id = ''u1'', at_full_name = ''Ada'', at_email_address = ''ada@x.org'',
     at_credential_secure_hash = ''secret'', at_role_type = ORG_ADMIN, at_organization_id = ''o1'',
     at_initial_login_state = False, at_calendar_feed_token = None, at_deactivated_at = None\<rparr>], api_keys = []\<rparr>"

definition demo_signed_in :: auth_tables where
  "demo_signed_in = snd (snd (login demo_auth None demo_accounts '' Ada@X.org'' ''secret'' ''r1'' ''f1''))"

definition demo_refreshed :: auth_tables where
  "demo_refreshed = snd (refresh demo_auth (\<lambda>_. demo_signed_in) demo_signed_in ''r1'' ''r2'')"

lemma demo_run: "auth_run demo_accounts demo_refreshed"
proof -
  have "auth_run demo_accounts demo_signed_in"
    by (rule auth_run.signed_in[OF auth_run.stay, where family = "''f1''" and env = demo_auth and budget = None and
          email = "'' Ada@X.org''" and pw = "''secret''" and raw = "''r1''" and
          ans = "fst (login demo_auth None demo_accounts '' Ada@X.org'' ''secret'' ''r1'' ''f1'')" and
          spent = "fst (snd (login demo_auth None demo_accounts '' Ada@X.org'' ''secret'' ''r1'' ''f1''))"])
      (simp add: new_family_def demo_accounts_def, simp add: demo_signed_in_def prod_eq_iff)
  then show ?thesis
    by (rule auth_run.refreshed[OF _ auth_run.stay, where env = demo_auth and raw = "''r1''" and new_raw = "''r2''" and
          ans' = "fst (refresh demo_auth (\<lambda>_. demo_signed_in) demo_signed_in ''r1'' ''r2'')"])
      (code_simp, simp add: demo_refreshed_def prod_eq_iff)
qed

text \<open>C25: A session never forks: whatever sequence of sign-ins, refreshes (a refresh may find that other
  requests committed between its read and its update), sign-outs, changes of password and purges the
  tables go through, a family of refresh tokens has at most one token that has not been spent.\<close>

theorem sessions_never_fork:
  assumes "sessions_ok t" and "auth_run t t'"
  shows "length (filter (\<lambda>r. rt_family_id r = f \<and> rt_consumed_at r = None) (refresh_tokens t')) \<le> 1"
proof -
  have "sessions_ok t'" using auth_run_ok assms by blast
  then show ?thesis by (intro one_live_count) (auto simp: sessions_ok_def distinct_map)
qed

theorem sessions_never_fork_witness:
  "sessions_ok demo_accounts \<and> auth_run demo_accounts demo_refreshed \<and> length (refresh_tokens demo_refreshed) = 2 \<and>
   length (filter (\<lambda>r. rt_family_id r = ''f1'' \<and> rt_consumed_at r = None) (refresh_tokens demo_refreshed)) \<le> 1"
proof -
  have ok: "sessions_ok demo_accounts" by (simp add: sessions_ok_def one_live_def demo_accounts_def)
  have "length (refresh_tokens demo_refreshed) = 2" by code_simp
  with ok demo_run sessions_never_fork[OF ok demo_run, of "''f1''"] show ?thesis by blast
qed

section \<open>Visit codes\<close>

lemma alphabet_upper: "set raw \<subseteq> set VISIT_CODE_ALPHABET \<Longrightarrow> upper (filter is_alnum raw) = raw"
proof -
  have all: "list_all (\<lambda>c. is_alnum c \<and> upper [c] = [c]) VISIT_CODE_ALPHABET" by code_simp
  assume "set raw \<subseteq> set VISIT_CODE_ALPHABET"
  with all have "list_all (\<lambda>c. is_alnum c \<and> upper [c] = [c]) raw" by (auto simp: list_all_iff)
  then show ?thesis by (induction raw) (auto simp: upper_def)
qed

lemma generated_letters: "length raw = 16 \<Longrightarrow> filter is_alnum (generate_visit_code raw) = filter is_alnum raw"
proof -
  assume "length raw = 16"
  have "xs = take 4 xs @ drop 4 xs" for xs :: string by simp
  from this[of raw] this[of "drop 4 raw"] this[of "drop 8 raw"] this[of "drop 12 raw"] \<open>length raw = 16\<close>
  have "raw = take 4 raw @ take 4 (drop 4 raw) @ take 4 (drop 8 raw) @ take 4 (drop 12 raw)"
    by (simp del: append_take_drop_id)
  then have "filter is_alnum raw = filter is_alnum (take 4 raw) @ filter is_alnum (take 4 (drop 4 raw)) @
     filter is_alnum (take 4 (drop 8 raw)) @ filter is_alnum (take 4 (drop 12 raw))" by (metis filter_append)
  moreover have "\<not> is_alnum CHR ''-''" by code_simp
  ultimately show ?thesis by (simp add: generate_visit_code_def)
qed

text \<open>A visit code finds its check-in again: the sixteen characters drawn, shown in groups of four,
  hash to the digest of the characters; so does every text a visitor types that has the same letters
  and digits in upper or lower case, with whatever other characters between them.\<close>

theorem visit_code_comes_back:
  assumes "length raw = VISIT_CODE_LENGTH" and "set raw \<subseteq> set VISIT_CODE_ALPHABET"
    and "upper (filter is_alnum typed) = raw"
  shows "hash_visit_code sha (generate_visit_code raw) = Some (sha raw) \<and> hash_visit_code sha typed = Some (sha raw)"
  using assms generated_letters[of raw] alphabet_upper[of raw] by (simp add: hash_visit_code_def VISIT_CODE_LENGTH_def)

theorem visit_code_comes_back_witness:
  "generate_visit_code ''ABCDEFGH23456789'' = ''ABCD-EFGH-2345-6789'' \<and>
   hash_visit_code rev (generate_visit_code ''ABCDEFGH23456789'') = Some ''98765432HGFEDCBA'' \<and>
   hash_visit_code rev ''abcd efgh 2345 6789'' = Some ''98765432HGFEDCBA''"
proof -
  have "length ''ABCDEFGH23456789'' = VISIT_CODE_LENGTH" "set ''ABCDEFGH23456789'' \<subseteq> set VISIT_CODE_ALPHABET"
    "upper (filter is_alnum ''abcd efgh 2345 6789'') = ''ABCDEFGH23456789''" by code_simp+
  from visit_code_comes_back[OF this, of rev] show ?thesis by (simp, code_simp)
qed

end
