(* ===== verification/Idempotency.thy ===== *)
theory Idempotency
  imports Datamodel Py_Strings "HOL-Library.AList"
begin

text \<open>
  Keyed writes, \<^verbatim>\<open>backend/app/core/idempotency.py\<close>: the hash of a request, the claim made inside its
  transaction, the answer an earlier request left, the settlement after the response and the purge.

  SHA-256 and the canonical forms of a query string and of a JSON body (urllib and json of the
  standard library) are parameters. Bytes are strings. A stored header set is the dictionary that
  was written, in the order of its keys.
\<close>

section \<open>Requests\<close>

type_synonym headers = "(string \<times> string) list"

record idem_env =
  ie_now :: instant
  ie_retention :: int
  ie_sha256 :: "string \<Rightarrow> string"
  ie_sorted_query :: "string \<Rightarrow> string"
  ie_canonical_json :: "string \<Rightarrow> string option"

record http_scope =
  sc_type :: string
  sc_method :: string
  sc_path :: string
  sc_query_string :: string
  sc_headers :: headers

record idem_pending =
  pe_key :: string
  pe_request_hash :: string
  pe_caller :: "string option"
  pe_owner :: bool
  pe_own_replay :: bool

record idem_record =
  ir_id :: int
  ir_caller :: string
  ir_key :: string
  ir_request_hash :: string
  ir_status_code :: "int option"
  ir_response_headers :: "headers option"
  ir_response_body :: "string option"
  ir_created_at :: instant

definition KEY_LIMIT :: nat where
  "KEY_LIMIT = 255"

definition KEPT_HEADERS :: "string list" where
  "KEPT_HEADERS = [''content-type'', ''location'']"

definition UNSTORED_CLIENT_ERRORS :: "int list" where
  "UNSTORED_CLIENT_ERRORS = [401, 403, 429]"

definition OWN_REPLAY_OPERATIONS :: "string list" where
  "OWN_REPLAY_OPERATIONS = [''resources.createReservation'']"

definition SECRET_OPERATIONS :: "string list" where
  "SECRET_OPERATIONS = [''auth.changePassword'', ''users.resetPassword'', ''apiKeys.create'', ''sync.rotateFeedToken'',
     ''guest.checkIn'', ''webhooks.create'', ''webhooks.rotateSecret'']"

definition READ_METHODS :: "string list" where
  "READ_METHODS = [''GET'', ''HEAD'', ''OPTIONS'']"

definition AUDITED_PREFIX :: string where
  "AUDITED_PREFIX = ''/api/v1/''"

definition LF :: string where
  "LF = [CHR 10]"

definition request_hash :: "idem_env \<Rightarrow> string \<Rightarrow> string \<Rightarrow> string \<Rightarrow> string \<Rightarrow> string \<Rightarrow> string" where
  "request_hash env meth path query_string body acting_for =
     (let query = ie_sorted_query env query_string;
          canonical = (case ie_canonical_json env body of Some c \<Rightarrow> c | None \<Rightarrow> body)
      in ie_sha256 env (concat (map (\<lambda>part. part @ LF) [meth, path, query, canonical, acting_for])))"

definition key_is_valid :: "string \<Rightarrow> bool" where
  "key_is_valid key \<longleftrightarrow> 1 \<le> length key \<and> length key \<le> KEY_LIMIT \<and>
     list_all (\<lambda>c. CHR '' '' \<le> c \<and> c \<le> CHR ''~'') key"

definition storable :: "int \<Rightarrow> bool" where
  "storable st \<longleftrightarrow> (200 \<le> st \<and> st < 300) \<or>
     (400 \<le> st \<and> st < 500 \<and> st \<notin> set UNSTORED_CLIENT_ERRORS)"

section \<open>Claiming a key\<close>

datatype claim_outcome =
    Goes_On
  | Idem_Refused "string chronos_error"
  | Replays int headers string

definition find_record :: "idem_record list \<Rightarrow> string \<Rightarrow> string \<Rightarrow> idem_record option" where
  "find_record rows caller key = find (\<lambda>r. ir_caller r = caller \<and> ir_key r = key) rows"

definition expired :: "idem_env \<Rightarrow> idem_record \<Rightarrow> bool" where
  "expired env row \<longleftrightarrow> ir_created_at row \<le> ie_now env - ie_retention env"

definition in_progress :: "string chronos_error" where
  "in_progress = chronos_error 409 IDEMPOTENCY_KEY_IN_PROGRESS
     (''a request with that Idempotency-Key is still running, retry shortly'')"

definition idem_key_reused :: "string chronos_error" where
  "idem_key_reused = chronos_error 422 IDEMPOTENCY_KEY_REUSED (''that Idempotency-Key was used for a different request'')"

definition key_malformed :: "string chronos_error" where
  "key_malformed = chronos_error 422 INVALID_VALUE (''Idempotency-Key must be 1 to 255 printable ASCII characters'')"

definition answer_record :: "idem_record \<Rightarrow> idem_pending \<Rightarrow> claim_outcome" where
  "answer_record row pending =
     (if ir_request_hash row \<noteq> pe_request_hash pending then Idem_Refused idem_key_reused
      else if pe_own_replay pending then Goes_On
      else (case ir_status_code row of
          None \<Rightarrow> Idem_Refused in_progress
        | Some s \<Rightarrow> Replays s (case ir_response_headers row of None \<Rightarrow> [] | Some h \<Rightarrow> h)
            (case ir_response_body row of None \<Rightarrow> [] | Some b \<Rightarrow> b)))"

definition new_record :: "idem_env \<Rightarrow> string \<Rightarrow> idem_pending \<Rightarrow> idem_record list \<Rightarrow> idem_record" where
  "new_record env caller pending rows = \<lparr>ir_id = fresh_id (map ir_id rows), ir_caller = caller, ir_key = pe_key pending,
     ir_request_hash = pe_request_hash pending, ir_status_code = None, ir_response_headers = None,
     ir_response_body = None, ir_created_at = ie_now env\<rparr>"

text \<open>
  \<open>rows\<close> are the records the first lookup sees and \<open>later\<close> those the insert meets, after whatever other
  requests have committed in between; the unique constraint on (caller, key) decides there. \<open>again\<close> are
  the records the lookup after a refused insert sees. The records of the answer are those of the
  request's own transaction.
\<close>

definition claim ::
  "idem_env \<Rightarrow> string option \<Rightarrow> string \<Rightarrow> idem_pending option \<Rightarrow> idem_record list \<Rightarrow> idem_record list
   \<Rightarrow> idem_record list \<Rightarrow> claim_outcome \<times> idem_pending option \<times> idem_record list" where
  "claim env operation caller pending_opt rows later again =
     (case pending_opt of None \<Rightarrow> (Goes_On, None, later)
      | Some pending0 \<Rightarrow>
          if pe_caller pending0 \<noteq> None then (Goes_On, Some pending0, later)
          else if (case operation of None \<Rightarrow> False | Some op \<Rightarrow> op \<in> set SECRET_OPERATIONS) then (Goes_On, Some pending0, later)
          else if \<not> key_is_valid (pe_key pending0) then (Idem_Refused key_malformed, Some pending0, later)
          else
            (let pending = pending0\<lparr>pe_caller := Some caller,
                   pe_own_replay := (case operation of None \<Rightarrow> False | Some op \<Rightarrow> op \<in> set OWN_REPLAY_OPERATIONS)\<rparr>;
                 row = find_record rows caller (pe_key pending);
                 stale = (case row of None \<Rightarrow> False | Some r \<Rightarrow> expired env r)
             in if row \<noteq> None \<and> \<not> stale then (answer_record (the row) pending, Some pending, later)
                else
                  (let seen = (\<lambda>rs. if stale then filter (\<lambda>r. ir_id r \<noteq> ir_id (the row)) rs else rs)
                   in if find_record (seen later) caller (pe_key pending) \<noteq> None
                      then (case find_record (seen again) caller (pe_key pending) of
                          None \<Rightarrow> (Idem_Refused in_progress, Some pending, seen again)
                        | Some r \<Rightarrow> (answer_record r pending, Some pending, seen again))
                      else (Goes_On, Some (pending\<lparr>pe_owner := True\<rparr>),
                          seen later @ [new_record env caller pending (seen later)]))))"

section \<open>Settling\<close>

record sent_response =
  se_status :: "int option"
  se_headers :: headers
  se_body :: "string list"
  se_complete :: bool

definition kept_headers :: "headers \<Rightarrow> headers" where
  "kept_headers hs = sort_key fst (fold (\<lambda>(n, v) d. AList.update n v d)
     (filter (\<lambda>(n, v). lower n \<in> set KEPT_HEADERS) hs) [])"

definition recordable :: "sent_response \<Rightarrow> bool" where
  "recordable sent \<longleftrightarrow> se_complete sent \<and> (case se_status sent of None \<Rightarrow> False | Some s \<Rightarrow> storable s)"

definition with_response :: "sent_response \<Rightarrow> idem_record \<Rightarrow> idem_record" where
  "with_response sent row = row\<lparr>ir_status_code := se_status sent,
     ir_response_headers := Some (kept_headers (se_headers sent)), ir_response_body := Some (concat (se_body sent))\<rparr>"

definition settle :: "idem_env \<Rightarrow> idem_pending \<Rightarrow> sent_response \<Rightarrow> idem_record list \<Rightarrow> idem_record list" where
  "settle env pending sent rows =
     (let caller = the (pe_caller pending) in
      case find_record rows caller (pe_key pending) of
        Some row \<Rightarrow>
          if ir_request_hash row \<noteq> pe_request_hash pending then rows
          else if recordable sent then update_rows (\<lambda>r. ir_id r = ir_id row) (with_response sent) rows
          else if ir_status_code row = None then filter (\<lambda>r. ir_id r \<noteq> ir_id row) rows
          else rows
      | None \<Rightarrow>
          if recordable sent then rows @ [with_response sent (new_record env caller pending rows)] else rows)"

definition purge_expired :: "idem_env \<Rightarrow> idem_record list \<Rightarrow> nat \<times> idem_record list" where
  "purge_expired env rows =
     (length (filter (\<lambda>r. ir_created_at r < ie_now env - ie_retention env) rows),
      filter (\<lambda>r. \<not> ir_created_at r < ie_now env - ie_retention env) rows)"

section \<open>The middleware\<close>

definition header_of :: "http_scope \<Rightarrow> string \<Rightarrow> string option" where
  "header_of scope name = map_option snd (find (\<lambda>(h, v). lower h = name) (sc_headers scope))"

definition or_empty :: "string option \<Rightarrow> string" where
  "or_empty v = (case v of None \<Rightarrow> [] | Some s \<Rightarrow> s)"

text \<open>The mark a keyed write gets before the application runs.\<close>

definition keyed_write :: "idem_env \<Rightarrow> http_scope \<Rightarrow> string \<Rightarrow> idem_pending option" where
  "keyed_write env scope body =
     (if sc_type scope \<noteq> ''http'' \<or> sc_method scope \<in> set READ_METHODS \<or> \<not> startswith (sc_path scope) AUDITED_PREFIX then None
      else (case header_of scope ''idempotency-key'' of None \<Rightarrow> None
        | Some key \<Rightarrow>
            if startswith (or_empty (header_of scope ''content-type'')) ''multipart/'' then None
            else Some \<lparr>pe_key = key,
              pe_request_hash = request_hash env (sc_method scope) (sc_path scope) (sc_query_string scope) body
                (strip (or_empty (header_of scope ''x-chronos-actor''))),
              pe_caller = None, pe_owner = False, pe_own_replay = False\<rparr>))"

datatype asgi_message = Response_Start int headers | Response_Body string bool

fun send_and_keep :: "asgi_message \<Rightarrow> sent_response \<Rightarrow> sent_response" where
  "send_and_keep (Response_Start s hs) sent = sent\<lparr>se_status := Some s, se_headers := hs\<rparr>"
| "send_and_keep (Response_Body b more_body) sent =
     (let sent' = sent\<lparr>se_body := se_body sent @ [b]\<rparr> in if more_body then sent' else sent'\<lparr>se_complete := True\<rparr>)"

definition nothing_sent :: sent_response where
  "nothing_sent = \<lparr>se_status = None, se_headers = [], se_body = [], se_complete = False\<rparr>"

definition send_replay :: "int \<Rightarrow> headers \<Rightarrow> string \<Rightarrow> asgi_message list" where
  "send_replay st hs body =
     [Response_Start st (hs @
        (if st \<in> {204, 304} then [] else [(''content-length'', show_nat (length body))]) @
        [(''idempotency-replayed'', ''true'')]),
      Response_Body body False]"

text \<open>How the application left: it returned, it raised, or \<open>claim\<close> stopped it with a stored response.\<close>

datatype app_end = App_Returned | App_Raised | App_Replay int headers string

definition after_app ::
  "idem_env \<Rightarrow> idem_pending \<Rightarrow> app_end \<Rightarrow> asgi_message list \<Rightarrow> idem_record list \<Rightarrow> asgi_message list \<times> idem_record list" where
  "after_app env pending how messages rows =
     (case how of
        App_Replay s hs b \<Rightarrow> (messages @ send_replay s hs b, rows)
      | _ \<Rightarrow> (messages, if pe_owner pending then settle env pending (fold send_and_keep messages nothing_sent) rows else rows))"

end
