(* ===== verification/Idempotency_Props.thy ===== *)
theory Idempotency_Props
  imports Idempotency
begin

text \<open>
  Keyed writes as a system: requests that claim, run, roll back, settle, stop halfway, and the nightly
  purge, in any order. A stored answer keeps a retry from running until it expires, and a replay
  hands a caller only what was sent to the same caller for the same request.
\<close>

section \<open>Records\<close>

definition records_ok :: "idem_record list \<Rightarrow> bool" where
  "records_ok rows \<longleftrightarrow> distinct (map ir_id rows) \<and> distinct (map (\<lambda>r. (ir_caller r, ir_key r)) rows)"

lemma find_record_Some: "find_record rows c k = Some r \<Longrightarrow> r \<in> set rows \<and> ir_caller r = c \<and> ir_key r = k"
  by (auto simp: find_record_def dest: find_Some_iff_first)

lemma find_record_None: "find_record rows c k = None \<longleftrightarrow> (\<forall>r \<in> set rows. ir_caller r = c \<longrightarrow> ir_key r \<noteq> k)"
  by (auto simp: find_record_def find_None_iff)

lemma find_record_in:
  assumes "records_ok rows" "r \<in> set rows"
  shows "find_record rows (ir_caller r) (ir_key r) = Some r"
proof (cases "find_record rows (ir_caller r) (ir_key r)")
  case None
  with assms show ?thesis by (auto simp: find_record_None)
next
  case (Some x)
  with find_record_Some[OF this] assms have "x = r"
    unfolding records_ok_def distinct_map inj_on_def by auto
  with Some show ?thesis by simp
qed

lemma records_ok_filter: "records_ok rows \<Longrightarrow> records_ok (filter P rows)"
  by (simp add: records_ok_def distinct_map_filter)

lemma records_ok_snoc:
  "records_ok rows \<Longrightarrow> find_record rows (ir_caller x) (ir_key x) = None \<Longrightarrow> ir_id x = fresh_id (map ir_id rows) \<Longrightarrow>
   records_ok (rows @ [x])"
  using fresh_id_notin[of "map ir_id rows"] by (auto simp: records_ok_def find_record_None)

lemma with_response_simps [simp]:
  "ir_id (with_response s r) = ir_id r" "ir_caller (with_response s r) = ir_caller r" "ir_key (with_response s r) = ir_key r"
  "ir_request_hash (with_response s r) = ir_request_hash r" "ir_created_at (with_response s r) = ir_created_at r"
  "ir_status_code (with_response s r) = se_status s"
  by (simp_all add: with_response_def)

lemma new_record_simps [simp]:
  "ir_id (new_record env c p rows) = fresh_id (map ir_id rows)" "ir_caller (new_record env c p rows) = c"
  "ir_key (new_record env c p rows) = pe_key p" "ir_request_hash (new_record env c p rows) = pe_request_hash p"
  "ir_created_at (new_record env c p rows) = ie_now env" "ir_status_code (new_record env c p rows) = None"
  by (simp_all add: new_record_def)

lemma records_ok_with_response: "records_ok rows \<Longrightarrow> records_ok (update_rows P (with_response s) rows)"
  by (simp add: records_ok_def map_update_rows_id)

lemma settle_ok: "records_ok rows \<Longrightarrow> records_ok (settle env p sent rows)"
  by (auto simp: settle_def Let_def records_ok_filter records_ok_with_response find_record_None intro!: records_ok_snoc split: option.splits)

lemma purge_expired_ok: "records_ok rows \<Longrightarrow> records_ok (snd (purge_expired env rows))"
  by (simp add: purge_expired_def records_ok_filter)

section \<open>Claims\<close>

text \<open>A request becomes the owner of a key when no record of the key is left after its deletion of an expired one.\<close>

lemma claim_owner:
  assumes "claim env op c (Some p) seen rows again = (out, Some q, rows')" and "pe_owner q" and "\<not> pe_owner p"
  obtains P where "rows' = filter P rows @ [new_record env c q (filter P rows)]"
    "find_record (filter P rows) c (pe_key q) = None"
    "\<And>r. r \<in> set rows \<Longrightarrow> \<not> P r \<Longrightarrow> \<exists>r0 \<in> set seen. ir_id r0 = ir_id r \<and> expired env r0"
    "out = Goes_On" "pe_key q = pe_key p" "pe_request_hash q = pe_request_hash p" "pe_caller q = Some c"
proof -
  define row where "row = find_record seen c (pe_key p)"
  define stale where "stale = (case row of None \<Rightarrow> False | Some r \<Rightarrow> expired env r)"
  define P where "P = (\<lambda>r :: idem_record. \<not> stale \<or> ir_id r \<noteq> ir_id (the row))"
  let ?pending = "p\<lparr>pe_caller := Some c,
     pe_own_replay := (case op of None \<Rightarrow> False | Some op \<Rightarrow> op \<in> set OWN_REPLAY_OPERATIONS)\<rparr>"
  have seen: "(if stale then filter (\<lambda>r. ir_id r \<noteq> ir_id (the row)) rs else rs) = filter P rs" for rs
    by (simp add: P_def)
  have no_owner: "\<not> pe_owner ?pending" using assms(3) by simp
  have "\<not> (row \<noteq> None \<and> \<not> stale) \<and> find_record (filter P rows) c (pe_key p) = None \<and>
      (out, Some q, rows') = (Goes_On, Some (?pending\<lparr>pe_owner := True\<rparr>), filter P rows @ [new_record env c ?pending (filter P rows)])"
    using assms no_owner unfolding claim_def Let_def option.case row_def[symmetric] stale_def[symmetric] seen idem_pending.simps
    by (auto split: if_split_asm option.split_asm simp: row_def stale_def P_def)
  then have A: "rows' = filter P rows @ [new_record env c q (filter P rows)]" "find_record (filter P rows) c (pe_key q) = None"
    "out = Goes_On" "pe_key q = pe_key p" "pe_request_hash q = pe_request_hash p" "pe_caller q = Some c"
    by (auto simp: new_record_def)
  have "\<exists>r0 \<in> set seen. ir_id r0 = ir_id r \<and> expired env r0" if "\<not> P r" for r
    using that find_record_Some[of seen c "pe_key p"] by (auto simp: P_def stale_def row_def split: option.splits)
  with A show ?thesis using that by blast
qed

section \<open>The system\<close>

record idem_sys =
  sy_rows :: "idem_record list"
  sy_running :: "idem_pending list"
  sy_effects :: "(string \<times> string \<times> string) list"
  sy_sent :: "((string \<times> string \<times> string) \<times> sent_response) list"

definition tag_of :: "idem_pending \<Rightarrow> string \<times> string \<times> string" where
  "tag_of q = (the (pe_caller q), pe_key q, pe_request_hash q)"

text \<open>A lookup may have seen an older state of the table; a record keeps its number and its time.\<close>

definition seen_before :: "idem_record list \<Rightarrow> idem_record list \<Rightarrow> bool" where
  "seen_before seen rows \<longleftrightarrow> (\<forall>r \<in> set seen. \<forall>r' \<in> set rows. ir_id r = ir_id r' \<longrightarrow> ir_created_at r = ir_created_at r')"

text \<open>
  One step: a request that owns its key commits its effect with its claim, or rolls both back; an
  owner's response is settled; an owner's process stops first; expired records are purged.
  Requests that are answered from a record or refused change nothing.
\<close>

inductive idem_step :: "idem_env \<Rightarrow> idem_sys \<Rightarrow> idem_sys \<Rightarrow> bool" for env where
  commits: "claim env op c (Some p) seen (sy_rows s) again = (out, Some q, rows') \<Longrightarrow> \<not> pe_owner p \<Longrightarrow> pe_owner q \<Longrightarrow>
    seen_before seen (sy_rows s) \<Longrightarrow>
    idem_step env s (s\<lparr>sy_rows := rows', sy_running := q # sy_running s, sy_effects := tag_of q # sy_effects s\<rparr>)"
| rolls_back: "claim env op c (Some p) seen (sy_rows s) again = (out, Some q, rows') \<Longrightarrow> \<not> pe_owner p \<Longrightarrow> pe_owner q \<Longrightarrow>
    seen_before seen (sy_rows s) \<Longrightarrow> idem_step env s (s\<lparr>sy_running := q # sy_running s\<rparr>)"
| settles: "q \<in> set (sy_running s) \<Longrightarrow>
    idem_step env s (s\<lparr>sy_rows := settle env q sent (sy_rows s), sy_running := remove1 q (sy_running s),
      sy_sent := (tag_of q, sent) # sy_sent s\<rparr>)"
| stops: "q \<in> set (sy_running s) \<Longrightarrow> idem_step env s (s\<lparr>sy_running := remove1 q (sy_running s)\<rparr>)"
| purges: "idem_step env s (s\<lparr>sy_rows := snd (purge_expired env (sy_rows s))\<rparr>)"

text \<open>Runs with one retention setting in which every step happens before a given time.\<close>

inductive idem_run :: "int \<Rightarrow> instant \<Rightarrow> idem_sys \<Rightarrow> idem_sys \<Rightarrow> bool" for ret limit where
  here: "idem_run ret limit s s"
| onward: "idem_run ret limit s s1 \<Longrightarrow> idem_step env s1 s2 \<Longrightarrow> ie_retention env = ret \<Longrightarrow> ie_now env < limit \<Longrightarrow>
    idem_run ret limit s s2"

section \<open>A stored answer is kept\<close>

definition settled_in :: "idem_record \<Rightarrow> (string \<times> string \<times> string) list \<Rightarrow> idem_sys \<Rightarrow> bool" where
  "settled_in row effects s \<longleftrightarrow> records_ok (sy_rows s) \<and> row \<in> set (sy_rows s) \<and>
     (\<forall>q \<in> set (sy_running s). the (pe_caller q) = ir_caller row \<longrightarrow> pe_key q \<noteq> ir_key row) \<and>
     filter (\<lambda>(c, k, h). c = ir_caller row \<and> k = ir_key row) (sy_effects s) = effects"

lemma settled_elsewhere:
  assumes "settled_in row effects s" and "claim env op c (Some p) seen (sy_rows s) again = (out, Some q, rows')"
    and "\<not> pe_owner p" and "pe_owner q" and "seen_before seen (sy_rows s)"
    and "ie_now env < ir_created_at row + ie_retention env"
  shows "records_ok rows' \<and> row \<in> set rows' \<and> (the (pe_caller q) = ir_caller row \<longrightarrow> pe_key q \<noteq> ir_key row)"
  using assms(2,4,3)
proof (cases rule: claim_owner)
  case (1 P)
  from assms(1) have ok: "records_ok (sy_rows s)" and row: "row \<in> set (sy_rows s)" by (auto simp: settled_in_def)
  have "P row"
  proof (rule ccontr)
    assume "\<not> P row"
    with 1(3) row obtain r0 where r0: "r0 \<in> set seen" "ir_id r0 = ir_id row" "expired env r0" by blast
    with assms(5) row have "ir_created_at r0 = ir_created_at row" unfolding seen_before_def by blast
    with r0(3) assms(6) show False by (simp add: expired_def)
  qed
  with row have kept: "row \<in> set (filter P (sy_rows s))" by simp
  with 1(2,7) have "the (pe_caller q) = ir_caller row \<longrightarrow> pe_key q \<noteq> ir_key row" by (auto simp: find_record_None)
  moreover have "records_ok rows'" unfolding 1(1)
    using 1(2) by (intro records_ok_snoc records_ok_filter ok) simp_all
  ultimately show ?thesis using kept 1(1) by simp
qed

lemma settle_other:
  assumes "records_ok rows" and "row \<in> set rows" and "the (pe_caller q) = ir_caller row \<longrightarrow> pe_key q \<noteq> ir_key row"
  shows "row \<in> set (settle env q sent rows)"
proof (cases "find_record rows (the (pe_caller q)) (pe_key q)")
  case None
  with assms(2) show ?thesis by (simp add: settle_def)
next
  case (Some r)
  from find_record_Some[OF this] assms have "ir_id row \<noteq> ir_id r"
    unfolding records_ok_def distinct_map inj_on_def by auto
  with Some assms(2) show ?thesis by (auto simp: settle_def set_update_rows)
qed

lemma settled_step:
  assumes "idem_step env s s'" and st: "settled_in row effects s" and t: "ie_now env < ir_created_at row + ie_retention env"
  shows "settled_in row effects s'"
  using assms(1)
proof cases
  case (commits op c p seen again out q rows')
  from settled_elsewhere[OF st commits(2-5) t] st show ?thesis
    unfolding commits(1) settled_in_def tag_of_def by auto
next
  case (rolls_back op c p seen again out q rows')
  from settled_elsewhere[OF st rolls_back(2-5) t] st show ?thesis
    unfolding rolls_back(1) settled_in_def by auto
next
  case (settles q sent)
  with st show ?thesis unfolding settled_in_def
    by (auto intro: settle_ok settle_other dest: set_remove1_subset[THEN subsetD])
next
  case (stops q)
  with st show ?thesis unfolding settled_in_def by (auto dest: set_remove1_subset[THEN subsetD])
next
  case purges
  with st t show ?thesis unfolding settled_in_def by (auto intro: records_ok_filter simp: purge_expired_def)
qed

lemma settled_run:
  "idem_run ret limit s s' \<Longrightarrow> settled_in row effects s \<Longrightarrow> limit = ir_created_at row + ret \<Longrightarrow> settled_in row effects s'"
  by (induction rule: idem_run.induct) (auto intro: settled_step)

text \<open>What a later claim of a settled key is answered.\<close>

lemma claim_settled:
  assumes "records_ok rows" and "row \<in> set rows" and "\<not> expired env row" and "key_is_valid (ir_key row)"
    and "pe_key p = ir_key row" and "pe_caller p = None"
    and "op \<notin> Some ` set SECRET_OPERATIONS" and "op \<notin> Some ` set OWN_REPLAY_OPERATIONS"
  shows "fst (claim env op (ir_caller row) (Some p) rows later again) =
    (if pe_request_hash p \<noteq> ir_request_hash row then Idem_Refused idem_key_reused
     else case ir_status_code row of None \<Rightarrow> Idem_Refused in_progress
       | Some st \<Rightarrow> Replays st (case ir_response_headers row of None \<Rightarrow> [] | Some h \<Rightarrow> h)
           (case ir_response_body row of None \<Rightarrow> [] | Some b \<Rightarrow> b))"
  using assms(3-) find_record_in[OF assms(1,2)]
  by (auto simp: claim_def answer_record_def split: option.splits)


section \<open>Whose answer a replay is\<close>

definition answers :: "idem_record \<Rightarrow> sent_response \<Rightarrow> bool" where
  "answers r sent \<longleftrightarrow> recordable sent \<and> ir_status_code r = se_status sent \<and>
     ir_response_headers r = Some (kept_headers (se_headers sent)) \<and> ir_response_body r = Some (concat (se_body sent))"

definition answers_sent :: "idem_sys \<Rightarrow> bool" where
  "answers_sent s \<longleftrightarrow> records_ok (sy_rows s) \<and> (\<forall>r \<in> set (sy_rows s). ir_status_code r = None \<or>
     (\<exists>sent. ((ir_caller r, ir_key r, ir_request_hash r), sent) \<in> set (sy_sent s) \<and> answers r sent))"

lemma settle_rows:
  assumes "records_ok rows" and "r \<in> set (settle env q sent rows)"
  shows "r \<in> set rows \<or> (answers r sent \<and> (ir_caller r, ir_key r, ir_request_hash r) = tag_of q)"
proof (cases "find_record rows (the (pe_caller q)) (pe_key q)")
  case None
  with assms(2) show ?thesis
    by (auto simp: settle_def Let_def answers_def tag_of_def with_response_def split: if_splits)
next
  case (Some x)
  note x = find_record_Some[OF this]
  then have only: "y \<in> set rows \<Longrightarrow> ir_id y = ir_id x \<Longrightarrow> y = x" for y
    using assms(1) unfolding records_ok_def distinct_map inj_on_def by blast
  from assms(2) Some consider "r \<in> set rows"
    | "recordable sent" "ir_request_hash x = pe_request_hash q" "r \<in> set (update_rows (\<lambda>r. ir_id r = ir_id x) (with_response sent) rows)"
    by (auto simp: settle_def Let_def split: if_splits)
  then show ?thesis
  proof cases
    case 2
    from 2(3) have "r = with_response sent x \<or> r \<in> set rows" using only by (auto simp: set_update_rows)
    with 2(1,2) x show ?thesis by (auto simp: answers_def tag_of_def with_response_def)
  qed simp
qed

lemma answers_sent_step: "idem_step env s s' \<Longrightarrow> answers_sent s \<Longrightarrow> answers_sent s'"
proof (induction rule: idem_step.induct)
  case (commits op c p seen s again out q rows')
  from commits(1,3,2) show ?case
  proof (cases rule: claim_owner)
    case (1 P)
    from commits(5) have ok: "records_ok (sy_rows s)" by (simp add: answers_sent_def)
    have "records_ok rows'" unfolding 1(1) using 1(2) by (intro records_ok_snoc records_ok_filter ok) simp_all
    with commits(5) show ?thesis unfolding answers_sent_def 1(1) by auto
  qed
next
  case (settles q s sent)
  then have ok: "records_ok (sy_rows s)" by (simp add: answers_sent_def)
  show ?case unfolding answers_sent_def
  proof (intro conjI ballI)
    show "records_ok (sy_rows (s\<lparr>sy_rows := settle env q sent (sy_rows s), sy_running := remove1 q (sy_running s),
      sy_sent := (tag_of q, sent) # sy_sent s\<rparr>))" using settle_ok[OF ok] by simp
    fix r assume "r \<in> set (sy_rows (s\<lparr>sy_rows := settle env q sent (sy_rows s), sy_running := remove1 q (sy_running s),
      sy_sent := (tag_of q, sent) # sy_sent s\<rparr>))"
    then have "r \<in> set (settle env q sent (sy_rows s))" by simp
    from settle_rows[OF ok this] settles(2)
    show "ir_status_code r = None \<or> (\<exists>sent'. ((ir_caller r, ir_key r, ir_request_hash r), sent') \<in>
      set (sy_sent (s\<lparr>sy_rows := settle env q sent (sy_rows s), sy_running := remove1 q (sy_running s),
      sy_sent := (tag_of q, sent) # sy_sent s\<rparr>)) \<and> answers r sent')"
      unfolding answers_sent_def by auto
  qed
qed (auto simp: answers_sent_def purge_expired_def intro: records_ok_filter)

lemma answers_sent_run: "idem_run ret limit s s' \<Longrightarrow> answers_sent s \<Longrightarrow> answers_sent s'"
  by (induction rule: idem_run.induct) (auto intro: answers_sent_step)

lemma claim_replays:
  assumes "fst (claim env op c (Some p) rows rows rows) = Replays st hs b"
  obtains r where "r \<in> set rows" "ir_caller r = c" "ir_key r = pe_key p" "ir_request_hash r = pe_request_hash p"
    "ir_status_code r = Some st" "hs = (case ir_response_headers r of None \<Rightarrow> [] | Some h \<Rightarrow> h)"
    "b = (case ir_response_body r of None \<Rightarrow> [] | Some b \<Rightarrow> b)"
proof -
  have answered: "ir_request_hash r = pe_request_hash q \<and> ir_status_code r = Some st \<and>
      hs = (case ir_response_headers r of None \<Rightarrow> [] | Some h \<Rightarrow> h) \<and> b = (case ir_response_body r of None \<Rightarrow> [] | Some b \<Rightarrow> b)"
    if "answer_record r q = Replays st hs b" for r q
    using that by (auto simp: answer_record_def split: if_splits option.splits)
  define row where "row = find_record rows c (pe_key p)"
  define stale where "stale = (case row of None \<Rightarrow> False | Some r \<Rightarrow> expired env r)"
  define P where "P = (\<lambda>r :: idem_record. \<not> stale \<or> ir_id r \<noteq> ir_id (the row))"
  define q where "q = p\<lparr>pe_caller := Some c,
     pe_own_replay := (case op of None \<Rightarrow> False | Some op \<Rightarrow> op \<in> set OWN_REPLAY_OPERATIONS)\<rparr>"
  have q: "pe_request_hash q = pe_request_hash p" "pe_key q = pe_key p" by (simp_all add: q_def)
  have seen: "(if stale then filter (\<lambda>r. ir_id r \<noteq> ir_id (the row)) rs else rs) = filter P rs" for rs
    by (simp add: P_def)
  from assms have "if row \<noteq> None \<and> \<not> stale then answer_record (the row) q = Replays st hs b
      else find_record (filter P rows) c (pe_key p) \<noteq> None \<and>
        fst (case find_record (filter P rows) c (pe_key p) of
          None \<Rightarrow> (Idem_Refused in_progress, Some q, filter P rows)
        | Some r \<Rightarrow> (answer_record r q, Some q, filter P rows)) = Replays st hs b"
    unfolding claim_def Let_def option.case q_def[symmetric] q(2) row_def[symmetric] stale_def[symmetric] seen
    by (simp split: if_split_asm del: not_None_eq; blast)
  then have "(row \<noteq> None \<and> answer_record (the row) q = Replays st hs b) \<or>
      (\<exists>r. find_record (filter P rows) c (pe_key p) = Some r \<and> answer_record r q = Replays st hs b)"
    by (cases "find_record (filter P rows) c (pe_key p)") (simp_all split: if_split_asm del: not_None_eq)
  then have "\<exists>r. answer_record r q = Replays st hs b \<and> r \<in> set rows \<and> ir_caller r = c \<and> ir_key r = pe_key p"
  proof (elim disjE conjE exE)
    assume "row \<noteq> None" "answer_record (the row) q = Replays st hs b"
    with find_record_Some[of rows c "pe_key p" "the row"] show ?thesis unfolding row_def by force
  next
    fix r assume "find_record (filter P rows) c (pe_key p) = Some r" "answer_record r q = Replays st hs b"
    with find_record_Some[of "filter P rows" c "pe_key p" r] show ?thesis by force
  qed
  then obtain r where r: "answer_record r q = Replays st hs b" "r \<in> set rows" "ir_caller r = c" "ir_key r = pe_key p" by blast
  show ?thesis using that[OF r(2-4)] answered[OF r(1)] q(1) by simp
qed

section \<open>Keyed writes run once\<close>

text \<open>C28: A keyed write runs once: when its answer is stored and no other request of the key is still
  running, then whatever happens before the record expires (other requests, retries that read an
  older state of the table, failures, restarts, purges) the record stays, no request under the key
  takes effect, and a retry is answered with the stored response, or refused when it is a
  different request.\<close>

theorem keyed_write_runs_once:
  assumes "records_ok (sy_rows s)" and "row \<in> set (sy_rows s)" and "ir_status_code row = Some st"
    and "\<forall>q \<in> set (sy_running s). the (pe_caller q) = ir_caller row \<longrightarrow> pe_key q \<noteq> ir_key row"
    and "idem_run ret (ir_created_at row + ret) s s'"
    and "ie_retention env = ret" and "ie_now env < ir_created_at row + ret"
    and "key_is_valid (ir_key row)" and "pe_key p = ir_key row" and "pe_caller p = None"
    and "op \<notin> Some ` set SECRET_OPERATIONS" and "op \<notin> Some ` set OWN_REPLAY_OPERATIONS"
  shows "row \<in> set (sy_rows s') \<and>
    filter (\<lambda>(c, k, h). c = ir_caller row \<and> k = ir_key row) (sy_effects s') =
      filter (\<lambda>(c, k, h). c = ir_caller row \<and> k = ir_key row) (sy_effects s) \<and>
    fst (claim env op (ir_caller row) (Some p) (sy_rows s') later again) =
      (if pe_request_hash p \<noteq> ir_request_hash row then Idem_Refused idem_key_reused
       else Replays st (case ir_response_headers row of None \<Rightarrow> [] | Some h \<Rightarrow> h)
         (case ir_response_body row of None \<Rightarrow> [] | Some b \<Rightarrow> b))"
proof -
  have "settled_in row (filter (\<lambda>(c, k, h). c = ir_caller row \<and> k = ir_key row) (sy_effects s)) s"
    using assms(1,2,4) by (simp add: settled_in_def)
  from settled_run[OF assms(5) this refl] have s': "records_ok (sy_rows s')" "row \<in> set (sy_rows s')"
    "filter (\<lambda>(c, k, h). c = ir_caller row \<and> k = ir_key row) (sy_effects s') =
      filter (\<lambda>(c, k, h). c = ir_caller row \<and> k = ir_key row) (sy_effects s)" by (auto simp: settled_in_def)
  have "\<not> expired env row" using assms(6,7) by (simp add: expired_def)
  from claim_settled[OF s'(1,2) this assms(8-12), of later again] s'(2,3) assms(3) show ?thesis by simp
qed

definition demo_idem :: "instant \<Rightarrow> idem_env" where
  "demo_idem n = \<lparr>ie_now = n, ie_retention = 100, ie_sha256 = (\<lambda>x. x), ie_sorted_query = (\<lambda>x. x),
     ie_canonical_json = (\<lambda>x. Some x)\<rparr>"

definition demo_pending :: idem_pending where
  "demo_pending = \<lparr>pe_key = ''k'', pe_request_hash = ''h'', pe_caller = None, pe_owner = False, pe_own_replay = False\<rparr>"

definition demo_owner :: idem_pending where
  "demo_owner = demo_pending\<lparr>pe_caller := Some ''user:u1'', pe_owner := True\<rparr>"

definition demo_sent :: "int \<Rightarrow> sent_response" where
  "demo_sent st = \<lparr>se_status = Some st, se_headers = [(''Content-Type'', ''application/json''), (''Date'', ''today'')],
     se_body = [''{}''], se_complete = True\<rparr>"

definition quiet :: idem_sys where
  "quiet = \<lparr>sy_rows = [], sy_running = [], sy_effects = [], sy_sent = []\<rparr>"

definition demo_claimed :: "instant \<Rightarrow> idem_sys \<Rightarrow> idem_sys" where
  "demo_claimed n s = s\<lparr>sy_rows := snd (snd (claim (demo_idem n) None ''user:u1'' (Some demo_pending) (sy_rows s) (sy_rows s) [])),
     sy_running := demo_owner # sy_running s, sy_effects := tag_of demo_owner # sy_effects s\<rparr>"

definition demo_settled :: "instant \<Rightarrow> int \<Rightarrow> idem_sys \<Rightarrow> idem_sys" where
  "demo_settled n st s = s\<lparr>sy_rows := settle (demo_idem n) demo_owner (demo_sent st) (sy_rows s),
     sy_running := remove1 demo_owner (sy_running s), sy_sent := (tag_of demo_owner, demo_sent st) # sy_sent s\<rparr>"

lemma seen_before_refl: "records_ok rows \<Longrightarrow> seen_before rows rows"
  unfolding seen_before_def records_ok_def distinct_map inj_on_def by auto

lemma demo_claims:
  assumes "idem_run 100 limit s s1" "n < limit" "records_ok (sy_rows s1)" "find_record (sy_rows s1) ''user:u1'' ''k'' = None"
  shows "idem_run 100 limit s (demo_claimed n s1)"
    and "idem_run 100 limit s (s1\<lparr>sy_running := demo_owner # sy_running s1\<rparr>)"
proof -
  have k: "key_is_valid ''k''" by code_simp
  have q: "claim (demo_idem n) None ''user:u1'' (Some demo_pending) (sy_rows s1) (sy_rows s1) [] =
    (Goes_On, Some demo_owner, snd (snd (claim (demo_idem n) None ''user:u1'' (Some demo_pending) (sy_rows s1) (sy_rows s1) [])))"
    using assms(4) k by (simp add: claim_def demo_pending_def demo_owner_def)
  have o: "\<not> pe_owner demo_pending" "pe_owner demo_owner" by (simp_all add: demo_pending_def demo_owner_def)
  note seen = seen_before_refl[OF assms(3)]
  show "idem_run 100 limit s (demo_claimed n s1)" unfolding demo_claimed_def
    by (rule idem_run.onward[OF assms(1) idem_step.commits[OF q o seen]]) (use assms(2) in \<open>simp_all add: demo_idem_def\<close>)
  show "idem_run 100 limit s (s1\<lparr>sy_running := demo_owner # sy_running s1\<rparr>)"
    by (rule idem_run.onward[OF assms(1) idem_step.rolls_back[OF q o seen]]) (use assms(2) in \<open>simp_all add: demo_idem_def\<close>)
qed

lemma demo_settles:
  assumes "idem_run 100 limit s s1" "n < limit" "demo_owner \<in> set (sy_running s1)"
  shows "idem_run 100 limit s (demo_settled n st s1)"
  unfolding demo_settled_def
  by (rule idem_run.onward[OF assms(1) idem_step.settles[OF assms(3), of "demo_idem n" "demo_sent st"]])
    (use assms(2) in \<open>simp_all add: demo_idem_def\<close>)

definition demo_once :: idem_sys where
  "demo_once = demo_settled 6 201 (demo_claimed 5 quiet)"

theorem keyed_write_runs_once_witness:
  "ir_status_code (hd (sy_rows demo_once)) = Some 201 \<and>
   fst (claim (demo_idem 50) None ''user:u1'' (Some demo_pending) (sy_rows demo_once) [] []) =
     Replays 201 [(''Content-Type'', ''application/json'')] ''{}''"
proof -
  have "\<exists>row. sy_rows demo_once = [row] \<and> ir_status_code row = Some 201 \<and> ir_created_at row = 5 \<and>
    ir_key row = ''k'' \<and> ir_caller row = ''user:u1'' \<and> ir_request_hash row = ''h'' \<and>
    ir_response_headers row = Some [(''Content-Type'', ''application/json'')] \<and> ir_response_body row = Some ''{}''"
    by (rule exI[of _ "hd (sy_rows demo_once)"]) code_simp
  then obtain row where rows: "sy_rows demo_once = [row]" "ir_status_code row = Some 201" "ir_created_at row = 5"
    "ir_key row = ''k''" "ir_caller row = ''user:u1''" "ir_request_hash row = ''h''"
    "ir_response_headers row = Some [(''Content-Type'', ''application/json'')]" "ir_response_body row = Some ''{}''" by blast
  have quiet: "sy_running demo_once = []" and v: "key_is_valid ''k''" by code_simp+
  have "fst (claim (demo_idem 50) None (ir_caller row) (Some demo_pending) (sy_rows demo_once) [] []) =
      Replays 201 [(''Content-Type'', ''application/json'')] ''{}''"
    using keyed_write_runs_once[of demo_once row 201 100 demo_once "demo_idem 50" demo_pending None "[]" "[]"]
      rows quiet v idem_run.here by (simp add: demo_idem_def demo_pending_def records_ok_def)
  with rows show ?thesis by simp
qed

text \<open>C29: A replay is the caller's own: whatever the interleaving from an empty table on, a response
  that a claim replays was sent before to the same caller, under the same key, for a request with
  the same hash, and it has the status, the kept headers and the body that went out then.\<close>

theorem replay_is_own_answer:
  assumes "idem_run ret limit quiet s" and "fst (claim env op c (Some p) (sy_rows s) (sy_rows s) (sy_rows s)) = Replays st hs b"
  shows "\<exists>sent. ((c, pe_key p, pe_request_hash p), sent) \<in> set (sy_sent s) \<and> recordable sent \<and>
    se_status sent = Some st \<and> hs = kept_headers (se_headers sent) \<and> b = concat (se_body sent)"
proof -
  have "answers_sent quiet" by (simp add: answers_sent_def quiet_def records_ok_def)
  with assms(1) have s: "answers_sent s" by (rule answers_sent_run)
  from assms(2) show ?thesis
  proof (cases rule: claim_replays)
    case (1 r)
    then show ?thesis using s unfolding answers_sent_def answers_def by fastforce
  qed
qed

theorem replay_is_own_answer_witness:
  "idem_run 100 90 quiet demo_once \<and>
   (\<exists>sent. ((''user:u1'', ''k'', ''h''), sent) \<in> set (sy_sent demo_once) \<and> recordable sent \<and>
     se_status sent = Some 201 \<and> [(''Content-Type'', ''application/json'')] = kept_headers (se_headers sent) \<and>
     ''{}'' = concat (se_body sent))"
proof -
  have "records_ok (sy_rows quiet)" "find_record (sy_rows quiet) ''user:u1'' ''k'' = None" by code_simp+
  with idem_run.here have "idem_run 100 90 quiet (demo_claimed 5 quiet)" by (intro demo_claims) simp_all
  then have run: "idem_run 100 90 quiet demo_once" unfolding demo_once_def
    by (rule demo_settles) (simp_all add: demo_claimed_def)
  have "fst (claim (demo_idem 50) None ''user:u1'' (Some demo_pending) (sy_rows demo_once) (sy_rows demo_once) (sy_rows demo_once)) =
     Replays 201 [(''Content-Type'', ''application/json'')] ''{}''" by code_simp
  from replay_is_own_answer[OF run this] run show ?thesis by (simp add: demo_pending_def)
qed

text \<open>
  The key of a running request can be lost: a request that fails with a 500 is settled after its
  rollback, when a retry may already hold the key; the record is found by caller, key and hash, so
  the settlement deletes the retry's claim, and a third request runs again.
\<close>

definition demo_race :: idem_sys where
  "demo_race = demo_claimed 8 (demo_settled 7 500 (demo_claimed 6 (quiet\<lparr>sy_running := demo_owner # sy_running quiet\<rparr>)))"

lemma late_failure_frees_a_running_key:
  "idem_run 100 90 quiet demo_race \<and> sy_effects demo_race = [tag_of demo_owner, tag_of demo_owner]"
proof -
  let ?s1 = "quiet\<lparr>sy_running := demo_owner # sy_running quiet\<rparr>"
  have free: "records_ok (sy_rows quiet)" "find_record (sy_rows quiet) ''user:u1'' ''k'' = None"
    "records_ok (sy_rows ?s1)" "find_record (sy_rows ?s1) ''user:u1'' ''k'' = None" by code_simp+
  have "idem_run 100 90 quiet ?s1" by (rule demo_claims(2)[OF idem_run.here _ free(1,2), of 5]) simp
  then have "idem_run 100 90 quiet (demo_claimed 6 ?s1)" by (rule demo_claims(1)[OF _ _ free(3,4)]) simp
  then have "idem_run 100 90 quiet (demo_settled 7 500 (demo_claimed 6 ?s1))"
    by (rule demo_settles) (simp_all add: demo_claimed_def)
  moreover have "records_ok (sy_rows (demo_settled 7 500 (demo_claimed 6 ?s1)))"
    "find_record (sy_rows (demo_settled 7 500 (demo_claimed 6 ?s1))) ''user:u1'' ''k'' = None" by code_simp+
  ultimately have "idem_run 100 90 quiet demo_race" unfolding demo_race_def by (intro demo_claims(1)) simp_all
  moreover have "sy_effects demo_race = [tag_of demo_owner, tag_of demo_owner]" by code_simp
  ultimately show ?thesis by simp
qed

end
