(* ===== verification/Changes.thy ===== *)
theory Changes
  imports Reservations
begin

text \<open>
  The reading side of the change feed, \<^verbatim>\<open>backend/app/api/v1/endpoints/changes.py\<close>: the rows a list of
  keys stands for now, the full log of markers and the feed collapsed to one entry per row.
\<close>

section \<open>Rows\<close>

datatype entity_row = Resource_Row resource | Reservation_Row reservation_response

definition RESOURCE_entity :: string where "RESOURCE_entity = ''resource''"

definition RESERVATION_entity :: string where "RESERVATION_entity = ''reservation''"

definition current_row :: "database \<Rightarrow> string \<times> int \<Rightarrow> walk_error + entity_row option" where
  "current_row db key =
     (if fst key = RESOURCE_entity
      then Inr (map_option Resource_Row (find (\<lambda>r. re_id r = snd key) (resources db)))
      else if fst key = RESERVATION_entity
      then (case find (\<lambda>r. rv_id r = snd key) (reservations db) of None \<Rightarrow> Inr None
        | Some held \<Rightarrow> bind_result (own_view db held) (\<lambda>v. Inr (Some (Reservation_Row v))))
      else Inr None)"

definition current_rows :: "database \<Rightarrow> (string \<times> int) list \<Rightarrow> walk_error + ((string \<times> int) \<times> entity_row option) list" where
  "current_rows db keys = map_result (\<lambda>key. bind_result (current_row db key) (\<lambda>row. Inr (key, row))) keys"

section \<open>The feed\<close>

record change_entry =
  ce_cursor :: int
  ce_entity_kind :: string
  ce_entity_id :: int
  ce_change_kind :: string
  ce_at :: instant
  ce_row :: "entity_row option"

record change_feed =
  cf_changes :: "change_entry list"
  cf_next_cursor :: int

definition marker_key :: "change_marker \<Rightarrow> string \<times> int" where
  "marker_key m = (cm_entity_kind m, cm_entity_id m)"

definition markers_since :: "int \<Rightarrow> change_marker list \<Rightarrow> change_marker list" where
  "markers_since since markers = filter (\<lambda>m. cm_id m > since) markers"

definition full_log :: "int \<Rightarrow> nat \<Rightarrow> change_marker list \<Rightarrow> change_feed" where
  "full_log since lmt markers =
     (let ms = take lmt (sort_key cm_id (markers_since since markers)) in
      \<lparr>cf_changes = map (\<lambda>m. \<lparr>ce_cursor = cm_id m, ce_entity_kind = cm_entity_kind m, ce_entity_id = cm_entity_id m,
         ce_change_kind = cm_change_kind m, ce_at = cm_at m, ce_row = None\<rparr>) ms,
       cf_next_cursor = (if ms = [] then since else cm_id (List.last ms))\<rparr>)"

definition ids_of :: "int \<Rightarrow> change_marker list \<Rightarrow> string \<times> int \<Rightarrow> int list" where
  "ids_of since markers key = map cm_id (filter (\<lambda>m. marker_key m = key) (markers_since since markers))"

definition newest :: "int \<Rightarrow> change_marker list \<Rightarrow> string \<times> int \<Rightarrow> int" where
  "newest since markers key = Max (set (ids_of since markers key))"

definition oldest :: "int \<Rightarrow> change_marker list \<Rightarrow> string \<times> int \<Rightarrow> int" where
  "oldest since markers key = Min (set (ids_of since markers key))"

text \<open>One group per row that changed, by its newest marker.\<close>

definition all_groups :: "int \<Rightarrow> change_marker list \<Rightarrow> (string \<times> int) list" where
  "all_groups since markers = sort_key (newest since markers) (remdups (map marker_key (markers_since since markers)))"

definition marker_by_id :: "change_marker list \<Rightarrow> int \<Rightarrow> change_marker" where
  "marker_by_id markers i = the (find (\<lambda>m. cm_id m = i) markers)"

definition change_of :: "int \<Rightarrow> change_marker list \<Rightarrow> (string \<times> int) \<times> entity_row option \<Rightarrow> change_entry" where
  "change_of since markers kr = (case kr of (key, row) \<Rightarrow>
     \<lparr>ce_cursor = newest since markers key, ce_entity_kind = fst key, ce_entity_id = snd key,
      ce_change_kind = cm_change_kind (marker_by_id markers (oldest since markers key)),
      ce_at = cm_at (marker_by_id markers (newest since markers key)), ce_row = row\<rparr>)"

definition collapsed :: "int \<Rightarrow> nat \<Rightarrow> database \<Rightarrow> walk_error + change_feed" where
  "collapsed since lmt db =
     (let markers = change_markers db; groups = take lmt (all_groups since markers) in
      if groups = [] then Inr \<lparr>cf_changes = [], cf_next_cursor = since\<rparr>
      else bind_result (current_rows db groups) (\<lambda>rows.
        let changes = map (change_of since markers) rows
        in Inr \<lparr>cf_changes = changes, cf_next_cursor = ce_cursor (List.last changes)\<rparr>))"

definition list_changes :: "app_env \<Rightarrow> user \<Rightarrow> int \<Rightarrow> nat \<Rightarrow> bool \<Rightarrow> database \<Rightarrow> walk_error + change_feed" where
  "list_changes env current_user since lmt full db =
     bind_result (lift_refusal (require_roles [ORG_ADMIN] current_user)) (\<lambda>_.
     if \<not> env_change_feed_enabled env
     then Inl (Refused (chronos_error 503 CHANGE_FEED_DISABLED
       (Msg ''the change feed is off. Set CHANGE_FEED_ENABLED=true to start recording changes.'')))
     else if full then Inr (full_log since lmt (change_markers db))
     else collapsed since lmt db)"

section \<open>A consumer that polls\<close>

text \<open>Poll after poll, each from the cursor the last one returned, until a page is empty; at most \<open>n\<close> polls.\<close>

fun poll_all :: "nat \<Rightarrow> int \<Rightarrow> nat \<Rightarrow> database \<Rightarrow> walk_error + change_entry list" where
  "poll_all 0 since lmt db = Inr []"
| "poll_all (Suc n) since lmt db =
     bind_result (collapsed since lmt db) (\<lambda>feed.
       if cf_changes feed = [] then Inr []
       else bind_result (poll_all n (cf_next_cursor feed) lmt db) (\<lambda>more. Inr (cf_changes feed @ more)))"

end
