(* ===== verification/Webhooks.thy ===== *)
theory Webhooks
  imports Changes
begin

text \<open>
  Outgoing webhooks, \<^verbatim>\<open>backend/app/services/webhooks.py\<close>: which URLs may be called, the fan-out of
  change markers into deliveries, the claim of what is due under a lease, the outcome of an attempt
  and what it does to the delivery and its subscription.

  Parameters: HMAC and base64, the digest behind the jitter, URL and address parsing (urllib and
  ipaddress), name resolution, the HTTP client, and the JSON text of a body. The fraction of the
  jitter is exact where Python rounds it to a double.
\<close>

section \<open>Tables\<close>

record webhook_subscription =
  ws_id :: int
  ws_organization_id :: string
  ws_url :: string
  ws_event_types :: string
  ws_active :: bool
  ws_paused_at :: "instant option"
  ws_consecutive_failures :: int
  ws_cursor :: int
  ws_secret :: string
  ws_previous_secret :: "string option"
  ws_previous_secret_expires_at :: "instant option"
  ws_created_at :: instant
  ws_updated_at :: instant

datatype delivery_status = PENDING | SUCCEEDED | FAILED

record webhook_delivery =
  wd_id :: int
  wd_subscription_id :: int
  wd_marker_id :: int
  wd_event_id :: string
  wd_event_type :: string
  wd_entity_kind :: string
  wd_entity_id :: int
  wd_payload :: string
  wd_status :: delivery_status
  wd_attempt_count :: nat
  wd_next_attempt_at :: "instant option"
  wd_created_at :: instant
  wd_completed_at :: "instant option"
  wd_organization_id :: string

record webhook_attempt =
  wa_id :: int
  wa_delivery_id :: int
  wa_at :: instant
  wa_status_code :: "int option"
  wa_response_ms :: int
  wa_error :: "string option"
  wa_response_excerpt :: "string option"

text \<open>The rest of an organization's rows are a database of its own.\<close>

record hook_tables =
  webhook_subscriptions :: "webhook_subscription list"
  webhook_deliveries :: "webhook_delivery list"
  webhook_attempts :: "webhook_attempt list"
  hook_databases :: "string \<Rightarrow> database"

section \<open>Constants\<close>

definition SECOND :: int where "SECOND = 1000000"

definition PREVIOUS_SECRET_LIFETIME :: int where "PREVIOUS_SECRET_LIFETIME = 24 * 3600 * SECOND"

definition RETRY_DELAYS :: "int list" where
  "RETRY_DELAYS = [5 * SECOND, 5 * 60 * SECOND, 30 * 60 * SECOND, 2 * 3600 * SECOND, 5 * 3600 * SECOND,
     10 * 3600 * SECOND, 10 * 3600 * SECOND]"

definition MAX_ATTEMPTS :: nat where "MAX_ATTEMPTS = length RETRY_DELAYS + 1"

definition PAUSE_AFTER_FAILED_DELIVERIES :: int where "PAUSE_AFTER_FAILED_DELIVERIES = 5"

definition ATTEMPT_DEADLINE :: int where "ATTEMPT_DEADLINE = 15 * SECOND"

definition CLAIM_LEASE :: int where "CLAIM_LEASE = 60 * SECOND"

definition LEASE_MARGIN :: int where "LEASE_MARGIN = 10 * SECOND"

definition FAN_OUT_BATCH :: nat where "FAN_OUT_BATCH = 500"

definition SEND_BATCH :: nat where "SEND_BATCH = 50"

definition POSTGRES_COMMIT_GRACE :: int where "POSTGRES_COMMIT_GRACE = 5 * SECOND"

section \<open>The environment\<close>

record url_parts =
  up_scheme :: string
  up_hostname :: "string option"
  up_username :: "string option"
  up_password :: "string option"
  up_port :: "int option option"
  up_path :: string
  up_query :: string

text \<open>The properties of an address as \<^verbatim>\<open>ipaddress\<close> reports them; \<open>ip_mapped\<close> is the IPv4 address an IPv6 one carries.\<close>

record ip_flags =
  ip_multicast :: bool
  ip_unspecified :: bool
  ip_reserved :: bool
  ip_loopback :: bool
  ip_private :: bool
  ip_link_local :: bool
  ip_global :: bool

record ip_address =
  ip_own :: ip_flags
  ip_mapped :: "ip_flags option"

text \<open>The body of a delivery before it is written as JSON.\<close>

record hook_body =
  hb_type :: string
  hb_timestamp :: instant
  hb_marker_id :: int
  hb_entity_kind :: string
  hb_entity_id :: int
  hb_change_kind :: string
  hb_at :: instant
  hb_row :: "entity_row option"

record hook_env =
  he_now :: instant
  he_is_postgres :: bool
  he_host_clock :: bool
  he_change_feed_enabled :: bool
  he_event_id :: "int \<Rightarrow> int \<Rightarrow> string"
  he_dumps :: "hook_body \<Rightarrow> string"
  he_digest64 :: "string \<Rightarrow> nat"
  he_hmac64 :: "string \<Rightarrow> string \<Rightarrow> string"
  he_b64decode :: "string \<Rightarrow> string"
  he_urlsplit :: "string \<Rightarrow> url_parts"
  he_ip_literal :: "string \<Rightarrow> string option"
  he_ip_address :: "string \<Rightarrow> ip_address"
  he_resolve :: "string \<Rightarrow> int \<Rightarrow> string list option"
  he_allow_http_hosts :: "string list"
  he_allow_private_targets :: bool

datatype hook_error = Hook_Refused int string string | Hook_Walk walk_error | Hook_Integrity

section \<open>Secrets and signatures\<close>

definition SECRET_PREFIX :: string where "SECRET_PREFIX = ''whsec_''"

definition removeprefix :: "string \<Rightarrow> string \<Rightarrow> string" where
  "removeprefix s p = (if startswith s p then drop (length p) s else s)"

definition sign :: "hook_env \<Rightarrow> string \<Rightarrow> string \<Rightarrow> int \<Rightarrow> string \<Rightarrow> string" where
  "sign env secret event_id timestamp body =
     ''v1,'' @ he_hmac64 env (he_b64decode env (removeprefix secret SECRET_PREFIX))
       (event_id @ ''.'' @ show_int timestamp @ ''.'' @ body)"

definition previous_secret_live :: "webhook_subscription \<Rightarrow> instant \<Rightarrow> bool" where
  "previous_secret_live s now =
     (case ws_previous_secret s of None \<Rightarrow> False
      | Some p \<Rightarrow> p \<noteq> [] \<and> (case ws_previous_secret_expires_at s of None \<Rightarrow> True | Some e \<Rightarrow> e > now))"

definition signing_secrets :: "webhook_subscription \<Rightarrow> instant \<Rightarrow> string list" where
  "signing_secrets s now = ws_secret s # (if previous_secret_live s now then [the (ws_previous_secret s)] else [])"

section \<open>Which URLs may be called\<close>

record target =
  tg_scheme :: string
  tg_host :: string
  tg_port :: int
  tg_address :: string
  tg_path :: string
  tg_query :: string

definition bracketed :: "string \<Rightarrow> string" where
  "bracketed h = (if CHR '':'' \<in> set h then ''['' @ h @ '']'' else h)"

definition address_url :: "target \<Rightarrow> string" where
  "address_url t = tg_scheme t @ ''://'' @ bracketed (tg_address t) @ '':'' @ show_int (tg_port t) @
     (if startswith (tg_path t) ''/'' then tg_path t else ''/'' @ tg_path t) @
     (if tg_query t = [] then [] else ''?'' @ tg_query t)"

definition host_header :: "target \<Rightarrow> string" where
  "host_header t = (let name = bracketed (tg_host t); default = (if tg_scheme t = ''https'' then 443 else 80)
     in if tg_port t = default then name else name @ '':'' @ show_int (tg_port t))"

definition check_address :: "hook_env \<Rightarrow> string \<Rightarrow> string \<Rightarrow> string + unit" where
  "check_address env host address =
     (let ip = he_ip_address env address; f = (case ip_mapped ip of None \<Rightarrow> ip_own ip | Some m \<Rightarrow> m)
      in if ip_multicast f \<or> ip_unspecified f \<or> ip_reserved f
         then Inl (host @ '' resolves to '' @ address @ '', which no receiver can be at'')
         else if he_allow_private_targets env then Inr ()
         else if ip_loopback f \<or> ip_private f \<or> ip_link_local f \<or> \<not> ip_global f
         then Inl (host @ '' resolves to '' @ address @ '', a loopback, private or link-local address; '' @
           ''WEBHOOK_ALLOW_PRIVATE_TARGETS allows those'')
         else Inr ())"

definition port_of :: "url_parts \<Rightarrow> string \<Rightarrow> string + int" where
  "port_of parts scheme = (case up_port parts of
     None \<Rightarrow> Inl ''the port is not a number from 1 to 65535''
   | Some p \<Rightarrow> Inr (case p of None \<Rightarrow> (if scheme = ''https'' then 443 else 80)
       | Some n \<Rightarrow> if n = 0 then (if scheme = ''https'' then 443 else 80) else n))"

definition vet :: "hook_env \<Rightarrow> string \<Rightarrow> string + target" where
  "vet env url =
     (let parts = he_urlsplit env url; scheme = lower (up_scheme parts);
          host = lower (case up_hostname parts of None \<Rightarrow> [] | Some h \<Rightarrow> h)
      in if scheme \<noteq> ''http'' \<and> scheme \<noteq> ''https'' then Inl ''only https URLs are accepted''
         else if host = [] then Inl ''the URL has no host''
         else if up_username parts \<noteq> None \<or> up_password parts \<noteq> None
         then Inl ''the URL carries a user name or password, which would be stored in clear''
         else if scheme = ''http'' \<and> host \<notin> set (he_allow_http_hosts env)
         then Inl (''plain http to '' @ host @ '' is not allowed; use https or list the host in WEBHOOK_ALLOW_HTTP_HOSTS'')
         else bind_result (port_of parts scheme) (\<lambda>port.
           case (case he_ip_literal env host of Some a \<Rightarrow> Some [a] | None \<Rightarrow> he_resolve env host port) of
             None \<Rightarrow> Inl (host @ '' does not resolve'')
           | Some [] \<Rightarrow> Inl (host @ '' does not resolve'')
           | Some (a # as) \<Rightarrow>
               bind_result (map_result (check_address env host) (a # as)) (\<lambda>_.
                 Inr \<lparr>tg_scheme = scheme, tg_host = host, tg_port = port, tg_address = a,
                   tg_path = (if up_path parts = [] then ''/'' else up_path parts), tg_query = up_query parts\<rparr>)))"

section \<open>Fan-out\<close>

definition latest_marker_id :: "database \<Rightarrow> int" where
  "latest_marker_id db = (if change_markers db = [] then 0 else Max (set (map cm_id (change_markers db))))"

definition event_type :: "change_marker \<Rightarrow> string" where
  "event_type m = cm_entity_kind m @ ''.'' @ cm_change_kind m"

definition build_payload :: "hook_env \<Rightarrow> change_marker \<Rightarrow> entity_row option \<Rightarrow> string" where
  "build_payload env m row = he_dumps env \<lparr>hb_type = event_type m, hb_timestamp = cm_at m, hb_marker_id = cm_id m,
     hb_entity_kind = cm_entity_kind m, hb_entity_id = cm_entity_id m, hb_change_kind = cm_change_kind m,
     hb_at = cm_at m, hb_row = row\<rparr>"

text \<open>The markers of one pass for a subscription: up to a batch, and none from the first one too young to trust.\<close>

definition fan_markers :: "hook_env \<Rightarrow> hook_tables \<Rightarrow> webhook_subscription \<Rightarrow> change_marker list" where
  "fan_markers env t s =
     (let waits = he_is_postgres env \<and> \<not> he_host_clock env; settled = he_now env - POSTGRES_COMMIT_GRACE
      in takeWhile (\<lambda>m. \<not> (waits \<and> cm_at m > settled))
        (take FAN_OUT_BATCH (sort_key cm_id (markers_since (ws_cursor s) (change_markers (hook_databases t (ws_organization_id s)))))))"

definition chosen_markers :: "webhook_subscription \<Rightarrow> change_marker list \<Rightarrow> change_marker list" where
  "chosen_markers s ms = filter (\<lambda>m. event_type m \<in> set (split_on CHR '','' (ws_event_types s))) ms"

definition new_delivery ::
  "hook_env \<Rightarrow> webhook_subscription \<Rightarrow> webhook_delivery list \<Rightarrow> change_marker \<Rightarrow> entity_row option \<Rightarrow> webhook_delivery" where
  "new_delivery env s rows m row = \<lparr>wd_id = fresh_id (map wd_id rows), wd_subscription_id = ws_id s, wd_marker_id = cm_id m,
     wd_event_id = he_event_id env (ws_id s) (cm_id m), wd_event_type = event_type m, wd_entity_kind = cm_entity_kind m,
     wd_entity_id = cm_entity_id m, wd_payload = build_payload env m row, wd_status = PENDING, wd_attempt_count = 0,
     wd_next_attempt_at = Some (he_now env), wd_created_at = he_now env, wd_completed_at = None,
     wd_organization_id = ws_organization_id s\<rparr>"

definition insert_delivery ::
  "hook_env \<Rightarrow> webhook_subscription \<Rightarrow> ((string \<times> int) \<times> entity_row option) list \<Rightarrow> change_marker
   \<Rightarrow> webhook_delivery list \<Rightarrow> hook_error + webhook_delivery list" where
  "insert_delivery env s rows m ds =
     (let d = new_delivery env s ds m (case map_of rows (marker_key m) of None \<Rightarrow> None | Some r \<Rightarrow> r)
      in if list_ex (\<lambda>x. (wd_subscription_id x = wd_subscription_id d \<and> wd_marker_id x = wd_marker_id d) \<or>
           wd_event_id x = wd_event_id d) ds
         then Inl Hook_Integrity else Inr (ds @ [d]))"

definition lift_walk :: "walk_error + 'a \<Rightarrow> hook_error + 'a" where
  "lift_walk r = (case r of Inl e \<Rightarrow> Inl (Hook_Walk e) | Inr a \<Rightarrow> Inr a)"

definition fan_sub :: "hook_env \<Rightarrow> webhook_subscription \<Rightarrow> nat \<times> hook_tables \<Rightarrow> hook_error + nat \<times> hook_tables" where
  "fan_sub env s made_t = (case made_t of (made, t) \<Rightarrow>
     let markers = fan_markers env t s in
     if markers = [] then Inr (made, t)
     else
       (let chosen = chosen_markers s markers in
        bind_result (lift_walk (current_rows (hook_databases t (ws_organization_id s)) (sort (remdups (map marker_key chosen))))) (\<lambda>rows.
        bind_result (fold_result (insert_delivery env s rows) chosen (webhook_deliveries t)) (\<lambda>ds.
        Inr (made + length chosen, t\<lparr>webhook_deliveries := ds,
          webhook_subscriptions := update_rows (\<lambda>x. ws_id x = ws_id s)
            (\<lambda>x. x\<lparr>ws_cursor := cm_id (List.last markers), ws_updated_at := he_now env\<rparr>) (webhook_subscriptions t)\<rparr>)))))"

definition live :: "webhook_subscription \<Rightarrow> bool" where
  "live s \<longleftrightarrow> ws_active s \<and> ws_paused_at s = None"

text \<open>\<open>locked\<close> are the subscriptions another instance holds; SQLite takes no such locks.\<close>

definition fan_out :: "hook_env \<Rightarrow> int list \<Rightarrow> hook_tables \<Rightarrow> hook_error + nat \<times> hook_tables" where
  "fan_out env locked t =
     (if \<not> he_change_feed_enabled env then Inr (0, t)
      else fold_result (fan_sub env)
        (sort_key ws_id (filter (\<lambda>s. live s \<and> \<not> (he_is_postgres env \<and> ws_id s \<in> set locked)) (webhook_subscriptions t))) (0, t))"

section \<open>Claiming and sending\<close>

record outgoing =
  og_delivery_id :: int
  og_subscription_id :: int
  og_url :: string
  og_event_id :: string
  og_payload :: string
  og_secrets :: "string list"
  og_lease :: instant

record outcome =
  oc_status_code :: "int option"
  oc_response_ms :: int
  oc_error :: "string option"
  oc_excerpt :: "string option"

definition succeeded :: "outcome \<Rightarrow> bool" where
  "succeeded oc \<longleftrightarrow> (case oc_status_code oc of None \<Rightarrow> False | Some c \<Rightarrow> 200 \<le> c \<and> c < 300)"

definition same_row :: "webhook_delivery \<Rightarrow> webhook_delivery \<Rightarrow> bool" where
  "same_row a b \<longleftrightarrow> wd_subscription_id a = wd_subscription_id b \<and> wd_entity_kind a = wd_entity_kind b \<and> wd_entity_id a = wd_entity_id b"

definition held_up :: "webhook_delivery list \<Rightarrow> webhook_delivery \<Rightarrow> bool" where
  "held_up ds d \<longleftrightarrow> list_ex (\<lambda>e. same_row e d \<and> wd_marker_id e < wd_marker_id d \<and> wd_status e = PENDING) ds"

definition subscription_of :: "hook_tables \<Rightarrow> webhook_delivery \<Rightarrow> webhook_subscription option" where
  "subscription_of t d = find (\<lambda>s. ws_id s = wd_subscription_id d) (webhook_subscriptions t)"

definition due_now :: "hook_env \<Rightarrow> hook_tables \<Rightarrow> webhook_delivery \<Rightarrow> bool" where
  "due_now env t d \<longleftrightarrow> wd_status d = PENDING \<and> (case wd_next_attempt_at d of None \<Rightarrow> False | Some n \<Rightarrow> n \<le> he_now env) \<and>
     (case subscription_of t d of None \<Rightarrow> False | Some s \<Rightarrow> live s) \<and> \<not> held_up (webhook_deliveries t) d"

definition due_batch :: "hook_env \<Rightarrow> int list \<Rightarrow> hook_tables \<Rightarrow> webhook_delivery list" where
  "due_batch env locked t = take SEND_BATCH (sort_key (\<lambda>d. (the (wd_next_attempt_at d), wd_id d))
     (filter (\<lambda>d. due_now env t d \<and> \<not> (he_is_postgres env \<and> wd_id d \<in> set locked)) (webhook_deliveries t)))"

definition outgoing_of :: "hook_env \<Rightarrow> hook_tables \<Rightarrow> webhook_delivery \<Rightarrow> outgoing" where
  "outgoing_of env t d = (let s = the (subscription_of t d) in
     \<lparr>og_delivery_id = wd_id d, og_subscription_id = ws_id s, og_url = ws_url s, og_event_id = wd_event_id d,
      og_payload = wd_payload d, og_secrets = signing_secrets s (he_now env), og_lease = he_now env + CLAIM_LEASE\<rparr>)"

definition claim_due :: "hook_env \<Rightarrow> int list \<Rightarrow> hook_tables \<Rightarrow> outgoing list \<times> hook_tables" where
  "claim_due env locked t =
     (let ds = due_batch env locked t
      in (map (outgoing_of env t) ds,
          t\<lparr>webhook_deliveries := update_rows (\<lambda>d. wd_id d \<in> set (map wd_id ds))
             (\<lambda>d. d\<lparr>wd_next_attempt_at := Some (he_now env + CLAIM_LEASE)\<rparr>) (webhook_deliveries t)\<rparr>))"

text \<open>What the HTTP client came back with.\<close>

datatype http_result = Http_Timeout | Http_Error string | Http_Response int string

definition short :: "string \<Rightarrow> string" where "short s = take 200 s"

definition excerpt :: "string \<Rightarrow> string option" where
  "excerpt body = (let text = take 200 body in if text = [] then None else Some text)"

text \<open>The headers of an attempt, and its outcome; \<open>ms\<close> is the time it took, \<open>post\<close> the HTTP client.\<close>

definition attempt_headers :: "hook_env \<Rightarrow> outgoing \<Rightarrow> target \<Rightarrow> (string \<times> string) list" where
  "attempt_headers env og tg = (let timestamp = he_now env div SECOND in
     [(''Host'', host_header tg), (''Content-Type'', ''application/json''), (''User-Agent'', ''Chronos-Ledger-Webhooks''),
      (''webhook-id'', og_event_id og), (''webhook-timestamp'', show_int timestamp),
      (''webhook-signature'', join_with '' '' (map (\<lambda>s. sign env s (og_event_id og) timestamp (og_payload og)) (og_secrets og)))])"

definition attempt_outcome ::
  "hook_env \<Rightarrow> (string \<Rightarrow> (string \<times> string) list \<Rightarrow> string \<Rightarrow> http_result) \<Rightarrow> int \<Rightarrow> bool \<Rightarrow> outgoing \<Rightarrow> outcome" where
  "attempt_outcome env post ms gave_up og =
     (case vet env (og_url og) of
        Inl why \<Rightarrow> \<lparr>oc_status_code = None, oc_response_ms = ms, oc_error = Some (short (''refused: '' @ why)), oc_excerpt = None\<rparr>
      | Inr tg \<Rightarrow>
          if gave_up then \<lparr>oc_status_code = None, oc_response_ms = ms, oc_error = Some ''timed out'', oc_excerpt = None\<rparr>
          else (case post (address_url tg) (attempt_headers env og tg) (og_payload og) of
              Http_Timeout \<Rightarrow> \<lparr>oc_status_code = None, oc_response_ms = ms, oc_error = Some ''timed out'', oc_excerpt = None\<rparr>
            | Http_Error n \<Rightarrow> \<lparr>oc_status_code = None, oc_response_ms = ms,
                oc_error = Some (short (''connection failed: '' @ n)), oc_excerpt = None\<rparr>
            | Http_Response code body \<Rightarrow> \<lparr>oc_status_code = Some code, oc_response_ms = ms,
                oc_error = (if 200 \<le> code \<and> code < 300 then None
                  else if 300 \<le> code \<and> code < 400 then Some ''redirect not followed''
                  else Some (''HTTP '' @ show_int code)), oc_excerpt = excerpt body\<rparr>))"

section \<open>Recording an attempt\<close>

text \<open>Rounding a quotient to the nearest integer, ties to even, as the product of a timedelta is.\<close>

definition divide_and_round :: "int \<Rightarrow> int \<Rightarrow> int" where
  "divide_and_round a b = (let q = a div b; r = a mod b in if 2 * r > b \<or> (2 * r = b \<and> odd q) then q + 1 else q)"

definition backoff :: "hook_env \<Rightarrow> string \<Rightarrow> nat \<Rightarrow> int" where
  "backoff env event_id attempts =
     (let ceiling = RETRY_DELAYS ! (min attempts (length RETRY_DELAYS) - 1);
          digest = he_digest64 env (event_id @ '':'' @ show_nat attempts)
      in divide_and_round (ceiling * int digest) (2 ^ 64))"

definition charged :: "hook_env \<Rightarrow> nat \<Rightarrow> outcome \<Rightarrow> webhook_delivery \<Rightarrow> webhook_delivery" where
  "charged env attempts oc d =
     (if succeeded oc
      then d\<lparr>wd_status := SUCCEEDED, wd_completed_at := Some (he_now env), wd_next_attempt_at := None, wd_attempt_count := attempts\<rparr>
      else if attempts \<ge> MAX_ATTEMPTS
      then d\<lparr>wd_status := FAILED, wd_completed_at := Some (he_now env), wd_next_attempt_at := None, wd_attempt_count := attempts\<rparr>
      else d\<lparr>wd_next_attempt_at := Some (he_now env + backoff env (wd_event_id d) attempts), wd_attempt_count := attempts\<rparr>)"

text \<open>The delivery still under the lease of the pass, not charged since it was read.\<close>

definition leased :: "outgoing \<Rightarrow> nat \<Rightarrow> webhook_delivery \<Rightarrow> bool" where
  "leased og counted d \<longleftrightarrow> wd_id d = og_delivery_id og \<and> wd_status d = PENDING \<and>
     wd_next_attempt_at d = Some (og_lease og) \<and> wd_attempt_count d = counted"

definition count_failure :: "hook_env \<Rightarrow> int \<Rightarrow> webhook_subscription list \<Rightarrow> webhook_subscription list" where
  "count_failure env sid subs =
     (let counted = update_rows (\<lambda>s. ws_id s = sid)
            (\<lambda>s. s\<lparr>ws_consecutive_failures := ws_consecutive_failures s + 1, ws_updated_at := he_now env\<rparr>) subs
      in update_rows (\<lambda>s. ws_id s = sid \<and> ws_consecutive_failures s \<ge> PAUSE_AFTER_FAILED_DELIVERIES \<and> ws_paused_at s = None)
           (\<lambda>s. s\<lparr>ws_paused_at := Some (he_now env), ws_updated_at := he_now env\<rparr>) counted)"

text \<open>
  \<open>t\<close> is what the two reads see and \<open>later\<close> what the conditional update meets, after whatever other
  passes and routes have committed in between.
\<close>

definition record_attempt ::
  "hook_env \<Rightarrow> hook_tables \<Rightarrow> hook_tables \<Rightarrow> outgoing \<Rightarrow> outcome \<Rightarrow> bool \<times> hook_tables" where
  "record_attempt env t later og oc =
     (case (find (\<lambda>d. wd_id d = og_delivery_id og) (webhook_deliveries t),
            find (\<lambda>s. ws_id s = og_subscription_id og) (webhook_subscriptions t)) of
        (Some d, Some s) \<Rightarrow>
          (let attempts = wd_attempt_count d + 1 in
           if \<not> list_ex (leased og (wd_attempt_count d)) (webhook_deliveries later) then (False, later)
           else (True, later\<lparr>
             webhook_deliveries := update_rows (leased og (wd_attempt_count d)) (charged env attempts oc) (webhook_deliveries later),
             webhook_attempts := webhook_attempts later @ [\<lparr>wa_id = fresh_id (map wa_id (webhook_attempts later)),
               wa_delivery_id = og_delivery_id og, wa_at = he_now env, wa_status_code = oc_status_code oc,
               wa_response_ms = oc_response_ms oc, wa_error = oc_error oc, wa_response_excerpt = oc_excerpt oc\<rparr>],
             webhook_subscriptions :=
               (if succeeded oc
                then (if ws_consecutive_failures s = 0 then webhook_subscriptions later
                  else update_rows (\<lambda>x. ws_id x = ws_id s)
                    (\<lambda>x. x\<lparr>ws_consecutive_failures := 0, ws_updated_at := he_now env\<rparr>) (webhook_subscriptions later))
                else if attempts \<ge> MAX_ATTEMPTS then count_failure env (og_subscription_id og) (webhook_subscriptions later)
                else webhook_subscriptions later)\<rparr>))
      | _ \<Rightarrow> (False, later))"

text \<open>
  One pass: \<open>elapsed i\<close> is the real time since the claim when the \<open>i\<close>-th attempt would start; \<open>deliver\<close>
  makes an attempt. Nothing is sent once too little of the lease is left.
\<close>

fun send_claimed ::
  "hook_env \<Rightarrow> (nat \<Rightarrow> int) \<Rightarrow> (outgoing \<Rightarrow> outcome) \<Rightarrow> nat \<Rightarrow> outgoing list \<Rightarrow> hook_tables \<Rightarrow> nat \<times> hook_tables" where
  "send_claimed env elapsed deliver i [] t = (i, t)"
| "send_claimed env elapsed deliver i (og # ogs) t =
     (if elapsed i > CLAIM_LEASE - LEASE_MARGIN - ATTEMPT_DEADLINE then (i, t)
      else send_claimed env elapsed deliver (Suc i) ogs (snd (record_attempt env t t og (deliver og))))"

definition run_pass ::
  "hook_env \<Rightarrow> (nat \<Rightarrow> int) \<Rightarrow> (outgoing \<Rightarrow> outcome) \<Rightarrow> int list \<Rightarrow> int list \<Rightarrow> hook_tables \<Rightarrow> hook_error + nat \<times> hook_tables" where
  "run_pass env elapsed deliver locked_subs locked t =
     bind_result (fan_out env locked_subs t) (\<lambda>(_, t1).
       case claim_due env locked t1 of (claimed, t2) \<Rightarrow> Inr (send_claimed env elapsed deliver 0 claimed t2))"

definition redeliver :: "hook_env \<Rightarrow> webhook_delivery \<Rightarrow> webhook_delivery" where
  "redeliver env d = d\<lparr>wd_status := PENDING, wd_attempt_count := 0, wd_next_attempt_at := Some (he_now env), wd_completed_at := None\<rparr>"

end
