(* ===== verification/Webhook_Routes.thy ===== *)
theory Webhook_Routes
  imports Webhooks
begin

text \<open>
  The routes of webhook subscriptions, \<^verbatim>\<open>backend/app/api/v1/endpoints/webhooks.py\<close> with the payloads of
  \<^verbatim>\<open>schemas/webhooks.py\<close>. The caller's session sees the subscriptions of their organization only.
\<close>

section \<open>Payloads and views\<close>

definition EVENT_TYPES :: "string list" where
  "EVENT_TYPES = [''reservation.created'', ''reservation.updated'', ''resource.created'', ''resource.updated'']"

record webhook_create =
  wc_url :: string
  wc_event_types :: "string list"
  wc_active :: bool

record webhook_update =
  wu_url :: "string option"
  wu_event_types :: "string list option"
  wu_active :: "bool option"

definition url_ok :: "string \<Rightarrow> bool" where
  "url_ok u \<longleftrightarrow> 1 \<le> length u \<and> length u \<le> 2000"

definition event_types_ok :: "string list \<Rightarrow> bool" where
  "event_types_ok ts \<longleftrightarrow> ts \<noteq> [] \<and> list_all (\<lambda>t. t \<in> set EVENT_TYPES) ts"

definition webhook_create_ok :: "webhook_create \<Rightarrow> bool" where
  "webhook_create_ok p \<longleftrightarrow> url_ok (wc_url p) \<and> event_types_ok (wc_event_types p)"

definition webhook_update_ok :: "webhook_update \<Rightarrow> bool" where
  "webhook_update_ok p \<longleftrightarrow> (case wu_url p of None \<Rightarrow> True | Some u \<Rightarrow> url_ok u) \<and>
     (case wu_event_types p of None \<Rightarrow> True | Some ts \<Rightarrow> event_types_ok ts)"

definition no_repeats :: "string list \<Rightarrow> string list" where
  "no_repeats ts = sort (remdups ts)"

record webhook_response =
  wr_id :: int
  wr_url :: string
  wr_event_types :: "string list"
  wr_active :: bool
  wr_paused_at :: "instant option"
  wr_consecutive_failures :: int
  wr_previous_secret_expires_at :: "instant option"
  wr_created_at :: instant
  wr_updated_at :: instant

definition webhook_view :: "hook_env \<Rightarrow> webhook_subscription \<Rightarrow> webhook_response" where
  "webhook_view env s = \<lparr>wr_id = ws_id s, wr_url = ws_url s, wr_event_types = split_on CHR '','' (ws_event_types s),
     wr_active = ws_active s, wr_paused_at = ws_paused_at s, wr_consecutive_failures = ws_consecutive_failures s,
     wr_previous_secret_expires_at = (if previous_secret_live s (he_now env) then ws_previous_secret_expires_at s else None),
     wr_created_at = ws_created_at s, wr_updated_at = ws_updated_at s\<rparr>"

text \<open>A delivery with its attempts in order; its body is not shown.\<close>

definition delivery_view :: "hook_tables \<Rightarrow> webhook_delivery \<Rightarrow> webhook_delivery \<times> webhook_attempt list" where
  "delivery_view t d = (d\<lparr>wd_payload := []\<rparr>,
     sort_key wa_id (filter (\<lambda>a. wa_delivery_id a = wd_id d) (webhook_attempts t)))"

section \<open>Routes\<close>

definition admin_only :: "user \<Rightarrow> hook_error + unit" where
  "admin_only u = (if us_role_type u \<noteq> ORG_ADMIN
     then Inl (Hook_Refused 403 ''INSUFFICIENT_ROLE'' ''Insufficient permissions'') else Inr ())"

definition vetted :: "hook_env \<Rightarrow> string \<Rightarrow> hook_error + string" where
  "vetted env url = (case vet env url of
     Inl why \<Rightarrow> Inl (Hook_Refused 422 ''WEBHOOK_URL_REFUSED'' (''This URL cannot receive webhooks: '' @ why @ ''.''))
   | Inr _ \<Rightarrow> Inr url)"

definition get_subscription :: "hook_tables \<Rightarrow> string \<Rightarrow> int \<Rightarrow> hook_error + webhook_subscription" where
  "get_subscription t org sid = (case find (\<lambda>s. ws_id s = sid \<and> ws_organization_id s = org) (webhook_subscriptions t) of
     None \<Rightarrow> Inl (Hook_Refused 404 ''NOT_FOUND'' (''Webhook '' @ show_int sid @ '' not found''))
   | Some s \<Rightarrow> Inr s)"

definition put_subscription :: "hook_env \<Rightarrow> webhook_subscription \<Rightarrow> hook_tables \<Rightarrow> hook_tables" where
  "put_subscription env s t = t\<lparr>webhook_subscriptions := update_rows (\<lambda>x. ws_id x = ws_id s \<and> x \<noteq> s)
     (\<lambda>_. s\<lparr>ws_updated_at := he_now env\<rparr>) (webhook_subscriptions t)\<rparr>"

definition create_webhook ::
  "hook_env \<Rightarrow> user \<Rightarrow> string \<Rightarrow> string \<Rightarrow> webhook_create \<Rightarrow> hook_tables \<Rightarrow> hook_error + (webhook_response \<times> string) \<times> hook_tables" where
  "create_webhook env u org secret p t =
     bind_result (admin_only u) (\<lambda>_.
     if \<not> he_change_feed_enabled env
     then Inl (Hook_Refused 503 ''CHANGE_FEED_DISABLED''
       ''webhooks are sent from the change feed, which is off. Set CHANGE_FEED_ENABLED=true first.'')
     else bind_result (vetted env (wc_url p)) (\<lambda>url.
       let s = \<lparr>ws_id = fresh_id (map ws_id (webhook_subscriptions t)), ws_organization_id = org, ws_url = url,
             ws_event_types = join_with '','' (no_repeats (wc_event_types p)), ws_active = wc_active p, ws_paused_at = None,
             ws_consecutive_failures = 0, ws_cursor = latest_marker_id (hook_databases t org), ws_secret = secret,
             ws_previous_secret = None, ws_previous_secret_expires_at = None, ws_created_at = he_now env, ws_updated_at = he_now env\<rparr>
       in Inr ((webhook_view env s, secret), t\<lparr>webhook_subscriptions := webhook_subscriptions t @ [s]\<rparr>)))"

definition list_webhooks :: "hook_env \<Rightarrow> user \<Rightarrow> string \<Rightarrow> hook_tables \<Rightarrow> hook_error + webhook_response list" where
  "list_webhooks env u org t = bind_result (admin_only u) (\<lambda>_.
     Inr (map (webhook_view env) (sort_key ws_id (filter (\<lambda>s. ws_organization_id s = org) (webhook_subscriptions t)))))"

definition get_webhook :: "hook_env \<Rightarrow> user \<Rightarrow> string \<Rightarrow> int \<Rightarrow> hook_tables \<Rightarrow> hook_error + webhook_response" where
  "get_webhook env u org sid t = bind_result (admin_only u) (\<lambda>_.
     bind_result (get_subscription t org sid) (\<lambda>s. Inr (webhook_view env s)))"

definition update_webhook ::
  "hook_env \<Rightarrow> user \<Rightarrow> string \<Rightarrow> int \<Rightarrow> webhook_update \<Rightarrow> hook_tables \<Rightarrow> hook_error + hook_tables" where
  "update_webhook env u org sid p t =
     bind_result (admin_only u) (\<lambda>_.
     bind_result (get_subscription t org sid) (\<lambda>s.
     bind_result (case wu_url p of None \<Rightarrow> Inr (ws_url s) | Some url \<Rightarrow> vetted env url) (\<lambda>url.
     Inr (put_subscription env (s\<lparr>ws_url := url,
       ws_event_types := (case wu_event_types p of None \<Rightarrow> ws_event_types s | Some ts \<Rightarrow> join_with '','' (no_repeats ts)),
       ws_active := (case wu_active p of None \<Rightarrow> ws_active s | Some a \<Rightarrow> a)\<rparr>) t))))"

definition delete_webhook :: "user \<Rightarrow> string \<Rightarrow> int \<Rightarrow> hook_tables \<Rightarrow> hook_error + hook_tables" where
  "delete_webhook u org sid t =
     bind_result (admin_only u) (\<lambda>_.
     bind_result (get_subscription t org sid) (\<lambda>s.
     let gone = map wd_id (filter (\<lambda>d. wd_subscription_id d = ws_id s) (webhook_deliveries t))
     in Inr (t\<lparr>webhook_attempts := filter (\<lambda>a. wa_delivery_id a \<notin> set gone) (webhook_attempts t),
          webhook_deliveries := filter (\<lambda>d. wd_subscription_id d \<noteq> ws_id s) (webhook_deliveries t),
          webhook_subscriptions := filter (\<lambda>x. ws_id x \<noteq> ws_id s) (webhook_subscriptions t)\<rparr>)))"

definition rotate_webhook_secret :: "hook_env \<Rightarrow> user \<Rightarrow> string \<Rightarrow> int \<Rightarrow> string \<Rightarrow> hook_tables \<Rightarrow> hook_error + hook_tables" where
  "rotate_webhook_secret env u org sid secret t =
     bind_result (admin_only u) (\<lambda>_.
     bind_result (get_subscription t org sid) (\<lambda>s.
     if previous_secret_live s (he_now env)
     then Inl (Hook_Refused 409 ''WEBHOOK_SECRET_LIMIT'' ''This webhook already has two live secrets. Remove the previous one first.'')
     else Inr (put_subscription env (s\<lparr>ws_previous_secret := Some (ws_secret s),
       ws_previous_secret_expires_at := Some (he_now env + PREVIOUS_SECRET_LIFETIME), ws_secret := secret\<rparr>) t)))"

definition remove_previous_webhook_secret :: "hook_env \<Rightarrow> user \<Rightarrow> string \<Rightarrow> int \<Rightarrow> hook_tables \<Rightarrow> hook_error + hook_tables" where
  "remove_previous_webhook_secret env u org sid t =
     bind_result (admin_only u) (\<lambda>_.
     bind_result (get_subscription t org sid) (\<lambda>s.
     Inr (put_subscription env (s\<lparr>ws_previous_secret := None, ws_previous_secret_expires_at := None\<rparr>) t)))"

definition resume_webhook :: "hook_env \<Rightarrow> user \<Rightarrow> string \<Rightarrow> int \<Rightarrow> hook_tables \<Rightarrow> hook_error + hook_tables" where
  "resume_webhook env u org sid t =
     bind_result (admin_only u) (\<lambda>_.
     bind_result (get_subscription t org sid) (\<lambda>s.
     Inr (put_subscription env (s\<lparr>ws_paused_at := None, ws_consecutive_failures := 0\<rparr>) t)))"

definition list_webhook_deliveries ::
  "user \<Rightarrow> string \<Rightarrow> int \<Rightarrow> page \<Rightarrow> hook_tables \<Rightarrow> hook_error + (webhook_delivery \<times> webhook_attempt list) list \<times> nat" where
  "list_webhook_deliveries u org sid pg t =
     bind_result (admin_only u) (\<lambda>_.
     bind_result (get_subscription t org sid) (\<lambda>_.
     case page_rows pg (\<lambda>d. - wd_id d)
       (filter (\<lambda>d. wd_subscription_id d = sid \<and> wd_organization_id d = org) (webhook_deliveries t)) of (rows, n) \<Rightarrow>
     Inr (map (delivery_view t) rows, n)))"

definition redeliver_webhook :: "hook_env \<Rightarrow> user \<Rightarrow> string \<Rightarrow> int \<Rightarrow> int \<Rightarrow> hook_tables \<Rightarrow> hook_error + hook_tables" where
  "redeliver_webhook env u org sid did t =
     bind_result (admin_only u) (\<lambda>_.
     bind_result (get_subscription t org sid) (\<lambda>_.
     case find (\<lambda>d. wd_id d = did \<and> wd_organization_id d = org \<and> wd_subscription_id d = sid) (webhook_deliveries t) of
       None \<Rightarrow> Inl (Hook_Refused 404 ''NOT_FOUND''
         (''Delivery '' @ show_int did @ '' not found on webhook '' @ show_int sid))
     | Some d \<Rightarrow> Inr (t\<lparr>webhook_deliveries := update_rows (\<lambda>x. wd_id x = did) (redeliver env) (webhook_deliveries t)\<rparr>)))"

end
