(* ===== verification/Changes_Props.thy ===== *)
theory Changes_Props
  imports Changes
begin

text \<open>
  What a consumer of the change feed gets: the pages of the collapsed feed, polled until an empty one,
  are the changed rows, each once, in the order of their newest change.
\<close>

section \<open>Groups\<close>

abbreviation all_newest :: "change_marker list \<Rightarrow> string \<times> int \<Rightarrow> int" where
  "all_newest markers key \<equiv> Max (cm_id ` {m \<in> set markers. marker_key m = key})"

lemma newest_all:
  assumes "key \<in> set (map marker_key (markers_since since markers))"
  shows "newest since markers key = all_newest markers key" "all_newest markers key > since"
proof -
  let ?A = "cm_id ` {m \<in> set markers. marker_key m = key}"
  from assms obtain m where m: "m \<in> set markers" "marker_key m = key" "cm_id m > since"
    by (auto simp: markers_since_def)
  have "cm_id m \<le> Max ?A" using m by (intro Max_ge) auto
  with m(3) have gt: "Max ?A > since" by linarith
  have eq: "set (ids_of since markers key) = {i \<in> ?A. i > since}" by (auto simp: ids_of_def markers_since_def)
  have "Max ?A \<in> ?A" using m by (intro Max_in) auto
  with gt have "Max ?A \<in> {i \<in> ?A. i > since}" by simp
  then have "Max {i \<in> ?A. i > since} = Max ?A" by (intro Max_eqI) auto
  then show "newest since markers key = Max ?A" unfolding newest_def eq .
  show "Max ?A > since" by (rule gt)
qed

lemma keys_since:
  "key \<in> set (map marker_key (markers_since since markers)) \<longleftrightarrow> key \<in> marker_key ` set markers \<and> all_newest markers key > since"
proof
  assume "key \<in> marker_key ` set markers \<and> all_newest markers key > since"
  then have k: "key \<in> marker_key ` set markers" and gt: "all_newest markers key > since" by auto
  have "all_newest markers key \<in> cm_id ` {m \<in> set markers. marker_key m = key}" using k by (intro Max_in) auto
  with gt show "key \<in> set (map marker_key (markers_since since markers))" by (auto simp: markers_since_def)
qed (use newest_all(2) in \<open>auto simp: markers_since_def\<close>)

lemma newest_inj:
  assumes "distinct (map cm_id markers)" "k \<in> marker_key ` set markers" "k' \<in> marker_key ` set markers"
    "all_newest markers k = all_newest markers k'"
  shows "k = k'"
proof -
  have "all_newest markers k \<in> cm_id ` {m \<in> set markers. marker_key m = k}"
    "all_newest markers k' \<in> cm_id ` {m \<in> set markers. marker_key m = k'}" using assms(2,3) by (intro Max_in; auto)+
  with assms(1,4) show ?thesis by (auto simp: distinct_map inj_on_def)
qed

lemma groups_props:
  assumes "distinct (map cm_id markers)"
  shows "set (all_groups since markers) = {k \<in> marker_key ` set markers. all_newest markers k > since}"
    and "sorted_wrt (<) (map (all_newest markers) (all_groups since markers))"
proof -
  have s: "set (all_groups since markers) = set (map marker_key (markers_since since markers))" by (simp add: all_groups_def)
  then show A: "set (all_groups since markers) = {k \<in> marker_key ` set markers. all_newest markers k > since}"
    using keys_since by blast
  have eq: "map (newest since markers) (all_groups since markers) = map (all_newest markers) (all_groups since markers)"
    by (rule map_cong[OF refl], rule newest_all(1)) (simp only: s[symmetric])
  have "sorted (map (newest since markers) (all_groups since markers))" by (simp add: all_groups_def)
  moreover have "distinct (map (all_newest markers) (all_groups since markers))"
    using newest_inj[OF assms] A by (auto simp: distinct_map all_groups_def inj_on_def)
  ultimately show "sorted_wrt (<) (map (all_newest markers) (all_groups since markers))"
    unfolding eq by (simp add: strict_sorted_iff)
qed

text \<open>A list is determined by its elements when it is strictly sorted by a key.\<close>

lemma strict_sorted_key_unique:
  fixes f :: "'a \<Rightarrow> 'k::linorder"
  assumes "sorted_wrt (<) (map f xs)" "sorted_wrt (<) (map f ys)" "set xs = set ys"
  shows "xs = ys"
proof -
  have "map f xs = map f ys"
    using assms by (intro sorted_distinct_set_unique) (auto simp: strict_sorted_iff)
  moreover have "inj_on f (set xs \<union> set ys)" using assms(1,3) by (simp add: strict_sorted_iff distinct_map)
  ultimately show ?thesis by (rule map_inj_on)
qed

text \<open>The groups after the cursor a page returns are the ones the page left out.\<close>

lemma groups_next:
  assumes d: "distinct (map cm_id markers)" and ne: "take n (all_groups since markers) \<noteq> []"
  shows "all_groups (all_newest markers (List.last (take n (all_groups since markers)))) markers = drop n (all_groups since markers)"
proof -
  let ?f = "all_newest markers" let ?G = "all_groups since markers" let ?l = "List.last (take n ?G)"
  note G = groups_props[OF d, of since]
  have split: "sorted_wrt (<) (map ?f (take n ?G @ drop n ?G))" using G(2) by simp
  have l: "?l \<in> set (take n ?G)" using ne by simp
  have below: "?f k \<le> ?f ?l" if "k \<in> set (take n ?G)" for k
  proof -
    have "sorted_wrt (<) (map ?f (take n ?G))" using split unfolding map_append sorted_wrt_append by blast
    then have "sorted_wrt (<) (map ?f (butlast (take n ?G) @ [?l]))" unfolding append_butlast_last_id[OF ne] .
    moreover have "k \<in> set (butlast (take n ?G) @ [?l])" unfolding append_butlast_last_id[OF ne] by (rule that)
    ultimately show ?thesis by (auto simp: sorted_wrt_append)
  qed
  have above: "?f ?l < ?f k" if "k \<in> set (drop n ?G)" for k
    using split l that unfolding map_append sorted_wrt_append by auto
  have lG: "?f ?l > since" using l G(1) by (auto dest: in_set_takeD)
  have "set (all_groups (?f ?l) markers) = set (drop n ?G)"
  proof (intro set_eqI iffI)
    fix k assume "k \<in> set (all_groups (?f ?l) markers)"
    then have k: "k \<in> marker_key ` set markers" "?f k > ?f ?l" using groups_props(1)[OF d] by auto
    then have "k \<in> set ?G" using lG G(1) by auto
    then have "k \<in> set (take n ?G) \<or> k \<in> set (drop n ?G)" by (metis append_take_drop_id Un_iff set_append)
    with k(2) below[of k] show "k \<in> set (drop n ?G)" by (meson leD)
  next
    fix k assume k: "k \<in> set (drop n ?G)"
    then have "k \<in> set ?G" by (rule in_set_dropD)
    with G(1) above[OF k] show "k \<in> set (all_groups (?f ?l) markers)" using groups_props(1)[OF d] by auto
  qed
  moreover have "sorted_wrt (<) (map ?f (drop n ?G))" using split unfolding map_append sorted_wrt_append by blast
  ultimately show ?thesis using strict_sorted_key_unique[OF groups_props(2)[OF d]] by blast
qed

section \<open>Polling\<close>

text \<open>What an entry says apart from the kind of change.\<close>

definition entry_state :: "change_entry \<Rightarrow> int \<times> string \<times> int \<times> instant \<times> entity_row option" where
  "entry_state e = (ce_cursor e, ce_entity_kind e, ce_entity_id e, ce_at e, ce_row e)"

definition row_now :: "database \<Rightarrow> string \<times> int \<Rightarrow> entity_row option" where
  "row_now db key = (case current_row db key of Inl e \<Rightarrow> None | Inr r \<Rightarrow> r)"

definition group_state :: "database \<Rightarrow> string \<times> int \<Rightarrow> int \<times> string \<times> int \<times> instant \<times> entity_row option" where
  "group_state db key = (let n = all_newest (change_markers db) key in
     (n, fst key, snd key, cm_at (marker_by_id (change_markers db) n), row_now db key))"

definition references_ok :: "database \<Rightarrow> bool" where
  "references_ok db \<longleftrightarrow> (\<forall>r \<in> set (reservations db). get_resource db (rv_resource_id r) \<noteq> None)"

lemma current_row_ok: "references_ok db \<Longrightarrow> current_row db key = Inr (row_now db key)"
proof -
  assume ok: "references_ok db"
  have "\<exists>v. own_view db r = Inr v" if "find P (reservations db) = Some r" for P r
    using ok find_Some_iff_first[OF that] by (auto simp: references_ok_def own_view_def split: option.splits)
  then have "\<exists>r. current_row db key = Inr r" unfolding current_row_def
    by (cases "find (\<lambda>r. rv_id r = snd key) (reservations db)") fastforce+
  then show ?thesis by (auto simp: row_now_def)
qed

lemma collapsed_page:
  assumes "references_ok db" "distinct (map cm_id (change_markers db))" "take lmt (all_groups since (change_markers db)) \<noteq> []"
  shows "\<exists>feed. collapsed since lmt db = Inr feed \<and> cf_changes feed \<noteq> [] \<and>
    map entry_state (cf_changes feed) = map (group_state db) (take lmt (all_groups since (change_markers db))) \<and>
    cf_next_cursor feed = all_newest (change_markers db) (List.last (take lmt (all_groups since (change_markers db))))"
proof -
  let ?M = "change_markers db" let ?g = "take lmt (all_groups since ?M)"
  have rows: "current_rows db ?g = Inr (map (\<lambda>k. (k, row_now db k)) ?g)"
    unfolding current_rows_def by (rule map_result_Inr) (simp add: current_row_ok[OF assms(1)])
  have new: "newest since ?M k = all_newest ?M k" if "k \<in> set ?g" for k
    using in_set_takeD[OF that] by (intro newest_all(1)) (simp add: all_groups_def)
  have l: "List.last ?g \<in> set ?g" using assms(3) by simp
  let ?changes = "map (change_of since ?M) (map (\<lambda>k. (k, row_now db k)) ?g)"
  have "collapsed since lmt db = Inr \<lparr>cf_changes = ?changes, cf_next_cursor = ce_cursor (List.last ?changes)\<rparr>"
    using assms(3) rows by (simp add: collapsed_def Let_def)
  moreover have "map entry_state ?changes = map (group_state db) ?g"
    using new by (auto simp: entry_state_def change_of_def group_state_def Let_def)
  moreover have "ce_cursor (List.last ?changes) = all_newest ?M (List.last ?g)"
    using new[OF l] assms(3) by (simp add: last_map change_of_def)
  ultimately show ?thesis using assms(3) by auto
qed

lemma poll_all_groups:
  assumes "references_ok db" "distinct (map cm_id (change_markers db))" "0 < lmt"
  shows "length (all_groups since (change_markers db)) \<le> n \<Longrightarrow>
    \<exists>es. poll_all n since lmt db = Inr es \<and> map entry_state es = map (group_state db) (all_groups since (change_markers db))"
proof (induction n arbitrary: since)
  case (Suc n)
  let ?M = "change_markers db" let ?G = "all_groups since ?M"
  show ?case
  proof (cases "?G = []")
    case True
    then show ?thesis by (simp add: collapsed_def)
  next
    case False
    with assms(3) have ne: "take lmt ?G \<noteq> []" by simp
    from collapsed_page[OF assms(1,2) ne] obtain feed where f: "collapsed since lmt db = Inr feed" "cf_changes feed \<noteq> []"
      "map entry_state (cf_changes feed) = map (group_state db) (take lmt ?G)"
      "cf_next_cursor feed = all_newest ?M (List.last (take lmt ?G))" by blast
    have nxt: "all_groups (cf_next_cursor feed) ?M = drop lmt ?G" unfolding f(4) by (rule groups_next[OF assms(2) ne])
    have "length (drop lmt ?G) \<le> n" unfolding length_drop using Suc.prems assms(3) by linarith
    from Suc.IH[of "cf_next_cursor feed", unfolded nxt, OF this] obtain es where
      "poll_all n (cf_next_cursor feed) lmt db = Inr es" "map entry_state es = map (group_state db) (drop lmt ?G)" by blast
    with f have "poll_all (Suc n) since lmt db = Inr (cf_changes feed @ es)"
      "map entry_state (cf_changes feed @ es) = map (group_state db) (take lmt ?G @ drop lmt ?G)"
      by (simp_all only: poll_all.simps bind_result_simps if_False map_append)
    then show ?thesis by simp
  qed
qed simp



definition feed_db :: database where
  "feed_db = empty_db\<lparr>change_markers := [
     \<lparr>cm_id = 1, cm_entity_kind = ''resource'', cm_entity_id = 7, cm_change_kind = ''created'', cm_at = 10\<rparr>,
     \<lparr>cm_id = 2, cm_entity_kind = ''resource'', cm_entity_id = 8, cm_change_kind = ''created'', cm_at = 20\<rparr>,
     \<lparr>cm_id = 3, cm_entity_kind = ''resource'', cm_entity_id = 7, cm_change_kind = ''updated'', cm_at = 30\<rparr>]\<rparr>"



end
