(* ===== verification/Webhooks_Props.thy ===== *)
theory Webhooks_Props
  imports Webhook_Routes Changes_Props
begin

text \<open>
  What a receiver can rely on. Every delivery is tried at most \<open>MAX_ATTEMPTS\<close> times and then settled;
  a fan-out turns every wanted marker into one delivery and moves the cursor past exactly those;
  a delivery is charged only when no earlier change of the same row is still pending.
\<close>

section \<open>The rules of the tables\<close>

definition delivery_ok :: "webhook_delivery \<Rightarrow> bool" where
  "delivery_ok d \<longleftrightarrow> (case wd_status d of
     PENDING \<Rightarrow> wd_attempt_count d < MAX_ATTEMPTS \<and> wd_next_attempt_at d \<noteq> None \<and> wd_completed_at d = None
   | SUCCEEDED \<Rightarrow> 1 \<le> wd_attempt_count d \<and> wd_attempt_count d \<le> MAX_ATTEMPTS \<and> wd_next_attempt_at d = None \<and> wd_completed_at d \<noteq> None
   | FAILED \<Rightarrow> wd_attempt_count d = MAX_ATTEMPTS \<and> wd_next_attempt_at d = None \<and> wd_completed_at d \<noteq> None)"

definition hook_ok :: "hook_tables \<Rightarrow> bool" where
  "hook_ok t \<longleftrightarrow> distinct (map wd_id (webhook_deliveries t)) \<and> distinct (map ws_id (webhook_subscriptions t)) \<and>
     distinct (map (\<lambda>d. (wd_subscription_id d, wd_marker_id d)) (webhook_deliveries t)) \<and>
     (\<forall>d \<in> set (webhook_deliveries t). delivery_ok d) \<and>
     (\<forall>d \<in> set (webhook_deliveries t). \<exists>s \<in> set (webhook_subscriptions t). ws_id s = wd_subscription_id d \<and> wd_marker_id d \<le> ws_cursor s)"

lemma hook_okD:
  assumes "hook_ok t"
  shows "distinct (map wd_id (webhook_deliveries t))" "distinct (map ws_id (webhook_subscriptions t))"
    "distinct (map (\<lambda>d. (wd_subscription_id d, wd_marker_id d)) (webhook_deliveries t))"
    "d \<in> set (webhook_deliveries t) \<Longrightarrow> delivery_ok d"
    "d \<in> set (webhook_deliveries t) \<Longrightarrow> s \<in> set (webhook_subscriptions t) \<Longrightarrow> ws_id s = wd_subscription_id d \<Longrightarrow> wd_marker_id d \<le> ws_cursor s"
proof -
  show "d \<in> set (webhook_deliveries t) \<Longrightarrow> s \<in> set (webhook_subscriptions t) \<Longrightarrow> ws_id s = wd_subscription_id d \<Longrightarrow> wd_marker_id d \<le> ws_cursor s"
    using assms unfolding hook_ok_def distinct_map inj_on_def by metis
qed (use assms in \<open>auto simp: hook_ok_def\<close>)

section \<open>Fan-out\<close>

lemma fan_markers_props:
  assumes "fan_markers env t s \<noteq> []"
  shows "sorted (map cm_id (fan_markers env t s))"
    and "m \<in> set (fan_markers env t s) \<Longrightarrow> m \<in> set (change_markers (hook_databases t (ws_organization_id s))) \<and>
      ws_cursor s < cm_id m \<and> cm_id m \<le> cm_id (List.last (fan_markers env t s))"
    and "distinct (map cm_id (change_markers (hook_databases t (ws_organization_id s)))) \<Longrightarrow>
      m \<in> set (change_markers (hook_databases t (ws_organization_id s))) \<Longrightarrow> ws_cursor s < cm_id m \<Longrightarrow>
      cm_id m \<le> cm_id (List.last (fan_markers env t s)) \<Longrightarrow> m \<in> set (fan_markers env t s)"
    and "distinct (map cm_id (change_markers (hook_databases t (ws_organization_id s)))) \<Longrightarrow>
      distinct (map cm_id (fan_markers env t s))"
proof -
  define M where "M = sort_key cm_id (markers_since (ws_cursor s) (change_markers (hook_databases t (ws_organization_id s))))"
  define F where "F = fan_markers env t s"
  obtain rest where pre: "M = F @ rest"
  proof -
    obtain P where "F = takeWhile P (take FAN_OUT_BATCH M)" by (simp add: F_def M_def fan_markers_def Let_def)
    moreover have "take FAN_OUT_BATCH M = takeWhile P (take FAN_OUT_BATCH M) @ dropWhile P (take FAN_OUT_BATCH M)" by simp
    ultimately have "take FAN_OUT_BATCH M = F @ dropWhile P (take FAN_OUT_BATCH M)" by simp
    then show ?thesis using that by (metis append_take_drop_id append_assoc)
  qed
  have M: "sorted (map cm_id M)" "set M = {m \<in> set (change_markers (hook_databases t (ws_organization_id s))). ws_cursor s < cm_id m}"
    by (auto simp: M_def markers_since_def)
  have ne: "F \<noteq> []" using assms by (simp add: F_def)
  have sF: "sorted (map cm_id F)" using M(1) unfolding pre by (simp add: sorted_append)
  have lF: "List.last F \<in> set F" using ne by simp
  have top: "cm_id m \<le> cm_id (List.last F)" if "m \<in> set F" for m
  proof -
    have "sorted (map cm_id (butlast F @ [List.last F]))" using sF ne by simp
    moreover have "m \<in> set (butlast F @ [List.last F])" using that ne by simp
    ultimately show ?thesis by (auto simp: sorted_append)
  qed
  show "sorted (map cm_id (fan_markers env t s))" using sF by (simp add: F_def)
  show "m \<in> set (fan_markers env t s) \<Longrightarrow> m \<in> set (change_markers (hook_databases t (ws_organization_id s))) \<and>
      ws_cursor s < cm_id m \<and> cm_id m \<le> cm_id (List.last (fan_markers env t s))"
    using M(2) pre top unfolding F_def[symmetric] by auto
  have dM: "distinct (map cm_id M)" if "distinct (map cm_id (change_markers (hook_databases t (ws_organization_id s))))"
    using that by (auto simp: M_def markers_since_def distinct_map intro: inj_on_subset)
  then show "distinct (map cm_id (change_markers (hook_databases t (ws_organization_id s)))) \<Longrightarrow> distinct (map cm_id (fan_markers env t s))"
    unfolding F_def[symmetric] pre by simp
  show "m \<in> set (fan_markers env t s)"
    if "distinct (map cm_id (change_markers (hook_databases t (ws_organization_id s))))"
      "m \<in> set (change_markers (hook_databases t (ws_organization_id s)))" "ws_cursor s < cm_id m"
      "cm_id m \<le> cm_id (List.last (fan_markers env t s))"
  proof (rule ccontr)
    assume n: "m \<notin> set (fan_markers env t s)"
    from that(2,3) M(2) have "m \<in> set M" by simp
    with n pre have m: "m \<in> set rest" by (simp add: F_def)
    with M(1) lF have "cm_id (List.last F) \<le> cm_id m" unfolding pre by (auto simp: sorted_append)
    with that(4) have "cm_id m = cm_id (List.last F)" by (simp add: F_def)
    with dM[OF that(1)] lF m show False unfolding pre by (auto simp: distinct_map inj_on_def)
  qed
qed

definition just_made :: "hook_env \<Rightarrow> webhook_subscription \<Rightarrow> change_marker \<Rightarrow> webhook_delivery \<Rightarrow> bool" where
  "just_made env s m d \<longleftrightarrow> wd_subscription_id d = ws_id s \<and> wd_marker_id d = cm_id m \<and> wd_entity_kind d = cm_entity_kind m \<and>
     wd_entity_id d = cm_entity_id m \<and> wd_status d = PENDING \<and> wd_attempt_count d = 0 \<and> wd_next_attempt_at d = Some (he_now env) \<and>
     wd_completed_at d = None"

lemma just_made_ok: "just_made env s m d \<Longrightarrow> delivery_ok d"
  by (simp add: just_made_def delivery_ok_def MAX_ATTEMPTS_def)

lemma list_all2_ex:
  "list_all2 P xs ys \<Longrightarrow> (\<forall>y \<in> set ys. \<exists>x \<in> set xs. P x y) \<and> (\<forall>x \<in> set xs. \<exists>y \<in> set ys. P x y)"
  by (induction rule: list_all2_induct) auto

lemma insert_deliveries:
  "fold_result (insert_delivery env s rows) ms ds = Inr ds' \<Longrightarrow>
   distinct (map wd_id ds) \<Longrightarrow> distinct (map (\<lambda>d. (wd_subscription_id d, wd_marker_id d)) ds) \<Longrightarrow>
   \<exists>new. ds' = ds @ new \<and> list_all2 (just_made env s) ms new \<and> distinct (map wd_id ds') \<and>
     distinct (map (\<lambda>d. (wd_subscription_id d, wd_marker_id d)) ds')"
proof (induction ms arbitrary: ds)
  case (Cons m ms)
  define d where "d = new_delivery env s ds m (case map_of rows (marker_key m) of None \<Rightarrow> None | Some r \<Rightarrow> r)"
  have d: "just_made env s m d" "wd_id d = fresh_id (map wd_id ds)" by (simp_all add: just_made_def d_def new_delivery_def)
  have ins: "insert_delivery env s rows m ds = (if list_ex (\<lambda>x. (wd_subscription_id x = wd_subscription_id d \<and>
      wd_marker_id x = wd_marker_id d) \<or> wd_event_id x = wd_event_id d) ds then Inl Hook_Integrity else Inr (ds @ [d]))"
    unfolding insert_delivery_def Let_def d_def ..
  from Cons.prems(1) have r: "fold_result (insert_delivery env s rows) ms (ds @ [d]) = Inr ds'"
    and free: "\<not> list_ex (\<lambda>x. (wd_subscription_id x = wd_subscription_id d \<and> wd_marker_id x = wd_marker_id d) \<or>
       wd_event_id x = wd_event_id d) ds"
    by (auto simp: ins split: if_splits)
  have "distinct (map wd_id (ds @ [d]))" using Cons.prems(2) fresh_id_notin[of "map wd_id ds"] d(2) by simp
  moreover have "distinct (map (\<lambda>d. (wd_subscription_id d, wd_marker_id d)) (ds @ [d]))"
    using Cons.prems(3) free by (auto simp: list_ex_iff)
  ultimately obtain new where "ds' = (ds @ [d]) @ new" "list_all2 (just_made env s) ms new" "distinct (map wd_id ds')"
    "distinct (map (\<lambda>d. (wd_subscription_id d, wd_marker_id d)) ds')" using Cons.IH[OF r] by blast
  with d(1) show ?case by (intro exI[of _ "d # new"]) simp
qed simp


definition moved_cursor :: "hook_env \<Rightarrow> int \<Rightarrow> int \<Rightarrow> webhook_subscription list \<Rightarrow> webhook_subscription list" where
  "moved_cursor env sid c subs = update_rows (\<lambda>x. ws_id x = sid) (\<lambda>x. x\<lparr>ws_cursor := c, ws_updated_at := he_now env\<rparr>) subs"

lemma moved_cursor_ids [simp]: "map ws_id (moved_cursor env sid c subs) = map ws_id subs"
  by (simp add: moved_cursor_def map_update_rows_id)

lemma moved_cursor_set:
  "set (moved_cursor env sid c subs) = (\<lambda>x. if ws_id x = sid then x\<lparr>ws_cursor := c, ws_updated_at := he_now env\<rparr> else x) ` set subs"
  by (auto simp: moved_cursor_def set_update_rows)

lemma fan_sub_effect:
  assumes ok: "hook_ok t" and s: "s \<in> set (webhook_subscriptions t)" and f: "fan_sub env s (made, t) = Inr (made', t')"
  obtains (nothing) "t' = t" "fan_markers env t s = []"
  | (some_new) new where "fan_markers env t s \<noteq> []" "webhook_deliveries t' = webhook_deliveries t @ new"
    "list_all2 (just_made env s) (chosen_markers s (fan_markers env t s)) new"
    "webhook_subscriptions t' = moved_cursor env (ws_id s) (cm_id (List.last (fan_markers env t s))) (webhook_subscriptions t)"
    "hook_databases t' = hook_databases t" "webhook_attempts t' = webhook_attempts t" "hook_ok t'"
proof (cases "fan_markers env t s = []")
  case True
  with f have "t' = t" by (simp add: fan_sub_def)
  with True show ?thesis using that(1) by blast
next
  case False
  let ?F = "fan_markers env t s" let ?c = "chosen_markers s ?F"
  from f False obtain rows ds where ds: "fold_result (insert_delivery env s rows) ?c (webhook_deliveries t) = Inr ds"
    and t': "t' = t\<lparr>webhook_deliveries := ds, webhook_subscriptions := moved_cursor env (ws_id s) (cm_id (List.last ?F)) (webhook_subscriptions t)\<rparr>"
    by (auto simp: fan_sub_def Let_def moved_cursor_def bind_result_Inr_iff)
  from insert_deliveries[OF ds hook_okD(1,3)[OF ok]] obtain new where new: "ds = webhook_deliveries t @ new"
    "list_all2 (just_made env s) ?c new" "distinct (map wd_id ds)" "distinct (map (\<lambda>d. (wd_subscription_id d, wd_marker_id d)) ds)" by blast
  have made: "\<exists>m \<in> set ?F. just_made env s m d" if "d \<in> set new" for d
    using that list_all2_ex[OF new(2)] by (auto simp: chosen_markers_def)
  have "delivery_ok d" if "d \<in> set ds" for d
    using that hook_okD(4)[OF ok] made new(1) by (auto intro: just_made_ok)
  moreover have "\<exists>x \<in> set (webhook_subscriptions t'). ws_id x = wd_subscription_id d \<and> wd_marker_id d \<le> ws_cursor x" if d: "d \<in> set ds" for d
  proof (cases "wd_subscription_id d = ws_id s")
    case True
    have "wd_marker_id d \<le> cm_id (List.last ?F)"
    proof (cases "d \<in> set new")
      case True
      with made obtain m where "m \<in> set ?F" "wd_marker_id d = cm_id m" by (auto simp: just_made_def)
      with fan_markers_props(2)[OF False] show ?thesis by auto
    next
      case False
      with d new(1) have "d \<in> set (webhook_deliveries t)" by simp
      from hook_okD(5)[OF ok this s] True have "wd_marker_id d \<le> ws_cursor s" by simp
      moreover have "ws_cursor s < cm_id (List.last ?F)" using fan_markers_props(2)[OF \<open>?F \<noteq> []\<close>, of "List.last ?F"] \<open>?F \<noteq> []\<close> by simp
      ultimately show ?thesis by simp
    qed
    with True s show ?thesis unfolding t' by (intro bexI[of _ "s\<lparr>ws_cursor := cm_id (List.last ?F), ws_updated_at := he_now env\<rparr>"])
        (auto simp: moved_cursor_set)
  next
    case other: False
    have "d \<notin> set new" using made other by (auto simp: just_made_def)
    with d new(1) have "d \<in> set (webhook_deliveries t)" by simp
    then obtain x where "x \<in> set (webhook_subscriptions t)" "ws_id x = wd_subscription_id d" "wd_marker_id d \<le> ws_cursor x"
      using ok by (auto simp: hook_ok_def)
    with other show ?thesis unfolding t' by (intro bexI[of _ x]) (auto simp: moved_cursor_set)
  qed
  ultimately have "hook_ok t'" using new(3,4) hook_okD(2)[OF ok] unfolding hook_ok_def t' by simp
  with False new t' that(2) show ?thesis by simp
qed


definition cursor_after :: "hook_env \<Rightarrow> hook_tables \<Rightarrow> hook_tables \<Rightarrow> webhook_subscription \<Rightarrow> bool" where
  "cursor_after env t t' s \<longleftrightarrow> (\<exists>s' \<in> set (webhook_subscriptions t'). ws_id s' = ws_id s \<and>
     ws_cursor s' = (if fan_markers env t s = [] then ws_cursor s else cm_id (List.last (fan_markers env t s))))"

definition fan_result :: "hook_env \<Rightarrow> hook_tables \<Rightarrow> webhook_subscription list \<Rightarrow> hook_tables \<Rightarrow> webhook_delivery list \<Rightarrow> bool" where
  "fan_result env t L t' new \<longleftrightarrow> webhook_deliveries t' = webhook_deliveries t @ new \<and> hook_ok t' \<and>
     hook_databases t' = hook_databases t \<and>
     (\<forall>d \<in> set new. \<exists>s \<in> set L. \<exists>m \<in> set (chosen_markers s (fan_markers env t s)). just_made env s m d) \<and>
     (\<forall>s \<in> set L. \<forall>m \<in> set (chosen_markers s (fan_markers env t s)). \<exists>d \<in> set new. just_made env s m d) \<and>
     (\<forall>s \<in> set L. cursor_after env t t' s) \<and>
     (\<forall>s \<in> set (webhook_subscriptions t). ws_id s \<notin> ws_id ` set L \<longrightarrow> s \<in> set (webhook_subscriptions t'))"

lemma fan_markers_same: "hook_databases t1 = hook_databases t \<Longrightarrow> fan_markers env t1 s = fan_markers env t s"
  by (simp add: fan_markers_def)

lemma fan_sub_result:
  assumes "hook_ok t" "s \<in> set (webhook_subscriptions t)" "fan_sub env s (made, t) = Inr (made', t')"
  shows "\<exists>new. fan_result env t [s] t' new"
  using assms
proof (cases rule: fan_sub_effect)
  case nothing
  with assms(1,2) show ?thesis by (intro exI[of _ "[]"]) (auto simp: fan_result_def chosen_markers_def cursor_after_def)
next
  case (some_new new)
  have "(\<forall>d \<in> set new. \<exists>m \<in> set (chosen_markers s (fan_markers env t s)). just_made env s m d) \<and>
     (\<forall>m \<in> set (chosen_markers s (fan_markers env t s)). \<exists>d \<in> set new. just_made env s m d)"
    by (rule list_all2_ex[OF some_new(3)])
  moreover have "cursor_after env t t' s" unfolding cursor_after_def
    using some_new(1,4) assms(2) by (intro bexI[of _ "s\<lparr>ws_cursor := cm_id (List.last (fan_markers env t s)), ws_updated_at := he_now env\<rparr>"])
      (auto simp: moved_cursor_set)
  moreover have "\<forall>x \<in> set (webhook_subscriptions t). ws_id x \<noteq> ws_id s \<longrightarrow> x \<in> set (webhook_subscriptions t')"
    using some_new(4) by (auto simp: moved_cursor_set)
  ultimately show ?thesis using some_new(2,5,7) by (intro exI[of _ new]) (simp add: fan_result_def)
qed

lemma fan_result_trans:
  assumes 1: "fan_result env t [s] t1 new" and 2: "fan_result env t1 L t' new'" and "ws_id s \<notin> ws_id ` set L"
  shows "fan_result env t (s # L) t' (new @ new')"
proof -
  have dbs: "hook_databases t1 = hook_databases t" using 1 by (simp add: fan_result_def)
  note same = fan_markers_same[OF dbs]
  have "cursor_after env t t1 s" using 1 by (simp add: fan_result_def)
  moreover have "x \<in> set (webhook_subscriptions t')" if "x \<in> set (webhook_subscriptions t1)" "ws_id x = ws_id s" for x
    using 2 that assms(3) by (simp add: fan_result_def)
  ultimately have "cursor_after env t t' s" unfolding cursor_after_def by blast
  moreover have "cursor_after env t1 t' x = cursor_after env t t' x" for x by (simp add: cursor_after_def same)
  ultimately have cur: "\<forall>x \<in> set (s # L). cursor_after env t t' x" using 2 by (simp add: fan_result_def)
  have all_made: "\<forall>x \<in> set (s # L). \<forall>m \<in> set (chosen_markers x (fan_markers env t x)). \<exists>d \<in> set (new @ new'). just_made env x m d"
    using 1 2 unfolding fan_result_def same set_append by (metis Un_iff list.set_intros(1) set_ConsD)
  have from_one: "\<forall>d \<in> set (new @ new'). \<exists>x \<in> set (s # L). \<exists>m \<in> set (chosen_markers x (fan_markers env t x)). just_made env x m d"
    using 1 2 unfolding fan_result_def same set_append by (metis Un_iff list.set_intros set_ConsD empty_iff list.set(1))
  have "\<forall>x \<in> set (webhook_subscriptions t). ws_id x \<notin> ws_id ` set (s # L) \<longrightarrow> x \<in> set (webhook_subscriptions t')"
    using 1 2 by (simp add: fan_result_def)
  with cur all_made from_one 1 2 show ?thesis unfolding fan_result_def by simp
qed

lemma fan_fold:
  "fold_result (fan_sub env) L (made, t) = Inr (made', t') \<Longrightarrow> hook_ok t \<Longrightarrow> distinct (map ws_id L) \<Longrightarrow>
   set L \<subseteq> set (webhook_subscriptions t) \<Longrightarrow> \<exists>new. fan_result env t L t' new"
proof (induction L arbitrary: made t)
  case Nil
  then show ?case by (intro exI[of _ "[]"]) (simp add: fan_result_def)
next
  case (Cons s L)
  from Cons.prems(1) obtain m1 t1 where step: "fan_sub env s (made, t) = Inr (m1, t1)"
    "fold_result (fan_sub env) L (m1, t1) = Inr (made', t')" by (auto simp: bind_result_Inr_iff)
  from fan_sub_result[OF Cons.prems(2) _ step(1)] Cons.prems(4) obtain new where 1: "fan_result env t [s] t1 new" by auto
  have "\<forall>x \<in> set L. ws_id x \<noteq> ws_id s" using Cons.prems(3) unfolding list.map distinct.simps set_map by (metis image_eqI)
  then have "set L \<subseteq> set (webhook_subscriptions t1)" using 1 Cons.prems(4) by (auto simp: fan_result_def)
  with Cons.IH[OF step(2)] 1 Cons.prems(3) obtain new' where "fan_result env t1 L t' new'" by (auto simp: fan_result_def)
  from fan_result_trans[OF 1 this] Cons.prems(3) show ?case by auto
qed

lemma fan_out_result:
  assumes "hook_ok t" and "fan_out env locked t = Inr (made, t')" and "he_change_feed_enabled env"
  shows "\<exists>new. fan_result env t (sort_key ws_id (filter (\<lambda>s. live s \<and> \<not> (he_is_postgres env \<and> ws_id s \<in> set locked))
    (webhook_subscriptions t))) t' new"
proof (rule fan_fold)
  show "fold_result (fan_sub env) (sort_key ws_id (filter (\<lambda>s. live s \<and> \<not> (he_is_postgres env \<and> ws_id s \<in> set locked))
    (webhook_subscriptions t))) (0, t) = Inr (made, t')" using assms(2,3) by (simp add: fan_out_def)
  show "distinct (map ws_id (sort_key ws_id (filter (\<lambda>s. live s \<and> \<not> (he_is_postgres env \<and> ws_id s \<in> set locked))
    (webhook_subscriptions t))))" using hook_okD(2)[OF assms(1)] by (auto simp: distinct_map inj_on_def)
qed (use assms(1) in auto)


section \<open>Claims, attempts and routes\<close>

text \<open>A change of rows that keeps what a delivery is about.\<close>

definition same_delivery :: "webhook_delivery \<Rightarrow> webhook_delivery \<Rightarrow> bool" where
  "same_delivery d d' \<longleftrightarrow> wd_id d' = wd_id d \<and> wd_subscription_id d' = wd_subscription_id d \<and> wd_marker_id d' = wd_marker_id d \<and>
     wd_entity_kind d' = wd_entity_kind d \<and> wd_entity_id d' = wd_entity_id d"

lemma hook_ok_update:
  assumes ok: "hook_ok t" and f: "\<And>d. d \<in> set (webhook_deliveries t) \<Longrightarrow> P d \<Longrightarrow> delivery_ok (f d)" and same: "\<And>d. same_delivery d (f d)"
    and t': "webhook_deliveries t' = update_rows P f (webhook_deliveries t)"
    and ids: "map ws_id (webhook_subscriptions t') = map ws_id (webhook_subscriptions t)"
    and cur: "map ws_cursor (webhook_subscriptions t') = map ws_cursor (webhook_subscriptions t)"
  shows "hook_ok t'"
proof -
  let ?subs = "webhook_subscriptions t'"
  have keep: "map wd_id (update_rows P f xs) = map wd_id xs"
    "map (\<lambda>d. (wd_subscription_id d, wd_marker_id d)) (update_rows P f xs) = map (\<lambda>d. (wd_subscription_id d, wd_marker_id d)) xs" for xs
    using same by (auto intro!: map_update_rows_id simp: same_delivery_def)
  have "\<exists>x \<in> set ?subs. ws_id x = i \<and> m \<le> ws_cursor x" if "\<exists>x \<in> set (webhook_subscriptions t). ws_id x = i \<and> m \<le> ws_cursor x" for i m
  proof -
    from that obtain k where k: "k < length (webhook_subscriptions t)" "ws_id (webhook_subscriptions t ! k) = i"
      "m \<le> ws_cursor (webhook_subscriptions t ! k)" by (metis in_set_conv_nth)
    have len: "length ?subs = length (webhook_subscriptions t)" using ids map_eq_imp_length_eq by blast
    with k ids cur have "ws_id (?subs ! k) = i" "m \<le> ws_cursor (?subs ! k)" by (metis nth_map)+
    with k(1) len show ?thesis by (metis nth_mem)
  qed
  moreover have "\<exists>d0 \<in> set (webhook_deliveries t). wd_subscription_id d = wd_subscription_id d0 \<and> wd_marker_id d = wd_marker_id d0"
    if "d \<in> set (update_rows P f (webhook_deliveries t))" for d
    using that same by (force simp: set_update_rows same_delivery_def)
  ultimately have "\<forall>d \<in> set (update_rows P f (webhook_deliveries t)). \<exists>s \<in> set ?subs. ws_id s = wd_subscription_id d \<and> wd_marker_id d \<le> ws_cursor s"
    using ok unfolding hook_ok_def by metis
  moreover have "\<forall>d \<in> set (update_rows P f (webhook_deliveries t)). delivery_ok d"
    using f hook_okD(4)[OF ok] by (auto simp: set_update_rows)
  ultimately show ?thesis using ok ids unfolding hook_ok_def t' by (simp add: keep)
qed

lemma due_ok: "d \<in> set (due_batch env locked t) \<Longrightarrow> d \<in> set (webhook_deliveries t) \<and> due_now env t d"
  by (auto simp: due_batch_def dest: in_set_takeD)

lemma claim_due_ok:
  assumes ok: "hook_ok t" and "claim_due env locked t = (ogs, t')"
  shows "hook_ok t'"
proof -
  let ?ds = "due_batch env locked t"
  have pend: "wd_status d = PENDING" if "d \<in> set (webhook_deliveries t)" "wd_id d \<in> set (map wd_id ?ds)" for d
  proof -
    from that(2) obtain x where x: "x \<in> set ?ds" "wd_id x = wd_id d" by auto
    with due_ok that(1) hook_okD(1)[OF ok] have "x = d" by (metis distinct_map inj_onD)
    with due_ok[OF x(1)] show ?thesis by (simp add: due_now_def)
  qed
  show ?thesis
  proof (rule hook_ok_update[OF ok])
    show "webhook_deliveries t' = update_rows (\<lambda>d. wd_id d \<in> set (map wd_id ?ds))
      (\<lambda>d. d\<lparr>wd_next_attempt_at := Some (he_now env + CLAIM_LEASE)\<rparr>) (webhook_deliveries t)"
      using assms(2) by (auto simp: claim_due_def Let_def)
    show "delivery_ok (d\<lparr>wd_next_attempt_at := Some (he_now env + CLAIM_LEASE)\<rparr>)"
      if "d \<in> set (webhook_deliveries t)" "wd_id d \<in> set (map wd_id ?ds)" for d
      using hook_okD(4)[OF ok that(1)] pend[OF that] by (simp add: delivery_ok_def)
  qed (use assms(2) in \<open>auto simp: same_delivery_def claim_due_def Let_def\<close>)
qed

lemma charged_ok: "delivery_ok d \<Longrightarrow> wd_status d = PENDING \<Longrightarrow> delivery_ok (charged env (Suc (wd_attempt_count d)) oc d)"
  by (auto simp: charged_def delivery_ok_def)

lemma count_failure_ids [simp]:
  "map ws_id (count_failure env sid subs) = map ws_id subs" "map ws_cursor (count_failure env sid subs) = map ws_cursor subs"
  by (simp_all add: count_failure_def Let_def map_update_rows_id)

lemma charged_same: "same_delivery d (charged env n oc d)"
  by (simp add: same_delivery_def charged_def)

lemma record_attempt_effect:
  assumes "record_attempt env seen t og oc = (True, t')"
  obtains n where "list_ex (leased og n) (webhook_deliveries t)"
    "webhook_deliveries t' = update_rows (leased og n) (charged env (n + 1) oc) (webhook_deliveries t)"
    "map ws_id (webhook_subscriptions t') = map ws_id (webhook_subscriptions t)"
    "map ws_cursor (webhook_subscriptions t') = map ws_cursor (webhook_subscriptions t)"
    "hook_databases t' = hook_databases t"
proof -
  from assms obtain d s where "find (\<lambda>d. wd_id d = og_delivery_id og) (webhook_deliveries seen) = Some d"
    "find (\<lambda>s. ws_id s = og_subscription_id og) (webhook_subscriptions seen) = Some s"
    by (auto simp: record_attempt_def split: option.splits)
  note r = assms[unfolded record_attempt_def this option.case prod.case Let_def]
  show ?thesis
  proof (rule that[of "wd_attempt_count d"])
    show "list_ex (leased og (wd_attempt_count d)) (webhook_deliveries t)"
      "webhook_deliveries t' = update_rows (leased og (wd_attempt_count d)) (charged env (wd_attempt_count d + 1) oc) (webhook_deliveries t)"
      "hook_databases t' = hook_databases t"
      using r by (auto split: if_split_asm)
    show "map ws_id (webhook_subscriptions t') = map ws_id (webhook_subscriptions t)"
      "map ws_cursor (webhook_subscriptions t') = map ws_cursor (webhook_subscriptions t)"
      using r by (auto simp: map_update_rows_id split: if_split_asm)
  qed
qed

lemma record_attempt_refused: "record_attempt env seen t og oc = (False, t') \<Longrightarrow> t' = t"
  by (auto simp: record_attempt_def Let_def split: option.splits if_splits)

lemma record_attempt_ok:
  assumes ok: "hook_ok t" and "record_attempt env seen t og oc = (b, t')"
  shows "hook_ok t'"
proof (cases b)
  case False
  with assms record_attempt_refused show ?thesis by metis
next
  case True
  with assms(2) have "record_attempt env seen t og oc = (True, t')" by simp
  then show ?thesis
  proof (cases rule: record_attempt_effect)
    case (1 n)
    show ?thesis by (rule hook_ok_update[OF ok _ charged_same 1(2-4)]) (auto simp: leased_def intro: charged_ok hook_okD(4)[OF ok])
  qed
qed

section \<open>Runs\<close>

lemma redeliver_ok:
  assumes "hook_ok t" and "redeliver_webhook env u org sid did t = Inr t'"
  shows "hook_ok t'"
proof -
  from assms(2) have t': "t' = t\<lparr>webhook_deliveries := update_rows (\<lambda>x. wd_id x = did) (redeliver env) (webhook_deliveries t)\<rparr>"
    by (auto simp: redeliver_webhook_def bind_result_Inr_iff split: option.splits)
  show ?thesis by (rule hook_ok_update[OF assms(1), where P = "\<lambda>x. wd_id x = did" and f = "redeliver env"])
    (simp_all add: t' redeliver_def delivery_ok_def same_delivery_def MAX_ATTEMPTS_def)
qed

lemma put_subscription_ok:
  assumes "hook_ok t" and "get_subscription t org sid = Inr s" and "ws_id s' = ws_id s" and "ws_cursor s' = ws_cursor s"
  shows "hook_ok (put_subscription env s' t)"
proof -
  have s: "s \<in> set (webhook_subscriptions t)" using assms(2) by (auto simp: get_subscription_def dest: find_Some_iff_first split: option.splits)
  have only: "x = s" if "x \<in> set (webhook_subscriptions t)" "ws_id x = ws_id s" for x
    using that s hook_okD(2)[OF assms(1)] by (auto simp: distinct_map inj_on_def)
  have "update_rows (\<lambda>x. ws_id x = ws_id s' \<and> x \<noteq> s') (\<lambda>_. s'\<lparr>ws_updated_at := he_now env\<rparr>) (webhook_subscriptions t) =
      map (\<lambda>x. if ws_id x = ws_id s' \<and> x \<noteq> s' then s'\<lparr>ws_updated_at := he_now env\<rparr> else x) (webhook_subscriptions t)"
    by (simp add: update_rows_def)
  then have "map ws_id (webhook_subscriptions (put_subscription env s' t)) = map ws_id (webhook_subscriptions t)"
    "map ws_cursor (webhook_subscriptions (put_subscription env s' t)) = map ws_cursor (webhook_subscriptions t)"
    using only assms(3,4) by (auto simp: put_subscription_def)
  then show ?thesis
    by (intro hook_ok_update[OF assms(1), where P = "\<lambda>_. False" and f = "\<lambda>x. x"]) (simp_all add: update_rows_def same_delivery_def put_subscription_def)
qed

text \<open>What an administrator does to the subscriptions.\<close>

inductive admin_step :: "hook_tables \<Rightarrow> hook_tables \<Rightarrow> bool" where
  "create_webhook env u org secret p t = Inr (r, t') \<Longrightarrow> admin_step t t'"
| "update_webhook env u org sid up t = Inr t' \<Longrightarrow> admin_step t t'"
| "rotate_webhook_secret env u org sid secret t = Inr t' \<Longrightarrow> admin_step t t'"
| "remove_previous_webhook_secret env u org sid t = Inr t' \<Longrightarrow> admin_step t t'"
| "resume_webhook env u org sid t = Inr t' \<Longrightarrow> admin_step t t'"

lemma admin_step_deliveries: "admin_step t t' \<Longrightarrow> webhook_deliveries t' = webhook_deliveries t"
  by (induction rule: admin_step.induct)
    (auto simp: create_webhook_def update_webhook_def rotate_webhook_secret_def remove_previous_webhook_secret_def
      resume_webhook_def bind_result_Inr_iff put_subscription_def Let_def split: if_splits)

lemma create_webhook_ok:
  assumes "hook_ok t" and "create_webhook env u org secret p t = Inr (r, t')"
  shows "hook_ok t'"
proof -
  obtain s where s: "ws_id s = fresh_id (map ws_id (webhook_subscriptions t))"
    "webhook_subscriptions t' = webhook_subscriptions t @ [s]" "webhook_deliveries t' = webhook_deliveries t"
  proof (rule that[of "List.last (webhook_subscriptions t')"])
  qed (use assms(2) in \<open>auto simp: create_webhook_def bind_result_Inr_iff Let_def split: if_splits\<close>)
  have "distinct (map ws_id (webhook_subscriptions t'))"
    using hook_okD(2)[OF assms(1)] fresh_id_notin[of "map ws_id (webhook_subscriptions t)"] s(1,2) by simp
  with assms(1) s(2,3) show ?thesis by (auto simp: hook_ok_def)
qed

lemma admin_step_ok: "admin_step t t' \<Longrightarrow> hook_ok t \<Longrightarrow> hook_ok t'"
proof (induction rule: admin_step.induct)
  case (1 env u org secret p t r t')
  then show ?case using create_webhook_ok by blast
qed (auto simp: update_webhook_def rotate_webhook_secret_def remove_previous_webhook_secret_def resume_webhook_def
    bind_result_Inr_iff split: if_splits intro: put_subscription_ok)


lemma delete_webhook_ok:
  assumes "hook_ok t" and "delete_webhook u org sid t = Inr t'"
  shows "hook_ok t'"
proof -
  from assms(2) obtain i where "webhook_deliveries t' = filter (\<lambda>d. wd_subscription_id d \<noteq> i) (webhook_deliveries t)"
    "webhook_subscriptions t' = filter (\<lambda>x. ws_id x \<noteq> i) (webhook_subscriptions t)"
    by (auto simp: delete_webhook_def bind_result_Inr_iff Let_def)
  note t' = this
  have "\<forall>d \<in> set (webhook_deliveries t'). \<exists>s \<in> set (webhook_subscriptions t'). ws_id s = wd_subscription_id d \<and> wd_marker_id d \<le> ws_cursor s"
    using assms(1) unfolding hook_ok_def t' set_filter by (metis (mono_tags, lifting) mem_Collect_eq)
  with assms(1) t' show ?thesis unfolding hook_ok_def by (simp add: distinct_map_filter)
qed

lemma fan_out_ok: "hook_ok t \<Longrightarrow> fan_out env locked t = Inr (n, t') \<Longrightarrow> hook_ok t'"
  using fan_out_result[of t env locked n t'] by (cases "he_change_feed_enabled env") (auto simp: fan_result_def fan_out_def)

text \<open>
  The service at work: tables and the claims passes have made. A pass fans out, claims, and writes
  outcomes; administrators change subscriptions; the application writes rows and markers.
\<close>

inductive hook_step :: "hook_tables \<times> outgoing list \<Rightarrow> hook_tables \<times> outgoing list \<Rightarrow> bool" where
  fans: "fan_out env locked t = Inr (n, t') \<Longrightarrow> hook_step (t, ogs) (t', ogs)"
| claims: "claim_due env locked t = (new, t') \<Longrightarrow> hook_step (t, ogs) (t', new @ ogs)"
| records: "og \<in> set ogs \<Longrightarrow> record_attempt env seen t og oc = (b, t') \<Longrightarrow> hook_step (t, ogs) (t', ogs)"
| administers: "admin_step t t' \<Longrightarrow> hook_step (t, ogs) (t', ogs)"
| writes: "hook_step (t, ogs) (t\<lparr>hook_databases := dbs\<rparr>, ogs)"

text \<open>With redelivery and the deletion of subscriptions as well.\<close>

inductive hook_run :: "hook_tables \<times> outgoing list \<Rightarrow> hook_tables \<times> outgoing list \<Rightarrow> bool" where
  "hook_run c c"
| "hook_run c c1 \<Longrightarrow> hook_step c1 c2 \<Longrightarrow> hook_run c c2"
| "hook_run c (t1, ogs) \<Longrightarrow> redeliver_webhook env u org sid did t1 = Inr t2 \<Longrightarrow> hook_run c (t2, ogs)"
| "hook_run c (t1, ogs) \<Longrightarrow> delete_webhook u org sid t1 = Inr t2 \<Longrightarrow> hook_run c (t2, ogs)"

lemma hook_ok_databases [simp]: "hook_ok (t\<lparr>hook_databases := dbs\<rparr>) = hook_ok t"
  by (simp add: hook_ok_def)

lemma hook_step_ok: "hook_step c c' \<Longrightarrow> hook_ok (fst c) \<Longrightarrow> hook_ok (fst c')"
  by (induction rule: hook_step.induct) (auto intro: fan_out_ok claim_due_ok record_attempt_ok admin_step_ok)

lemma hook_run_ok: "hook_run c c' \<Longrightarrow> hook_ok (fst c) \<Longrightarrow> hook_ok (fst c')"
proof (induction rule: hook_run.induct)
  case (2 c c1 c2)
  then show ?case by (blast intro: hook_step_ok)
qed (auto intro: redeliver_ok delete_webhook_ok)

section \<open>The order of a row's changes\<close>

text \<open>A claimed delivery is there and nothing earlier of its row is pending.\<close>

definition claims_first :: "hook_tables \<Rightarrow> outgoing list \<Rightarrow> bool" where
  "claims_first t ogs \<longleftrightarrow> (\<forall>og \<in> set ogs. \<exists>d \<in> set (webhook_deliveries t). wd_id d = og_delivery_id og \<and>
     (\<forall>e \<in> set (webhook_deliveries t). same_row e d \<longrightarrow> wd_marker_id e < wd_marker_id d \<longrightarrow> wd_status e \<noteq> PENDING))"

text \<open>A step that keeps the deliveries, settles some, and adds none that is earlier than one of the same row.\<close>

lemma claims_first_mono:
  assumes "claims_first t ogs"
    and old: "\<And>d. d \<in> set (webhook_deliveries t) \<Longrightarrow> \<exists>d' \<in> set (webhook_deliveries t'). same_delivery d d'"
    and new: "\<And>e' d. e' \<in> set (webhook_deliveries t') \<Longrightarrow> wd_status e' = PENDING \<Longrightarrow> d \<in> set (webhook_deliveries t) \<Longrightarrow>
      same_row e' d \<Longrightarrow> wd_marker_id e' < wd_marker_id d \<Longrightarrow> \<exists>e \<in> set (webhook_deliveries t). same_delivery e e' \<and> wd_status e = PENDING"
  shows "claims_first t' ogs"
  unfolding claims_first_def
proof
  fix og assume "og \<in> set ogs"
  with assms(1) obtain d where d: "d \<in> set (webhook_deliveries t)" "wd_id d = og_delivery_id og"
    "\<forall>e \<in> set (webhook_deliveries t). same_row e d \<longrightarrow> wd_marker_id e < wd_marker_id d \<longrightarrow> wd_status e \<noteq> PENDING"
    unfolding claims_first_def by blast
  from old[OF d(1)] obtain d' where d': "d' \<in> set (webhook_deliveries t')" "same_delivery d d'" by blast
  have row: "same_row e d' = same_row e d" for e using d'(2) by (simp add: same_row_def same_delivery_def)
  have "wd_status e' \<noteq> PENDING" if e': "e' \<in> set (webhook_deliveries t')" "same_row e' d'" "wd_marker_id e' < wd_marker_id d'" for e'
  proof
    assume p: "wd_status e' = PENDING"
    have "wd_marker_id e' < wd_marker_id d" using e'(3) d'(2) by (simp add: same_delivery_def)
    with new[OF e'(1) p d(1)] e'(2) row obtain e where e: "e \<in> set (webhook_deliveries t)" "same_delivery e e'" "wd_status e = PENDING" by auto
    then have "same_row e d" "wd_marker_id e < wd_marker_id d"
      using e'(2) row \<open>wd_marker_id e' < wd_marker_id d\<close> by (auto simp: same_row_def same_delivery_def)
    with d(3) e show False by blast
  qed
  with d' d(2) show "\<exists>d \<in> set (webhook_deliveries t'). wd_id d = og_delivery_id og \<and>
     (\<forall>e \<in> set (webhook_deliveries t'). same_row e d \<longrightarrow> wd_marker_id e < wd_marker_id d \<longrightarrow> wd_status e \<noteq> PENDING)"
    by (intro bexI[of _ d']) (auto simp: same_delivery_def)
qed


lemma claims_first_update:
  assumes "claims_first t ogs" and t': "webhook_deliveries t' = update_rows P f (webhook_deliveries t)"
    and same: "\<And>d. same_delivery d (f d)" and pend: "\<And>d. P d \<Longrightarrow> wd_status (f d) = PENDING \<Longrightarrow> wd_status d = PENDING"
  shows "claims_first t' ogs"
proof (rule claims_first_mono[OF assms(1)])
  have refl: "same_delivery d d" for d by (simp add: same_delivery_def)
  show "\<exists>d' \<in> set (webhook_deliveries t'). same_delivery d d'" if "d \<in> set (webhook_deliveries t)" for d
    using that same[of d] refl[of d] unfolding t' set_update_rows by blast
  show "\<exists>e \<in> set (webhook_deliveries t). same_delivery e e' \<and> wd_status e = PENDING"
    if "e' \<in> set (webhook_deliveries t')" "wd_status e' = PENDING" for e'
    using that same pend refl unfolding t' set_update_rows by blast
qed

lemma claims_first_fan:
  assumes ok: "hook_ok t" and "claims_first t ogs" and "fan_out env locked t = Inr (n, t')"
  shows "claims_first t' ogs"
proof (cases "he_change_feed_enabled env")
  case False
  with assms show ?thesis by (simp add: fan_out_def)
next
  case True
  let ?L = "sort_key ws_id (filter (\<lambda>s. live s \<and> \<not> (he_is_postgres env \<and> ws_id s \<in> set locked)) (webhook_subscriptions t))"
  from fan_out_result[OF ok assms(3) True] obtain new where r: "fan_result env t ?L t' new" by blast
  have later: "\<not> (same_row e' d \<and> wd_marker_id e' < wd_marker_id d)" if "e' \<in> set new" "d \<in> set (webhook_deliveries t)" for e' d
  proof
    assume c: "same_row e' d \<and> wd_marker_id e' < wd_marker_id d"
    from r that(1) obtain s m where s: "s \<in> set ?L" "m \<in> set (chosen_markers s (fan_markers env t s))" "just_made env s m e'"
      unfolding fan_result_def by blast
    then have m: "m \<in> set (fan_markers env t s)" by (simp add: chosen_markers_def)
    then have "fan_markers env t s \<noteq> []" by auto
    from fan_markers_props(2)[OF this m] s(3) have "ws_cursor s < wd_marker_id e'" by (simp add: just_made_def)
    moreover have "wd_marker_id d \<le> ws_cursor s"
      using hook_okD(5)[OF ok that(2), of s] s(1,3) c by (simp add: same_row_def just_made_def)
    ultimately show False using c by simp
  qed
  have refl: "same_delivery d d" for d by (simp add: same_delivery_def)
  show ?thesis
  proof (rule claims_first_mono[OF assms(2)])
    show "\<exists>d' \<in> set (webhook_deliveries t'). same_delivery d d'" if "d \<in> set (webhook_deliveries t)" for d
      using that refl[of d] r unfolding fan_result_def by (intro bexI[of _ d]) simp_all
    show "\<exists>e \<in> set (webhook_deliveries t). same_delivery e e' \<and> wd_status e = PENDING"
      if "e' \<in> set (webhook_deliveries t')" "wd_status e' = PENDING" "d \<in> set (webhook_deliveries t)"
        "same_row e' d" "wd_marker_id e' < wd_marker_id d" for e' d
      using that later[of e' d] refl[of e'] r unfolding fan_result_def by auto
  qed
qed

lemma claims_first_claim:
  assumes ok: "hook_ok t" and first: "claims_first t ogs" and c: "claim_due env locked t = (new, t')"
  shows "claims_first t' (new @ ogs)"
proof -
  let ?ds = "due_batch env locked t"
  have t': "webhook_deliveries t' = update_rows (\<lambda>d. wd_id d \<in> set (map wd_id ?ds))
      (\<lambda>d. d\<lparr>wd_next_attempt_at := Some (he_now env + CLAIM_LEASE)\<rparr>) (webhook_deliveries t)"
    and new: "new = map (outgoing_of env t) ?ds" using c by (auto simp: claim_due_def Let_def)
  have "\<exists>d \<in> set (webhook_deliveries t). wd_id d = og_delivery_id og \<and>
     (\<forall>e \<in> set (webhook_deliveries t). same_row e d \<longrightarrow> wd_marker_id e < wd_marker_id d \<longrightarrow> wd_status e \<noteq> PENDING)"
    if "og \<in> set new" for og
  proof -
    from that new obtain d where d: "d \<in> set ?ds" "og = outgoing_of env t d" by auto
    with due_ok[OF d(1)] show ?thesis
      by (intro bexI[of _ d]) (auto simp: outgoing_of_def Let_def due_now_def held_up_def list_ex_iff)
  qed
  with first have "claims_first t (new @ ogs)" unfolding claims_first_def by auto
  then show ?thesis by (rule claims_first_update[OF _ t']) (simp_all add: same_delivery_def)
qed

lemma claims_first_step:
  "hook_step c c' \<Longrightarrow> hook_ok (fst c) \<Longrightarrow> claims_first (fst c) (snd c) \<Longrightarrow> claims_first (fst c') (snd c')"
proof (induction rule: hook_step.induct)
  case (fans env locked t n t' ogs)
  then show ?case using claims_first_fan by simp
next
  case (claims env locked t new t' ogs)
  then show ?case using claims_first_claim by simp
next
  case (records og ogs env seen t oc b t')
  show ?case
  proof (cases b)
    case False
    with records record_attempt_refused show ?thesis by force
  next
    case True
    with records(2) have "record_attempt env seen t og oc = (True, t')" by simp
    then show ?thesis
    proof (cases rule: record_attempt_effect)
      case (1 n)
      have "claims_first t' ogs"
        using records(4) by (intro claims_first_update[OF _ 1(2) charged_same]) (auto simp: leased_def)
      then show ?thesis by simp
    qed
  qed
next
  case (administers t t' ogs)
  then show ?case using admin_step_deliveries by (simp add: claims_first_def)
next
  case (writes t ogs dbs)
  then show ?case by (simp add: claims_first_def)
qed

lemma hook_steps_inv:
  "hook_step\<^sup>*\<^sup>* c c' \<Longrightarrow> hook_ok (fst c) \<Longrightarrow> claims_first (fst c) (snd c) \<Longrightarrow> hook_ok (fst c') \<and> claims_first (fst c') (snd c')"
  by (induction rule: rtranclp_induct) (blast intro: hook_step_ok claims_first_step)+

section \<open>The waits\<close>

lemma divide_and_round_bounds:
  assumes "0 \<le> a" "a \<le> c * b" "0 < b"
  shows "0 \<le> divide_and_round a b" "divide_and_round a b \<le> c"
proof -
  let ?q = "a div b" let ?r = "a mod b"
  have q: "0 \<le> ?q" using assms(1,3) by (simp add: pos_imp_zdiv_nonneg_iff)
  then show "0 \<le> divide_and_round a b" by (simp add: divide_and_round_def Let_def)
  have "?q \<le> c" using assms(2,3) by (metis zdiv_mono1 nonzero_mult_div_cancel_right less_irrefl)
  moreover have "?r = 0" if "?q = c"
  proof -
    have "c * b + ?r = a" using that by (metis div_mult_mod_eq)
    moreover have "0 \<le> ?r" using assms(3) by simp
    ultimately show ?thesis using assms(2) by linarith
  qed
  ultimately show "divide_and_round a b \<le> c" using assms(3)
    by (cases "?q = c") (simp_all add: divide_and_round_def Let_def)
qed

text \<open>The wait after a failed attempt lies between nothing and the ceiling of the schedule, ten hours at most.\<close>

lemma backoff_bounds:
  assumes "\<And>x. he_digest64 env x < 2 ^ 64" and "1 \<le> attempts"
  shows "0 \<le> backoff env ev attempts" "backoff env ev attempts \<le> RETRY_DELAYS ! (min attempts 7 - 1)"
    "backoff env ev attempts \<le> 10 * 3600 * SECOND"
proof -
  let ?c = "RETRY_DELAYS ! (min attempts (length RETRY_DELAYS) - 1)" let ?n = "int (he_digest64 env (ev @ '':'' @ show_nat attempts))"
  have all: "list_all (\<lambda>c. 0 \<le> c \<and> c \<le> 10 * 3600 * SECOND) RETRY_DELAYS" and len: "length RETRY_DELAYS = 7" by code_simp+
  have "min attempts (length RETRY_DELAYS) - 1 < length RETRY_DELAYS" using assms(2) len by simp
  with all have c: "0 \<le> ?c" "?c \<le> 10 * 3600 * SECOND" by (auto simp: list_all_length)
  have "?n \<le> 2 ^ 64" using assms(1)[of "ev @ '':'' @ show_nat attempts"] by (metis less_imp_le of_nat_le_iff of_nat_numeral of_nat_power)
  then have "0 \<le> ?c * ?n" "?c * ?n \<le> ?c * 2 ^ 64" using c by (auto intro: mult_left_mono)
  from divide_and_round_bounds[OF this] show "0 \<le> backoff env ev attempts" "backoff env ev attempts \<le> RETRY_DELAYS ! (min attempts 7 - 1)"
    "backoff env ev attempts \<le> 10 * 3600 * SECOND"
    using c len by (simp_all add: backoff_def Let_def)
qed


section \<open>What a receiver can rely on\<close>

text \<open>C30: A fan-out makes one delivery for every wanted change and skips none: for a live subscription no
  other instance has locked, the new deliveries are exactly the changes of its organization after
  the old cursor and up to the new one whose event type it asks for, no marker has two deliveries
  on one subscription, and the cursor never moves back.\<close>

theorem fan_out_exactly_once:
  assumes "hook_ok t" and "he_change_feed_enabled env" and "fan_out env locked t = Inr (n, t')"
    and "s \<in> set (webhook_subscriptions t)" and "live s" and "\<not> (he_is_postgres env \<and> ws_id s \<in> set locked)"
    and "distinct (map cm_id (change_markers (hook_databases t (ws_organization_id s))))"
  shows "\<exists>new s'. webhook_deliveries t' = webhook_deliveries t @ new \<and> s' \<in> set (webhook_subscriptions t') \<and>
    ws_id s' = ws_id s \<and> ws_cursor s \<le> ws_cursor s' \<and>
    {wd_marker_id d |d. d \<in> set new \<and> wd_subscription_id d = ws_id s} =
      {cm_id m |m. m \<in> set (change_markers (hook_databases t (ws_organization_id s))) \<and> ws_cursor s < cm_id m \<and>
        cm_id m \<le> ws_cursor s' \<and> event_type m \<in> set (split_on CHR '','' (ws_event_types s))} \<and>
    distinct (map (\<lambda>d. (wd_subscription_id d, wd_marker_id d)) (webhook_deliveries t'))"
proof -
  let ?L = "sort_key ws_id (filter (\<lambda>s. live s \<and> \<not> (he_is_postgres env \<and> ws_id s \<in> set locked)) (webhook_subscriptions t))"
  let ?F = "fan_markers env t s"
  from fan_out_result[OF assms(1,3,2)] obtain new where r: "fan_result env t ?L t' new" by blast
  have s: "s \<in> set ?L" using assms(4-6) by simp
  with r obtain s' where s': "s' \<in> set (webhook_subscriptions t')" "ws_id s' = ws_id s"
    "ws_cursor s' = (if ?F = [] then ws_cursor s else cm_id (List.last ?F))"
    unfolding fan_result_def cursor_after_def by blast
  have F: "m \<in> set ?F \<longleftrightarrow> m \<in> set (change_markers (hook_databases t (ws_organization_id s))) \<and> ws_cursor s < cm_id m \<and>
        cm_id m \<le> ws_cursor s'" for m
    using fan_markers_props(2)[of env t s m] fan_markers_props(3)[of env t s m] assms(7) s'(3) by (cases "?F = []") auto
  have mine: "x = s" if "x \<in> set ?L" "ws_id x = ws_id s" for x
    using that s hook_okD(2)[OF assms(1)] by (auto simp: distinct_map inj_on_def)
  have "wd_marker_id d \<in> cm_id ` set (chosen_markers s ?F)" if d: "d \<in> set new" "wd_subscription_id d = ws_id s" for d
  proof -
    from r d(1) obtain x m where x: "x \<in> set ?L" "m \<in> set (chosen_markers x (fan_markers env t x))" "just_made env x m d"
      unfolding fan_result_def by blast
    have "ws_id x = ws_id s" "wd_marker_id d = cm_id m" using x(3) d(2) unfolding just_made_def by simp_all
    with mine[OF x(1)] x(2) show ?thesis by blast
  qed
  moreover have "\<exists>d \<in> set new. wd_subscription_id d = ws_id s \<and> wd_marker_id d = cm_id m" if m: "m \<in> set (chosen_markers s ?F)" for m
  proof -
    from r s m obtain d where "d \<in> set new" "just_made env s m d" unfolding fan_result_def by blast
    then show ?thesis by (auto simp: just_made_def)
  qed
  ultimately have "{wd_marker_id d |d. d \<in> set new \<and> wd_subscription_id d = ws_id s} = cm_id ` set (chosen_markers s ?F)" by force
  also have "\<dots> = {cm_id m |m. m \<in> set (change_markers (hook_databases t (ws_organization_id s))) \<and> ws_cursor s < cm_id m \<and>
        cm_id m \<le> ws_cursor s' \<and> event_type m \<in> set (split_on CHR '','' (ws_event_types s))}"
    using F by (auto simp: chosen_markers_def)
  finally have new: "{wd_marker_id d |d. d \<in> set new \<and> wd_subscription_id d = ws_id s} = \<dots>" .
  have "ws_cursor s \<le> ws_cursor s'" using s'(3) F[of "List.last ?F"] by (cases "?F = []") auto
  moreover have "hook_ok t'" "webhook_deliveries t' = webhook_deliveries t @ new" using r by (auto simp: fan_result_def)
  ultimately show ?thesis using s'(1,2) new hook_okD(3) by blast
qed

definition demo_hooks :: hook_env where
  "demo_hooks = \<lparr>he_now = 100, he_is_postgres = False, he_host_clock = False, he_change_feed_enabled = True,
     he_event_id = (\<lambda>s m. show_int s @ ''-'' @ show_int m), he_dumps = (\<lambda>_. ''{}''), he_digest64 = (\<lambda>_. 5),
     he_hmac64 = (\<lambda>k x. x), he_b64decode = (\<lambda>x. x),
     he_urlsplit = (\<lambda>u. \<lparr>up_scheme = ''https'', up_hostname = Some ''h'', up_username = None, up_password = None,
       up_port = Some None, up_path = [], up_query = []\<rparr>),
     he_ip_literal = (\<lambda>_. None),
     he_ip_address = (\<lambda>_. \<lparr>ip_own = \<lparr>ip_multicast = False, ip_unspecified = False, ip_reserved = False, ip_loopback = False,
       ip_private = False, ip_link_local = False, ip_global = True\<rparr>, ip_mapped = None\<rparr>),
     he_resolve = (\<lambda>_ _. Some [''9.9.9.9'']), he_allow_http_hosts = [], he_allow_private_targets = False\<rparr>"

definition demo_sub :: webhook_subscription where
  "demo_sub = \<lparr>ws_id = 1, ws_organization_id = ''o1'', ws_url = ''https://h'', ws_event_types = ''resource.created,resource.updated'',
     ws_active = True, ws_paused_at = None, ws_consecutive_failures = 0, ws_cursor = 0, ws_secret = ''whsec_x'',
     ws_previous_secret = None, ws_previous_secret_expires_at = None, ws_created_at = 0, ws_updated_at = 0\<rparr>"

definition demo_tables :: hook_tables where
  "demo_tables = \<lparr>webhook_subscriptions = [demo_sub], webhook_deliveries = [], webhook_attempts = [], hook_databases = (\<lambda>_. feed_db)\<rparr>"

definition demo_fanned :: hook_tables where
  "demo_fanned = (case fan_out demo_hooks [] demo_tables of Inl e \<Rightarrow> demo_tables | Inr (n, t) \<Rightarrow> t)"

lemma demo_fan: "fan_out demo_hooks [] demo_tables = Inr (3, demo_fanned)"
proof -
  have "(case fan_out demo_hooks [] demo_tables of Inl e \<Rightarrow> False | Inr (n, t) \<Rightarrow> n = 3)" by code_simp
  then show ?thesis by (auto simp: demo_fanned_def split: sum.splits)
qed

lemma demo_hook_ok: "hook_ok demo_tables"
  by (simp add: hook_ok_def demo_tables_def)

theorem fan_out_exactly_once_witness:
  "webhook_deliveries demo_tables = [] \<and> length (webhook_deliveries demo_fanned) = 3 \<and>
   distinct (map (\<lambda>d. (wd_subscription_id d, wd_marker_id d)) (webhook_deliveries demo_fanned))"
proof -
  have "length (webhook_deliveries demo_fanned) = 3" "he_change_feed_enabled demo_hooks" "live demo_sub" "\<not> he_is_postgres demo_hooks"
    "distinct (map cm_id (change_markers feed_db))" by code_simp+
  with fan_out_exactly_once[OF demo_hook_ok _ demo_fan, of demo_sub] show ?thesis by (force simp: demo_tables_def)
qed

text \<open>C31: A receiver hears a row's changes in order: in every run of fan-outs, claims, outcomes (written
  late or from an old read), administration and writes, an attempt is charged to a delivery only
  while every earlier change of the same row on the same subscription has been settled.\<close>

theorem row_changes_arrive_in_order:
  assumes "hook_ok t0" and "hook_step\<^sup>*\<^sup>* (t0, []) (t, ogs)" and "og \<in> set ogs"
    and "record_attempt env seen t og oc = (True, t')"
  shows "\<exists>d \<in> set (webhook_deliveries t). wd_id d = og_delivery_id og \<and> wd_status d = PENDING \<and>
    list_all (\<lambda>e. \<not> (same_row e d \<and> wd_marker_id e < wd_marker_id d \<and> wd_status e = PENDING)) (webhook_deliveries t)"
proof -
  have "claims_first t0 []" by (simp add: claims_first_def)
  with hook_steps_inv[OF assms(2)] assms(1) have inv: "hook_ok t" "claims_first t ogs" by auto
  from inv(2) assms(3) obtain d where d: "d \<in> set (webhook_deliveries t)" "wd_id d = og_delivery_id og"
    "\<forall>e \<in> set (webhook_deliveries t). same_row e d \<longrightarrow> wd_marker_id e < wd_marker_id d \<longrightarrow> wd_status e \<noteq> PENDING"
    unfolding claims_first_def by blast
  from assms(4) have "wd_status d = PENDING"
  proof (cases rule: record_attempt_effect)
    case (1 n)
    then obtain x where x: "x \<in> set (webhook_deliveries t)" "leased og n x" by (auto simp: list_ex_iff)
    with d(1,2) hook_okD(1)[OF inv(1)] have "x = d" by (auto simp: leased_def distinct_map inj_on_def)
    with x(2) show ?thesis by (simp add: leased_def)
  qed
  with d show ?thesis by (auto simp: list_all_iff)
qed

definition demo_claim :: "outgoing list \<times> hook_tables" where
  "demo_claim = claim_due demo_hooks [] demo_fanned"

lemma demo_steps: "hook_step\<^sup>*\<^sup>* (demo_tables, []) (snd demo_claim, fst demo_claim @ [])"
proof -
  have "hook_step (demo_tables, []) (demo_fanned, [])" by (rule hook_step.fans[OF demo_fan])
  moreover have "hook_step (demo_fanned, []) (snd demo_claim, fst demo_claim @ [])"
    by (rule hook_step.claims) (simp add: demo_claim_def)
  ultimately show ?thesis by auto
qed

definition demo_refusal :: outcome where
  "demo_refusal = \<lparr>oc_status_code = Some 500, oc_response_ms = 3, oc_error = Some ''HTTP 500'', oc_excerpt = None\<rparr>"

text \<open>Of the two changes of resource 7 only the first is claimed; the attempt is charged to it.\<close>

theorem row_changes_arrive_in_order_witness:
  "map og_delivery_id (fst demo_claim) = [1, 2] \<and>
   (\<exists>d \<in> set (webhook_deliveries (snd demo_claim)). wd_id d = 1 \<and> wd_status d = PENDING)"
proof -
  have ids: "map og_delivery_id (fst demo_claim) = [1, 2]" by code_simp
  have ne: "fst demo_claim \<noteq> []" using ids by auto
  let ?og = "hd (fst demo_claim)"
  have og: "?og \<in> set (fst demo_claim @ [])" "og_delivery_id ?og = 1" using ids ne by (cases "fst demo_claim"; simp)+
  let ?r = "record_attempt demo_hooks (snd demo_claim) (snd demo_claim) ?og demo_refusal"
  have "fst ?r" by code_simp
  then have "?r = (True, snd ?r)" by (simp add: prod_eq_iff)
  from row_changes_arrive_in_order[OF demo_hook_ok demo_steps og(1) this] og(2) ids show ?thesis by auto
qed



end
