(* ===== verification/Guest.thy ===== *)
theory Guest
  imports Sessions Access
begin

text \<open>
  The visitor's gate: \<^verbatim>\<open>backend/app/api/v1/endpoints/guest.py\<close>, \<^verbatim>\<open>schemas/guest.py\<close>, the two jobs
  \<^verbatim>\<open>cron/guest_overstay.py\<close> and \<^verbatim>\<open>cron/guest_retention.py\<close>, and the budgets of \<^verbatim>\<open>core/rate_limit.py\<close> that
  a kiosk spends.

  Redis is a parameter of the budgets: what the two reads of a pipeline return, or nothing when the
  server cannot be reached, and the counts a server that works keeps. Notices to sockets are values.
\<close>

section \<open>Budgets\<close>

definition LOGIN_WINDOW_SECONDS :: int where "LOGIN_WINDOW_SECONDS = 15 * 60"

definition GUEST_WINDOW_SECONDS :: int where "GUEST_WINDOW_SECONDS = 60 * 60"

definition FEED_WINDOW_SECONDS :: int where "FEED_WINDOW_SECONDS = 60 * 60"

text \<open>The counters: a count and the second its key expires, if it has an expiry.\<close>

type_synonym counters = "string \<Rightarrow> (int \<times> int option) option"

definition bucket_key :: "(string \<Rightarrow> string) \<Rightarrow> string \<Rightarrow> string \<Rightarrow> string" where
  "bucket_key sha bucket subject = ''rl:'' @ bucket @ '':'' @ take 32 (sha subject)"

definition counter_applies :: "bool \<Rightarrow> int \<Rightarrow> string \<Rightarrow> bool" where
  "counter_applies enabled limit subject \<longleftrightarrow> \<not> (limit \<le> 0 \<or> subject = []) \<and> enabled"

text \<open>A key at a time: gone once its expiry has passed.\<close>

definition alive :: "int \<Rightarrow> (int \<times> int option) option \<Rightarrow> (int \<times> int option) option" where
  "alive now entry = (case entry of None \<Rightarrow> None
     | Some (n, e) \<Rightarrow> (case e of None \<Rightarrow> Some (n, e) | Some x \<Rightarrow> if x \<le> now then None else Some (n, e)))"

text \<open>The seconds to wait when the budget is spent; \<open>up\<close> says whether the server answers.\<close>

definition guard :: "bool \<Rightarrow> bool \<Rightarrow> int \<Rightarrow> counters \<Rightarrow> string \<Rightarrow> string \<Rightarrow> int \<Rightarrow> int \<Rightarrow> int option" where
  "guard enabled up now c key subject limit window =
     (if \<not> counter_applies enabled limit subject \<or> \<not> up then None
      else (case alive now (c key) of None \<Rightarrow> None
        | Some (n, e) \<Rightarrow> if n < limit then None
            else Some (case e of None \<Rightarrow> window | Some x \<Rightarrow> if x - now > 0 then x - now else window)))"

definition spend_budget :: "bool \<Rightarrow> bool \<Rightarrow> int \<Rightarrow> string \<Rightarrow> string \<Rightarrow> int \<Rightarrow> int \<Rightarrow> counters \<Rightarrow> counters" where
  "spend_budget enabled up now key subject limit window c =
     (if \<not> counter_applies enabled limit subject \<or> \<not> up then c
      else (case alive now (c key) of
          None \<Rightarrow> c(key \<mapsto> (1, Some (now + window)))
        | Some (n, e) \<Rightarrow> c(key \<mapsto> (n + 1, case e of None \<Rightarrow> Some (now + window) | Some x \<Rightarrow> Some x))))"

section \<open>Check-ins\<close>

record guest_entry =
  ge_id :: int
  ge_guest_name :: string
  ge_contact_phone :: string
  ge_originating_body :: string
  ge_target_staff_id :: string
  ge_visitation_intent :: string
  ge_handshake_status :: log_verification_state
  ge_timestamp_marked :: instant
  ge_visit_code_hash :: "string option"
  ge_visit_code_expires_at :: "instant option"
  ge_decided_by_id :: "string option"
  ge_visit_expires_at :: "instant option"
  ge_overstay_notified_at :: "instant option"

record guest_env =
  gs_now :: instant
  gs_sha256 :: "string \<Rightarrow> string"
  gs_code_ttl_minutes :: int
  gs_admin_can_decide :: bool
  gs_visit_length_minutes :: int
  gs_extension_max_minutes :: int

datatype guest_error = Guest_Refused api_error | Guest_Limited int | Guest_Integrity

record guest_check_in =
  gc_guest_name :: string
  gc_contact_phone :: string
  gc_originating_body :: string
  gc_target_staff_id :: string
  gc_visitation_intent :: string

definition sized :: "nat \<Rightarrow> nat \<Rightarrow> string \<Rightarrow> bool" where
  "sized lo hi s \<longleftrightarrow> lo \<le> length s \<and> length s \<le> hi"

definition phone_char :: "char \<Rightarrow> bool" where
  "phone_char c \<longleftrightarrow> c \<in> set ''-0123456789+() ''"

definition guest_check_in_ok :: "guest_check_in \<Rightarrow> bool" where
  "guest_check_in_ok p \<longleftrightarrow> sized 2 100 (gc_guest_name p) \<and> sized 8 20 (gc_contact_phone p) \<and>
     list_all phone_char (gc_contact_phone p) \<and> sized 2 100 (gc_originating_body p) \<and>
     sized 1 50 (gc_target_staff_id p) \<and> sized 10 500 (gc_visitation_intent p)"

text \<open>A message for one socket.\<close>

record guest_notice =
  gn_recipient :: string
  gn_event :: string
  gn_reference :: int
  gn_guest_name :: string

definition guest_not_found :: "string \<Rightarrow> guest_error" where
  "guest_not_found m = Guest_Refused (chronos_error 404 NOT_FOUND (Msg m))"

definition receives_visitors :: "user \<Rightarrow> bool" where
  "receives_visitors u \<longleftrightarrow> us_deactivated_at u = None \<and> us_role_type u \<in> {STAFF, ORG_ADMIN, UNIT_ADMIN}"

definition minutes_us :: "int \<Rightarrow> int" where
  "minutes_us n = n * 60 * 1000000"

definition new_entry :: "guest_env \<Rightarrow> string \<Rightarrow> guest_check_in \<Rightarrow> guest_entry list \<Rightarrow> guest_entry" where
  "new_entry env code p entries = \<lparr>ge_id = fresh_id (map ge_id entries), ge_guest_name = gc_guest_name p,
     ge_contact_phone = gc_contact_phone p, ge_originating_body = gc_originating_body p,
     ge_target_staff_id = gc_target_staff_id p, ge_visitation_intent = gc_visitation_intent p,
     ge_handshake_status = PENDING_VERIFICATION, ge_timestamp_marked = gs_now env,
     ge_visit_code_hash = hash_visit_code (gs_sha256 env) code,
     ge_visit_code_expires_at = (if gs_code_ttl_minutes env > 0
       then Some (gs_now env + minutes_us (gs_code_ttl_minutes env)) else None),
     ge_decided_by_id = None, ge_visit_expires_at = None, ge_overstay_notified_at = None\<rparr>"

text \<open>
  \<open>limited\<close> is the wait \<open>guard\<close> answers for the kiosk's budget; \<open>raw\<close> are the characters drawn for the code.
  The answer is the reference, the code and the notice for the person visited.
\<close>

definition process_guest_entry ::
  "guest_env \<Rightarrow> int option \<Rightarrow> database \<Rightarrow> string \<Rightarrow> guest_check_in \<Rightarrow> guest_entry list
   \<Rightarrow> guest_error + (int \<times> string \<times> guest_notice) \<times> guest_entry list" where
  "process_guest_entry env limited db raw p entries =
     (case limited of Some retry_after \<Rightarrow> Inl (Guest_Limited retry_after)
      | None \<Rightarrow>
          (case find (\<lambda>u. us_id u = gc_target_staff_id p) (users db) of
             None \<Rightarrow> Inl (guest_not_found ''Staff member not found'')
           | Some staff \<Rightarrow>
               if \<not> receives_visitors staff then Inl (guest_not_found ''Staff member not found'')
               else
                 (let code = generate_visit_code raw; entry = new_entry env code p entries
                  in if ge_visit_code_hash entry \<noteq> None \<and> ge_visit_code_hash entry \<in> set (map ge_visit_code_hash entries)
                     then Inl Guest_Integrity
                     else Inr ((ge_id entry, code, \<lparr>gn_recipient = gc_target_staff_id p, gn_event = ''GUEST_HANDSHAKE_REQ'',
                       gn_reference = ge_id entry, gn_guest_name = gc_guest_name p\<rparr>), entries @ [entry]))))"

section \<open>Decisions\<close>

definition guest_decidable_by :: "guest_env \<Rightarrow> database \<Rightarrow> user \<Rightarrow> guest_entry \<Rightarrow> bool" where
  "guest_decidable_by env db u e =
     (let mine = (ge_target_staff_id e = us_id u) in
      if \<not> gs_admin_can_decide env \<or> us_role_type u \<notin> {ORG_ADMIN, UNIT_ADMIN} then mine
      else if us_role_type u = ORG_ADMIN then True
      else (case us_unit_code u of None \<Rightarrow> mine
        | Some unit \<Rightarrow> mine \<or> list_ex (\<lambda>x. us_id x = ge_target_staff_id e \<and> us_unit_code x = Some unit) (users db)))"

definition find_decidable :: "guest_env \<Rightarrow> database \<Rightarrow> user \<Rightarrow> int \<Rightarrow> guest_entry list \<Rightarrow> guest_error + guest_entry" where
  "find_decidable env db u eid entries =
     (case find (\<lambda>e. ge_id e = eid \<and> guest_decidable_by env db u e) entries of
        None \<Rightarrow> Inl (guest_not_found ''Entry not found or not authorized'') | Some e \<Rightarrow> Inr e)"

definition put_entry :: "int \<Rightarrow> (guest_entry \<Rightarrow> guest_entry) \<Rightarrow> guest_entry list \<Rightarrow> guest_entry list" where
  "put_entry eid f entries = update_rows (\<lambda>e. ge_id e = eid) f entries"

definition decided :: "guest_env \<Rightarrow> user \<Rightarrow> log_verification_state \<Rightarrow> guest_entry \<Rightarrow> guest_entry" where
  "decided env u d e = e\<lparr>ge_handshake_status := d, ge_decided_by_id := Some (us_id u),
     ge_visit_expires_at := (if d = VERIFIED_APPROVED \<and> gs_visit_length_minutes env > 0
       then Some (gs_now env + minutes_us (gs_visit_length_minutes env)) else None),
     ge_overstay_notified_at := None\<rparr>"

definition decide_guest_entry ::
  "guest_env \<Rightarrow> database \<Rightarrow> user \<Rightarrow> int \<Rightarrow> log_verification_state \<Rightarrow> guest_entry list \<Rightarrow> guest_error + guest_entry list" where
  "decide_guest_entry env db u eid d entries =
     bind_result (find_decidable env db u eid entries) (\<lambda>e. Inr (put_entry eid (decided env u d) entries))"

definition extended :: "guest_env \<Rightarrow> int \<Rightarrow> guest_entry \<Rightarrow> guest_entry" where
  "extended env minutes e = e\<lparr>ge_visit_expires_at := Some (max (the (ge_visit_expires_at e)) (gs_now env) + minutes_us minutes),
     ge_overstay_notified_at := None\<rparr>"

definition extend_guest_visit ::
  "guest_env \<Rightarrow> database \<Rightarrow> user \<Rightarrow> int \<Rightarrow> int \<Rightarrow> guest_entry list \<Rightarrow> guest_error + guest_entry list" where
  "extend_guest_visit env db u eid minutes entries =
     (let maximum = gs_extension_max_minutes env in
      if maximum = 0
      then Inl (Guest_Refused (chronos_error 422 INVALID_VALUE (Msg (''This organization does not extend visits. '' @
        ''The visitor checks in again instead, or GUEST_VISIT_EXTENSION_MAX_MINUTES is raised above 0.''))))
      else if minutes > maximum
      then Inl (Guest_Refused (chronos_error 422 INVALID_VALUE (Msg (show_int minutes @
        '' minutes is longer than a single extension may be here, which is '' @ show_int maximum @ ''.''))))
      else bind_result (find_decidable env db u eid entries) (\<lambda>e.
        if ge_handshake_status e \<noteq> VERIFIED_APPROVED \<or> ge_visit_expires_at e = None
        then Inl (Guest_Refused (chronos_error 409 STATE_CONFLICT (Msg ''Only an approved visit that has an end can be extended.'')))
        else Inr (put_entry eid (extended env minutes) entries)))"

section \<open>Reading\<close>

text \<open>What a code answers with: the status, the time of the check-in and the end of the visit.\<close>

definition get_visit_status ::
  "guest_env \<Rightarrow> string \<Rightarrow> guest_entry list \<Rightarrow> guest_error + log_verification_state \<times> instant \<times> instant option" where
  "get_visit_status env code entries =
     (case hash_visit_code (gs_sha256 env) code of
        None \<Rightarrow> Inl (guest_not_found ''No visit with that code'')
      | Some digest \<Rightarrow>
          if digest = [] then Inl (guest_not_found ''No visit with that code'') else
          (case find (\<lambda>e. ge_visit_code_hash e = Some digest) entries of
             None \<Rightarrow> Inl (guest_not_found ''No visit with that code'')
           | Some e \<Rightarrow>
               if (case ge_visit_code_expires_at e of None \<Rightarrow> False | Some x \<Rightarrow> x \<le> gs_now env)
               then Inl (guest_not_found ''No visit with that code'')
               else Inr (ge_handshake_status e, ge_timestamp_marked e, ge_visit_expires_at e)))"

definition get_pending_guests :: "guest_env \<Rightarrow> database \<Rightarrow> user \<Rightarrow> guest_entry list \<Rightarrow> guest_entry list" where
  "get_pending_guests env db u entries =
     filter (\<lambda>e. guest_decidable_by env db u e \<and> ge_handshake_status e = PENDING_VERIFICATION) entries"

definition past_end :: "instant \<Rightarrow> guest_entry \<Rightarrow> bool" where
  "past_end now e \<longleftrightarrow> ge_handshake_status e = VERIFIED_APPROVED \<and>
     (case ge_visit_expires_at e of None \<Rightarrow> False | Some x \<Rightarrow> x \<le> now)"

definition get_overstayed_visits :: "guest_env \<Rightarrow> database \<Rightarrow> user \<Rightarrow> guest_entry list \<Rightarrow> guest_entry list" where
  "get_overstayed_visits env db u entries =
     sort_key (\<lambda>e. the (ge_visit_expires_at e)) (filter (\<lambda>e. guest_decidable_by env db u e \<and> past_end (gs_now env) e) entries)"

text \<open>\<^verbatim>\<open>ILIKE\<close>: a per cent sign stands for any text and an underscore for any character, also in what the caller typed.\<close>

fun like_match :: "string \<Rightarrow> string \<Rightarrow> bool" where
  "like_match [] s = (s = [])"
| "like_match (c # p) s =
     (if c = CHR ''%'' then (like_match p s \<or> (case s of [] \<Rightarrow> False | _ # s' \<Rightarrow> like_match (c # p) s'))
      else (case s of [] \<Rightarrow> False | x # s' \<Rightarrow> (c = CHR ''_'' \<or> c = x) \<and> like_match p s'))"

definition ilike :: "string \<Rightarrow> string \<Rightarrow> bool" where
  "ilike pattern s = like_match (lower pattern) (lower s)"

fun availability_label :: "access_readiness \<Rightarrow> string" where
  "availability_label OPEN_AD_HOC = ''Available''"
| "availability_label VERY_FREE = ''Very Available''"
| "availability_label BUSY = ''Occupied''"
| "availability_label CRITICAL_DO_NOT_DISTURB = ''Do Not Disturb''"

definition get_staff_directory ::
  "string option \<Rightarrow> nat \<Rightarrow> nat \<Rightarrow> database \<Rightarrow> (string \<times> string \<times> string option \<times> string) list \<times> nat" where
  "get_staff_directory name limit offset db =
     (let q = filter (\<lambda>u. us_role_type u = STAFF \<and> us_deactivated_at u = None \<and>
            (case name of None \<Rightarrow> True | Some n \<Rightarrow> n = [] \<or> ilike (''%'' @ n @ ''%'') (us_full_name u))) (users db)
      in (map (\<lambda>u. (us_id u, us_full_name u, us_unit_code u, availability_label (us_current_occupancy_index u)))
            (take limit (drop offset (sort_key (\<lambda>u. (us_full_name u, us_id u)) q))), length q))"

section \<open>Jobs\<close>

definition overstay_notices :: "guest_entry \<Rightarrow> guest_notice list" where
  "overstay_notices e = map (\<lambda>r. \<lparr>gn_recipient = r, gn_event = ''GUEST_VISIT_EXPIRED'', gn_reference = ge_id e, gn_guest_name = ge_guest_name e\<rparr>)
     (ge_target_staff_id e # (case ge_decided_by_id e of None \<Rightarrow> []
        | Some d \<Rightarrow> if d = [] \<or> d = ge_target_staff_id e then [] else [d]))"

definition overdue :: "instant \<Rightarrow> guest_entry \<Rightarrow> bool" where
  "overdue now e \<longleftrightarrow> past_end now e \<and> ge_overstay_notified_at e = None"

definition announce_overstayed_visits :: "instant \<Rightarrow> guest_entry list \<Rightarrow> guest_notice list \<times> nat \<times> guest_entry list" where
  "announce_overstayed_visits now entries =
     (let found = filter (overdue now) entries
      in (concat (map overstay_notices found), length found,
          update_rows (overdue now) (\<lambda>e. e\<lparr>ge_overstay_notified_at := Some now\<rparr>) entries))"

definition purge_old_guest_check_ins :: "instant \<Rightarrow> int \<Rightarrow> guest_entry list \<Rightarrow> nat \<times> guest_entry list" where
  "purge_old_guest_check_ins now retention_days entries =
     (if retention_days = 0 then (0, entries)
      else (length (filter (\<lambda>e. ge_timestamp_marked e < now - retention_days * day_us) entries),
        filter (\<lambda>e. \<not> ge_timestamp_marked e < now - retention_days * day_us) entries))"

end
