(* ===== verification/Scheduled.thy ===== *)
theory Scheduled
  imports Ledger_Generator Sessions Idempotency Webhooks Guest
begin

text \<open>
  The scheduled jobs, \<^verbatim>\<open>backend/app/cron/scheduled.py\<close>: the moments each job has in a stretch of time, the
  jobs due in it and their order, and the advance of a host clock that runs them; with the routes of
  \<^verbatim>\<open>api/v1/endpoints/clock.py\<close>.

  The organization's zone is a parameter: the offset at an instant, and the instant a wall clock
  reading stands for. What other processes do during a job, and the network, are parameters of the
  jobs as in their own theories.
\<close>

section \<open>Moments\<close>

definition NIGHTLY_LEDGER_HOUR :: int where "NIGHTLY_LEDGER_HOUR = 23"

definition OVERSTAY_INTERVAL :: int where "OVERSTAY_INTERVAL = 5 * 60"

record zone =
  zn_offset :: "instant \<Rightarrow> int"
  zn_instant :: "instant \<Rightarrow> instant"

definition zone_date :: "zone \<Rightarrow> instant \<Rightarrow> date" where
  "zone_date z i = org_today (zn_offset z) i"

text \<open>The moment of a wall clock time on a date.\<close>

definition moment_on :: "zone \<Rightarrow> int \<Rightarrow> int \<Rightarrow> date \<Rightarrow> instant" where
  "moment_on z hh mm day = zn_instant z (combine day ((hh * 60 + mm) * minute_us))"

definition daily_at :: "zone \<Rightarrow> int \<Rightarrow> int \<Rightarrow> instant \<Rightarrow> instant \<Rightarrow> instant list" where
  "daily_at z hh mm previous current =
     filter (\<lambda>m. previous < m \<and> m \<le> current)
       (map (moment_on z hh mm) [zone_date z previous .. zone_date z current])"

text \<open>The last mark of the grid of \<open>step\<close> seconds.\<close>

definition every :: "int \<Rightarrow> instant \<Rightarrow> instant \<Rightarrow> instant list" where
  "every step previous current =
     (let mark = (current div 1000000) div step * step * 1000000
      in if previous < mark \<and> mark \<le> current then [mark] else [])"

datatype job_name =
    nightly_ledger_gen | refresh_token_purge | guest_retention_purge | idempotency_purge | guest_overstay_notice | webhook_delivery

definition JOBS :: "job_name list" where
  "JOBS = [nightly_ledger_gen, refresh_token_purge, guest_retention_purge, idempotency_purge, guest_overstay_notice, webhook_delivery]"

record sched_env =
  se_zone :: zone
  se_app :: app_env
  se_race :: race
  se_between :: "database \<Rightarrow> database"
  se_idem :: idem_env
  se_guest_retention_days :: int
  se_webhook_interval_seconds :: int
  se_hooks :: hook_env
  se_elapsed :: "nat \<Rightarrow> int"
  se_deliver :: "outgoing \<Rightarrow> outcome"

definition every_webhook_interval :: "sched_env \<Rightarrow> instant \<Rightarrow> instant \<Rightarrow> instant list" where
  "every_webhook_interval se previous current =
     (if \<not> env_change_feed_enabled (se_app se) then [] else every (se_webhook_interval_seconds se) previous current)"

fun moments :: "sched_env \<Rightarrow> job_name \<Rightarrow> instant \<Rightarrow> instant \<Rightarrow> instant list" where
  "moments se nightly_ledger_gen = daily_at (se_zone se) NIGHTLY_LEDGER_HOUR 0"
| "moments se refresh_token_purge = daily_at (se_zone se) 3 0"
| "moments se guest_retention_purge = daily_at (se_zone se) 3 30"
| "moments se idempotency_purge = daily_at (se_zone se) 3 45"
| "moments se guest_overstay_notice = every OVERSTAY_INTERVAL"
| "moments se webhook_delivery = every_webhook_interval se"

section \<open>Jobs due\<close>

fun job_rank :: "job_name \<Rightarrow> nat" where
  "job_rank nightly_ledger_gen = 0"
| "job_rank refresh_token_purge = 1"
| "job_rank guest_retention_purge = 2"
| "job_rank idempotency_purge = 3"
| "job_rank guest_overstay_notice = 4"
| "job_rank webhook_delivery = 5"

definition due_jobs :: "sched_env \<Rightarrow> instant \<Rightarrow> instant \<Rightarrow> clock_error + (instant \<times> job_name) list" where
  "due_jobs se previous current =
     (if current < previous then Inl (Value_Error ''current is before previous'')
      else Inr (sort_key (\<lambda>(m, j). (m, job_rank j))
        (concat (map (\<lambda>j. map (\<lambda>m. (m, j)) (moments se j previous current)) JOBS))))"

section \<open>Running them\<close>

record chronos =
  ch_clock :: app_clock
  ch_db :: database
  ch_auth :: auth_tables
  ch_idem :: "idem_record list"
  ch_guests :: "guest_entry list"
  ch_hooks :: hook_tables
  ch_notices :: "guest_notice list"

definition env_at :: "sched_env \<Rightarrow> instant \<Rightarrow> app_env" where
  "env_at se now = (se_app se)\<lparr>env_now := now, env_today := zone_date (se_zone se) now\<rparr>"

definition run_ledger_generator :: "sched_env \<Rightarrow> instant \<Rightarrow> database \<Rightarrow> database" where
  "run_ledger_generator se now db = fst (snd (materialize_horizon (env_at se now) (se_race se) (se_between se) None db))"

definition catch_up_ledger :: "sched_env \<Rightarrow> instant \<Rightarrow> database \<Rightarrow> database" where
  "catch_up_ledger se now db =
     fold (\<lambda>day db. fst (snd (generate_daily_ledger_entries (env_at se now) (se_race se) day db)))
       (missed_ledger_dates (org_now (zn_offset (se_zone se)) now) NIGHTLY_LEDGER_HOUR) db"

definition deliver_webhooks :: "sched_env \<Rightarrow> instant \<Rightarrow> database \<Rightarrow> hook_tables \<Rightarrow> hook_error + hook_tables" where
  "deliver_webhooks se now db t =
     bind_result (run_pass ((se_hooks se)\<lparr>he_now := now\<rparr>) (se_elapsed se) (se_deliver se) [] [] (t\<lparr>hook_databases := (\<lambda>_. db)\<rparr>))
       (\<lambda>(_, t'). Inr t')"

datatype sched_error = Clock_Failed clock_error | Job_Failed hook_error

text \<open>One job at its moment. A job that raises leaves what it had committed.\<close>

fun run_job :: "sched_env \<Rightarrow> instant \<Rightarrow> job_name \<Rightarrow> chronos \<Rightarrow> sched_error + chronos" where
  "run_job se now nightly_ledger_gen s = Inr (s\<lparr>ch_db := run_ledger_generator se now (ch_db s)\<rparr>)"
| "run_job se now refresh_token_purge s = Inr (s\<lparr>ch_auth := snd (purge_expired_refresh_tokens now (ch_auth s))\<rparr>)"
| "run_job se now guest_retention_purge s =
     Inr (s\<lparr>ch_guests := snd (purge_old_guest_check_ins now (se_guest_retention_days se) (ch_guests s))\<rparr>)"
| "run_job se now idempotency_purge s = Inr (s\<lparr>ch_idem := snd (purge_expired ((se_idem se)\<lparr>ie_now := now\<rparr>) (ch_idem s))\<rparr>)"
| "run_job se now guest_overstay_notice s =
     (case announce_overstayed_visits now (ch_guests s) of (notices, _, es) \<Rightarrow>
        Inr (s\<lparr>ch_guests := es, ch_notices := ch_notices s @ notices\<rparr>))"
| "run_job se now webhook_delivery s =
     (case deliver_webhooks se now (ch_db s) (ch_hooks s) of
        Inl e \<Rightarrow> Inl (Job_Failed e) | Inr t \<Rightarrow> Inr (s\<lparr>ch_hooks := t\<rparr>))"

definition at_utc :: "instant \<Rightarrow> py_datetime" where
  "at_utc i = \<lparr>dt_local = i, dt_utcoffset = Some 0\<rparr>"

definition advance_clock_to :: "instant \<Rightarrow> chronos \<Rightarrow> sched_error + chronos" where
  "advance_clock_to i s = (case clock_advance (ch_clock s) (at_utc i) of
     Inl e \<Rightarrow> Inl (Clock_Failed e) | Inr c \<Rightarrow> Inr (s\<lparr>ch_clock := c\<rparr>))"

text \<open>The loop: the error that stopped it, if any, with the names that names and the state it left.\<close>

fun run_jobs :: "sched_env \<Rightarrow> (instant \<times> job_name) list \<Rightarrow> chronos \<Rightarrow> sched_error option \<times> job_name list \<times> chronos" where
  "run_jobs se [] s = (None, [], s)"
| "run_jobs se ((m, j) # due) s =
     (case advance_clock_to m s of Inl e \<Rightarrow> (Some e, [], s)
      | Inr s1 \<Rightarrow>
          (case run_job se m j s1 of Inl e \<Rightarrow> (Some e, [], s1)
           | Inr s2 \<Rightarrow> (case run_jobs se due s2 of (e, names, s3) \<Rightarrow> (e, j # names, s3))))"

definition run_due_jobs ::
  "sched_env \<Rightarrow> instant \<Rightarrow> instant \<Rightarrow> chronos \<Rightarrow> sched_error option \<times> job_name list \<times> chronos" where
  "run_due_jobs se previous current s =
     (if \<not> clock_is_host (ch_clock s)
      then (Some (Clock_Failed (Runtime_Error ''run_due_jobs needs CLOCK_MODE=host; the scheduler runs the jobs'')), [], s)
      else (case due_jobs se previous current of Inl e \<Rightarrow> (Some (Clock_Failed e), [], s)
        | Inr due \<Rightarrow>
            (case run_jobs se due s of (Some e, names, s1) \<Rightarrow> (Some e, names, s1)
             | (None, names, s1) \<Rightarrow>
                 (case advance_clock_to current s1 of Inl e \<Rightarrow> (Some e, names, s1) | Inr s2 \<Rightarrow> (None, names, s2)))))"

definition advance :: "sched_env \<Rightarrow> instant \<Rightarrow> instant \<Rightarrow> chronos \<Rightarrow> sched_error option \<times> job_name list \<times> chronos" where
  "advance se wall instant s = run_due_jobs se (clock_reads wall (ch_clock s)) instant s"

section \<open>The clock's routes\<close>

definition SYSTEM_ACTOR_ID :: string where "SYSTEM_ACTOR_ID = ''system''"

definition read_clock :: "instant \<Rightarrow> chronos \<Rightarrow> string \<times> instant" where
  "read_clock wall s = (if clock_is_host (ch_clock s) then ''host'' else ''system'', clock_reads wall (ch_clock s))"

datatype clock_answer = Clock_Refused int error_code | Clock_Error sched_error | Clock_At instant "job_name list"

text \<open>The lock lets one advance run at a time, so the check and the move see one clock.\<close>

definition advance_clock :: "sched_env \<Rightarrow> instant \<Rightarrow> string \<Rightarrow> instant \<Rightarrow> chronos \<Rightarrow> clock_answer \<times> chronos" where
  "advance_clock se wall user_id to s =
     (if user_id \<noteq> SYSTEM_ACTOR_ID then (Clock_Refused 403 FORBIDDEN, s)
      else if \<not> clock_is_host (ch_clock s) then (Clock_Refused 409 STATE_CONFLICT, s)
      else if to < clock_reads wall (ch_clock s) then (Clock_Refused 422 INVALID_VALUE, s)
      else (case advance se wall to s of
          (Some e, names, s1) \<Rightarrow> (Clock_Error e, s1)
        | (None, names, s1) \<Rightarrow> (Clock_At (clock_reads wall (ch_clock s1)) names, s1)))"

end
