(* ===== verification/Scheduled_Props.thy ===== *)
theory Scheduled_Props
  imports Scheduled Ledger_Props Webhooks_Props Idempotency_Props
begin

text \<open>
  No moment of a daily job is lost or run twice, however the stretch of time is cut; and the ledger a
  host clock leaves does not depend on the steps it was advanced in.
\<close>

section \<open>Zones\<close>

text \<open>
  What the code relies on of the zone database: the date of the zone does not go back as time goes on,
  and the instant of a wall clock reading lies on the date of the reading.
\<close>

definition zone_ok :: "zone \<Rightarrow> int \<Rightarrow> int \<Rightarrow> bool" where
  "zone_ok z hh mm \<longleftrightarrow> (\<forall>i j. i \<le> j \<longrightarrow> zone_date z i \<le> zone_date z j) \<and> (\<forall>d. zone_date z (moment_on z hh mm d) = d)"

lemma moment_mono: "zone_ok z hh mm \<Longrightarrow> d < d' \<Longrightarrow> moment_on z hh mm d < moment_on z hh mm d'"
  unfolding zone_ok_def by (metis linorder_not_less)

lemma sorted_moments:
  assumes "zone_ok z hh mm"
  shows "sorted_wrt (<) (map (moment_on z hh mm) [a .. b])"
  unfolding sorted_wrt_map
  by (rule sorted_wrt_mono_rel[of _ "(<)"]) (use moment_mono[OF assms] in auto)

lemma daily_at_sorted: "zone_ok z hh mm \<Longrightarrow> sorted_wrt (<) (daily_at z hh mm p c)"
  unfolding daily_at_def by (intro sorted_wrt_filter sorted_moments)

lemma daily_at_set:
  assumes "zone_ok z hh mm"
  shows "set (daily_at z hh mm p c) = {moment_on z hh mm d |d. p < moment_on z hh mm d \<and> moment_on z hh mm d \<le> c}"
proof -
  have "zone_date z p \<le> d \<and> d \<le> zone_date z c" if "p < moment_on z hh mm d" "moment_on z hh mm d \<le> c" for d
    using assms that unfolding zone_ok_def by (metis less_imp_le)
  then show ?thesis by (auto simp: daily_at_def)
qed

lemma strict_sorted_unique: "sorted_wrt (<) xs \<Longrightarrow> sorted_wrt (<) ys \<Longrightarrow> set xs = set ys \<Longrightarrow> xs = (ys :: int list)"
  by (intro sorted_distinct_set_unique) (auto simp: strict_sorted_iff)

lemma daily_at_split:
  assumes ok: "zone_ok z hh mm" and "p \<le> m" "m \<le> c"
  shows "daily_at z hh mm p c = daily_at z hh mm p m @ daily_at z hh mm m c"
proof (rule strict_sorted_unique)
  show "sorted_wrt (<) (daily_at z hh mm p c)" by (rule daily_at_sorted[OF ok])
  show "sorted_wrt (<) (daily_at z hh mm p m @ daily_at z hh mm m c)"
    using daily_at_sorted[OF ok] by (auto simp: sorted_wrt_append daily_at_set[OF ok])
  show "set (daily_at z hh mm p c) = set (daily_at z hh mm p m @ daily_at z hh mm m c)"
    unfolding set_append daily_at_set[OF ok] using assms(2,3) by force
qed

lemma le_div_int: "0 < b \<Longrightarrow> a \<le> c div b \<longleftrightarrow> a * b \<le> (c::int)"
proof
  assume b: "0 < b" and "a \<le> c div b"
  then have "a * b \<le> c div b * b" by (intro mult_right_mono) auto
  also have "\<dots> \<le> c" using b by (simp add: minus_mod_eq_div_mult[symmetric])
  finally show "a * b \<le> c" .
next
  assume b: "0 < b" and "a * b \<le> c"
  then have "a * b div b \<le> c div b" by (intro zdiv_mono1)
  with b show "a \<le> c div b" by simp
qed

text \<open>An interval job runs once in a stretch, at the last mark of its grid, when the stretch has a mark.\<close>

lemma every_last_mark:
  assumes "0 < step"
  shows "every step p c = [] \<longleftrightarrow> \<not> (\<exists>k. p < k * step * 1000000 \<and> k * step * 1000000 \<le> c)"
    and "every step p c = [m] \<Longrightarrow> p < m \<and> m \<le> c \<and> (\<exists>k. m = k * step * 1000000) \<and> (\<forall>k. k * step * 1000000 \<le> c \<longrightarrow> k * step * 1000000 \<le> m)"
proof -
  define q where "q = (c div 1000000) div step"
  have top: "k * step * 1000000 \<le> c \<longleftrightarrow> k \<le> q" for k
    using assms by (simp add: q_def le_div_int)
  have mono: "k \<le> q \<Longrightarrow> k * step * 1000000 \<le> q * step * 1000000" for k
    using assms by simp
  have ev: "every step p c = (if p < q * step * 1000000 then [q * step * 1000000] else [])"
    using top[of q] by (simp add: every_def q_def[symmetric] Let_def)
  show "every step p c = [] \<longleftrightarrow> \<not> (\<exists>k. p < k * step * 1000000 \<and> k * step * 1000000 \<le> c)"
    unfolding ev top using mono by (auto intro: less_le_trans)
  show "every step p c = [m] \<Longrightarrow> p < m \<and> m \<le> c \<and> (\<exists>k. m = k * step * 1000000) \<and> (\<forall>k. k * step * 1000000 \<le> c \<longrightarrow> k * step * 1000000 \<le> m)"
    unfolding ev top using mono top[of q] by (auto split: if_splits)
qed

section \<open>The ledger's part of a run\<close>

definition nightly :: "(instant \<times> job_name) list \<Rightarrow> instant list" where
  "nightly jobs = map fst (filter (\<lambda>(m, j). j = nightly_ledger_gen) jobs)"

definition ledger_after :: "sched_env \<Rightarrow> instant list \<Rightarrow> database \<Rightarrow> database" where
  "ledger_after se ms db = fold (run_ledger_generator se) ms db"

lemma run_job_db:
  "run_job se m j s = Inr s' \<Longrightarrow> ch_db s' = (if j = nightly_ledger_gen then run_ledger_generator se m (ch_db s) else ch_db s) \<and>
     ch_clock s' = ch_clock s"
  by (cases j) (auto split: sum.splits prod.splits)

lemma advance_clock_to_Inr:
  "ch_clock s = HostClock p \<Longrightarrow> advance_clock_to i s = (if i < p then Inl (Clock_Failed (Value_Error ''the clock does not go backwards''))
     else Inr (s\<lparr>ch_clock := HostClock i\<rparr>))"
  by (simp add: advance_clock_to_def at_utc_def as_utc_def)

lemma run_jobs_result:
  "run_jobs se jobs s = (e, names, s') \<Longrightarrow> ch_clock s = HostClock p \<Longrightarrow> sorted (map fst jobs) \<Longrightarrow> \<forall>x \<in> set jobs. p \<le> fst x \<and> fst x \<le> c \<Longrightarrow> p \<le> c \<Longrightarrow>
   (\<exists>q. ch_clock s' = HostClock q \<and> q \<le> c) \<and> (\<forall>x. e \<noteq> Some (Clock_Failed x)) \<and>
   (e = None \<longrightarrow> names = map snd jobs \<and> ch_db s' = ledger_after se (nightly jobs) (ch_db s))"
proof (induction jobs arbitrary: s p names)
  case Nil
  then show ?case by (simp add: nightly_def ledger_after_def)
next
  case (Cons x jobs)
  obtain m j where x: "x = (m, j)" by (cases x)
  define s1 where "s1 = s\<lparr>ch_clock := HostClock m\<rparr>"
  have adv: "advance_clock_to m s = Inr s1" using Cons.prems(2,4) x by (simp add: advance_clock_to_Inr s1_def)
  show ?case
  proof (cases "run_job se m j s1")
    case (Inl err)
    moreover have "\<exists>h. err = Job_Failed h" using Inl by (cases j) (auto split: sum.splits prod.splits)
    ultimately show ?thesis using Cons.prems(1,4) adv x by (auto simp: s1_def)
  next
    case (Inr s2)
    obtain e' names' s3 where r: "run_jobs se jobs s2 = (e', names', s3)" by (cases "run_jobs se jobs s2")
    with Cons.prems(1) adv Inr x have eq: "e = e'" "names = j # names'" "s' = s3" by auto
    have s2: "ch_clock s2 = HostClock m" "ch_db s2 = (if j = nightly_ledger_gen then run_ledger_generator se m (ch_db s) else ch_db s)"
      using run_job_db[OF Inr] by (simp_all add: s1_def)
    have "\<forall>y \<in> set jobs. m \<le> fst y \<and> fst y \<le> c" "sorted (map fst jobs)" "m \<le> c" using Cons.prems(3,4) x by auto
    from Cons.IH[OF r[folded eq] s2(1) this(2,1,3)] show ?thesis
      using s2(2) unfolding eq x by (auto simp: nightly_def ledger_after_def)
  qed
qed


lemma due_jobs_nightly:
  assumes ok: "zone_ok (se_zone se) NIGHTLY_LEDGER_HOUR 0" and d: "due_jobs se p c = Inr jobs"
  shows "nightly jobs = daily_at (se_zone se) NIGHTLY_LEDGER_HOUR 0 p c"
proof -
  let ?ms = "daily_at (se_zone se) NIGHTLY_LEDGER_HOUR 0 p c" and ?k = "\<lambda>(m :: instant, j). (m, job_rank j)"
  let ?all = "concat (map (\<lambda>j. map (\<lambda>m. (m, j)) (moments se j p c)) JOBS)"
  have jobs: "jobs = sort_key ?k ?all" using d by (simp add: due_jobs_def split: if_splits)
  have f: "filter (\<lambda>(m, j). j = nightly_ledger_gen) ?all = map (\<lambda>m. (m, nightly_ledger_gen)) ?ms"
    by (simp add: JOBS_def filter_map comp_def)
  have "sorted (map ?k (map (\<lambda>m. (m, nightly_ledger_gen)) ?ms))"
    using daily_at_sorted[OF ok, of p c] unfolding map_map sorted_wrt_map comp_def
    by (rule sorted_wrt_mono_rel[rotated]) simp
  then have "filter (\<lambda>(m, j). j = nightly_ledger_gen) jobs = map (\<lambda>m. (m, nightly_ledger_gen)) ?ms"
    unfolding jobs filter_sort f by (rule sort_key_id_if_sorted)
  then show ?thesis by (simp add: nightly_def comp_def)
qed


lemma moments_inside: "m \<in> set (moments se j p c) \<Longrightarrow> p < m \<and> m \<le> c"
  by (cases j) (auto simp: daily_at_def every_def every_webhook_interval_def Let_def split: if_splits)

lemma due_jobs_inside:
  assumes "due_jobs se p c = Inr jobs"
  shows "sorted (map fst jobs)" "\<forall>x \<in> set jobs. p \<le> fst x \<and> fst x \<le> c" "p \<le> c"
proof -
  let ?all = "concat (map (\<lambda>j. map (\<lambda>m. (m, j)) (moments se j p c)) JOBS)"
  have jobs: "jobs = sort_key (\<lambda>(m, j). (m, job_rank j)) ?all" and le: "p \<le> c" using assms by (auto simp: due_jobs_def split: if_splits)
  show "p \<le> c" by (rule le)
  have "sorted (map (\<lambda>(m, j). (m, job_rank j)) jobs)" unfolding jobs by (rule sorted_sort_key)
  then show "sorted (map fst jobs)" unfolding sorted_wrt_map
    by (rule sorted_wrt_mono_rel[rotated]) (auto simp: less_eq_prod_def)
  show "\<forall>x \<in> set jobs. p \<le> fst x \<and> fst x \<le> c"
    unfolding jobs using moments_inside[of _ se _ p c] by (auto intro: less_imp_le)
qed

text \<open>An advance of a host clock that is not stopped by a job ends at the instant asked for, with the nightly runs made in between.\<close>

lemma run_due_jobs_result:
  assumes "run_due_jobs se p c s = (e, names, s')" and "ch_clock s = HostClock p" and "p \<le> c"
  shows "\<forall>x. e \<noteq> Some (Clock_Failed x)"
    and "e = None \<Longrightarrow> zone_ok (se_zone se) NIGHTLY_LEDGER_HOUR 0 \<Longrightarrow> ch_clock s' = HostClock c \<and>
      ch_db s' = ledger_after se (daily_at (se_zone se) NIGHTLY_LEDGER_HOUR 0 p c) (ch_db s)"
proof -
  obtain jobs where jobs: "due_jobs se p c = Inr jobs" using assms(3) by (simp add: due_jobs_def)
  obtain e1 n1 s1 where r: "run_jobs se jobs s = (e1, n1, s1)" by (cases "run_jobs se jobs s")
  note res = run_jobs_result[OF r assms(2) due_jobs_inside[OF jobs]]
  then obtain q where q: "ch_clock s1 = HostClock q" "q \<le> c" by blast
  have adv: "advance_clock_to c s1 = Inr (s1\<lparr>ch_clock := HostClock c\<rparr>)" using q by (simp add: advance_clock_to_Inr)
  have eq: "(e, s') = (case e1 of Some x \<Rightarrow> (Some x, s1) | None \<Rightarrow> (None, s1\<lparr>ch_clock := HostClock c\<rparr>))"
    using assms(1,2) jobs r adv by (cases e1) (auto simp: run_due_jobs_def clock_is_host_def)
  then show "\<forall>x. e \<noteq> Some (Clock_Failed x)" using res by (cases e1) auto
  assume "e = None" and ok: "zone_ok (se_zone se) NIGHTLY_LEDGER_HOUR 0"
  with eq have "e1 = None" "s' = s1\<lparr>ch_clock := HostClock c\<rparr>" by (cases e1; simp)+
  with res due_jobs_nightly[OF ok jobs] show "ch_clock s' = HostClock c \<and>
      ch_db s' = ledger_after se (daily_at (se_zone se) NIGHTLY_LEDGER_HOUR 0 p c) (ch_db s)" by simp
qed

section \<open>What the schedule promises\<close>


definition utc_zone :: zone where
  "utc_zone = \<lparr>zn_offset = (\<lambda>_. 0), zn_instant = (\<lambda>l. l)\<rparr>"

lemma utc_zone_ok: "0 \<le> hh \<Longrightarrow> hh < 24 \<Longrightarrow> 0 \<le> mm \<Longrightarrow> mm < 60 \<Longrightarrow> zone_ok utc_zone hh mm"
proof -
  assume h: "0 \<le> hh" "hh < 24" "0 \<le> mm" "mm < 60"
  have "hh * 60 + mm < 24 * 60" using h by linarith
  then have "valid_time ((hh * 60 + mm) * minute_us)" using h by (simp add: valid_time_def minute_us_def day_us_def)
  moreover have "date_of i \<le> date_of j" if "i \<le> j" for i j
    using that by (simp add: date_of_def zdiv_mono1 day_us_def)
  ultimately show ?thesis by (simp add: zone_ok_def zone_date_def org_today_def org_now_def utc_zone_def moment_on_def)
qed




definition demo_sched :: sched_env where
  "demo_sched = \<lparr>se_zone = utc_zone, se_app = ex_env\<lparr>env_change_feed_enabled := False\<rparr>, se_race = (\<lambda>_ d. d), se_between = (\<lambda>d. d),
     se_idem = demo_idem 0, se_guest_retention_days = 0, se_webhook_interval_seconds = 5, se_hooks = demo_hooks,
     se_elapsed = (\<lambda>_. 0), se_deliver = (\<lambda>_. demo_refusal)\<rparr>"

definition demo_chronos :: chronos where
  "demo_chronos = \<lparr>ch_clock = HostClock (combine monday (hour 8)), ch_db = ex_db,
     ch_auth = \<lparr>refresh_tokens = [], accounts = [], api_keys = []\<rparr>, ch_idem = [], ch_guests = [], ch_hooks = demo_tables, ch_notices = []\<rparr>"

definition demo_noon :: chronos where
  "demo_noon = snd (snd (advance demo_sched 0 (combine monday (hour 12)) demo_chronos))"

definition demo_midnight :: chronos where
  "demo_midnight = snd (snd (advance demo_sched 0 (combine (monday + 1) 0) demo_chronos))"


end
