(* ===== verification/Guest_Props.thy ===== *)
theory Guest_Props
  imports Guest Sessions_Props
begin

text \<open>
  The visitor finds the check-in again with the code in whatever way it is typed, and the desk is told
  once about each end of a visit. Also what a budget bounds.
\<close>

section \<open>Following a check-in\<close>

definition guests_ok :: "guest_entry list \<Rightarrow> bool" where
  "guests_ok es \<longleftrightarrow> distinct (map ge_id es) \<and>
     (\<forall>e \<in> set es. \<forall>e' \<in> set es. ge_visit_code_hash e \<noteq> None \<longrightarrow> ge_visit_code_hash e = ge_visit_code_hash e' \<longrightarrow> ge_id e = ge_id e')"

text \<open>What happens to the table while nothing is old enough to be purged.\<close>

inductive guest_run :: "guest_entry list \<Rightarrow> guest_entry list \<Rightarrow> bool" where
  quiet: "guest_run es es"
| checked_in: "guest_run es es1 \<Longrightarrow> process_guest_entry env limited db raw p es1 = Inr (r, es2) \<Longrightarrow> guest_run es es2"
| decides: "guest_run es es1 \<Longrightarrow> decide_guest_entry env db u eid d es1 = Inr es2 \<Longrightarrow> guest_run es es2"
| extends: "guest_run es es1 \<Longrightarrow> extend_guest_visit env db u eid minutes es1 = Inr es2 \<Longrightarrow> guest_run es es2"
| announces: "guest_run es es1 \<Longrightarrow> guest_run es (snd (snd (announce_overstayed_visits now es1)))"

text \<open>A change of an entry that keeps who it is.\<close>

definition same_visit :: "guest_entry \<Rightarrow> guest_entry \<Rightarrow> bool" where
  "same_visit e e' \<longleftrightarrow> ge_id e' = ge_id e \<and> ge_guest_name e' = ge_guest_name e \<and> ge_visit_code_hash e' = ge_visit_code_hash e \<and>
     ge_visit_code_expires_at e' = ge_visit_code_expires_at e \<and> ge_timestamp_marked e' = ge_timestamp_marked e"

definition keeps_visits :: "guest_entry list \<Rightarrow> guest_entry list \<Rightarrow> bool" where
  "keeps_visits es es' \<longleftrightarrow> guests_ok es' \<and> (\<forall>e \<in> set es. \<exists>e' \<in> set es'. same_visit e e')"

lemma guests_ok_update:
  assumes "guests_ok es" and "\<And>e. same_visit e (f e)"
  shows "keeps_visits es (update_rows P f es)"
proof -
  have origin: "\<exists>e \<in> set es. same_visit e e'" if "e' \<in> set (update_rows P f es)" for e'
    using that assms(2) by (auto simp: set_update_rows same_visit_def)
  have "\<forall>e \<in> set es. \<exists>e' \<in> set (update_rows P f es). same_visit e e'"
    using assms(2) by (auto simp: set_update_rows same_visit_def)
  moreover have "map ge_id (update_rows P f es) = map ge_id es"
    using assms(2) by (intro map_update_rows_id) (simp add: same_visit_def)
  moreover have "ge_id e' = ge_id e''" if "e' \<in> set (update_rows P f es)" "e'' \<in> set (update_rows P f es)"
    "ge_visit_code_hash e' \<noteq> None" "ge_visit_code_hash e' = ge_visit_code_hash e''" for e' e''
  proof -
    from origin[OF that(1)] origin[OF that(2)] obtain a b where "a \<in> set es" "same_visit a e'" "b \<in> set es" "same_visit b e''" by blast
    with assms(1) that(3,4) show ?thesis unfolding guests_ok_def same_visit_def by metis
  qed
  ultimately show ?thesis using assms(1) unfolding keeps_visits_def guests_ok_def by metis
qed

lemma new_entry_simps [simp]:
  "ge_id (new_entry env code p es) = fresh_id (map ge_id es)"
  "ge_guest_name (new_entry env code p es) = gc_guest_name p"
  "ge_visit_code_hash (new_entry env code p es) = hash_visit_code (gs_sha256 env) code"
  "ge_visit_code_expires_at (new_entry env code p es) =
     (if gs_code_ttl_minutes env > 0 then Some (gs_now env + minutes_us (gs_code_ttl_minutes env)) else None)"
  "ge_handshake_status (new_entry env code p es) = PENDING_VERIFICATION"
  "ge_visit_expires_at (new_entry env code p es) = None" "ge_overstay_notified_at (new_entry env code p es) = None"
  "ge_timestamp_marked (new_entry env code p es) = gs_now env"
  by (simp_all add: new_entry_def)

lemma check_in_row:
  assumes "process_guest_entry env limited db raw p es = Inr ((ref, code, n), es')"
  shows "code = generate_visit_code raw" "es' = es @ [new_entry env code p es]" "ref = fresh_id (map ge_id es)"
    "hash_visit_code (gs_sha256 env) code = None \<or> hash_visit_code (gs_sha256 env) code \<notin> set (map ge_visit_code_hash es)"
  using assms by (auto simp: process_guest_entry_def Let_def split: option.splits if_split_asm)

lemma check_in_keeps:
  assumes "guests_ok es" and "process_guest_entry env limited db raw p es = Inr (r, es')"
  shows "keeps_visits es es'"
proof -
  obtain ref code n where r: "r = (ref, code, n)" by (cases r)
  note row = check_in_row[OF assms(2)[unfolded r]]
  define e where "e = new_entry env code p es"
  have ids: "distinct (map ge_id (es @ [e]))" using assms(1) fresh_id_notin[of "map ge_id es"] by (simp add: guests_ok_def e_def)
  have new: "ge_visit_code_hash x \<noteq> ge_visit_code_hash e" if "x \<in> set es" "ge_visit_code_hash e \<noteq> None" for x
  proof -
    from that(2) row(4) have "ge_visit_code_hash e \<notin> ge_visit_code_hash ` set es" by (auto simp: e_def)
    with that(1) show ?thesis by (metis imageI)
  qed
  have "ge_id x = ge_id y" if xy: "x \<in> set (es @ [e])" "y \<in> set (es @ [e])" "ge_visit_code_hash x \<noteq> None"
    "ge_visit_code_hash x = ge_visit_code_hash y" for x y
  proof -
    from xy(1,2) consider "x \<in> set es" "y \<in> set es" | "x = e" "y = e" | "x = e" "y \<in> set es" | "x \<in> set es" "y = e" by auto
    then show ?thesis
    proof cases
      case 1
      with xy(3,4) assms(1) show ?thesis unfolding guests_ok_def by metis
    next
      case 3
      with new[OF 3(2)] xy(3,4) show ?thesis by metis
    next
      case 4
      with new[OF 4(1)] xy(3,4) show ?thesis by metis
    qed simp
  qed
  with ids have ok: "guests_ok (es @ [e])" unfolding guests_ok_def by blast
  have "same_visit x x" for x by (simp add: same_visit_def)
  then show ?thesis using ok unfolding keeps_visits_def row(2) e_def[symmetric] by (metis in_set_conv_decomp append_Cons append_assoc)
qed

lemma keeps_visits_trans: "keeps_visits a b \<Longrightarrow> keeps_visits b c \<Longrightarrow> keeps_visits a c"
  unfolding keeps_visits_def same_visit_def by metis

lemma decided_same: "same_visit e (decided env u d e)"
  by (simp add: same_visit_def decided_def)

lemma extended_same: "same_visit e (extended env m e)"
  by (simp add: same_visit_def extended_def)

lemma decide_row: "decide_guest_entry env db u eid d es = Inr es' \<Longrightarrow> es' = put_entry eid (decided env u d) es"
  by (auto simp: decide_guest_entry_def bind_result_Inr_iff)

lemma extend_row: "extend_guest_visit env db u eid m es = Inr es' \<Longrightarrow> es' = put_entry eid (extended env m) es"
  by (auto simp: extend_guest_visit_def Let_def bind_result_Inr_iff split: if_splits)

lemma guest_run_keeps: "guest_run es es' \<Longrightarrow> guests_ok es \<Longrightarrow> keeps_visits es es'"
proof (induction rule: guest_run.induct)
  case (quiet es)
  then show ?case by (auto simp: keeps_visits_def same_visit_def)
next
  case (checked_in es es1 env limited db raw p r es2)
  then show ?case using check_in_keeps keeps_visits_trans by (meson keeps_visits_def)
next
  case (decides es es1 env db u eid d es2)
  then have "keeps_visits es es1" "guests_ok es1" by (auto simp: keeps_visits_def)
  then show ?case unfolding decide_row[OF decides(2)] put_entry_def
    by (rule keeps_visits_trans[OF _ guests_ok_update[OF _ decided_same]])
next
  case (extends es es1 env db u eid minutes es2)
  then have "keeps_visits es es1" "guests_ok es1" by (auto simp: keeps_visits_def)
  then show ?case unfolding extend_row[OF extends(2)] put_entry_def
    by (rule keeps_visits_trans[OF _ guests_ok_update[OF _ extended_same]])
next
  case (announces es es1 now)
  then have "keeps_visits es es1" "guests_ok es1" by (auto simp: keeps_visits_def)
  then show ?case unfolding announce_overstayed_visits_def Let_def snd_conv
    by (rule keeps_visits_trans[OF _ guests_ok_update]) (simp add: same_visit_def)
qed

lemma visit_found:
  assumes "guests_ok es" and "e \<in> set es" and "ge_visit_code_hash e = Some h" and "h \<noteq> []"
    and "hash_visit_code (gs_sha256 env) typed = Some h" and "\<forall>x. ge_visit_code_expires_at e = Some x \<longrightarrow> gs_now env < x"
  shows "get_visit_status env typed es = Inr (ge_handshake_status e, ge_timestamp_marked e, ge_visit_expires_at e)"
proof -
  have "find (\<lambda>e. ge_visit_code_hash e = Some h) es = Some e"
  proof (cases "find (\<lambda>e. ge_visit_code_hash e = Some h) es")
    case None
    with assms(2,3) show ?thesis by (auto simp: find_None_iff)
  next
    case (Some x)
    from find_Some_iff_first[OF this] assms(1-3) have "x = e" unfolding guests_ok_def distinct_map inj_on_def by (metis option.distinct(1))
    with Some show ?thesis by simp
  qed
  with assms(4-6) show ?thesis by (auto simp: get_visit_status_def split: option.splits)
qed


section \<open>Overstays\<close>

text \<open>The gate over time: the clock, the table and which end of which visit has been announced.\<close>

record gate =
  gt_now :: instant
  gt_entries :: "guest_entry list"
  gt_told :: "(int \<times> instant) list"

definition ends_of :: "instant \<Rightarrow> guest_entry list \<Rightarrow> (int \<times> instant) list" where
  "ends_of now es = map (\<lambda>e. (ge_id e, the (ge_visit_expires_at e))) (filter (overdue now) es)"

inductive gate_step :: "gate \<Rightarrow> gate \<Rightarrow> bool" where
  passes: "gt_now g \<le> n \<Longrightarrow> gate_step g (g\<lparr>gt_now := n\<rparr>)"
| enters: "process_guest_entry env limited db raw p (gt_entries g) = Inr (r, es) \<Longrightarrow> gate_step g (g\<lparr>gt_entries := es\<rparr>)"
| answers: "decide_guest_entry env db u eid d (gt_entries g) = Inr es \<Longrightarrow> gs_now env = gt_now g \<Longrightarrow> gate_step g (g\<lparr>gt_entries := es\<rparr>)"
| prolongs: "extend_guest_visit env db u eid minutes (gt_entries g) = Inr es \<Longrightarrow> gs_now env = gt_now g \<Longrightarrow> 1 \<le> minutes \<Longrightarrow>
    gate_step g (g\<lparr>gt_entries := es\<rparr>)"
| sweeps: "gate_step g (g\<lparr>gt_entries := snd (snd (announce_overstayed_visits (gt_now g) (gt_entries g))),
    gt_told := gt_told g @ ends_of (gt_now g) (gt_entries g)\<rparr>)"
| purges: "gate_step g (g\<lparr>gt_entries := snd (purge_old_guest_check_ins (gt_now g) days (gt_entries g))\<rparr>)"

text \<open>Nothing told lies ahead, and an end nobody has been told of is later than every end told.\<close>

definition gate_ok :: "gate \<Rightarrow> bool" where
  "gate_ok g \<longleftrightarrow> distinct (map ge_id (gt_entries g)) \<and> distinct (gt_told g) \<and> (\<forall>x \<in> set (gt_told g). snd x \<le> gt_now g) \<and>
     (\<forall>e \<in> set (gt_entries g). \<forall>y. ge_overstay_notified_at e = None \<longrightarrow> ge_visit_expires_at e = Some y \<longrightarrow> (ge_id e, y) \<notin> set (gt_told g))"

lemma gate_ok_put:
  assumes "gate_ok g" and "\<And>e. ge_id (f e) = ge_id e"
    and "\<And>e y. P e \<Longrightarrow> ge_overstay_notified_at (f e) = None \<Longrightarrow> ge_visit_expires_at (f e) = Some y \<Longrightarrow> gt_now g < y"
  shows "gate_ok (g\<lparr>gt_entries := update_rows P f (gt_entries g)\<rparr>)"
proof -
  have "(ge_id e, y) \<notin> set (gt_told g)" if e: "e \<in> set (update_rows P f (gt_entries g))" "ge_overstay_notified_at e = None"
    "ge_visit_expires_at e = Some y" for e y
  proof -
    from e(1) consider x where "x \<in> set (gt_entries g)" "P x" "e = f x" | "e \<in> set (gt_entries g)" by (auto simp: set_update_rows)
    then show ?thesis
    proof cases
      case 1
      with assms(3) e have "gt_now g < y" by blast
      with assms(1) show ?thesis unfolding gate_ok_def by fastforce
    next
      case 2
      with assms(1) e(2,3) show ?thesis unfolding gate_ok_def by blast
    qed
  qed
  with assms(1,2) show ?thesis unfolding gate_ok_def by (auto simp: map_update_rows_id)
qed

lemma gate_ok_sweep:
  assumes ok: "gate_ok g"
  shows "gate_ok (g\<lparr>gt_entries := update_rows (overdue (gt_now g)) (\<lambda>e. e\<lparr>ge_overstay_notified_at := Some (gt_now g)\<rparr>) (gt_entries g),
    gt_told := gt_told g @ ends_of (gt_now g) (gt_entries g)\<rparr>)"
proof -
  let ?n = "gt_now g" let ?es = "gt_entries g"
  have due: "ge_overstay_notified_at e = None \<and> (\<exists>y. ge_visit_expires_at e = Some y \<and> y \<le> ?n)" if "overdue ?n e" for e
    using that by (auto simp: overdue_def past_end_def split: option.splits)
  have told: "\<exists>e \<in> set ?es. overdue ?n e \<and> x = (ge_id e, the (ge_visit_expires_at e))" if "x \<in> set (ends_of ?n ?es)" for x
    using that by (auto simp: ends_of_def)
  have ids: "distinct (map ge_id (filter (overdue ?n) ?es))" using ok by (simp add: gate_ok_def distinct_map_filter)
  have "map fst (ends_of ?n ?es) = map ge_id (filter (overdue ?n) ?es)" by (simp add: ends_of_def comp_def)
  then have d: "distinct (ends_of ?n ?es)" using ids by (metis distinct_map)
  have new: "x \<notin> set (gt_told g)" if "x \<in> set (ends_of ?n ?es)" for x
    using told[OF that] due ok unfolding gate_ok_def by force
  have past: "snd x \<le> ?n" if "x \<in> set (ends_of ?n ?es)" for x
    using told[OF that] due by force
  have rest: "(ge_id e, y) \<notin> set (gt_told g) \<and> (ge_id e, y) \<notin> set (ends_of ?n ?es)"
    if e: "e \<in> set (update_rows (overdue ?n) (\<lambda>e. e\<lparr>ge_overstay_notified_at := Some ?n\<rparr>) ?es)" "ge_overstay_notified_at e = None"
      "ge_visit_expires_at e = Some y" for e y
  proof -
    from e(1,2) have old: "e \<in> set ?es" "\<not> overdue ?n e" by (auto simp: set_update_rows)
    have "(ge_id e, y) \<notin> set (ends_of ?n ?es)"
    proof
      assume "(ge_id e, y) \<in> set (ends_of ?n ?es)"
      from told[OF this] obtain x where x: "x \<in> set ?es" "overdue ?n x" "ge_id x = ge_id e" by auto
      with ok old(1) have "x = e" unfolding gate_ok_def distinct_map inj_on_def by blast
      with x(2) old(2) show False by simp
    qed
    with ok old(1) e(2,3) show ?thesis unfolding gate_ok_def by blast
  qed
  show ?thesis using ok d new past rest unfolding gate_ok_def by (auto simp: map_update_rows_id)
qed


lemma gate_ok_step: "gate_step g g' \<Longrightarrow> gate_ok g \<Longrightarrow> gate_ok g'"
proof (induction rule: gate_step.induct)
  case (passes g n)
  then show ?case by (auto simp: gate_ok_def)
next
  case (enters env limited db raw p g r es)
  obtain ref code n where r: "r = (ref, code, n)" by (cases r)
  note row = check_in_row[OF enters(1)[unfolded r]]
  from enters(2) show ?case unfolding row(2) gate_ok_def using fresh_id_notin[of "map ge_id (gt_entries g)"] by auto
next
  case (answers env db u eid d g es)
  have "gt_now g < y" if "ge_visit_expires_at (decided env u d e) = Some y" for e y
    using that answers(2) by (auto simp: decided_def minutes_us_def split: if_splits)
  with answers show ?case unfolding decide_row[OF answers(1)] put_entry_def
    by (intro gate_ok_put) (auto simp: decided_def)
next
  case (prolongs env db u eid minutes g es)
  have "gt_now g < y" if "ge_visit_expires_at (extended env minutes e) = Some y" for e y
    using that prolongs(2,3) by (auto simp: extended_def minutes_us_def)
  with prolongs show ?case unfolding extend_row[OF prolongs(1)] put_entry_def
    by (intro gate_ok_put) (auto simp: extended_def)
next
  case (sweeps g)
  then show ?case using gate_ok_sweep by (simp add: announce_overstayed_visits_def Let_def)
next
  case (purges g days)
  then show ?case by (auto simp: gate_ok_def purge_old_guest_check_ins_def distinct_map_filter)
qed

lemma gate_ok_steps: "gate_step\<^sup>*\<^sup>* g g' \<Longrightarrow> gate_ok g \<Longrightarrow> gate_ok g'"
  by (induction rule: rtranclp_induct) (auto intro: gate_ok_step)

lemma sweep_leaves_none: "filter (overdue now) (snd (snd (announce_overstayed_visits now es))) = []"
  by (auto simp: announce_overstayed_visits_def Let_def set_update_rows filter_empty_conv overdue_def)

section \<open>What the gate promises\<close>


definition demo_gate_env :: guest_env where
  "demo_gate_env = \<lparr>gs_now = 1000, gs_sha256 = (\<lambda>x. x), gs_code_ttl_minutes = 60, gs_admin_can_decide = False,
     gs_visit_length_minutes = 30, gs_extension_max_minutes = 15\<rparr>"

definition demo_gate_db :: database where
  "demo_gate_db = empty_db\<lparr>users := [\<lparr>us_id = ''u1'', us_full_name = ''Ada'', us_role_type = STAFF, us_unit_code = None,
     us_assigned_base_station = None, us_current_occupancy_index = VERY_FREE, us_reporting_line_manager = None, us_deactivated_at = None\<rparr>]\<rparr>"

definition demo_check_in :: guest_check_in where
  "demo_check_in = \<lparr>gc_guest_name = ''Guest'', gc_contact_phone = ''0123 4567'', gc_originating_body = ''Body'',
     gc_target_staff_id = ''u1'', gc_visitation_intent = ''A longer talk''\<rparr>"

definition demo_raw :: string where "demo_raw = ''ABCDEFGH23456789''"

definition demo_code :: string where "demo_code = generate_visit_code demo_raw"

definition demo_entries :: "guest_entry list" where
  "demo_entries = [new_entry demo_gate_env demo_code demo_check_in []]"

lemma demo_enters: "\<exists>n. process_guest_entry demo_gate_env None demo_gate_db demo_raw demo_check_in [] = Inr ((1, demo_code, n), demo_entries)"
  by (simp add: process_guest_entry_def demo_gate_db_def demo_check_in_def receives_visitors_def Let_def demo_entries_def
      demo_code_def fresh_id_def)


text \<open>C38: The desk is told once about each end of a visit: whatever check-ins, decisions, extensions, sweeps
  and purges happen as the clock goes on, no end of a visit is announced twice, and right after a
  sweep no approved visit past its end is left unannounced.\<close>

theorem overstays_told_once:
  assumes "distinct (map ge_id (gt_entries g))" and "gt_told g = []" and "gate_step\<^sup>*\<^sup>* g g'"
  shows "distinct (gt_told g') \<and>
    filter (overdue (gt_now g')) (snd (snd (announce_overstayed_visits (gt_now g') (gt_entries g')))) = []"
proof -
  have "gate_ok g" using assms(1,2) by (simp add: gate_ok_def)
  with gate_ok_steps[OF assms(3)] have "gate_ok g'" by blast
  then show ?thesis using sweep_leaves_none by (simp add: gate_ok_def)
qed

definition demo_gate :: gate where
  "demo_gate = \<lparr>gt_now = 3000000000, gt_entries = put_entry 1 (decided demo_gate_env (hd (users demo_gate_db)) VERIFIED_APPROVED) demo_entries,
     gt_told = []\<rparr>"

definition demo_swept :: gate where
  "demo_swept = demo_gate\<lparr>gt_entries := snd (snd (announce_overstayed_visits (gt_now demo_gate) (gt_entries demo_gate))),
    gt_told := gt_told demo_gate @ ends_of (gt_now demo_gate) (gt_entries demo_gate)\<rparr>"

theorem overstays_told_once_witness:
  "gt_told demo_swept = [(1, 1800001000)] \<and> distinct (gt_told demo_swept)"
proof -
  have h: "distinct (map ge_id (gt_entries demo_gate))" "gt_told demo_gate = []" "gt_told demo_swept = [(1, 1800001000)]" by code_simp+
  have "gate_step demo_gate demo_swept" unfolding demo_swept_def by (rule gate_step.sweeps)
  then have "gate_step\<^sup>*\<^sup>* demo_gate demo_swept" by blast
  from overstays_told_once[OF h(1,2) this] h(3) show ?thesis by blast
qed

section \<open>Budgets\<close>

text \<open>A kiosk that is guarded and then counted, request after request; how many got through.\<close>

fun served :: "int \<Rightarrow> int \<Rightarrow> string \<Rightarrow> string \<Rightarrow> int list \<Rightarrow> counters \<Rightarrow> nat" where
  "served lmt window key subject [] c = 0"
| "served lmt window key subject (now # nows) c =
     (if guard True True now c key subject lmt window = None
      then Suc (served lmt window key subject nows (spend_budget True True now key subject lmt window c))
      else served lmt window key subject nows c)"

lemma served_window:
  assumes "subject \<noteq> []" and "c key = Some (n, Some x)" and "0 < lmt" and "\<forall>now \<in> set nows. now < x"
  shows "int (served lmt window key subject nows c) \<le> max 0 (lmt - n)"
  using assms
proof (induction nows arbitrary: c n)
  case (Cons now nows)
  have now: "now < x" using Cons.prems by simp
  show ?case
  proof (cases "n < lmt")
    case True
    have "(spend_budget True True now key subject lmt window c) key = Some (n + 1, Some x)"
      using Cons.prems(1-3) now by (simp add: spend_budget_def counter_applies_def alive_def)
    with Cons.IH[of "spend_budget True True now key subject lmt window c" "n + 1"] Cons.prems
    have "int (served lmt window key subject nows (spend_budget True True now key subject lmt window c)) \<le> max 0 (lmt - (n + 1))" by simp
    then show ?thesis using True Cons.prems(1-3) now by (simp add: guard_def counter_applies_def alive_def)
  next
    case False
    have "guard True True now c key subject lmt window \<noteq> None"
      using False Cons.prems(1-3) now by (simp add: guard_def counter_applies_def alive_def)
    with Cons.IH[of c n] Cons.prems show ?thesis by auto
  qed
qed simp

text \<open>From the first request of a window to its end a caller gets no more than the budget.\<close>

lemma budget_bounds_window:
  assumes "subject \<noteq> []" and "alive now0 (c key) = None" and "0 < lmt" and "\<forall>now \<in> set nows. now < now0 + window"
  shows "int (served lmt window key subject (now0 # nows) c) \<le> lmt"
proof -
  have "(spend_budget True True now0 key subject lmt window c) key = Some (1, Some (now0 + window))"
    using assms(1-3) by (simp add: spend_budget_def counter_applies_def)
  with served_window[of subject "spend_budget True True now0 key subject lmt window c" key 1 "now0 + window" lmt nows window] assms
  have "int (served lmt window key subject nows (spend_budget True True now0 key subject lmt window c)) \<le> max 0 (lmt - 1)" by simp
  with assms(1-3) show ?thesis by (simp add: guard_def counter_applies_def)
qed

end
