(* ===== verification/Accounts.thy ===== *)
theory Accounts
  imports Access Sessions
begin

text \<open>
  The accounts of an organization: \<^verbatim>\<open>backend/app/api/v1/endpoints/users.py\<close>, \<^verbatim>\<open>core/passwords.py\<close>,
  \<^verbatim>\<open>services/organizations.py\<close> and \<^verbatim>\<open>core/bootstrap.py\<close>.

  A row of the users table is kept in two places: \<open>users\<close> of the database holds the columns the
  timetable reads, of the caller's organization, and \<open>accounts\<close> the columns signing in reads, of the
  whole deployment. A route reads and writes both (\<open>people\<close>). bcrypt's hash, the drawn passwords and
  the drawn feed tokens are arguments, and the check of an email address is pydantic's.
\<close>

record people =
  pe_db :: database
  pe_auth :: auth_tables

section \<open>Passwords\<close>

definition PUBLISHED_ADMIN_PASSWORDS :: "string list" where
  "PUBLISHED_ADMIN_PASSWORDS = [''ChronosAdmin2026!'', ''replace_with_the_first_admin_password'']"

definition check_password :: "nat \<Rightarrow> string \<Rightarrow> string + string" where
  "check_password minimum value =
     (if length value < minimum
      then Inl (''Password must be at least '' @ show_nat minimum @ '' characters, this one is '' @ show_nat (length value))
      else if value \<in> set PUBLISHED_ADMIN_PASSWORDS
      then Inl ''That password is published in this repository, so it protects nothing''
      else Inr value)"

section \<open>Payloads\<close>

record user_create =
  uc_id :: string
  uc_full_name :: string
  uc_email_address :: string
  uc_password :: string
  uc_role_type :: institutional_role
  uc_unit_code :: "string option"
  uc_assigned_base_station :: "string option"
  uc_reporting_line_manager :: "string option"

definition user_create_ok :: "(string \<Rightarrow> bool) \<Rightarrow> nat \<Rightarrow> user_create \<Rightarrow> bool" where
  "user_create_ok email_ok minimum p \<longleftrightarrow> email_ok (uc_email_address p) \<and>
     (case check_password minimum (uc_password p) of Inl _ \<Rightarrow> False | Inr _ \<Rightarrow> True)"

text \<open>The fields that were sent. A name and an address cannot be sent as null; the others can.\<close>

record user_update =
  uu_full_name :: "string option"
  uu_email_address :: "string option"
  uu_unit_code :: "string option option"
  uu_assigned_base_station :: "string option option"
  uu_reporting_line_manager :: "string option option"

record open_items =
  oi_pending_absence_requests :: nat
  oi_direct_reports :: nat
  oi_slots_led :: nat
  oi_ledger_rows_ahead :: nat

section \<open>The reporting line\<close>

definition manager_of :: "database \<Rightarrow> string \<Rightarrow> string option" where
  "manager_of db uid = Option.bind (get_user db uid) us_reporting_line_manager"

lemma manager_of_unknown: "uid \<notin> set (map us_id (users db)) \<Longrightarrow> manager_of db uid = None"
proof -
  assume "uid \<notin> set (map us_id (users db))"
  then have "get_user db uid = None" by (auto simp: get_user_def find_None_iff)
  then show ?thesis by (simp add: manager_of_def)
qed

text \<open>The walk up the line: whether it comes to the user. It stops at the top, or where it has been.\<close>

function reports_up_to :: "database \<Rightarrow> string \<Rightarrow> string set \<Rightarrow> string option \<Rightarrow> bool" where
  "reports_up_to db user_id seen None = False"
| "reports_up_to db user_id seen (Some boss) =
     (if boss \<in> seen then False
      else if boss = user_id then True
      else reports_up_to db user_id (insert boss seen) (manager_of db boss))"
  by pat_completeness auto

termination
proof (relation "measure (\<lambda>(db, user_id, seen, boss).
    card (set (map us_id (users db)) - seen) + (case boss of None \<Rightarrow> 0 | Some _ \<Rightarrow> 1))")
  fix db :: database and user_id boss :: string and seen assume new: "boss \<notin> seen" and "boss \<noteq> user_id"
  show "((db, user_id, insert boss seen, manager_of db boss), (db, user_id, seen, Some boss)) \<in>
      measure (\<lambda>(db, user_id, seen, boss).
        card (set (map us_id (users db)) - seen) + (case boss of None \<Rightarrow> 0 | Some _ \<Rightarrow> 1))"
  proof (cases "boss \<in> set (map us_id (users db))")
    case True
    then have "card (set (map us_id (users db)) - insert boss seen) < card (set (map us_id (users db)) - seen)"
      using new by (intro psubset_card_mono) auto
    then show ?thesis by (simp split: option.split)
  next
    case False
    then have "set (map us_id (users db)) - insert boss seen = set (map us_id (users db)) - seen" by blast
    then show ?thesis using manager_of_unknown[OF False] by simp
  qed
qed simp

definition check_manager :: "string \<Rightarrow> string \<Rightarrow> database \<Rightarrow> api_error + unit" where
  "check_manager user_id manager_id db =
     (if manager_id = user_id
      then Inl (chronos_error 422 INVALID_VALUE (Msg ''A user cannot be their own manager''))
      else case get_user db manager_id of
        None \<Rightarrow> Inl (chronos_error 404 NOT_FOUND (Msg ''Manager not found''))
      | Some m \<Rightarrow>
          if us_deactivated_at m \<noteq> None
          then Inl (chronos_error 422 USER_DEACTIVATED (Msg ''Manager is deactivated''))
          else if reports_up_to db user_id {manager_id} (us_reporting_line_manager m)
          then Inl (chronos_error 422 INVALID_VALUE
            (Msg (manager_id @ '' already reports to '' @ user_id @ '', directly or through others'')))
          else Inr ())"

section \<open>Reading\<close>

definition list_users ::
  "database \<Rightarrow> user \<Rightarrow> institutional_role option \<Rightarrow> string option \<Rightarrow> bool \<Rightarrow> page \<Rightarrow> api_error + (user list \<times> nat)" where
  "list_users db current_user role unit_code include_deactivated pg =
     bind_result (require_roles [ORG_ADMIN, UNIT_ADMIN] current_user) (\<lambda>_.
       let q = filter (\<lambda>u. (include_deactivated \<or> us_deactivated_at u = None) \<and>
               (case role of None \<Rightarrow> True | Some r \<Rightarrow> us_role_type u = r) \<and>
               (case unit_code of None \<Rightarrow> True | Some c \<Rightarrow> c = [] \<or> us_unit_code u = Some c)) (users db)
       in if us_role_type current_user = UNIT_ADMIN
          then (case us_unit_code current_user of None \<Rightarrow> Inr ([], 0)
                | Some c \<Rightarrow> Inr (page_rows pg us_id (filter (\<lambda>u. us_unit_code u = Some c) q)))
          else Inr (page_rows pg us_id q))"

definition list_available_staff :: "database \<Rightarrow> string option \<Rightarrow> page \<Rightarrow> user list \<times> nat" where
  "list_available_staff db unit_code pg =
     page_rows pg us_id (filter (\<lambda>u. us_role_type u = STAFF \<and> us_deactivated_at u = None \<and>
       (case unit_code of None \<Rightarrow> True | Some c \<Rightarrow> c = [] \<or> us_unit_code u = Some c)) (users db))"

definition user_or_404 :: "database \<Rightarrow> string \<Rightarrow> api_error + user" where
  "user_or_404 db user_id = (case get_user db user_id of
     None \<Rightarrow> Inl (chronos_error 404 NOT_FOUND (Msg ''User not found'')) | Some u \<Rightarrow> Inr u)"

definition get_user_route :: "database \<Rightarrow> user \<Rightarrow> string \<Rightarrow> api_error + user" where
  "get_user_route db current_user user_id =
     (if us_id current_user \<noteq> user_id \<and> us_role_type current_user \<notin> {ORG_ADMIN, UNIT_ADMIN}
      then Inl (chronos_error 403 FORBIDDEN (Msg ''Access denied''))
      else bind_result (user_or_404 db user_id) (\<lambda>u.
        if us_id current_user \<noteq> user_id
        then bind_result (ensure_unit_scope current_user (us_unit_code u)) (\<lambda>_. Inr u)
        else Inr u))"

section \<open>Creating\<close>

definition admin_role :: "institutional_role \<Rightarrow> bool" where
  "admin_role r \<longleftrightarrow> r = ORG_ADMIN \<or> r = UNIT_ADMIN"

text \<open>Whether an id or an address is taken is asked of every organization.\<close>

definition id_taken :: "auth_tables \<Rightarrow> string \<Rightarrow> bool" where
  "id_taken t uid \<longleftrightarrow> uid \<in> set (map at_id (accounts t))"

definition email_taken :: "auth_tables \<Rightarrow> string option \<Rightarrow> string \<Rightarrow> bool" where
  "email_taken t except email \<longleftrightarrow>
     list_ex (\<lambda>a. lower (at_email_address a) = normalize_email email \<and> Some (at_id a) \<noteq> except) (accounts t)"

definition new_account ::
  "string \<Rightarrow> string \<Rightarrow> string \<Rightarrow> string \<Rightarrow> institutional_role \<Rightarrow> string \<Rightarrow> string \<Rightarrow> account" where
  "new_account uid name email hashed role org feed = \<lparr>at_id = uid, at_full_name = name,
     at_email_address = normalize_email email, at_credential_secure_hash = hashed, at_role_type = role,
     at_organization_id = org, at_initial_login_state = True, at_calendar_feed_token = Some feed,
     at_deactivated_at = None\<rparr>"

definition new_user_row :: "user_create \<Rightarrow> user" where
  "new_user_row p = \<lparr>us_id = uc_id p, us_full_name = uc_full_name p, us_role_type = uc_role_type p,
     us_unit_code = uc_unit_code p, us_assigned_base_station = uc_assigned_base_station p,
     us_current_occupancy_index = OPEN_AD_HOC, us_reporting_line_manager = uc_reporting_line_manager p,
     us_deactivated_at = None\<rparr>"

definition check_new_user :: "people \<Rightarrow> user \<Rightarrow> user_create \<Rightarrow> api_error + unit" where
  "check_new_user s current_user p =
     bind_result (require_roles [ORG_ADMIN, UNIT_ADMIN] current_user) (\<lambda>_.
     bind_result (if admin_role (uc_role_type p) \<and> us_role_type current_user \<noteq> ORG_ADMIN
       then Inl (chronos_error 403 INSUFFICIENT_ROLE (Msg ''Only an organization admin can create admin accounts''))
       else Inr ()) (\<lambda>_.
     bind_result (ensure_unit_scope current_user (uc_unit_code p)) (\<lambda>_.
     bind_result (if id_taken (pe_auth s) (uc_id p)
       then Inl (chronos_error 409 ALREADY_EXISTS (Msg ''User ID already exists'')) else Inr ()) (\<lambda>_.
     bind_result (if email_taken (pe_auth s) None (uc_email_address p)
       then Inl (chronos_error 409 EMAIL_TAKEN (Msg ''Email already registered'')) else Inr ()) (\<lambda>_.
     case uc_reporting_line_manager p of None \<Rightarrow> Inr ()
     | Some m \<Rightarrow> check_manager (uc_id p) m (pe_db s))))))"

definition create_user ::
  "(string \<Rightarrow> string) \<Rightarrow> string \<Rightarrow> string \<Rightarrow> people \<Rightarrow> user \<Rightarrow> user_create \<Rightarrow> (api_error + user) \<times> people" where
  "create_user hash_password org feed s current_user p =
     (case check_new_user s current_user p of
        Inl e \<Rightarrow> (Inl e, s)
      | Inr _ \<Rightarrow> (Inr (new_user_row p),
          s\<lparr>pe_db := (pe_db s)\<lparr>users := users (pe_db s) @ [new_user_row p]\<rparr>,
            pe_auth := (pe_auth s)\<lparr>accounts := accounts (pe_auth s) @
              [new_account (uc_id p) (uc_full_name p) (uc_email_address p) (hash_password (uc_password p))
                 (uc_role_type p) org feed]\<rparr>\<rparr>))"

section \<open>Changing\<close>

definition managed_account :: "string \<Rightarrow> database \<Rightarrow> user \<Rightarrow> api_error + user" where
  "managed_account user_id db current_user =
     bind_result (require_roles [ORG_ADMIN, UNIT_ADMIN] current_user) (\<lambda>_.
     bind_result (user_or_404 db user_id) (\<lambda>u.
     bind_result (if admin_role (us_role_type u) \<and> us_role_type current_user \<noteq> ORG_ADMIN
       then Inl (chronos_error 403 INSUFFICIENT_ROLE (Msg ''Only an organization admin can modify admin accounts''))
       else Inr ()) (\<lambda>_.
     bind_result (ensure_unit_scope current_user (us_unit_code u)) (\<lambda>_. Inr u))))"

definition put_user :: "string \<Rightarrow> (user \<Rightarrow> user) \<Rightarrow> database \<Rightarrow> database" where
  "put_user uid f db = db\<lparr>users := update_rows (\<lambda>u. us_id u = uid) f (users db)\<rparr>"

definition put_account :: "string \<Rightarrow> (account \<Rightarrow> account) \<Rightarrow> auth_tables \<Rightarrow> auth_tables" where
  "put_account uid f t = t\<lparr>accounts := update_rows (\<lambda>a. at_id a = uid) f (accounts t)\<rparr>"

definition sent :: "'a option \<Rightarrow> 'a \<Rightarrow> 'a" where
  "sent new old = (case new of None \<Rightarrow> old | Some v \<Rightarrow> v)"

definition patched_user :: "user_update \<Rightarrow> user \<Rightarrow> user" where
  "patched_user p u = u\<lparr>us_full_name := sent (uu_full_name p) (us_full_name u),
     us_unit_code := sent (uu_unit_code p) (us_unit_code u),
     us_assigned_base_station := sent (uu_assigned_base_station p) (us_assigned_base_station u),
     us_reporting_line_manager := sent (uu_reporting_line_manager p) (us_reporting_line_manager u)\<rparr>"

definition patched_account :: "user_update \<Rightarrow> account \<Rightarrow> account" where
  "patched_account p a = a\<lparr>at_full_name := sent (uu_full_name p) (at_full_name a),
     at_email_address := sent (map_option normalize_email (uu_email_address p)) (at_email_address a)\<rparr>"

definition check_user_update :: "people \<Rightarrow> user \<Rightarrow> string \<Rightarrow> user_update \<Rightarrow> api_error + user" where
  "check_user_update s current_user user_id p =
     bind_result (managed_account user_id (pe_db s) current_user) (\<lambda>u.
     bind_result (case uu_unit_code p of None \<Rightarrow> Inr () | Some c \<Rightarrow> ensure_unit_scope current_user c) (\<lambda>_.
     bind_result (case uu_email_address p of None \<Rightarrow> Inr ()
       | Some e \<Rightarrow> if email_taken (pe_auth s) (Some (us_id u)) e
           then Inl (chronos_error 409 EMAIL_TAKEN (Msg ''Email already registered'')) else Inr ()) (\<lambda>_.
     bind_result (case uu_reporting_line_manager p of Some (Some m) \<Rightarrow> check_manager (us_id u) m (pe_db s) | _ \<Rightarrow> Inr ()) (\<lambda>_.
     Inr u))))"

definition update_user :: "people \<Rightarrow> user \<Rightarrow> string \<Rightarrow> user_update \<Rightarrow> (api_error + user) \<times> people" where
  "update_user s current_user user_id p =
     (case check_user_update s current_user user_id p of
        Inl e \<Rightarrow> (Inl e, s)
      | Inr u \<Rightarrow> (Inr (patched_user p u),
          s\<lparr>pe_db := put_user (us_id u) (patched_user p) (pe_db s),
            pe_auth := put_account (us_id u) (patched_account p) (pe_auth s)\<rparr>))"

definition reset_user_password ::
  "(string \<Rightarrow> string) \<Rightarrow> string \<Rightarrow> string \<Rightarrow> people \<Rightarrow> user \<Rightarrow> string \<Rightarrow> (api_error + string \<times> string) \<times> people" where
  "reset_user_password hash_password raw_password feed s current_user user_id =
     (case managed_account user_id (pe_db s) current_user of
        Inl e \<Rightarrow> (Inl e, s)
      | Inr u \<Rightarrow>
          (let t = put_account (us_id u) (\<lambda>a. a\<lparr>at_credential_secure_hash := hash_password raw_password,
                 at_calendar_feed_token := Some feed, at_initial_login_state := True\<rparr>) (pe_auth s)
           in (Inr (us_id u, raw_password),
               s\<lparr>pe_auth := t\<lparr>refresh_tokens := filter (\<lambda>r. rt_user_id r \<noteq> us_id u) (refresh_tokens t)\<rparr>\<rparr>)))"

section \<open>Leaving and coming back\<close>

definition open_items_of :: "date \<Rightarrow> string \<Rightarrow> database \<Rightarrow> open_items" where
  "open_items_of today user_id db = \<lparr>
     oi_pending_absence_requests = length (filter (\<lambda>l. lg_authorized_by_user_id l = Some user_id \<and>
        lg_approval_state l = PENDING_VERIFICATION) (reverse_rsvp_logs db)),
     oi_direct_reports = length (filter (\<lambda>u. us_reporting_line_manager u = Some user_id \<and>
        us_deactivated_at u = None) (users db)),
     oi_slots_led = length (filter (\<lambda>s. sl_primary_lead_id s = Some user_id \<and> sl_retired_at s = None \<and>
        (case slot_activity db s of None \<Rightarrow> False | Some a \<Rightarrow> ac_retired_at a = None) \<and>
        (case slot_cycle db s of None \<Rightarrow> False | Some c \<Rightarrow> cy_date_bounds_end c \<ge> today)) (structural_master_slots db)),
     oi_ledger_rows_ahead = length (filter (\<lambda>d. dl_target_date d \<ge> today \<and>
        (dl_active_lead_id d = Some user_id \<or> dl_substitute_lead_id d = Some user_id)) (daily_ledger_rows db))\<rparr>"

text \<open>The account deactivated, its feed address changed, its refresh tokens and its keys deleted.\<close>

definition close_account :: "instant \<Rightarrow> string \<Rightarrow> string \<Rightarrow> people \<Rightarrow> people" where
  "close_account now feed uid s =
     (let t = put_account uid (\<lambda>a. a\<lparr>at_deactivated_at := Some now, at_calendar_feed_token := Some feed\<rparr>) (pe_auth s)
      in s\<lparr>pe_db := put_user uid (\<lambda>x. x\<lparr>us_deactivated_at := Some now\<rparr>) (pe_db s),
           pe_auth := t\<lparr>refresh_tokens := filter (\<lambda>r. rt_user_id r \<noteq> uid) (refresh_tokens t),
                       api_keys := filter (\<lambda>k. ak_user_id k \<noteq> uid) (api_keys t)\<rparr>\<rparr>)"

text \<open>The answer: the account, what still names it, and whether its open sockets are closed.\<close>

definition deactivate_user ::
  "date \<Rightarrow> instant \<Rightarrow> string \<Rightarrow> people \<Rightarrow> user \<Rightarrow> string \<Rightarrow> (api_error + user \<times> open_items \<times> bool) \<times> people" where
  "deactivate_user today now feed s current_user user_id =
     (case managed_account user_id (pe_db s) current_user of
        Inl e \<Rightarrow> (Inl e, s)
      | Inr u \<Rightarrow>
          if us_id u = us_id current_user
          then (Inl (chronos_error 422 INVALID_VALUE (Msg ''You cannot deactivate your own account'')), s)
          else if us_deactivated_at u = None
          then (let s' = close_account now feed (us_id u) s
                in (Inr (u\<lparr>us_deactivated_at := Some now\<rparr>, open_items_of today (us_id u) (pe_db s'), True), s'))
          else (Inr (u, open_items_of today (us_id u) (pe_db s), False), s))"

definition reactivate_user :: "people \<Rightarrow> user \<Rightarrow> string \<Rightarrow> (api_error + user) \<times> people" where
  "reactivate_user s current_user user_id =
     (case managed_account user_id (pe_db s) current_user of
        Inl e \<Rightarrow> (Inl e, s)
      | Inr u \<Rightarrow>
          if us_deactivated_at u \<noteq> None
          then (Inr (u\<lparr>us_deactivated_at := None\<rparr>),
            s\<lparr>pe_db := put_user (us_id u) (\<lambda>x. x\<lparr>us_deactivated_at := None\<rparr>) (pe_db s),
              pe_auth := put_account (us_id u) (\<lambda>a. a\<lparr>at_deactivated_at := None\<rparr>) (pe_auth s)\<rparr>)
          else (Inr u, s))"

definition update_user_status ::
  "people \<Rightarrow> user \<Rightarrow> string \<Rightarrow> access_readiness \<Rightarrow> (api_error + access_readiness) \<times> people" where
  "update_user_status s current_user user_id st =
     (if us_id current_user \<noteq> user_id \<and> us_role_type current_user \<noteq> ORG_ADMIN
      then (Inl (chronos_error 403 FORBIDDEN (Msg ''Can only update own status'')), s)
      else (case user_or_404 (pe_db s) user_id of
          Inl e \<Rightarrow> (Inl e, s)
        | Inr u \<Rightarrow> (Inr st, s\<lparr>pe_db := put_user (us_id u) (\<lambda>x. x\<lparr>us_current_occupancy_index := st\<rparr>) (pe_db s)\<rparr>)))"

section \<open>Organizations and the first administrator\<close>

definition ORGANIZATION_ID_LIMIT :: nat where
  "ORGANIZATION_ID_LIMIT = 50"

definition SEEDED_ADMIN_ID :: string where
  "SEEDED_ADMIN_ID = ''ADMIN001''"

definition in_quotes :: "string \<Rightarrow> string" where
  "in_quotes s = CHR 0x27 # s @ [CHR 0x27]"

text \<open>The names of the organizations by id, and the accounts of the deployment.\<close>

definition create_organization ::
  "(string \<Rightarrow> string) \<Rightarrow> nat \<Rightarrow> string \<Rightarrow> (string \<times> string) list \<Rightarrow> auth_tables
   \<Rightarrow> string \<Rightarrow> string \<Rightarrow> string \<Rightarrow> string \<Rightarrow> string
   \<Rightarrow> string + (string \<times> string) list \<times> auth_tables" where
  "create_organization hash_password minimum feed orgs t organization_id0 name admin_id admin_email admin_password =
     (let organization_id = strip organization_id0; email = normalize_email admin_email in
      if organization_id = [] \<or> length organization_id > ORGANIZATION_ID_LIMIT
      then Inl (''An organization id is 1 to '' @ show_nat ORGANIZATION_ID_LIMIT @ '' characters'')
      else if strip name = [] then Inl ''An organization needs a name''
      else bind_result (check_password minimum admin_password) (\<lambda>_.
        if organization_id \<in> set (map fst orgs)
        then Inl (''There is already an organization '' @ in_quotes organization_id)
        else if id_taken t admin_id then Inl (''User ID '' @ in_quotes admin_id @ '' is already in use'')
        else if email_taken t None email then Inl (''The email address '' @ in_quotes email @ '' is already in use'')
        else Inr (orgs @ [(organization_id, strip name)],
          t\<lparr>accounts := accounts t @ [new_account admin_id (strip name @ '' Administrator'') email
              (hash_password admin_password) ORG_ADMIN organization_id feed]\<rparr>)))"

definition apply_initial_admin_password ::
  "auth_env \<Rightarrow> (string \<Rightarrow> string) \<Rightarrow> auth_tables \<Rightarrow> string \<Rightarrow> bool \<times> auth_tables" where
  "apply_initial_admin_password env hash_password t password =
     (case get_account t SEEDED_ADMIN_ID of
        None \<Rightarrow> (False, t)
      | Some admin \<Rightarrow>
          if \<not> at_initial_login_state admin \<or> password = [] \<or>
             ae_checkpw env password (at_credential_secure_hash admin)
          then (False, t)
          else (True, put_account SEEDED_ADMIN_ID (\<lambda>a. a\<lparr>at_credential_secure_hash := hash_password password\<rparr>) t))"

end
