(* ===== verification/Admin_Routes.thy ===== *)
theory Admin_Routes
  imports Accounts Idempotency
begin

text \<open>
  What an organization's administrator keeps: API keys (\<^verbatim>\<open>backend/app/api/v1/endpoints/api_keys.py\<close>), the
  audit log (\<^verbatim>\<open>core/audit.py\<close>, \<^verbatim>\<open>api/v1/endpoints/audit.py\<close>), the resource classes
  (\<^verbatim>\<open>api/v1/endpoints/resource_classes.py\<close>) and the organization's settings (\<^verbatim>\<open>api/v1/endpoints/admin.py\<close>).
\<close>

section \<open>API keys\<close>

record api_key_create =
  kc_label :: string
  kc_user_id :: string
  kc_scopes :: "string list option"
  kc_expires_at :: "instant option"

definition is_lower :: "char \<Rightarrow> bool" where
  "is_lower c \<longleftrightarrow> (let n = of_char c :: nat in 97 \<le> n \<and> n \<le> 122)"

definition area_ok :: "string \<Rightarrow> bool" where
  "area_ok a \<longleftrightarrow> (case a of [] \<Rightarrow> False | c # cs \<Rightarrow> is_lower c \<and> list_all (\<lambda>x. is_lower x \<or> x = CHR ''-'') cs)"

text \<open>The pattern of a scope. Its \<^verbatim>\<open>$\<close> also stands before a line feed at the end.\<close>

definition scope_shape :: "string \<Rightarrow> bool" where
  "scope_shape s \<longleftrightarrow> s = ''*'' \<or> s = ''impersonate'' \<or>
     (case partition_on CHR '':'' s of (a, found, r) \<Rightarrow> found \<and> area_ok a \<and> r \<in> {''read'', ''write''})"

definition SCOPE_PATTERN :: "string \<Rightarrow> bool" where
  "SCOPE_PATTERN s \<longleftrightarrow> scope_shape s \<or> (s \<noteq> [] \<and> last s = CHR 10 \<and> scope_shape (butlast s))"

definition api_key_create_ok :: "api_key_create \<Rightarrow> bool" where
  "api_key_create_ok p \<longleftrightarrow> 1 \<le> length (kc_label p) \<and> length (kc_label p) \<le> 100 \<and>
     1 \<le> length (kc_user_id p) \<and> length (kc_user_id p) \<le> 50 \<and>
     (case kc_scopes p of None \<Rightarrow> True | Some ss \<Rightarrow> ss \<noteq> [] \<and> list_all SCOPE_PATTERN ss)"

definition hash_api_key :: "auth_env \<Rightarrow> string \<Rightarrow> string" where
  "hash_api_key env raw = ae_sha256 env raw"

definition new_api_key :: "auth_env \<Rightarrow> string \<Rightarrow> string \<Rightarrow> api_key_create \<Rightarrow> api_key list \<Rightarrow> api_key" where
  "new_api_key env org raw p keys = \<lparr>ak_id = fresh_id (map ak_id keys), ak_key_hash = hash_api_key env raw,
     ak_user_id = kc_user_id p, ak_organization_id = org,
     ak_scopes = (case kc_scopes p of None \<Rightarrow> ''*'' | Some [] \<Rightarrow> ''*''
       | Some ss \<Rightarrow> join_with '','' (sort (remdups ss))),
     ak_expires_at = kc_expires_at p, ak_key_prefix = take 12 raw, ak_label = kc_label p,
     ak_created_at = ae_now env\<rparr>"

definition check_new_key :: "auth_env \<Rightarrow> database \<Rightarrow> user \<Rightarrow> api_key_create \<Rightarrow> api_error + unit" where
  "check_new_key env db current_user p =
     bind_result (require_roles [ORG_ADMIN] current_user) (\<lambda>_.
       case get_user db (kc_user_id p) of
         None \<Rightarrow> Inl (chronos_error 404 NOT_FOUND (Msg (''User '' @ in_quotes (kc_user_id p) @ '' not found'')))
       | Some u \<Rightarrow>
           if us_deactivated_at u \<noteq> None
           then Inl (chronos_error 409 USER_DEACTIVATED (Msg (''User '' @ in_quotes (kc_user_id p) @ '' is deactivated'')))
           else if (case kc_expires_at p of None \<Rightarrow> False | Some e \<Rightarrow> e \<le> ae_now env)
           then Inl (chronos_error 422 INVALID_VALUE (Msg ''expires_at is in the past; the key would be dead on arrival''))
           else Inr ())"

text \<open>The raw key is drawn outside and answered once; \<open>Integrity\<close> is the unique key on its hash.\<close>

definition create_api_key ::
  "auth_env \<Rightarrow> string \<Rightarrow> string \<Rightarrow> people \<Rightarrow> user \<Rightarrow> api_key_create \<Rightarrow> (walk_error + api_key \<times> string) \<times> people" where
  "create_api_key env org raw s current_user p =
     (case check_new_key env (pe_db s) current_user p of
        Inl e \<Rightarrow> (Inl (Refused e), s)
      | Inr _ \<Rightarrow>
          (let keys = api_keys (pe_auth s); row = new_api_key env org raw p keys
           in if ak_key_hash row \<in> set (map ak_key_hash keys) then (Inl (Integrity Key_Violation), s)
              else (Inr (row, raw), s\<lparr>pe_auth := (pe_auth s)\<lparr>api_keys := keys @ [row]\<rparr>\<rparr>)))"

definition own_keys :: "string \<Rightarrow> auth_tables \<Rightarrow> api_key list" where
  "own_keys org t = filter (\<lambda>k. ak_organization_id k = org) (api_keys t)"

definition list_api_keys :: "string \<Rightarrow> people \<Rightarrow> user \<Rightarrow> api_error + api_key list" where
  "list_api_keys org s current_user = bind_result (require_roles [ORG_ADMIN] current_user) (\<lambda>_.
     Inr (sort_key ak_id (own_keys org (pe_auth s))))"

definition revoke_api_key :: "string \<Rightarrow> people \<Rightarrow> user \<Rightarrow> int \<Rightarrow> (api_error + unit) \<times> people" where
  "revoke_api_key org s current_user key_id =
     (case bind_result (require_roles [ORG_ADMIN] current_user) (\<lambda>_.
           case find (\<lambda>k. ak_id k = key_id) (own_keys org (pe_auth s)) of
             None \<Rightarrow> Inl (chronos_error 404 NOT_FOUND (Msg (''API key '' @ show_int key_id @ '' not found'')))
           | Some k \<Rightarrow> Inr k) of
        Inl e \<Rightarrow> (Inl e, s)
      | Inr k \<Rightarrow> (Inr (), s\<lparr>pe_auth := (pe_auth s)\<lparr>api_keys :=
          filter (\<lambda>x. ak_id x \<noteq> ak_id k) (api_keys (pe_auth s))\<rparr>\<rparr>))"

section \<open>The audit log\<close>

record audit_record =
  ar_id :: int
  ar_at :: instant
  ar_actor_id :: "string option"
  ar_api_key_id :: "int option"
  ar_acting_for_user_id :: "string option"
  ar_method :: string
  ar_path :: string
  ar_status_code :: int
  ar_organization_id :: "string option"

text \<open>What the security dependencies leave on the request.\<close>

record request_state =
  st_actor_id :: "string option"
  st_api_key_id :: "int option"
  st_acting_for :: "string option"
  st_organization_id :: "string option"
  st_audit_anyway :: bool

definition AUDITED_READS :: "string list" where
  "AUDITED_READS = [''/api/v1/schedule/conflicts'']"

definition is_audited :: "string \<Rightarrow> string \<Rightarrow> bool" where
  "is_audited meth path =
     (if \<not> startswith path AUDITED_PREFIX then False
      else if meth \<in> set READ_METHODS then meth = ''GET'' \<and> path \<in> set AUDITED_READS
      else True)"

definition audit_row :: "instant \<Rightarrow> string \<Rightarrow> string \<Rightarrow> request_state \<Rightarrow> int \<Rightarrow> audit_record list \<Rightarrow> audit_record" where
  "audit_row now meth path st code rows = \<lparr>ar_id = fresh_id (map ar_id rows), ar_at = now, ar_actor_id = st_actor_id st,
     ar_api_key_id = st_api_key_id st, ar_acting_for_user_id = st_acting_for st, ar_method = meth,
     ar_path = take 500 path, ar_status_code = code, ar_organization_id = st_organization_id st\<rparr>"

text \<open>The write is in a session of its own; \<open>up\<close> says whether the table took it. A failure is only logged.\<close>

definition write_audit ::
  "bool \<Rightarrow> instant \<Rightarrow> string \<Rightarrow> string \<Rightarrow> request_state \<Rightarrow> int \<Rightarrow> audit_record list \<Rightarrow> audit_record list" where
  "write_audit up now meth path st code rows =
     (if up then rows @ [audit_row now meth path st code rows] else rows)"

text \<open>\<open>answered\<close> is the status the application started its response with, when it got that far.\<close>

definition audit_middleware ::
  "bool \<Rightarrow> instant \<Rightarrow> bool \<Rightarrow> string \<Rightarrow> string \<Rightarrow> request_state \<Rightarrow> int option \<Rightarrow> audit_record list \<Rightarrow> audit_record list" where
  "audit_middleware up now http meth path st answered rows =
     (if \<not> http \<or> \<not> startswith path AUDITED_PREFIX then rows
      else if is_audited meth path \<or> st_audit_anyway st
      then write_audit up now meth path st (case answered of None \<Rightarrow> 500 | Some c \<Rightarrow> c) rows
      else rows)"

text \<open>\<open>midnight\<close> is the instant a date of the organization's zone begins.\<close>

definition list_audit_records ::
  "(date \<Rightarrow> instant) \<Rightarrow> string \<Rightarrow> user \<Rightarrow> date option \<Rightarrow> date option \<Rightarrow> string option \<Rightarrow> page
   \<Rightarrow> audit_record list \<Rightarrow> api_error + (audit_record list \<times> nat)" where
  "list_audit_records midnight org current_user from_date to_date actor_id pg rows =
     bind_result (require_roles [ORG_ADMIN] current_user) (\<lambda>_.
       if (case (from_date, to_date) of (Some f, Some l) \<Rightarrow> l < f | _ \<Rightarrow> False)
       then Inl (chronos_error 422 INVALID_VALUE (Msg ''to is before from''))
       else Inr (page_rows pg (\<lambda>r. (- ar_at r, - ar_id r))
         (filter (\<lambda>r. ar_organization_id r = Some org \<and>
            (case from_date of None \<Rightarrow> True | Some f \<Rightarrow> midnight f \<le> ar_at r) \<and>
            (case to_date of None \<Rightarrow> True | Some l \<Rightarrow> ar_at r < midnight (l + 1)) \<and>
            (case actor_id of None \<Rightarrow> True | Some a \<Rightarrow> ar_actor_id r = Some a)) rows)))"

section \<open>Resource classes\<close>

record resource_class_create =
  rcc_code :: string
  rcc_name :: string

record resource_class_update =
  rcu_name :: "string option"
  rcu_active :: "bool option"

definition RESOURCE_CLASS_CODE_LIMIT :: nat where
  "RESOURCE_CLASS_CODE_LIMIT = 30"

definition SEEDED_CODES :: "string list" where
  "SEEDED_CODES = [''ROOM'', ''PERSON'']"

definition class_code_char :: "char \<Rightarrow> bool" where
  "class_code_char c \<longleftrightarrow> (let n = of_char c :: nat in (65 \<le> n \<and> n \<le> 90) \<or> (48 \<le> n \<and> n \<le> 57) \<or> c = CHR ''_'')"

definition class_code_ok :: "string \<Rightarrow> bool" where
  "class_code_ok code \<longleftrightarrow> length code \<le> RESOURCE_CLASS_CODE_LIMIT \<and>
     (case code of [] \<Rightarrow> False | c # cs \<Rightarrow> (let n = of_char c :: nat in 65 \<le> n \<and> n \<le> 90) \<and> list_all class_code_char cs)"

definition class_name_ok :: "string \<Rightarrow> bool" where
  "class_name_ok n \<longleftrightarrow> 1 \<le> length (strip n) \<and> length (strip n) \<le> 120"

text \<open>The payload as validated: both strings have their white space stripped.\<close>

definition resource_class_create_ok :: "resource_class_create \<Rightarrow> bool" where
  "resource_class_create_ok p \<longleftrightarrow> class_code_ok (strip (rcc_code p)) \<and> class_name_ok (rcc_name p)"

definition class_or_404 :: "database \<Rightarrow> string \<Rightarrow> api_error + resource_class" where
  "class_or_404 db code = (case find (\<lambda>c. rc_code c = code) (resource_classes db) of
     None \<Rightarrow> Inl (chronos_error 404 NOT_FOUND (Msg ''Resource class not found'')) | Some c \<Rightarrow> Inr c)"

definition seeded :: "resource_class \<Rightarrow> bool" where
  "seeded c \<longleftrightarrow> rc_code c \<in> set SEEDED_CODES"

definition list_resource_classes :: "database \<Rightarrow> bool option \<Rightarrow> page \<Rightarrow> resource_class list \<times> nat" where
  "list_resource_classes db active pg = page_rows pg rc_code
     (filter (\<lambda>c. case active of None \<Rightarrow> True | Some a \<Rightarrow> rc_active c = a) (resource_classes db))"

definition create_resource_class ::
  "session \<Rightarrow> user \<Rightarrow> resource_class_create \<Rightarrow> (api_error + resource_class) \<times> session" where
  "create_resource_class sess current_user p =
     (case require_roles [ORG_ADMIN] current_user of
        Inl e \<Rightarrow> (Inl e, sess)
      | Inr _ \<Rightarrow>
          (let db = working sess;
               row = \<lparr>rc_id = fresh_id (map rc_id (resource_classes db)), rc_code = strip (rcc_code p),
                 rc_name = strip (rcc_name p), rc_active = True\<rparr>
           in if rc_code row \<in> set (map rc_code (resource_classes db))
              then (Inl (chronos_error 409 ALREADY_EXISTS (Msg ''a resource class with that code already exists'')),
                db_rollback sess)
              else (Inr row, db_commit (sess\<lparr>working := db\<lparr>resource_classes := resource_classes db @ [row]\<rparr>\<rparr>))))"

definition class_protected :: api_error where
  "class_protected = chronos_error 409 RESOURCE_CLASS_PROTECTED
     (Msg ''ROOM and PERSON are built in: they cannot be deleted or deactivated'')"

definition class_in_use :: api_error where
  "class_in_use = chronos_error 409 RESOURCE_CLASS_IN_USE (Msg ''a resource or a requirement still uses that class'')"

definition update_resource_class ::
  "session \<Rightarrow> user \<Rightarrow> string \<Rightarrow> resource_class_update \<Rightarrow> (api_error + resource_class) \<times> session" where
  "update_resource_class sess current_user code p =
     (case bind_result (require_roles [ORG_ADMIN] current_user) (\<lambda>_.
           bind_result (class_or_404 (working sess) code) (\<lambda>row.
             if seeded row \<and> rcu_active p = Some False then Inl class_protected else Inr row)) of
        Inl e \<Rightarrow> (Inl e, sess)
      | Inr row \<Rightarrow>
          (let row' = row\<lparr>rc_name := sent (map_option strip (rcu_name p)) (rc_name row),
                 rc_active := sent (rcu_active p) (rc_active row)\<rparr>;
               db = working sess
           in (Inr row', db_commit (sess\<lparr>working := db\<lparr>resource_classes :=
                update_rows (\<lambda>c. rc_id c = rc_id row) (\<lambda>_. row') (resource_classes db)\<rparr>\<rparr>))))"

text \<open>
  \<open>others\<close> is what other requests commit between the check and the delete. The foreign keys of the
  resources and the requirements refuse the delete of a class they name.
\<close>

definition delete_resource_class ::
  "(database \<Rightarrow> database) \<Rightarrow> session \<Rightarrow> user \<Rightarrow> string \<Rightarrow> (api_error + unit) \<times> session" where
  "delete_resource_class others sess current_user code =
     (case bind_result (require_roles [ORG_ADMIN] current_user) (\<lambda>_.
           bind_result (class_or_404 (working sess) code) (\<lambda>row.
             if seeded row then Inl class_protected
             else if is_in_use (working sess) code then Inl class_in_use else Inr row)) of
        Inl e \<Rightarrow> (Inl e, sess)
      | Inr row \<Rightarrow>
          (let sess1 = open_session (others (working sess)); db = working sess1
           in if is_in_use db (rc_code row) then (Inl class_in_use, db_rollback sess1)
              else (Inr (), db_commit (sess1\<lparr>working := db\<lparr>resource_classes :=
                filter (\<lambda>c. rc_id c \<noteq> rc_id row) (resource_classes db)\<rparr>\<rparr>))))"

section \<open>The organization's settings\<close>

definition get_organization :: "database \<Rightarrow> user \<Rightarrow> api_error + organization option" where
  "get_organization db current_user =
     bind_result (require_roles [ORG_ADMIN] current_user) (\<lambda>_. Inr (organization_row db))"

definition update_organization ::
  "session \<Rightarrow> user \<Rightarrow> requirement_enforcement \<Rightarrow> (walk_error + organization) \<times> session" where
  "update_organization sess current_user enforcement =
     (case require_roles [ORG_ADMIN] current_user of
        Inl e \<Rightarrow> (Inl (Refused e), sess)
      | Inr _ \<Rightarrow>
          (case organization_row (working sess) of
             None \<Rightarrow> (Inl Attribute_Error, sess)
           | Some og \<Rightarrow>
               (let og' = og\<lparr>og_default_requirement_enforcement := enforcement\<rparr>
                in (Inr og', db_commit (sess\<lparr>working := (working sess)\<lparr>organization_row := Some og'\<rparr>\<rparr>)))))"

end
