(* ===== verification/Accounts_Props.thy ===== *)
theory Accounts_Props
  imports Admin_Routes Sessions_Props
begin

text \<open>
  What the administration of accounts promises: the reporting line never loops, addresses stay unique,
  an administrator is left standing, a created account signs in, an issued key opens what it is scoped
  for, and a deactivated account is shut out of every way in until it is reactivated.
\<close>

named_theorems route_defs \<open>the routes that write accounts\<close>

declare create_user_def [route_defs] update_user_def [route_defs] reset_user_password_def [route_defs]
  deactivate_user_def [route_defs] reactivate_user_def [route_defs] update_user_status_def [route_defs]
  create_api_key_def [route_defs] revoke_api_key_def [route_defs]

section \<open>Rows\<close>

lemma find_put: "(\<And>x. P (f x) = P x) \<Longrightarrow> find P (update_rows Q f xs) = map_option (\<lambda>x. if Q x then f x else x) (find P xs)"
  by (induction xs) (auto simp: update_rows_def)

lemma get_user_put:
  assumes "\<And>u. us_id (f u) = us_id u"
  shows "get_user (put_user uid f db) x = map_option (\<lambda>u. if us_id u = uid then f u else u) (get_user db x)"
  using find_put[of "\<lambda>u. us_id u = x" f "\<lambda>u. us_id u = uid" "users db"] assms
  by (simp add: get_user_def put_user_def)

lemma get_user_Some: "get_user db x = Some u \<Longrightarrow> u \<in> set (users db) \<and> us_id u = x"
  by (auto simp: get_user_def dest: find_Some_iff_first)

lemma get_account_Some: "get_account t x = Some a \<Longrightarrow> a \<in> set (accounts t) \<and> at_id a = x"
  by (auto simp: get_account_def dest: find_Some_iff_first)

lemma managed_account_Inr:
  assumes "managed_account uid db current_user = Inr u"
  shows "get_user db uid = Some u" and "us_id u = uid"
    and "us_role_type current_user = ORG_ADMIN \<or> us_role_type current_user = UNIT_ADMIN \<and> \<not> admin_role (us_role_type u)"
  using assms
  by (auto simp: managed_account_def user_or_404_def require_roles_def result_simps split: option.splits if_splits
      dest: get_user_Some)

lemma check_new_key_Inr:
  assumes "check_new_key env db cu p = Inr ()"
  shows "\<exists>u. get_user db (kc_user_id p) = Some u \<and> us_deactivated_at u = None"
  using assms by (auto simp: check_new_key_def result_simps split: option.splits if_splits)

section \<open>The reporting line\<close>

definition reports :: "database \<Rightarrow> (string \<times> string) set" where
  "reports db = {(u, m). manager_of db u = Some m}"

text \<open>When the walk does not come to the user, nobody on the way reports to them.\<close>

lemma walk_finds:
  assumes "\<not> reports_up_to db user_id seen boss" and "user_id \<notin> seen"
    and "\<forall>s \<in> seen. \<forall>m. manager_of db s = Some m \<longrightarrow> m \<in> seen \<or> boss = Some m"
  shows "\<forall>s \<in> seen \<union> set_option boss. (s, user_id) \<notin> (reports db)\<^sup>*"
  using assms
proof (induction db user_id seen boss rule: reports_up_to.induct)
  case (1 db user_id seen)
  have "x \<in> seen" if "(s, x) \<in> (reports db)\<^sup>*" "s \<in> seen" for s x
    using that by (induction rule: rtrancl_induct) (use 1(3) in \<open>auto simp: reports_def\<close>)
  with 1(2) show ?case by auto
next
  case (2 db user_id seen boss)
  show ?case
  proof (cases "boss \<in> seen")
    case True
    have "x \<in> seen" if "(s, x) \<in> (reports db)\<^sup>*" "s \<in> seen" for s x
      using that by (induction rule: rtrancl_induct) (use 2(4) True in \<open>auto simp: reports_def\<close>)
    with 2(3) True show ?thesis by auto
  next
    case False
    with 2(2) have "boss \<noteq> user_id" "\<not> reports_up_to db user_id (insert boss seen) (manager_of db boss)"
      by (auto split: if_splits)
    with 2(1)[OF False] 2(3,4) show ?thesis by auto
  qed
qed

lemma check_manager_Inr:
  assumes "check_manager user_id m db = Inr ()"
  shows "(m, user_id) \<notin> (reports db)\<^sup>*" and "\<exists>u. get_user db m = Some u \<and> us_deactivated_at u = None"
proof -
  from assms obtain u where u: "m \<noteq> user_id" "get_user db m = Some u" "us_deactivated_at u = None"
    "\<not> reports_up_to db user_id {m} (us_reporting_line_manager u)"
    by (auto simp: check_manager_def split: if_splits option.splits)
  then have "\<not> reports_up_to db user_id {m} (manager_of db m)" by (simp add: manager_of_def)
  from walk_finds[OF this] u(1) show "(m, user_id) \<notin> (reports db)\<^sup>*" by simp
  show "\<exists>u. get_user db m = Some u \<and> us_deactivated_at u = None" using u by blast
qed

lemma acyclic_one_more:
  assumes "acyclic (reports db)" and "reports db' \<subseteq> insert (u, m) (reports db)" and "(m, u) \<notin> (reports db)\<^sup>*"
  shows "acyclic (reports db')"
proof -
  have "acyclic (insert (u, m) (reports db))" using assms(1,3) by (simp add: acyclic_insert)
  then show ?thesis using acyclic_subset assms(2) by blast
qed

lemma reports_put_same:
  "(\<And>u. us_id (f u) = us_id u \<and> us_reporting_line_manager (f u) = us_reporting_line_manager u) \<Longrightarrow>
   reports (put_user uid f db) = reports db"
proof -
  assume f: "\<And>u. us_id (f u) = us_id u \<and> us_reporting_line_manager (f u) = us_reporting_line_manager u"
  then have "manager_of (put_user uid f db) x = manager_of db x" for x
    by (cases "get_user db x") (simp_all add: manager_of_def get_user_put)
  then show ?thesis by (simp add: reports_def)
qed

lemma create_user_reports:
  assumes "create_user h org feed s cu p = (ans, s')" and "acyclic (reports (pe_db s))"
  shows "acyclic (reports (pe_db s'))"
proof (cases "check_new_user s cu p")
  case (Inl e)
  with assms show ?thesis by (simp add: create_user_def)
next
  case (Inr x)
  then have db': "pe_db s' = (pe_db s)\<lparr>users := users (pe_db s) @ [new_user_row p]\<rparr>"
    using assms(1) by (auto simp: create_user_def)
  have look: "manager_of (pe_db s') x = Some m \<Longrightarrow>
      manager_of (pe_db s) x = Some m \<or> x = uc_id p \<and> uc_reporting_line_manager p = Some m" for x m
    by (auto simp: manager_of_def get_user_def db' find_append new_user_row_def split: option.splits if_splits)
  show ?thesis
  proof (cases "uc_reporting_line_manager p")
    case None
    then have "reports (pe_db s') \<subseteq> reports (pe_db s)" using look by (auto simp: reports_def)
    then show ?thesis using acyclic_subset assms(2) by blast
  next
    case (Some m)
    then have "check_manager (uc_id p) m (pe_db s) = Inr ()" using Inr by (auto simp: check_new_user_def result_simps)
    from check_manager_Inr(1)[OF this] look Some show ?thesis
      by (intro acyclic_one_more[OF assms(2), of _ "uc_id p" m]) (auto simp: reports_def)
  qed
qed

lemma update_user_reports:
  assumes "update_user s cu uid p = (ans, s')" and "acyclic (reports (pe_db s))"
  shows "acyclic (reports (pe_db s'))"
proof (cases "check_user_update s cu uid p")
  case (Inl e)
  with assms show ?thesis by (simp add: update_user_def)
next
  case (Inr u)
  then have db': "pe_db s' = put_user (us_id u) (patched_user p) (pe_db s)"
    using assms(1) by (auto simp: update_user_def)
  have id: "us_id (patched_user p x) = us_id x" for x by (simp add: patched_user_def)
  have look: "manager_of (pe_db s') x = Some m \<Longrightarrow>
      manager_of (pe_db s) x = Some m \<or> x = us_id u \<and> uu_reporting_line_manager p = Some (Some m)" for x m
    by (auto simp: manager_of_def db' get_user_put[of "patched_user p", OF id] patched_user_def sent_def
        split: option.splits if_splits dest: get_user_Some elim!: bind_eq_Some_conv[THEN iffD1, elim_format])
  show ?thesis
  proof (cases "\<exists>m. uu_reporting_line_manager p = Some (Some m)")
    case False
    then have "reports (pe_db s') \<subseteq> reports (pe_db s)" using look by (auto simp: reports_def)
    then show ?thesis using acyclic_subset assms(2) by blast
  next
    case True
    then obtain m where m: "uu_reporting_line_manager p = Some (Some m)" by blast
    then have "check_manager (us_id u) m (pe_db s) = Inr ()" using Inr
      by (auto simp: check_user_update_def result_simps)
    from check_manager_Inr(1)[OF this] look m show ?thesis
      by (intro acyclic_one_more[OF assms(2), of _ "us_id u" m]) (auto simp: reports_def)
  qed
qed

section \<open>Administration as steps\<close>

text \<open>One request of an administrator, refused or not.\<close>

inductive account_step :: "people \<Rightarrow> people \<Rightarrow> bool" where
  created: "create_user h org feed s cu p = (ans, s') \<Longrightarrow> account_step s s'"
| updated: "update_user s cu uid q = (ans1, s') \<Longrightarrow> account_step s s'"
| password_reset: "reset_user_password h raw feed s cu uid = (ans2, s') \<Longrightarrow> account_step s s'"
| deactivated: "deactivate_user today now feed s cu uid = (ans3, s') \<Longrightarrow> account_step s s'"
| reactivated: "reactivate_user s cu uid = (ans4, s') \<Longrightarrow> account_step s s'"
| status_set: "update_user_status s cu uid st = (ans5, s') \<Longrightarrow> account_step s s'"
| key_issued: "create_api_key env org raw s cu k = (ans6, s') \<Longrightarrow> account_step s s'"
| key_revoked: "revoke_api_key org s cu kid = (ans7, s') \<Longrightarrow> account_step s s'"

lemma account_step_reports:
  assumes "account_step s s'" and "acyclic (reports (pe_db s))"
  shows "acyclic (reports (pe_db s'))"
  using assms(1)
proof cases
  case created
  then show ?thesis using create_user_reports assms(2) by blast
next
  case updated
  then show ?thesis using update_user_reports assms(2) by blast
next
  case (deactivated today now feed cu uid ans)
  have "reports (pe_db s') = reports (pe_db s)"
    using deactivated by (auto simp: deactivate_user_def close_account_def Let_def reports_put_same split: sum.splits if_splits)
  then show ?thesis using assms(2) by simp
next
  case (reactivated cu uid ans)
  have "reports (pe_db s') = reports (pe_db s)"
    using reactivated by (auto simp: reactivate_user_def reports_put_same split: sum.splits if_splits)
  then show ?thesis using assms(2) by simp
next
  case (status_set cu uid st ans)
  have "reports (pe_db s') = reports (pe_db s)"
    using status_set by (auto simp: update_user_status_def reports_put_same split: sum.splits if_splits)
  then show ?thesis using assms(2) by simp
qed (use assms(2) in \<open>auto simp: reset_user_password_def create_api_key_def revoke_api_key_def Let_def split: sum.splits if_splits\<close>)

section \<open>Shut out\<close>

text \<open>An account that is deactivated, with no refresh token and no key left, in both tables that know it.\<close>

definition auth_shut :: "string \<Rightarrow> auth_tables \<Rightarrow> bool" where
  "auth_shut uid t \<longleftrightarrow> uid \<in> set (map at_id (accounts t)) \<and>
     (\<forall>a \<in> set (accounts t). at_id a = uid \<longrightarrow> at_deactivated_at a \<noteq> None) \<and>
     (\<forall>r \<in> set (refresh_tokens t). rt_user_id r \<noteq> uid) \<and> (\<forall>k \<in> set (api_keys t). ak_user_id k \<noteq> uid)"

definition shut_out :: "string \<Rightarrow> people \<Rightarrow> bool" where
  "shut_out uid s \<longleftrightarrow> auth_shut uid (pe_auth s) \<and>
     (\<forall>u \<in> set (users (pe_db s)). us_id u = uid \<longrightarrow> us_deactivated_at u \<noteq> None)"

lemma auth_shutD:
  assumes "auth_shut uid t"
  shows "uid \<in> set (map at_id (accounts t))"
    and "a \<in> set (accounts t) \<Longrightarrow> at_deactivated_at a = None \<Longrightarrow> at_id a \<noteq> uid"
    and "r \<in> set (refresh_tokens t) \<Longrightarrow> rt_user_id r \<noteq> uid"
    and "k \<in> set (api_keys t) \<Longrightarrow> ak_user_id k \<noteq> uid"
  using assms by (auto simp: auth_shut_def)

lemma auth_shut_tokens:
  assumes "auth_shut uid t" and "\<And>r. r \<in> set rows \<Longrightarrow> rt_user_id r \<noteq> uid"
  shows "auth_shut uid (t\<lparr>refresh_tokens := rows\<rparr>)"
  using assms by (simp add: auth_shut_def)

lemma auth_shut_minted:
  assumes "auth_shut uid t" and "mint_refresh_token env raw who family (refresh_tokens t) = Inr rows" and "who \<noteq> uid"
  shows "auth_shut uid (t\<lparr>refresh_tokens := rows\<rparr>)"
proof (rule auth_shut_tokens[OF assms(1)])
  fix r assume "r \<in> set rows"
  then have "r \<in> set (refresh_tokens t) \<or> rt_user_id r = who"
    using assms(2) by (auto simp: mint_refresh_token_def split: if_splits)
  then show "rt_user_id r \<noteq> uid" using auth_shutD(3)[OF assms(1)] assms(3) by auto
qed

lemma auth_shut_accounts:
  assumes "auth_shut uid t" and "\<And>a. at_id (f a) = at_id a"
    and "\<And>a. at_deactivated_at a \<noteq> None \<Longrightarrow> who = uid \<Longrightarrow> at_deactivated_at (f a) \<noteq> None"
  shows "auth_shut uid (put_account who f t)"
  unfolding auth_shut_def
proof (intro conjI ballI impI)
  have "map at_id (update_rows (\<lambda>a. at_id a = who) f (accounts t)) = map at_id (accounts t)"
    by (rule map_update_rows_id) (rule assms(2))
  then show "uid \<in> set (map at_id (accounts (put_account who f t)))"
    using auth_shutD(1)[OF assms(1)] by (simp only: put_account_def) simp
  fix a assume a: "a \<in> set (accounts (put_account who f t))" "at_id a = uid"
  then obtain b where b: "b \<in> set (accounts t)" "a = (if at_id b = who then f b else b)"
    by (auto simp: put_account_def update_rows_def)
  then have "at_id b = uid" using a(2) assms(2) by (auto split: if_splits)
  then have "at_deactivated_at b \<noteq> None" using assms(1) b(1) by (auto simp: auth_shut_def)
  with b \<open>at_id b = uid\<close> assms(3) show "at_deactivated_at a \<noteq> None" by auto
qed (use assms(1) in \<open>auto simp: auth_shut_def put_account_def\<close>)

text \<open>Only an account that is not deactivated is minted a token.\<close>

lemma login_mints:
  assumes "login env budget t email pw raw family = (ans, spent, t')"
  obtains (refused) "t' = t" "\<And>r. ans \<noteq> Inr r"
  | (minted) a rows where "a \<in> set (accounts t)" "at_deactivated_at a = None" "ans = Inr (token_response_of raw a)"
      "mint_refresh_token env raw (at_id a) family (refresh_tokens t) = Inr rows" "t' = t\<lparr>refresh_tokens := rows\<rparr>"
proof (cases budget)
  case None
  show ?thesis
  proof (cases "find (\<lambda>a. lower (at_email_address a) = normalize_email email) (accounts t)")
    case None
    then show ?thesis using \<open>budget = None\<close> assms that(1) by (auto simp: login_def)
  next
    case (Some a)
    then have a: "a \<in> set (accounts t)" by (auto dest: find_Some_iff_first)
    have login: "login env budget t email pw raw family =
        (if \<not> ae_checkpw env pw (at_credential_secure_hash a) \<or> at_deactivated_at a \<noteq> None
         then (Inl (Auth_Refused 401 INVALID_CREDENTIALS ''Invalid credentials''), True, t)
         else (case mint_refresh_token env raw (at_id a) family (refresh_tokens t) of
             Inl e \<Rightarrow> (Inl e, False, t)
           | Inr rows \<Rightarrow> (Inr (token_response_of raw a), False, t\<lparr>refresh_tokens := rows\<rparr>)))"
      unfolding login_def None Some Let_def by simp
    show ?thesis
    proof (cases "mint_refresh_token env raw (at_id a) family (refresh_tokens t)")
      case (Inl e)
      then show ?thesis using assms that(1) unfolding login by (auto split: if_splits)
    next
      case (Inr rows)
      show ?thesis
      proof (cases "\<not> ae_checkpw env pw (at_credential_secure_hash a) \<or> at_deactivated_at a \<noteq> None")
        case True
        then show ?thesis using assms that(1) unfolding login by auto
      next
        case False
        then show ?thesis using assms that(2)[OF a _ _ Inr] Inr unfolding login by auto
      qed
    qed
  qed
next
  case (Some e)
  with assms have "t' = t" "ans = Inl e" by (simp_all add: login_def)
  then show ?thesis by (intro that(1)) auto
qed

lemma login_shut:
  assumes "auth_shut uid t" and "login env budget t email pw raw family = (ans, spent, t')"
  shows "auth_shut uid t' \<and> (\<forall>r. ans = Inr r \<longrightarrow> tr_user_id r \<noteq> uid)"
  using assms(2)
proof (cases rule: login_mints)
  case refused
  then show ?thesis using assms(1) by simp
next
  case (minted a rows)
  have who: "at_id a \<noteq> uid" by (rule auth_shutD(2)[OF assms(1) minted(1,2)])
  have "auth_shut uid t'" unfolding minted(5) by (rule auth_shut_minted[OF assms(1) minted(4) who])
  then show ?thesis using who unfolding minted(3) token_response_of_def by simp
qed

lemma refresh_shut:
  assumes "auth_shut uid t" and "auth_shut uid t1" and "refresh env (\<lambda>_. t1) t raw new_raw = (ans, t')"
  shows "auth_shut uid t' \<and> (\<forall>r. ans = Inr r \<longrightarrow> tr_user_id r \<noteq> uid)"
proof (cases "find (\<lambda>r. rt_token_hash r = hash_refresh_token env raw) (refresh_tokens t)")
  case None
  with assms show ?thesis by (auto simp: refresh_def)
next
  case (Some row)
  define t2 where "t2 = t1\<lparr>refresh_tokens := update_rows (\<lambda>r. rt_id r = rt_id row \<and> rt_consumed_at r = None)
      (\<lambda>r. r\<lparr>rt_consumed_at := Some (ae_now env)\<rparr>) (refresh_tokens t1)\<rparr>"
  have t2: "auth_shut uid t2" unfolding t2_def
    by (rule auth_shut_tokens[OF assms(2)]) (auto simp: update_rows_def dest: auth_shutD(3)[OF assms(2)])
  have less: "auth_shut uid (t1\<lparr>refresh_tokens := filter P (refresh_tokens t1)\<rparr>)" for P
    by (rule auth_shut_tokens[OF assms(2)]) (use auth_shutD(3)[OF assms(2)] in auto)
  have minted: "auth_shut uid (t2\<lparr>refresh_tokens := rows\<rparr>) \<and> at_id a \<noteq> uid"
    if "get_account t2 (rt_user_id row) = Some a" "at_deactivated_at a = None"
      "mint_refresh_token env new_raw (at_id a) (rt_family_id row) (refresh_tokens t2) = Inr rows" for a rows
  proof
    show who: "at_id a \<noteq> uid" using get_account_Some[OF that(1)] that(2) auth_shutD(2)[OF t2] by blast
    show "auth_shut uid (t2\<lparr>refresh_tokens := rows\<rparr>)" by (rule auth_shut_minted[OF t2 that(3) who])
  qed
  have *: "refresh env (\<lambda>_. t1) t raw new_raw = (case rt_consumed_at row of
      Some used \<Rightarrow> if ae_now env - used > REUSE_GRACE
        then (Inl (Auth_Refused 401 REFRESH_TOKEN_REUSED ''Refresh token reused; sign in again''),
          t1\<lparr>refresh_tokens := end_family (rt_family_id row) (refresh_tokens t1)\<rparr>)
        else (Inl (Auth_Refused 401 REFRESH_TOKEN_USED ''Refresh token already used''), t)
    | None \<Rightarrow> if rt_expires_at row < ae_now env
        then (Inl (Auth_Refused 401 REFRESH_TOKEN_EXPIRED ''Refresh token expired''),
          t1\<lparr>refresh_tokens := filter (\<lambda>r. rt_id r \<noteq> rt_id row) (refresh_tokens t1)\<rparr>)
        else if \<not> list_ex (\<lambda>r. rt_id r = rt_id row \<and> rt_consumed_at r = None) (refresh_tokens t1)
        then (Inl (Auth_Refused 401 REFRESH_TOKEN_USED ''Refresh token already used''), t1)
        else (case get_account t2 (rt_user_id row) of
            Some a \<Rightarrow> if at_deactivated_at a \<noteq> None
              then (Inl (Auth_Refused 401 REFRESH_TOKEN_INVALID ''Invalid refresh token''), t2)
              else (case mint_refresh_token env new_raw (at_id a) (rt_family_id row) (refresh_tokens t2) of
                  Inl e \<Rightarrow> (Inl e, t1)
                | Inr rows \<Rightarrow> (Inr (token_response_of new_raw a), t2\<lparr>refresh_tokens := rows\<rparr>))
          | None \<Rightarrow> (Inl (Auth_Refused 401 REFRESH_TOKEN_INVALID ''Invalid refresh token''), t2)))"
    unfolding refresh_def Some t2_def Let_def by simp
  show ?thesis using assms(3) unfolding * end_family_def
    using assms(1,2) t2 less
    by (auto simp: token_response_of_def dest: minted split: option.splits if_split_asm sum.splits)
qed

lemma logout_shut: "auth_shut uid t \<Longrightarrow> auth_shut uid (logout env t raw)"
  by (auto simp: logout_def end_family_def intro!: auth_shut_tokens dest: auth_shutD(3) split: option.splits)

lemma purge_shut: "auth_shut uid t \<Longrightarrow> auth_shut uid (snd (purge_expired_refresh_tokens now t))"
  by (auto simp: purge_expired_refresh_tokens_def intro!: auth_shut_tokens dest: auth_shutD(3))

text \<open>A request with a token or a key is never the account's.\<close>

lemma request_shut:
  assumes "auth_shut uid t" and "get_current_user env decode t req = Inr a"
  shows "at_id a \<noteq> uid"
proof -
  from assms(2) obtain who where "get_account t who = Some a" "at_deactivated_at a = None"
    by (auto simp: get_current_user_def result_simps refuse_def split: option.splits if_splits)
  then show ?thesis using auth_shutD(2)[OF assms(1)] get_account_Some by blast
qed

lemma change_password_shut:
  assumes "auth_shut uid t" and "at_id u \<noteq> uid"
    and "change_password env t u old new new_hash feed raw family = (ans, t')"
  shows "auth_shut uid t'"
proof -
  let ?own = "filter (\<lambda>r. rt_user_id r \<noteq> at_id u) (refresh_tokens t)"
  let ?f = "\<lambda>a. a\<lparr>at_credential_secure_hash := new_hash, at_initial_login_state := False, at_calendar_feed_token := Some feed\<rparr>"
  have own: "auth_shut uid (t\<lparr>refresh_tokens := ?own\<rparr>)"
    by (rule auth_shut_tokens[OF assms(1)]) (auto dest: auth_shutD(3)[OF assms(1)])
  show ?thesis
  proof (cases "t' = t")
    case False
    then obtain rows where rows: "mint_refresh_token env raw (at_id u) family ?own = Inr rows"
      "t' = put_account (at_id u) ?f (t\<lparr>refresh_tokens := rows\<rparr>)"
      using assms(3) by (auto simp: change_password_def put_account_def split: if_splits sum.splits)
    have "auth_shut uid (t\<lparr>refresh_tokens := ?own, refresh_tokens := rows\<rparr>)"
      by (rule auth_shut_minted[OF own _ assms(2)]) (use rows(1) in simp)
    then show ?thesis unfolding rows(2) by (intro auth_shut_accounts) simp_all
  qed (use assms(1) in simp)
qed

section \<open>Administration and the shut-out account\<close>

lemma shut_out_users:
  assumes "shut_out uid s" and "\<And>u. us_id (f u) = us_id u"
    and "\<And>u. us_deactivated_at u \<noteq> None \<Longrightarrow> who = uid \<Longrightarrow> us_deactivated_at (f u) \<noteq> None"
    and "auth_shut uid t"
  shows "shut_out uid (s\<lparr>pe_db := put_user who f (pe_db s), pe_auth := t\<rparr>)"
proof -
  have "us_deactivated_at u \<noteq> None" if "u \<in> set (users (put_user who f (pe_db s)))" "us_id u = uid" for u
  proof -
    have "u \<in> (\<lambda>b. if us_id b = who then f b else b) ` set (users (pe_db s))"
      using that(1) by (simp add: put_user_def update_rows_def)
    then obtain b where b: "b \<in> set (users (pe_db s))" "u = (if us_id b = who then f b else b)" by blast
    then have "us_id b = uid" using that(2) assms(2) by (auto split: if_splits)
    then have "us_deactivated_at b \<noteq> None" using assms(1) b(1) by (auto simp: shut_out_def)
    with b \<open>us_id b = uid\<close> assms(3) show ?thesis by auto
  qed
  then show ?thesis using assms(4) by (simp add: shut_out_def)
qed

definition reactivates :: "string \<Rightarrow> people \<Rightarrow> people \<Rightarrow> bool" where
  "reactivates uid s s' \<longleftrightarrow> (\<exists>cu u. reactivate_user s cu uid = (Inr u, s'))"

lemma shut_outD:
  assumes "shut_out uid s"
  shows "auth_shut uid (pe_auth s)"
    and "u \<in> set (users (pe_db s)) \<Longrightarrow> us_id u = uid \<Longrightarrow> us_deactivated_at u \<noteq> None"
  using assms by (auto simp: shut_out_def)

lemma auth_shut_less:
  assumes "auth_shut uid t" and "set rows \<subseteq> set (refresh_tokens t)" and "set keys \<subseteq> set (api_keys t)"
  shows "auth_shut uid (t\<lparr>refresh_tokens := rows, api_keys := keys\<rparr>)"
  using assms by (auto simp: auth_shut_def)

lemma account_step_shut:
  assumes "account_step s s'" and "shut_out uid s" and "\<not> reactivates uid s s'"
  shows "shut_out uid s'"
  using assms(1)
proof cases
  case (created h org feed cu p ans)
  show ?thesis
  proof (cases "check_new_user s cu p")
    case (Inr x)
    then have new: "uc_id p \<noteq> uid"
      using auth_shutD(1)[OF shut_outD(1)[OF assms(2)]] by (auto simp: check_new_user_def id_taken_def result_simps)
    show ?thesis using created Inr assms(2) new
      by (auto simp: create_user_def shut_out_def auth_shut_def new_account_def new_user_row_def)
  qed (use created assms(2) in \<open>auto simp: create_user_def\<close>)
next
  case (updated cu who q ans)
  show ?thesis
  proof (cases "check_user_update s cu who q")
    case (Inr u)
    have "shut_out uid (s\<lparr>pe_db := put_user (us_id u) (patched_user q) (pe_db s),
        pe_auth := put_account (us_id u) (patched_account q) (pe_auth s)\<rparr>)"
      by (intro shut_out_users[OF assms(2)] auth_shut_accounts[OF shut_outD(1)[OF assms(2)]])
        (simp_all add: patched_user_def patched_account_def)
    then show ?thesis using updated Inr by (simp add: update_user_def)
  qed (use updated assms(2) in \<open>auto simp: update_user_def\<close>)
next
  case (password_reset h raw feed cu who ans)
  show ?thesis
  proof (cases "managed_account who (pe_db s) cu")
    case (Inr u)
    let ?f = "\<lambda>a. a\<lparr>at_credential_secure_hash := h raw, at_calendar_feed_token := Some feed, at_initial_login_state := True\<rparr>"
    have acc: "auth_shut uid (put_account (us_id u) ?f (pe_auth s))"
      by (rule auth_shut_accounts[OF shut_outD(1)[OF assms(2)]]) simp_all
    have "auth_shut uid ((put_account (us_id u) ?f (pe_auth s))\<lparr>refresh_tokens :=
        filter (\<lambda>r. rt_user_id r \<noteq> us_id u) (refresh_tokens (put_account (us_id u) ?f (pe_auth s)))\<rparr>)"
      by (rule auth_shut_tokens[OF acc]) (auto dest: auth_shutD(3)[OF acc])
    then have "auth_shut uid (pe_auth s')" using password_reset Inr by (auto simp: reset_user_password_def Let_def)
    moreover have "pe_db s' = pe_db s" using password_reset Inr by (auto simp: reset_user_password_def Let_def)
    ultimately show ?thesis using assms(2) by (simp add: shut_out_def)
  qed (use password_reset assms(2) in \<open>auto simp: reset_user_password_def\<close>)
next
  case (deactivated today now feed cu who ans)
  show ?thesis
  proof (cases "s' = s")
    case False
    then have "\<exists>w. s' = close_account now feed w s"
      using deactivated by (auto simp: deactivate_user_def Let_def split: sum.splits if_splits)
    then obtain w where s': "s' = close_account now feed w s" by blast
    show ?thesis unfolding s' close_account_def Let_def
      by (intro shut_out_users[OF assms(2)] auth_shut_less auth_shut_accounts[OF shut_outD(1)[OF assms(2)]]) auto
  qed (use assms(2) in simp)
next
  case (reactivated cu who ans)
  show ?thesis
  proof (cases "s' = s")
    case False
    then have "\<exists>u. managed_account who (pe_db s) cu = Inr u \<and> ans = Inr (u\<lparr>us_deactivated_at := None\<rparr>) \<and>
        s' = s\<lparr>pe_db := put_user (us_id u) (\<lambda>x. x\<lparr>us_deactivated_at := None\<rparr>) (pe_db s),
          pe_auth := put_account (us_id u) (\<lambda>a. a\<lparr>at_deactivated_at := None\<rparr>) (pe_auth s)\<rparr>"
      using reactivated by (auto simp: reactivate_user_def split: sum.splits if_splits)
    then obtain u where u: "managed_account who (pe_db s) cu = Inr u" "ans = Inr (u\<lparr>us_deactivated_at := None\<rparr>)"
      and s': "s' = s\<lparr>pe_db := put_user (us_id u) (\<lambda>x. x\<lparr>us_deactivated_at := None\<rparr>) (pe_db s),
        pe_auth := put_account (us_id u) (\<lambda>a. a\<lparr>at_deactivated_at := None\<rparr>) (pe_auth s)\<rparr>" by blast
    have "us_id u \<noteq> uid" using assms(3) reactivated u managed_account_Inr(2)[OF u(1)] by (auto simp: reactivates_def)
    then show ?thesis unfolding s'
      by (intro shut_out_users[OF assms(2)] auth_shut_accounts[OF shut_outD(1)[OF assms(2)]]) auto
  qed (use assms(2) in simp)
next
  case (status_set cu who st ans)
  show ?thesis
  proof (cases "s' = s")
    case False
    then have "\<exists>w. s' = s\<lparr>pe_db := put_user w (\<lambda>x. x\<lparr>us_current_occupancy_index := st\<rparr>) (pe_db s)\<rparr>"
      using status_set by (auto simp: update_user_status_def split: sum.splits if_splits)
    then obtain w where s': "s' = s\<lparr>pe_db := put_user w (\<lambda>x. x\<lparr>us_current_occupancy_index := st\<rparr>) (pe_db s)\<rparr>" by blast
    have "shut_out uid (s\<lparr>pe_db := put_user w (\<lambda>x. x\<lparr>us_current_occupancy_index := st\<rparr>) (pe_db s), pe_auth := pe_auth s\<rparr>)"
      by (rule shut_out_users[OF assms(2) _ _ shut_outD(1)[OF assms(2)]]) simp_all
    then show ?thesis unfolding s' by simp
  qed (use assms(2) in simp)
next
  case (key_issued env org raw cu k ans)
  show ?thesis
  proof (cases "s' = s")
    case False
    let ?key = "new_api_key env org raw k (api_keys (pe_auth s))"
    have "check_new_key env (pe_db s) cu k = Inr () \<and>
        s' = s\<lparr>pe_auth := (pe_auth s)\<lparr>api_keys := api_keys (pe_auth s) @ [?key]\<rparr>\<rparr>"
      using key_issued False by (auto simp: create_api_key_def Let_def split: sum.splits if_splits)
    then have issued: "check_new_key env (pe_db s) cu k = Inr ()"
      and s': "s' = s\<lparr>pe_auth := (pe_auth s)\<lparr>api_keys := api_keys (pe_auth s) @ [?key]\<rparr>\<rparr>" by blast+
    obtain u where u: "get_user (pe_db s) (kc_user_id k) = Some u" "us_deactivated_at u = None"
      using check_new_key_Inr[OF issued] by blast
    have "ak_user_id ?key \<noteq> uid"
      using u(2) shut_outD(2)[OF assms(2), of u] get_user_Some[OF u(1)] by (auto simp: new_api_key_def)
    then show ?thesis using assms(2) unfolding s' by (auto simp: shut_out_def auth_shut_def)
  qed (use assms(2) in simp)
next
  case (key_revoked org cu kid ans)
  then show ?thesis using assms(2)
    by (auto simp: revoke_api_key_def shut_out_def auth_shut_def split: sum.splits)
qed

text \<open>
  What goes on around a deactivated account: administration other than reactivating it, people signing
  in and out, changing their passwords and refreshing (with whatever is committed between the read and
  the update), and the nightly purge.
\<close>

inductive account_run :: "string \<Rightarrow> people \<Rightarrow> people \<Rightarrow> bool" for uid where
  stays: "account_run uid s s"
| administers: "account_run uid s s1 \<Longrightarrow> account_step s1 s2 \<Longrightarrow> \<not> reactivates uid s1 s2 \<Longrightarrow> account_run uid s s2"
| signs_in: "account_run uid s s1 \<Longrightarrow> login env budget (pe_auth s1) email pw raw family = (ans, spent, t) \<Longrightarrow>
    account_run uid s (s1\<lparr>pe_auth := t\<rparr>)"
| refreshes: "account_run uid s s1 \<Longrightarrow> account_run uid s1 s2 \<Longrightarrow>
    refresh env (\<lambda>_. pe_auth s2) (pe_auth s1) raw new_raw = (ans1, t) \<Longrightarrow> account_run uid s (s2\<lparr>pe_auth := t\<rparr>)"
| signs_out: "account_run uid s s1 \<Longrightarrow> account_run uid s (s1\<lparr>pe_auth := logout env (pe_auth s1) raw\<rparr>)"
| changes_password: "account_run uid s s1 \<Longrightarrow> get_current_user env decode (pe_auth s1) req = Inr u \<Longrightarrow>
    change_password env (pe_auth s1) u old new new_hash feed raw family = (ans2, t) \<Longrightarrow>
    account_run uid s (s1\<lparr>pe_auth := t\<rparr>)"
| purges: "account_run uid s s1 \<Longrightarrow>
    account_run uid s (s1\<lparr>pe_auth := snd (purge_expired_refresh_tokens now (pe_auth s1))\<rparr>)"

lemma shut_out_auth: "shut_out uid s \<Longrightarrow> auth_shut uid t \<Longrightarrow> shut_out uid (s\<lparr>pe_auth := t\<rparr>)"
  by (simp add: shut_out_def)

lemma account_run_shut: "account_run uid s s' \<Longrightarrow> shut_out uid s \<Longrightarrow> shut_out uid s'"
proof (induction rule: account_run.induct)
  case (administers s s1 s2)
  then show ?case using account_step_shut by blast
next
  case (signs_in s s1 env budget email pw raw family ans spent t)
  then show ?case using login_shut[OF shut_outD(1)[OF signs_in(3)[OF signs_in(4)]] signs_in(2)] by (blast intro: shut_out_auth)
next
  case (refreshes s s1 s2 env raw new_raw ans1 t)
  then have "shut_out uid s1" "shut_out uid s2" by blast+
  then show ?case using refresh_shut[OF shut_outD(1) shut_outD(1) refreshes(3)] by (blast intro: shut_out_auth)
next
  case (changes_password s s1 env decode req u old new new_hash feed raw family ans2 t)
  then have s1: "auth_shut uid (pe_auth s1)" using shut_outD(1) by blast
  have "auth_shut uid t" by (rule change_password_shut[OF s1 request_shut[OF s1 changes_password(2)] changes_password(3)])
  then show ?case using changes_password by (blast intro: shut_out_auth)
qed (blast intro: shut_out_auth logout_shut purge_shut dest: shut_outD(1))+

lemma deactivate_shuts:
  assumes "deactivate_user today now feed s cu uid = (Inr (u, items, True), s1)" and "id_taken (pe_auth s) uid"
  shows "shut_out uid s1"
proof -
  have "s1 = close_account now feed uid s"
    using assms(1) by (auto simp: deactivate_user_def Let_def split: sum.splits if_splits dest: managed_account_Inr(2))
  then show ?thesis using assms(2)
    by (auto simp: close_account_def Let_def shut_out_def auth_shut_def id_taken_def put_account_def put_user_def
        update_rows_def image_iff split: if_splits)
qed

section \<open>Addresses, administrators, keys\<close>

definition emails_unique :: "auth_tables \<Rightarrow> bool" where
  "emails_unique t \<longleftrightarrow> distinct (map (\<lambda>a. lower (at_email_address a)) (accounts t))"

lemma lower_normalize [simp]: "lower (normalize_email e) = normalize_email e"
  by (simp add: normalize_email_def lower_def)

lemma create_user_Inr:
  assumes "create_user h org feed s cu p = (Inr u, s')"
  shows "pe_auth s' = (pe_auth s)\<lparr>accounts := accounts (pe_auth s) @ [new_account (uc_id p) (uc_full_name p)
      (uc_email_address p) (h (uc_password p)) (uc_role_type p) org feed]\<rparr>"
    and "\<forall>a \<in> set (accounts (pe_auth s)). lower (at_email_address a) \<noteq> normalize_email (uc_email_address p)"
  using assms by (auto simp: create_user_def check_new_user_def result_simps email_taken_def list_ex_iff
      split: sum.splits if_splits)

lemma create_user_emails:
  assumes "emails_unique (pe_auth s)" and "create_user h org feed s cu p = (ans, s')"
  shows "emails_unique (pe_auth s')"
proof (cases ans)
  case (Inl e)
  then show ?thesis using assms by (auto simp: create_user_def split: sum.splits)
next
  case (Inr u)
  note made = create_user_Inr[OF assms(2)[unfolded Inr]]
  have "normalize_email (uc_email_address p) \<notin> (\<lambda>a. lower (at_email_address a)) ` set (accounts (pe_auth s))"
    using made(2) by (metis imageE)
  then show ?thesis using assms(1) by (simp add: made(1) emails_unique_def new_account_def)
qed

lemma update_user_emails:
  assumes "emails_unique (pe_auth s)" and "distinct (map at_id (accounts (pe_auth s)))"
    and "update_user s cu uid q = (ans, s')"
  shows "emails_unique (pe_auth s')"
proof (cases "check_user_update s cu uid q")
  case (Inr u)
  let ?f = "\<lambda>a. if at_id a = us_id u then patched_account q a else a"
  have s': "pe_auth s' = put_account (us_id u) (patched_account q) (pe_auth s)"
    using assms(3) Inr by (auto simp: update_user_def)
  have same: "lower (at_email_address (?f a)) = lower (at_email_address a)" if "uu_email_address q = None" for a
    using that by (simp add: patched_account_def sent_def)
  have taken: "\<not> email_taken (pe_auth s) (Some (us_id u)) e" if "uu_email_address q = Some e" for e
    using Inr that by (auto simp: check_user_update_def result_simps split: if_splits)
  have "inj_on (\<lambda>a. lower (at_email_address (?f a))) (set (accounts (pe_auth s)))"
  proof (rule inj_onI)
    fix a b assume ab: "a \<in> set (accounts (pe_auth s))" "b \<in> set (accounts (pe_auth s))"
      "lower (at_email_address (?f a)) = lower (at_email_address (?f b))"
    have old: "a = b" if "lower (at_email_address a) = lower (at_email_address b)"
      using assms(1) ab(1,2) that by (auto simp: emails_unique_def distinct_map dest: inj_onD)
    have ids: "a = b" if "at_id a = at_id b"
      using assms(2) ab(1,2) that by (auto simp: distinct_map dest: inj_onD)
    show "a = b"
    proof (cases "uu_email_address q")
      case None
      then show ?thesis using old ab(3) by (simp add: same)
    next
      case (Some e)
      have other: "lower (at_email_address c) \<noteq> normalize_email e"
        if "c \<in> set (accounts (pe_auth s))" "at_id c \<noteq> us_id u" for c
        using taken[OF Some] that by (auto simp: email_taken_def list_ex_iff)
      have new: "lower (at_email_address (patched_account q c)) = normalize_email e" for c
        using Some by (simp add: patched_account_def sent_def)
      show ?thesis using ab old ids other new by (auto split: if_splits)
    qed
  qed
  then show ?thesis using assms(2) by (simp add: s' emails_unique_def put_account_def update_rows_def distinct_map o_def)
qed (use assms in \<open>auto simp: update_user_def\<close>)

text \<open>Nobody can deactivate the last administrator: it would have to be themselves.\<close>

definition has_admin :: "database \<Rightarrow> bool" where
  "has_admin db \<longleftrightarrow> (\<exists>u \<in> set (users db). us_role_type u = ORG_ADMIN \<and> us_deactivated_at u = None)"

lemma deactivate_leaves_an_admin:
  assumes "deactivate_user today now feed s cu uid = (ans, s')" and "has_admin (pe_db s)"
    and "cu \<in> set (users (pe_db s))" and "us_deactivated_at cu = None" and "distinct (map us_id (users (pe_db s)))"
  shows "has_admin (pe_db s')"
proof (cases "s' = s")
  case False
  have "\<exists>u. managed_account uid (pe_db s) cu = Inr u \<and> us_id u \<noteq> us_id cu \<and> s' = close_account now feed (us_id u) s"
    using assms(1) False by (auto simp: deactivate_user_def Let_def split: sum.splits if_splits)
  then obtain u where u: "managed_account uid (pe_db s) cu = Inr u" "us_id u \<noteq> us_id cu"
    and s': "s' = close_account now feed (us_id u) s" by blast
  note m = managed_account_Inr[OF u(1)]
  have kept: "x \<in> set (users (pe_db s'))" if "x \<in> set (users (pe_db s))" "us_id x \<noteq> us_id u" for x
    using that by (auto simp: s' close_account_def Let_def put_user_def update_rows_def image_iff intro!: bexI[of _ x])
  show ?thesis
  proof (cases "us_role_type cu = ORG_ADMIN")
    case True
    then show ?thesis using kept[OF assms(3)] u(2) assms(4) by (auto simp: has_admin_def)
  next
    case False
    then have "\<not> admin_role (us_role_type u)" using m(3) by blast
    moreover obtain a where a: "a \<in> set (users (pe_db s))" "us_role_type a = ORG_ADMIN" "us_deactivated_at a = None"
      using assms(2) by (auto simp: has_admin_def)
    ultimately have "a \<noteq> u" by (auto simp: admin_role_def)
    then have "us_id a \<noteq> us_id u"
      using assms(5) a(1) get_user_Some[OF m(1)] by (auto simp: distinct_map dest: inj_onD)
    then show ?thesis using kept[OF a(1)] a(2,3) by (auto simp: has_admin_def)
  qed
qed (use assms(2) in simp)

text \<open>A created account signs in with its password, whatever the case of the address.\<close>

lemma created_user_signs_in:
  assumes "create_user h org feed s cu p = (Inr u, s')" and "normalize_email email = normalize_email (uc_email_address p)"
    and "ae_checkpw env (uc_password p) (h (uc_password p))"
    and "mint_refresh_token env raw (uc_id p) family (refresh_tokens (pe_auth s)) = Inr rows"
  shows "\<exists>r. login env None (pe_auth s') email (uc_password p) raw family =
      (Inr r, False, (pe_auth s')\<lparr>refresh_tokens := rows\<rparr>) \<and> tr_user_id r = uc_id p"
proof -
  let ?a = "new_account (uc_id p) (uc_full_name p) (uc_email_address p) (h (uc_password p)) (uc_role_type p) org feed"
  note s' = create_user_Inr(1)[OF assms(1)]
  have "find (\<lambda>a. lower (at_email_address a) = normalize_email email) (accounts (pe_auth s)) = None"
    using create_user_Inr(2)[OF assms(1)] assms(2) by (simp add: find_None_iff)
  then have "find (\<lambda>a. lower (at_email_address a) = normalize_email email) (accounts (pe_auth s')) = Some ?a"
    using assms(2) by (simp add: s' find_append new_account_def)
  then show ?thesis using assms(3,4)
    by (simp add: login_def Let_def s' new_account_def token_response_of_def)
qed

text \<open>Scopes are written with commas and read back.\<close>

lemma issued_key_reaches_its_area:
  assumes "create_api_key env org raw s cu p = (Inr (row, shown), s')" and "kc_scopes p = Some ss" and "ss \<noteq> []"
    and "\<forall>w \<in> set ss. CHR '','' \<notin> set w" and "required_scope meth path = Some n" and "n \<in> set ss" and "strip n = n" and "n \<noteq> []"
    and "raw \<noteq> []"
  shows "get_current_user_id env decode (pe_auth s')
      \<lparr>cr_bearer = None, cr_api_key = Some shown, cr_acting_for = None, cr_method = meth, cr_path = path\<rparr> =
    Inr \<lparr>ca_user_id = kc_user_id p, ca_identity = ''key:'' @ show_int (ak_id row), ca_by_key = True\<rparr>"
proof -
  let ?key = "new_api_key env org raw p (api_keys (pe_auth s))"
  have "row = ?key \<and> shown = raw \<and> check_new_key env (pe_db s) cu p = Inr () \<and>
      s' = s\<lparr>pe_auth := (pe_auth s)\<lparr>api_keys := api_keys (pe_auth s) @ [?key]\<rparr>\<rparr> \<and>
      ak_key_hash ?key \<notin> set (map ak_key_hash (api_keys (pe_auth s)))"
    using assms(1) by (auto simp: create_api_key_def Let_def split: sum.splits if_splits)
  then have row: "row = ?key" and shown: "shown = raw" and ok: "check_new_key env (pe_db s) cu p = Inr ()"
    and s': "api_keys (pe_auth s') = api_keys (pe_auth s) @ [?key]"
    and new: "ak_key_hash ?key \<notin> set (map ak_key_hash (api_keys (pe_auth s)))" by auto
  have hash: "ak_key_hash ?key = ae_sha256 env raw" by (simp add: new_api_key_def hash_api_key_def)
  have "find (\<lambda>k. ak_key_hash k = ae_sha256 env raw) (api_keys (pe_auth s)) = None"
    using new unfolding hash find_None_iff by (metis image_eqI set_map)
  then have found: "find (\<lambda>k. ak_key_hash k = ae_sha256 env raw) (api_keys (pe_auth s')) = Some ?key"
    by (simp add: s' find_append hash)
  have live: "\<not> (case ak_expires_at ?key of None \<Rightarrow> False | Some e \<Rightarrow> e \<le> ae_now env)"
    using ok by (auto simp: check_new_key_def result_simps new_api_key_def split: option.splits if_splits)
  have ne: "sort (remdups ss) \<noteq> []" using assms(3) by (metis length_0_conv length_sort remdups_eq_nil_iff)
  have "ak_scopes ?key = join_with '','' (sort (remdups ss))"
    using assms(2,3) by (simp add: new_api_key_def split: list.split)
  then have "held_scopes (ak_scopes ?key) = map strip (sort (remdups ss))"
    using split_join[OF ne, of "CHR '',''"] assms(4) by (simp add: held_scopes_def)
  then have "key_allows (ak_scopes ?key) (Some n)"
    using assms(6-8) by (auto simp: key_allows_def image_iff intro: bexI[of _ n])
  then show ?thesis using found live assms(5,9)
    by (simp add: get_current_user_id_def shown row Let_def new_api_key_def)
qed

section \<open>The example\<close>

definition ex_person :: "string \<Rightarrow> institutional_role \<Rightarrow> user" where
  "ex_person uid role = \<lparr>us_id = uid, us_full_name = uid, us_role_type = role, us_unit_code = None,
     us_assigned_base_station = None, us_current_occupancy_index = OPEN_AD_HOC, us_reporting_line_manager = None,
     us_deactivated_at = None\<rparr>"

definition ex_people :: people where
  "ex_people = \<lparr>pe_db = empty_db\<lparr>users := [ex_person ''A1'' ORG_ADMIN, ex_person ''T1'' STAFF, ex_person ''T2'' STAFF]\<rparr>,
     pe_auth = \<lparr>refresh_tokens = [\<lparr>rt_id = 1, rt_token_hash = ''tok'', rt_user_id = ''T1'', rt_family_id = ''f'',
         rt_expires_at = 100, rt_consumed_at = None, rt_created_at = 0\<rparr>],
       accounts = [new_account ''A1'' ''A1'' ''a1@x'' ''pa'' ORG_ADMIN ''default'' ''fa'',
         new_account ''T1'' ''T1'' ''t1@x'' ''p1'' STAFF ''default'' ''f1'', new_account ''T2'' ''T2'' ''t2@x'' ''p2'' STAFF ''default'' ''f2''],
       api_keys = []\<rparr>\<rparr>"

definition ex_admin :: user where
  "ex_admin = ex_person ''A1'' ORG_ADMIN"

definition ex_manage :: "string \<Rightarrow> user_update" where
  "ex_manage m = \<lparr>uu_full_name = None, uu_email_address = None, uu_unit_code = None, uu_assigned_base_station = None,
     uu_reporting_line_manager = Some (Some m)\<rparr>"

definition ex_managed :: people where
  "ex_managed = snd (update_user ex_people ex_admin ''T1'' (ex_manage ''T2''))"

definition ex_left :: people where
  "ex_left = snd (deactivate_user 10 20 ''new'' ex_people ex_admin ''T1'')"

lemma ex_no_managers: "reports (pe_db ex_people) = {}"
proof -
  have "manager_of (pe_db ex_people) u = None" for u
    by (simp add: manager_of_def get_user_def ex_people_def ex_person_def)
  then show ?thesis by (simp add: reports_def)
qed

section \<open>What administration keeps\<close>

text \<open>C26: Whatever administrators do to the accounts, nobody comes to report to themselves, directly or through others: the check walks the whole line, ends on every line, and misses no loop.\<close>

theorem reporting_line_never_loops:
  assumes "account_step\<^sup>*\<^sup>* s s'" and "acyclic (reports (pe_db s))"
  shows "acyclic (reports (pe_db s'))"
  using assms by (induction rule: rtranclp_induct) (blast intro: account_step_reports)+

theorem reporting_line_never_loops_witness:
  "acyclic (reports (pe_db ex_managed)) \<and> manager_of (pe_db ex_managed) ''T1'' = Some ''T2'' \<and>
   fst (update_user ex_managed ex_admin ''T2'' (ex_manage ''T1'')) =
     Inl (chronos_error 422 INVALID_VALUE (Msg ''T1 already reports to T2, directly or through others''))"
proof (intro conjI)
  have "account_step\<^sup>*\<^sup>* ex_people ex_managed"
    unfolding ex_managed_def by (rule r_into_rtranclp, rule account_step.updated, rule prod.collapse[symmetric])
  then show "acyclic (reports (pe_db ex_managed))"
    by (rule reporting_line_never_loops) (simp add: ex_no_managers acyclic_def)
  show "manager_of (pe_db ex_managed) ''T1'' = Some ''T2''" by code_simp
  show "fst (update_user ex_managed ex_admin ''T2'' (ex_manage ''T1'')) =
     Inl (chronos_error 422 INVALID_VALUE (Msg ''T1 already reports to T2, directly or through others''))" by code_simp
qed

text \<open>C27: Deactivating an account closes every way in and keeps it closed: until it is reactivated, whatever administrators do and whoever signs in, refreshes or changes a password meanwhile, no token, no key and no key acting for a person speaks for it, no password signs it in, and no refresh token is exchanged for it.\<close>

theorem deactivated_account_stays_out:
  assumes "deactivate_user today now feed s admin uid = (Inr (u, items, True), s1)"
    and "id_taken (pe_auth s) uid" and "account_run uid s1 s2"
  shows "(\<forall>a. get_current_user env decode (pe_auth s2) req = Inr a \<longrightarrow> at_id a \<noteq> uid) \<and>
    (\<forall>r spent t. login env budget (pe_auth s2) email pw raw family = (Inr r, spent, t) \<longrightarrow> tr_user_id r \<noteq> uid) \<and>
    (\<forall>r t. refresh env (\<lambda>_. pe_auth s2) (pe_auth s2) raw new_raw = (Inr r, t) \<longrightarrow> tr_user_id r \<noteq> uid)"
proof -
  have shut: "auth_shut uid (pe_auth s2)"
    by (rule shut_outD(1)[OF account_run_shut[OF assms(3) deactivate_shuts[OF assms(1,2)]]])
  show ?thesis using request_shut[OF shut] login_shut[OF shut] refresh_shut[OF shut shut] by blast
qed

theorem deactivated_account_stays_out_witness:
  "fst (deactivate_user 10 20 ''new'' ex_people ex_admin ''T1'') =
     Inr ((ex_person ''T1'' STAFF)\<lparr>us_deactivated_at := Some 20\<rparr>, open_items_of 10 ''T1'' (pe_db ex_left), True) \<and>
   (\<nexists>r spent t. login demo_auth None (pe_auth ex_left) ''t1@x'' ''p1'' ''r'' ''g'' = (Inr r, spent, t) \<and> tr_user_id r = ''T1'') \<and>
   (\<exists>r spent t. login demo_auth None (pe_auth ex_people) ''t1@x'' ''p1'' ''r'' ''g'' = (Inr r, spent, t) \<and> tr_user_id r = ''T1'')"
proof (intro conjI)
  show first: "fst (deactivate_user 10 20 ''new'' ex_people ex_admin ''T1'') =
     Inr ((ex_person ''T1'' STAFF)\<lparr>us_deactivated_at := Some 20\<rparr>, open_items_of 10 ''T1'' (pe_db ex_left), True)" by code_simp
  have step: "deactivate_user 10 20 ''new'' ex_people ex_admin ''T1'' =
     (Inr ((ex_person ''T1'' STAFF)\<lparr>us_deactivated_at := Some 20\<rparr>, open_items_of 10 ''T1'' (pe_db ex_left), True), ex_left)"
    using first by (simp add: ex_left_def prod_eq_iff)
  have known: "id_taken (pe_auth ex_people) ''T1''" by code_simp
  show "\<nexists>r spent t. login demo_auth None (pe_auth ex_left) ''t1@x'' ''p1'' ''r'' ''g'' = (Inr r, spent, t) \<and> tr_user_id r = ''T1''"
    using deactivated_account_stays_out[OF step known account_run.stays, of demo_auth "\<lambda>_. None"
        "\<lparr>cr_bearer = None, cr_api_key = None, cr_acting_for = None, cr_method = [], cr_path = []\<rparr>" None "''t1@x''" "''p1''" "''r''" "''g''"]
    by blast
  have "case login demo_auth None (pe_auth ex_people) ''t1@x'' ''p1'' ''r'' ''g'' of
      (Inr r, spent, t) \<Rightarrow> tr_user_id r = ''T1'' | _ \<Rightarrow> False" by code_simp
  then show "\<exists>r spent t. login demo_auth None (pe_auth ex_people) ''t1@x'' ''p1'' ''r'' ''g'' = (Inr r, spent, t) \<and> tr_user_id r = ''T1''"
    by (auto split: prod.splits sum.splits)
qed

end
