(* ===== verification/Ingestion.thy ===== *)
theory Ingestion
  imports Accounts Schedule
begin

text \<open>
  The import of a timetable from a file: \<^verbatim>\<open>backend/app/services/ingestion_engine.py\<close> and
  \<^verbatim>\<open>api/v1/endpoints/ingestion.py\<close>.

  pandas is not under \<^verbatim>\<open>src/\<close>: what it reads is the argument \<open>csv\<close>, the text of its exception or the
  columns and the rows of text. The engine keeps dicts of what it has fetched and made; an entry is
  the key of a row, and the row itself is in the tables. The session's pending writes are applied
  where the code makes them: a row is flushed before the next one is read, and nothing in between
  reads what is pending. A drawn password is numbered by the account it is for.
\<close>

section \<open>The file\<close>

type_synonym csv_row = "string \<Rightarrow> string"

record csv_frame =
  cf_columns :: "string list"
  cf_rows :: "csv_row list"

definition REQUIRED_COLUMNS :: "string list" where
  "REQUIRED_COLUMNS = [''member_id'', ''member_name'', ''member_email'', ''activity_code'', ''activity_title'', ''unit'',
     ''day_of_week_index'', ''time_window_start'', ''time_window_end'', ''lead_id'', ''room'']"

text \<open>The loop that strips the columns.\<close>

definition stripped :: "csv_row \<Rightarrow> csv_row" where
  "stripped row = (\<lambda>c. if c \<in> set REQUIRED_COLUMNS then strip (row c) else row c)"

section \<open>Cells\<close>

text \<open>
  \<^verbatim>\<open>strptime\<close>: a field is one digit, or two below its bound. Seconds of 60 and 61 match the pattern and
  are refused by the constructor, so the bound is 60 there too.
\<close>

definition time_field :: "nat \<Rightarrow> string \<Rightarrow> nat option" where
  "time_field limit s = (case s of
     [a] \<Rightarrow> if is_digit a then Some (digit_val a) else None
   | [a, b] \<Rightarrow> if is_digit a \<and> is_digit b \<and> 10 * digit_val a + digit_val b < limit
       then Some (10 * digit_val a + digit_val b) else None
   | _ \<Rightarrow> None)"

definition parse_time :: "string \<Rightarrow> time_of_day option" where
  "parse_time raw = (case split_on CHR '':'' (strip raw) of
     [h, m, s] \<Rightarrow> (case (time_field 24 h, time_field 60 m, time_field 60 s) of
         (Some a, Some b, Some c) \<Rightarrow> Some ((int a * 3600 + int b * 60 + int c) * 1000000) | _ \<Rightarrow> None)
   | [h, m] \<Rightarrow> (case (time_field 24 h, time_field 60 m) of
         (Some a, Some b) \<Rightarrow> Some ((int a * 3600 + int b * 60) * 1000000) | _ \<Rightarrow> None)
   | _ \<Rightarrow> None)"

text \<open>\<^verbatim>\<open>float\<close> of a text: digits with underscores between them, a fraction, an exponent.\<close>

fun digit_part :: "string \<Rightarrow> string option" where
  "digit_part [] = None"
| "digit_part [c] = (if is_digit c then Some [c] else None)"
| "digit_part (c # d # cs) = (if \<not> is_digit c then None
     else if d = CHR ''_'' then map_option ((#) c) (digit_part cs)
     else map_option ((#) c) (digit_part (d # cs)))"

definition take_sign :: "string \<Rightarrow> bool \<times> string" where
  "take_sign s = (case s of [] \<Rightarrow> (False, [])
     | c # cs \<Rightarrow> if c = CHR ''-'' then (True, cs) else if c = CHR ''+'' then (False, cs) else (False, s))"

definition exponent :: "bool \<Rightarrow> string \<Rightarrow> int option" where
  "exponent present s = (if \<not> present then Some 0
     else (case take_sign s of (neg, ds) \<Rightarrow>
       map_option (\<lambda>d. (if neg then -1 else 1) * int (digits_value d)) (digit_part ds)))"

definition mantissa :: "string \<Rightarrow> (nat \<times> nat) option" where
  "mantissa s = (case partition_on CHR ''.'' s of (whole, dotted, fract) \<Rightarrow>
     if whole = [] \<and> fract = [] then None
     else (case (if whole = [] then Some [] else digit_part whole, if fract = [] then Some [] else digit_part fract) of
       (Some w, Some f) \<Rightarrow> Some (digits_value (w @ f), length f) | _ \<Rightarrow> None))"

definition ten_to :: "int \<Rightarrow> rat" where
  "ten_to k = (if k < 0 then 1 / 10 ^ nat (- k) else 10 ^ nat k)"

text \<open>The number a text is, before it is rounded. Infinities and NaN are no number here: they are not whole either.\<close>

definition decimal_of :: "string \<Rightarrow> rat option" where
  "decimal_of raw = (case take_sign (lower (strip raw)) of (neg, body) \<Rightarrow>
     case partition_on CHR ''e'' body of (m, present, e) \<Rightarrow>
     case (mantissa m, exponent present e) of
       (Some (n, places), Some k) \<Rightarrow> Some ((if neg then -1 else 1) * of_nat n * ten_to (k - int places))
     | _ \<Rightarrow> None)"

text \<open>
  The day a number rounds to as a double: the numbers within half the spacing of the doubles around
  a small whole number, which is finer below a power of two. A tie goes to the even significand,
  which is the whole number's.
\<close>

definition spacing :: "int \<Rightarrow> rat" where
  "spacing n = (if n < 2 then 1 / 2 ^ 52 else if n < 4 then 1 / 2 ^ 51 else 1 / 2 ^ 50)"

definition spacing_below :: "int \<Rightarrow> rat" where
  "spacing_below n = (if n \<in> {1, 2, 4} then spacing n / 2 else spacing n)"

definition rounds_to :: "rat \<Rightarrow> int \<Rightarrow> bool" where
  "rounds_to x n \<longleftrightarrow> of_int n - spacing_below n / 2 \<le> x \<and> x \<le> of_int n + spacing n / 2"

definition parse_day :: "string \<Rightarrow> int option" where
  "parse_day raw = Option.bind (decimal_of raw) (\<lambda>x. find (rounds_to x) [1..7])"

section \<open>Refusals\<close>

text \<open>What a ValueError of the engine says, kept as the data its message names. No owner is an account of another organization.\<close>

datatype import_refusal =
    Cannot_Be_Blank "string list"
  | Id_Elsewhere string
  | Email_Taken string string "string option"
  | Member_Deactivated string
  | Activity_Retired string
  | Day_Malformed string
  | Time_Malformed string
  | Same_Window string time_of_day
  | Slot_Retired string int time_of_day
  | No_Date string
  | Room_Held string string busy_interval
  | Room_On_Timetable string string busy_interval
  | Room_Has_Day string string busy_interval
  | Lead_Missing string string
  | Lead_Deactivated string string

text \<open>A ValueError, or any other exception.\<close>

datatype import_error = Value_Error import_refusal | Other_Exception

definition refuse_row :: "import_refusal \<Rightarrow> import_error + 'a" where
  "refuse_row r = Inl (Value_Error r)"

section \<open>State\<close>

record import_env =
  ie_app :: app_env
  ie_here :: "string option"
  ie_password :: "string \<Rightarrow> string"
  ie_hash_password :: "string \<Rightarrow> string"
  ie_feed_token :: "string \<Rightarrow> string"

record credential =
  cd_member_id :: string
  cd_email_address :: string
  cd_initial_password :: string

type_synonym slot_key = "int \<times> string \<times> time_of_day"

record import_state =
  im_db :: database
  im_accounts :: "account list"
  im_users :: "string list"
  im_elsewhere :: "string list"
  im_email_owners :: "string \<Rightarrow> string option"
  im_offerings :: "string \<Rightarrow> int option"
  im_enrolled :: "(int \<times> string) list"
  im_slots :: "slot_key \<Rightarrow> int option"
  im_rooms :: "string \<Rightarrow> int option"
  im_provisioned :: "credential list"
  im_corrected :: "int list"
  im_seen_slots :: "int list"
  im_seen_enrollments :: "(int \<times> string) list"
  im_units :: "string list"
  im_processed :: nat

section \<open>What the rows are matched against\<close>

function chunked :: "'a list \<Rightarrow> 'a list list" where
  "chunked values = (if values = [] then [] else take 1000 values # chunked (drop 1000 values))"
  by pat_completeness auto
termination by (relation "measure length") auto

declare chunked.simps [simp del]

definition column :: "csv_row list \<Rightarrow> string \<Rightarrow> string list" where
  "column rows name = remdups (map (\<lambda>r. r name) rows)"

definition fetch_users :: "database \<Rightarrow> string list \<Rightarrow> string list" where
  "fetch_users db ids = concat (map (\<lambda>piece. map us_id (filter (\<lambda>u. us_id u \<in> set piece) (users db))) (chunked ids))"

definition owners_step :: "string option \<Rightarrow> account \<Rightarrow> (string \<Rightarrow> string option) \<times> string list \<Rightarrow> (string \<Rightarrow> string option) \<times> string list" where
  "owners_step here a found = ((fst found)(lower (at_email_address a) := Some (at_id a)),
     if here \<noteq> None \<and> Some (at_organization_id a) \<noteq> here then snd found @ [at_id a] else snd found)"

definition fetch_owners :: "string option \<Rightarrow> account list \<Rightarrow> string list \<Rightarrow> (string \<Rightarrow> string option) \<times> string list" where
  "fetch_owners here accs emails =
     fold (\<lambda>piece. fold (owners_step here) (filter (\<lambda>a. lower (at_email_address a) \<in> set piece) accs))
       (chunked emails) (Map.empty, [])"

definition fetch_elsewhere :: "account list \<Rightarrow> string list \<Rightarrow> string list" where
  "fetch_elsewhere accs ids = concat (map (\<lambda>piece. map at_id (filter (\<lambda>a. at_id a \<in> set piece) accs)) (chunked ids))"

definition fetch_offerings :: "database \<Rightarrow> int \<Rightarrow> string list \<Rightarrow> (string \<times> int) list" where
  "fetch_offerings db cycle_id codes = concat (map (\<lambda>piece. map (\<lambda>a. (ac_activity_code a, ac_id a))
     (filter (\<lambda>a. ac_cycle_id a = cycle_id \<and> ac_activity_code a \<in> set piece) (activities db))) (chunked codes))"

definition fetch_enrolled :: "database \<Rightarrow> int list \<Rightarrow> (int \<times> string) list" where
  "fetch_enrolled db ids = concat (map (\<lambda>piece. map (\<lambda>e. (en_activity_id e, en_member_id e))
     (filter (\<lambda>e. en_activity_id e \<in> set piece) (activity_enrollments db))) (chunked ids))"

definition key_of_slot :: "master_slot \<Rightarrow> slot_key" where
  "key_of_slot s = (sl_activity_id s, sl_rrule s, sl_time_window_start s)"

text \<open>\<^verbatim>\<open>setdefault\<close>: the first slot under a key stays.\<close>

definition set_default :: "master_slot \<Rightarrow> (slot_key \<Rightarrow> int option) \<Rightarrow> (slot_key \<Rightarrow> int option)" where
  "set_default s m = (if m (key_of_slot s) = None then m(key_of_slot s := Some (sl_id s)) else m)"

definition fetch_slots :: "database \<Rightarrow> int list \<Rightarrow> slot_key \<Rightarrow> int option" where
  "fetch_slots db ids = fold (\<lambda>piece. fold set_default
     (sort_key sl_id (filter (\<lambda>s. sl_activity_id s \<in> set piece) (structural_master_slots db)))) (chunked ids) Map.empty"

definition prefetch :: "import_env \<Rightarrow> database \<Rightarrow> account list \<Rightarrow> int \<Rightarrow> csv_row list \<Rightarrow> import_state" where
  "prefetch env db accs cycle_id rows =
     (let known = fetch_users db (remdups (column rows ''member_id'' @ column rows ''lead_id''));
          found = fetch_owners (ie_here env) accs (remdups (map (\<lambda>r. normalize_email (r ''member_email'')) rows));
          far = fetch_elsewhere accs (filter (\<lambda>i. i \<notin> set known) (column rows ''member_id''));
          offered = fetch_offerings db cycle_id (column rows ''activity_code'');
          activity_ids = map snd offered
      in \<lparr>im_db = db, im_accounts = accs, im_users = known, im_elsewhere = snd found @ far, im_email_owners = fst found,
          im_offerings = map_of (rev offered), im_enrolled = fetch_enrolled db activity_ids,
          im_slots = fetch_slots db activity_ids, im_rooms = Map.empty, im_provisioned = [], im_corrected = [],
          im_seen_slots = [], im_seen_enrollments = [], im_units = [], im_processed = 0\<rparr>)"

section \<open>One row\<close>

subsection \<open>The member\<close>

definition holder :: "string \<Rightarrow> import_state \<Rightarrow> string option" where
  "holder owner st = (if owner \<in> set (im_elsewhere st) then None else Some owner)"

definition imported_user :: "csv_row \<Rightarrow> user" where
  "imported_user row = \<lparr>us_id = row ''member_id'', us_full_name = row ''member_name'', us_role_type = MEMBER,
     us_unit_code = Some (row ''unit''), us_assigned_base_station = None, us_current_occupancy_index = OPEN_AD_HOC,
     us_reporting_line_manager = None, us_deactivated_at = None\<rparr>"

text \<open>The unique keys on the id and on the address, in the whole deployment.\<close>

definition account_clash :: "string option \<Rightarrow> string \<Rightarrow> string \<Rightarrow> account list \<Rightarrow> bool" where
  "account_clash except uid email accs \<longleftrightarrow>
     list_ex (\<lambda>a. Some (at_id a) \<noteq> except \<and> (at_id a = uid \<or> lower (at_email_address a) = email)) accs"

definition create_member :: "import_env \<Rightarrow> csv_row \<Rightarrow> string \<Rightarrow> import_state \<Rightarrow> import_error + import_state" where
  "create_member env row email st =
     (let uid = row ''member_id''; raw_password = ie_password env uid in
      if uid \<in> set (im_elsewhere st) then refuse_row (Id_Elsewhere uid)
      else case im_email_owners st email of
        Some owner \<Rightarrow> refuse_row (Email_Taken uid (row ''member_email'') (holder owner st))
      | None \<Rightarrow>
          if account_clash None uid email (im_accounts st) then Inl Other_Exception
          else Inr (st\<lparr>im_db := (im_db st)\<lparr>users := users (im_db st) @ [imported_user row]\<rparr>,
            im_accounts := im_accounts st @ [new_account uid (row ''member_name'') email
              (ie_hash_password env raw_password) MEMBER (env_organization_id (ie_app env)) (ie_feed_token env uid)],
            im_users := im_users st @ [uid],
            im_email_owners := (im_email_owners st)(email := Some uid),
            im_provisioned := im_provisioned st @
              [\<lparr>cd_member_id = uid, cd_email_address = email, cd_initial_password = raw_password\<rparr>]\<rparr>))"

definition stored_email :: "string \<Rightarrow> import_state \<Rightarrow> string" where
  "stored_email uid st = (case find (\<lambda>a. at_id a = uid) (im_accounts st) of
     None \<Rightarrow> [] | Some a \<Rightarrow> normalize_email (at_email_address a))"

definition update_member :: "csv_row \<Rightarrow> string \<Rightarrow> user \<Rightarrow> import_state \<Rightarrow> import_error + import_state" where
  "update_member row email member st =
     (let uid = us_id member;
          named = st\<lparr>im_db := put_user uid (\<lambda>u. u\<lparr>us_full_name := row ''member_name'', us_unit_code := Some (row ''unit'')\<rparr>) (im_db st),
            im_accounts := update_rows (\<lambda>a. at_id a = uid) (\<lambda>a. a\<lparr>at_full_name := row ''member_name''\<rparr>) (im_accounts st)\<rparr>
      in if us_deactivated_at member \<noteq> None then refuse_row (Member_Deactivated uid)
         else if stored_email uid st = email then Inr named
         else (case Option.bind (im_email_owners st email) (\<lambda>c. if c \<noteq> uid then Some c else None) of
             Some clash \<Rightarrow> refuse_row (Email_Taken uid (row ''member_email'') (holder clash st))
           | None \<Rightarrow> if account_clash (Some uid) uid email (im_accounts st) then Inl Other_Exception
               else Inr (named\<lparr>im_accounts := update_rows (\<lambda>a. at_id a = uid) (\<lambda>a. a\<lparr>at_email_address := email\<rparr>) (im_accounts named),
                 im_email_owners := (im_email_owners st)(stored_email uid st := None, email := Some uid)\<rparr>)))"

definition known_user :: "import_state \<Rightarrow> string \<Rightarrow> user option" where
  "known_user st uid = (if uid \<in> set (im_users st) then get_user (im_db st) uid else None)"

definition upsert_member :: "import_env \<Rightarrow> csv_row \<Rightarrow> import_state \<Rightarrow> import_error + import_state" where
  "upsert_member env row st =
     (let email = normalize_email (row ''member_email'') in
      case known_user st (row ''member_id'') of
        None \<Rightarrow> create_member env row email st
      | Some member \<Rightarrow> update_member row email member st)"

subsection \<open>The activity and the enrollment\<close>

definition upsert_offering :: "int \<Rightarrow> csv_row \<Rightarrow> import_state \<Rightarrow> import_error + (int \<times> import_state)" where
  "upsert_offering cycle_id row st =
     (let db = im_db st; code = row ''activity_code'' in
      case im_offerings st code of
        None \<Rightarrow>
          if get_cycle_row db cycle_id = None then Inl Other_Exception
          else (case insert_activity db \<lparr>ac_id = 0, ac_activity_code = code, ac_activity_title = row ''activity_title'',
                ac_unit_code = row ''unit'', ac_cycle_id = cycle_id, ac_retired_at = None\<rparr> of
              Inl _ \<Rightarrow> Inl Other_Exception
            | Inr (a, db1) \<Rightarrow> Inr (ac_id a, st\<lparr>im_db := db1, im_offerings := (im_offerings st)(code := Some (ac_id a))\<rparr>))
      | Some aid \<Rightarrow>
          (case get_activity_row db aid of
             None \<Rightarrow> Inl Other_Exception
           | Some a \<Rightarrow>
               if ac_retired_at a \<noteq> None then refuse_row (Activity_Retired code)
               else Inr (aid, st\<lparr>im_db := db\<lparr>activities := update_rows (\<lambda>x. ac_id x = aid)
                   (\<lambda>x. x\<lparr>ac_activity_title := row ''activity_title'', ac_unit_code := row ''unit''\<rparr>) (activities db)\<rparr>\<rparr>)))"

definition upsert_enrollment :: "int \<Rightarrow> csv_row \<Rightarrow> import_state \<Rightarrow> import_state" where
  "upsert_enrollment aid row st =
     (let db = im_db st; pair = (aid, row ''member_id'');
          st1 = (if pair \<in> set (im_enrolled st) then st
            else st\<lparr>im_db := db\<lparr>activity_enrollments := activity_enrollments db @
                [\<lparr>en_id = fresh_id (map en_id (activity_enrollments db)), en_activity_id = aid, en_member_id = row ''member_id''\<rparr>]\<rparr>,
              im_enrolled := im_enrolled st @ [pair]\<rparr>)
      in st1\<lparr>im_seen_enrollments := im_seen_enrollments st1 @ [pair], im_units := im_units st1 @ [row ''unit'']\<rparr>)"

subsection \<open>The slot\<close>

record row_window =
  rw_day :: int
  rw_rule :: string
  rw_start :: time_of_day
  rw_end :: time_of_day

definition window_of_row :: "csv_row \<Rightarrow> import_error + row_window" where
  "window_of_row row =
     (case parse_day (row ''day_of_week_index'') of
        None \<Rightarrow> refuse_row (Day_Malformed (row ''day_of_week_index''))
      | Some day \<Rightarrow>
          (case weekly_rule day of
             Inl _ \<Rightarrow> Inl Other_Exception
           | Inr rule \<Rightarrow>
               (case parse_time (row ''time_window_start'') of
                  None \<Rightarrow> refuse_row (Time_Malformed (row ''time_window_start''))
                | Some t_start \<Rightarrow>
                    (case parse_time (row ''time_window_end'') of
                       None \<Rightarrow> refuse_row (Time_Malformed (row ''time_window_end''))
                     | Some t_end \<Rightarrow>
                         if t_end = t_start then refuse_row (Same_Window (row ''member_id'') t_end)
                         else Inr \<lparr>rw_day = day, rw_rule = rule, rw_start = t_start, rw_end = t_end\<rparr>))))"

definition get_slot_row :: "database \<Rightarrow> int \<Rightarrow> master_slot option" where
  "get_slot_row db i = find (\<lambda>s. sl_id s = i) (structural_master_slots db)"

text \<open>The slot the row names, or the date a new one starts.\<close>

definition match_slot ::
  "import_env \<Rightarrow> planning_cycle option \<Rightarrow> int \<Rightarrow> row_window \<Rightarrow> csv_row \<Rightarrow> import_state
   \<Rightarrow> import_error + (master_slot option \<times> date)" where
  "match_slot env cycle aid w row st =
     (case Option.bind (im_slots st (aid, rw_rule w, rw_start w)) (get_slot_row (im_db st)) of
        Some slot \<Rightarrow>
          if sl_retired_at slot \<noteq> None then refuse_row (Slot_Retired (row ''activity_code'') (rw_day w) (rw_start w))
          else Inr (Some slot, sl_dtstart slot)
      | None \<Rightarrow>
          (case cycle of
             None \<Rightarrow> Inl Other_Exception
           | Some c \<Rightarrow>
               (case anchor (env_rrule (ie_app env)) (rw_rule w) (cy_date_bounds_start c) of
                  Inl m \<Rightarrow> refuse_row (No_Date m)
                | Inr d \<Rightarrow> Inr (None, d))))"

definition find_room :: "csv_row \<Rightarrow> import_state \<Rightarrow> int \<times> import_state" where
  "find_room row st =
     (case im_rooms st (row ''room'') of
        Some rid \<Rightarrow> (rid, st)
      | None \<Rightarrow> (case get_or_create_room (row ''room'') (im_db st) of (room, db1) \<Rightarrow>
          (re_id room, st\<lparr>im_db := db1, im_rooms := (im_rooms st)(row ''room'' := Some (re_id room))\<rparr>)))"

definition room_code :: "database \<Rightarrow> int \<Rightarrow> string" where
  "room_code db rid = (case get_resource db rid of None \<Rightarrow> [] | Some r \<Rightarrow> re_code r)"

text \<open>A refusal over the first of the intervals a check found.\<close>

definition refuse_over :: "(busy_interval \<Rightarrow> import_refusal) \<Rightarrow> busy_interval list \<Rightarrow> import_error + unit" where
  "refuse_over r found = (case found of [] \<Rightarrow> Inr () | taken # _ \<Rightarrow> refuse_row (r taken))"

definition check_room ::
  "import_env \<Rightarrow> planning_cycle option \<Rightarrow> database \<Rightarrow> int \<Rightarrow> row_window \<Rightarrow> date \<Rightarrow> int option \<Rightarrow> string
   \<Rightarrow> import_error + unit" where
  "check_room env cycle db rid w dtstart slot_id code =
     (let L = env_rrule (ie_app env); today = env_today (ie_app env) in
      bind_result (if \<not> cycle_is_open cycle then Inr () else
        bind_result (refuse_over (Room_Held code (room_code db rid))
          (held_against_slot L today db rid (rw_rule w) dtstart (rw_start w) (rw_end w) cycle)) (\<lambda>_.
        refuse_over (Room_On_Timetable code (room_code db rid))
          (slots_against_slot L today db rid (rw_rule w) dtstart (rw_start w) (rw_end w) slot_id cycle))) (\<lambda>_.
      refuse_over (Room_Has_Day code (room_code db rid))
        (days_against_slot L today db rid (rw_rule w) dtstart (rw_start w) (rw_end w) slot_id cycle)))"

definition check_lead :: "csv_row \<Rightarrow> import_state \<Rightarrow> import_error + unit" where
  "check_lead row st =
     (case known_user st (row ''lead_id'') of
        None \<Rightarrow> refuse_row (Lead_Missing (row ''activity_code'') (row ''lead_id''))
      | Some lead \<Rightarrow> if us_deactivated_at lead \<noteq> None
          then refuse_row (Lead_Deactivated (row ''activity_code'') (row ''lead_id'')) else Inr ())"

definition imported_slot :: "import_env \<Rightarrow> int \<Rightarrow> row_window \<Rightarrow> date \<Rightarrow> int \<Rightarrow> string \<Rightarrow> master_slot" where
  "imported_slot env aid w dtstart rid lead = \<lparr>sl_id = 0, sl_rrule = rw_rule w, sl_dtstart = dtstart,
     sl_time_window_start = rw_start w, sl_time_window_end = rw_end w, sl_activity_id = aid,
     sl_primary_lead_id = Some lead, sl_resource_id = Some rid, sl_retired_at = None,
     sl_organization_id = env_organization_id (ie_app env)\<rparr>"

text \<open>The slot made or corrected: its id, the state, and whether anything about it changed.\<close>

definition write_slot ::
  "import_env \<Rightarrow> int \<Rightarrow> row_window \<Rightarrow> date \<Rightarrow> int \<Rightarrow> string \<Rightarrow> master_slot option \<Rightarrow> import_state \<Rightarrow> int \<times> import_state" where
  "write_slot env aid w dtstart rid lead slot st =
     (let db = im_db st in
      case slot of
        None \<Rightarrow>
          (case insert_slot db (imported_slot env aid w dtstart rid lead) of (s, db1) \<Rightarrow>
             (sl_id s, st\<lparr>im_db := db1, im_slots := (im_slots st)((aid, rw_rule w, rw_start w) := Some (sl_id s))\<rparr>))
      | Some s \<Rightarrow>
          if sl_time_window_end s \<noteq> rw_end w \<or> sl_primary_lead_id s \<noteq> Some lead \<or> sl_resource_id s \<noteq> Some rid
          then (sl_id s, st\<lparr>im_db := db\<lparr>structural_master_slots := update_rows (\<lambda>x. sl_id x = sl_id s)
                 (\<lambda>x. x\<lparr>sl_time_window_end := rw_end w, sl_primary_lead_id := Some lead, sl_resource_id := Some rid\<rparr>)
                 (structural_master_slots db)\<rparr>,
               im_corrected := (if sl_id s \<in> set (im_corrected st) then im_corrected st else im_corrected st @ [sl_id s])\<rparr>)
          else (sl_id s, st))"

definition moves_the_class :: "master_slot option \<Rightarrow> int \<Rightarrow> row_window \<Rightarrow> bool" where
  "moves_the_class slot rid w \<longleftrightarrow> (case slot of None \<Rightarrow> True
     | Some s \<Rightarrow> sl_resource_id s \<noteq> Some rid \<or> sl_time_window_end s \<noteq> rw_end w)"

definition upsert_slot ::
  "import_env \<Rightarrow> planning_cycle option \<Rightarrow> int \<Rightarrow> csv_row \<Rightarrow> import_state \<Rightarrow> import_error + (int \<times> import_state)" where
  "upsert_slot env cycle aid row st =
     bind_result (window_of_row row) (\<lambda>w.
     bind_result (match_slot env cycle aid w row st) (\<lambda>(slot, dtstart).
     case find_room row st of (rid, st1) \<Rightarrow>
     bind_result (if moves_the_class slot rid w
       then check_room env cycle (im_db st1) rid w dtstart (map_option sl_id slot) (row ''activity_code'') else Inr ()) (\<lambda>_.
     bind_result (check_lead row st1) (\<lambda>_.
     Inr (write_slot env aid w dtstart rid (row ''lead_id'') slot st1)))))"

subsection \<open>The row\<close>

definition blank_cells :: "string list \<Rightarrow> csv_row \<Rightarrow> string list" where
  "blank_cells columns row = filter (\<lambda>c. c \<in> set REQUIRED_COLUMNS \<and> row c = []) columns"

definition import_row ::
  "import_env \<Rightarrow> planning_cycle option \<Rightarrow> int \<Rightarrow> string list \<Rightarrow> csv_row \<Rightarrow> import_state \<Rightarrow> import_error + import_state" where
  "import_row env cycle cycle_id columns row st =
     (if blank_cells columns row \<noteq> [] then refuse_row (Cannot_Be_Blank (blank_cells columns row))
      else
        bind_result (upsert_member env row st) (\<lambda>st1.
        bind_result (upsert_offering cycle_id row st1) (\<lambda>(aid, st2).
        bind_result (upsert_slot env cycle aid row (upsert_enrollment aid row st2)) (\<lambda>(sid, st3).
        Inr (st3\<lparr>im_seen_slots := im_seen_slots st3 @ [sid], im_processed := im_processed st3 + 1\<rparr>)))))"

text \<open>The loop. A failure carries the line of the file it came from; line one is the header.\<close>

definition import_line ::
  "import_env \<Rightarrow> planning_cycle option \<Rightarrow> int \<Rightarrow> string list \<Rightarrow> nat \<times> csv_row \<Rightarrow> import_state
   \<Rightarrow> (nat \<times> import_error) + import_state" where
  "import_line env cycle cycle_id columns numbered_row st =
     (case import_row env cycle cycle_id columns (snd numbered_row) st of
        Inl e \<Rightarrow> Inl (fst numbered_row, e) | Inr st' \<Rightarrow> Inr st')"

definition import_rows ::
  "import_env \<Rightarrow> planning_cycle option \<Rightarrow> int \<Rightarrow> string list \<Rightarrow> csv_row list \<Rightarrow> import_state
   \<Rightarrow> (nat \<times> import_error) + import_state" where
  "import_rows env cycle cycle_id columns rows st =
     fold_result (import_line env cycle cycle_id columns) (List.enumerate 2 rows) st"

section \<open>What the file did not mention\<close>

record orphan_slot =
  os_id :: int
  os_activity_code :: string
  os_rrule :: string
  os_dtstart :: date
  os_time_window_start :: time_of_day
  os_room :: "string option"

record orphan_enrollment =
  oe_member_id :: string
  oe_activity_code :: string

text \<open>The activities of the cycle in the units the file names, retired ones left out.\<close>

definition covered_activities :: "database \<Rightarrow> int \<Rightarrow> string list \<Rightarrow> activity list" where
  "covered_activities db cycle_id units = filter (\<lambda>a. ac_cycle_id a = cycle_id \<and> ac_unit_code a \<in> set units \<and> ac_retired_at a = None)
     (activities db)"

definition code_of :: "activity list \<Rightarrow> int \<Rightarrow> string" where
  "code_of acts aid = (case find (\<lambda>a. ac_id a = aid) acts of None \<Rightarrow> [] | Some a \<Rightarrow> ac_activity_code a)"

definition orphans ::
  "database \<Rightarrow> int \<Rightarrow> string list \<Rightarrow> int list \<Rightarrow> (int \<times> string) list \<Rightarrow> orphan_slot list \<times> orphan_enrollment list" where
  "orphans db cycle_id units seen_slots seen_enrollments =
     (let acts = covered_activities db cycle_id units; ids = set (map ac_id acts) in
      if acts = [] then ([], [])
      else (sort_key (\<lambda>s. (os_activity_code s, iso_date (os_dtstart s), iso_time (os_time_window_start s)))
          (map (\<lambda>s. \<lparr>os_id = sl_id s, os_activity_code = code_of acts (sl_activity_id s), os_rrule = sl_rrule s,
              os_dtstart = sl_dtstart s, os_time_window_start = sl_time_window_start s,
              os_room = room_identifier db (sl_resource_id s)\<rparr>)
            (filter (\<lambda>s. sl_activity_id s \<in> ids \<and> sl_retired_at s = None \<and> sl_id s \<notin> set seen_slots)
              (structural_master_slots db))),
        sort_key (\<lambda>e. (oe_activity_code e, oe_member_id e))
          (map (\<lambda>e. \<lparr>oe_member_id = en_member_id e, oe_activity_code = code_of acts (en_activity_id e)\<rparr>)
            (filter (\<lambda>e. en_activity_id e \<in> ids \<and> (en_activity_id e, en_member_id e) \<notin> set seen_enrollments)
              (activity_enrollments db)))))"

text \<open>What was removed (with the days withdrawn and left behind), what was not (with the refusal), and the roster rows removed.\<close>

record removal =
  rm_slots :: "(orphan_slot \<times> int \<times> int) list"
  rm_refused :: "(orphan_slot \<times> detail) list"
  rm_enrollments :: "orphan_enrollment list"

definition nothing_removed :: removal where
  "nothing_removed = \<lparr>rm_slots = [], rm_refused = [], rm_enrollments = []\<rparr>"

definition remove_slot :: "app_env \<Rightarrow> orphan_slot \<Rightarrow> removal \<times> database \<Rightarrow> import_error + (removal \<times> database)" where
  "remove_slot env report s = (case s of (out, db) \<Rightarrow>
     (case get_slot_row db (os_id report) of
        None \<Rightarrow> Inl Other_Exception
      | Some slot \<Rightarrow>
          (case delete_slot env slot db of
             Inl refusal \<Rightarrow> Inr (out\<lparr>rm_refused := rm_refused out @ [(report, detail_of refusal)]\<rparr>, db)
           | Inr (withdrawn, detached, db1) \<Rightarrow>
               Inr (out\<lparr>rm_slots := rm_slots out @ [(report, withdrawn, detached)]\<rparr>, db1))))"

definition remove_enrollment :: "int \<Rightarrow> orphan_enrollment \<Rightarrow> removal \<times> database \<Rightarrow> import_error + (removal \<times> database)" where
  "remove_enrollment cycle_id report s = (case s of (out, db) \<Rightarrow>
     (case find (\<lambda>a. ac_cycle_id a = cycle_id \<and> ac_activity_code a = oe_activity_code report) (rev (activities db)) of
        None \<Rightarrow> Inl Other_Exception
      | Some a \<Rightarrow>
          (case filter (\<lambda>e. en_activity_id e = ac_id a \<and> en_member_id e = oe_member_id report) (activity_enrollments db) of
             [e] \<Rightarrow> Inr (out\<lparr>rm_enrollments := rm_enrollments out @ [report]\<rparr>,
               db\<lparr>activity_enrollments := filter (\<lambda>x. en_id x \<noteq> en_id e) (activity_enrollments db)\<rparr>)
           | _ \<Rightarrow> Inl Other_Exception)))"

definition remove_orphans ::
  "app_env \<Rightarrow> int \<Rightarrow> orphan_slot list \<times> orphan_enrollment list \<Rightarrow> database \<Rightarrow> import_error + (removal \<times> database)" where
  "remove_orphans env cycle_id orph db =
     bind_result (fold_result (remove_slot env) (fst orph) (nothing_removed, db)) (fold_result (remove_enrollment cycle_id) (snd orph))"

section \<open>The report\<close>

record kept_day =
  kd_id :: int
  kd_date :: string
  kd_activity_code :: string
  kd_master_slot_id :: "int option"
  kd_time_window_start :: string
  kd_room :: "string option"

definition kept_day_of :: "database \<Rightarrow> daily_ledger \<Rightarrow> kept_day" where
  "kept_day_of db r = \<lparr>kd_id = dl_id r, kd_date = iso_date (dl_target_date r),
     kd_activity_code = code_of (activities db) (dl_activity_id r), kd_master_slot_id = dl_master_slot_id r,
     kd_time_window_start = (case dl_time_window_start r of None \<Rightarrow> ''None'' | Some t \<Rightarrow> iso_time t),
     kd_room = room_identifier db (dl_resource_id r)\<rparr>"

definition kept_days :: "database \<Rightarrow> daily_ledger list \<Rightarrow> kept_day list" where
  "kept_days db rows = sort_key (\<lambda>d. (kd_date d, kd_time_window_start d, kd_id d)) (map (kept_day_of db) rows)"

record import_report =
  ir_rows_ingested :: nat
  ir_provisioned_credentials :: "credential list"
  ir_slots_corrected :: nat
  ir_not_in_file :: "orphan_slot list \<times> orphan_enrollment list"
  ir_ledger_rows_updated :: int
  ir_ledger_rows_kept :: int
  ir_kept_days :: "kept_day list"
  ir_removal :: removal
  ir_requirements_unmet :: "(int \<times> (int \<times> date \<times> string) list) list"

datatype error_log =
    Csv_Parse_Error string
  | Missing_Columns "string list"
  | Row_Failed nat import_error
  | Import_Failed import_error

text \<open>\<^verbatim>\<open>str(e).replace(file_path, "the file")\<close>\<close>

function replace_all :: "string \<Rightarrow> string \<Rightarrow> string \<Rightarrow> string" where
  "replace_all old new s = (if old = [] \<or> s = [] then s
     else if startswith s old then new @ replace_all old new (drop (length old) s)
     else hd s # replace_all old new (tl s))"
  by pat_completeness auto
termination by (relation "measure (\<lambda>(old, new, s). length s)") auto

declare replace_all.simps [simp del]

definition unmet_of_seen :: "app_env \<Rightarrow> database \<Rightarrow> int list \<Rightarrow> import_error + (int \<times> (int \<times> date \<times> string) list) list" where
  "unmet_of_seen env db seen = map_result (\<lambda>s. case unmet_for_slot env db s of
       Inl _ \<Rightarrow> Inl Other_Exception | Inr gaps \<Rightarrow> Inr (sl_id s, gaps))
     (sort_key sl_id (filter (\<lambda>s. sl_id s \<in> set seen) (structural_master_slots db)))"

text \<open>
  Past the rows. The corrected days and the deletions reach the database at the commit, updates before
  deletes; the reports in between read the tables without them. A slot that goes is not one that was
  corrected, so its days are the same before and after the updates.
\<close>

definition corrected_slots :: "import_state \<Rightarrow> master_slot list" where
  "corrected_slots st = List.map_filter (get_slot_row (im_db st)) (im_corrected st)"

definition finish_import ::
  "import_env \<Rightarrow> int \<Rightarrow> bool \<Rightarrow> import_state \<Rightarrow> import_error + (import_report \<times> database)" where
  "finish_import env cycle_id remove_missing st =
     (let db = im_db st; app = ie_app env;
          moved = propagate_slot_corrections app (corrected_slots st) db;
          orph = orphans db cycle_id (im_units st) (im_seen_slots st) (im_seen_enrollments st)
      in case flush_days (env_backend app) (co_rows moved) (daily_ledger_rows db) of
           Inl _ \<Rightarrow> Inl Other_Exception
         | Inr rows \<Rightarrow>
             bind_result (if remove_missing then remove_orphans app cycle_id orph (db\<lparr>daily_ledger_rows := rows\<rparr>)
               else Inr (nothing_removed, db\<lparr>daily_ledger_rows := rows\<rparr>)) (\<lambda>(removed, db1).
             bind_result (unmet_of_seen app db (im_seen_slots st)) (\<lambda>unmet.
             Inr (\<lparr>ir_rows_ingested = im_processed st, ir_provisioned_credentials = im_provisioned st,
                 ir_slots_corrected = length (im_corrected st), ir_not_in_file = orph,
                 ir_ledger_rows_updated = co_updated moved, ir_ledger_rows_kept = co_kept moved,
                 ir_kept_days = kept_days db (co_kept_rows moved), ir_removal = removed,
                 ir_requirements_unmet = unmet\<rparr>, db1))))"

text \<open>The answer, the session and the accounts. A failure rolls both back.\<close>

definition process_member_centric_matrix ::
  "import_env \<Rightarrow> string \<Rightarrow> string + csv_frame \<Rightarrow> int \<Rightarrow> bool \<Rightarrow> session \<Rightarrow> account list
   \<Rightarrow> (error_log + import_report) \<times> session \<times> account list" where
  "process_member_centric_matrix env file_path csv cycle_id remove_missing sess accs =
     (case csv of
        Inl e \<Rightarrow> (Inl (Csv_Parse_Error (replace_all file_path ''the file'' e)), sess, accs)
      | Inr frame \<Rightarrow>
          (let missing = filter (\<lambda>c. c \<notin> set (cf_columns frame)) REQUIRED_COLUMNS in
           if missing \<noteq> [] then (Inl (Missing_Columns missing), sess, accs)
           else
             (let rows = map stripped (cf_rows frame); cycle = get_cycle_row (working sess) cycle_id in
              case import_rows env cycle cycle_id (cf_columns frame) rows (prefetch env (working sess) accs cycle_id rows) of
                Inl (line, e) \<Rightarrow> (Inl (Row_Failed line e), db_rollback sess, accs)
              | Inr st \<Rightarrow>
                  (case finish_import env cycle_id remove_missing st of
                     Inl e \<Rightarrow> (Inl (Import_Failed e), db_rollback sess, accs)
                   | Inr (report, db) \<Rightarrow> (Inr report, db_commit (sess\<lparr>working := db\<rparr>), im_accounts st)))))"

section \<open>Routes\<close>

datatype import_detail = Import_Msg string | Import_Log error_log

definition CHUNK_BYTES :: nat where
  "CHUNK_BYTES = 1024 * 1024"

text \<open>The copy to a temporary file, a piece at a time: whether what was sent stays within the limit.\<close>

fun copied :: "nat \<Rightarrow> nat list \<Rightarrow> nat \<Rightarrow> bool" where
  "copied limit_mb [] written = True"
| "copied limit_mb (n # pieces) written =
     (if written + n > limit_mb * 1024 * 1024 then False else copied limit_mb pieces (written + n))"

text \<open>
  \<open>pieces\<close> are the sizes of the pieces read, \<open>csv\<close> what pandas makes of the file. A failure to lay the
  days ahead is logged, and the import stands.
\<close>

definition upload_csv ::
  "import_env \<Rightarrow> race \<Rightarrow> (database \<Rightarrow> database) \<Rightarrow> nat \<Rightarrow> user \<Rightarrow> string \<Rightarrow> nat list \<Rightarrow> string \<Rightarrow> string + csv_frame
   \<Rightarrow> int \<Rightarrow> bool \<Rightarrow> session \<Rightarrow> account list
   \<Rightarrow> (import_detail chronos_error + import_report) \<times> session \<times> account list" where
  "upload_csv env race between limit_mb current_user filename pieces file_path csv cycle_id remove_missing sess accs =
     (if us_role_type current_user \<noteq> ORG_ADMIN
      then (Inl (chronos_error 403 INSUFFICIENT_ROLE (Import_Msg ''Insufficient permissions'')), sess, accs)
      else if \<not> endswith filename ''.csv''
      then (Inl (chronos_error 400 INVALID_VALUE (Import_Msg ''Only CSV files are accepted'')), sess, accs)
      else if get_cycle_row (working sess) cycle_id = None
      then (Inl (chronos_error 404 NOT_FOUND (Import_Msg ''Cycle not found'')), sess, accs)
      else if \<not> copied limit_mb pieces 0
      then (Inl (chronos_error 413 PAYLOAD_TOO_LARGE
        (Import_Msg (''File is larger than the '' @ show_nat limit_mb @ '' MB upload limit''))), sess, accs)
      else (case process_member_centric_matrix env file_path csv cycle_id remove_missing sess accs of
          (Inl l, sess1, accs1) \<Rightarrow> (Inl (chronos_error 422 IMPORT_REJECTED (Import_Log l)), sess1, accs1)
        | (Inr report, sess1, accs1) \<Rightarrow>
            (Inr report, fill_horizon (ie_app env) race between sess1 cycle_id, accs1)))"

definition trigger_ledger_generation ::
  "app_env \<Rightarrow> race \<Rightarrow> user \<Rightarrow> date option \<Rightarrow> session \<Rightarrow> (api_error + string) \<times> session" where
  "trigger_ledger_generation env race current_user target_date sess =
     (case require_roles [ORG_ADMIN] current_user of
        Inl e \<Rightarrow> (Inl e, sess)
      | Inr _ \<Rightarrow>
          (let d = (case target_date of None \<Rightarrow> env_today env + 1 | Some t \<Rightarrow> t)
           in (Inr (iso_date d), open_session (fst (snd (generate_daily_ledger_entries env race d (working sess)))))))"

end
