(* ===== verification/Ingestion_Props.thy ===== *)
theory Ingestion_Props
  imports Ingestion Schedule_Props
begin

text \<open>
  What an import promises. Every row keeps the rules of the timetable, so a file is no way around the
  checks the routes make; a file that is refused leaves everything as it was; nothing the file mentions
  is removed. Also the cells: the times it reads are the times it writes, and the days of the week.
\<close>

section \<open>Cells\<close>

lemma time_field_bounds: "time_field limit s = Some n \<Longrightarrow> 10 \<le> limit \<Longrightarrow> n < limit"
  by (auto simp: time_field_def digit_val_def is_digit_def Let_def split: list.splits if_splits)

lemma parse_time_valid:
  assumes "parse_time raw = Some t"
  shows "valid_time t"
proof -
  have "\<exists>h m s. t = (int h * 3600 + int m * 60 + int s) * 1000000 \<and> h < 24 \<and> m < 60 \<and> s < 60"
  proof (cases "split_on CHR '':'' (strip raw)")
    case (Cons a rest)
    show ?thesis
    proof (cases rest)
      case (Cons b rest')
      note rest = Cons
      show ?thesis
      proof (cases rest')
        case Nil
        then obtain h m where "time_field 24 a = Some h" "time_field 60 b = Some m" "t = (int h * 3600 + int m * 60) * 1000000"
          using assms rest \<open>split_on CHR '':'' (strip raw) = a # rest\<close> by (auto simp: parse_time_def split: option.splits)
        then show ?thesis using time_field_bounds[of 24 a h] time_field_bounds[of 60 b m]
          by (intro exI[of _ h] exI[of _ m] exI[of _ 0]) simp
      next
        case (Cons c rest'')
        then obtain h m s where "time_field 24 a = Some h" "time_field 60 b = Some m" "time_field 60 c = Some s"
          "t = (int h * 3600 + int m * 60 + int s) * 1000000"
          using assms rest \<open>split_on CHR '':'' (strip raw) = a # rest\<close>
          by (auto simp: parse_time_def split: option.splits list.splits)
        then show ?thesis using time_field_bounds[of 24 a h] time_field_bounds[of 60 b m] time_field_bounds[of 60 c s]
          by (intro exI[of _ h] exI[of _ m] exI[of _ s]) simp
      qed
    qed (use assms \<open>split_on CHR '':'' (strip raw) = a # rest\<close> in \<open>simp add: parse_time_def\<close>)
  qed simp
  then show ?thesis by (auto simp: valid_time_def day_us_def)
qed

text \<open>A time the ledger shows, in whole seconds, is read back.\<close>

lemma time_field_pad: "n < limit \<Longrightarrow> limit \<le> 100 \<Longrightarrow> time_field limit (pad_nat 2 n) = Some n"
  by (simp add: time_field_def numeral_2_eq_2)

lemma pad_no_colon: "CHR '':'' \<notin> set (pad_nat w n)"
  by (induction w arbitrary: n) (auto simp: digit_def of_char_eq_iff dest: arg_cong[of _ _ "of_char :: char \<Rightarrow> nat"])

lemma is_digit_no_space: "is_digit c \<Longrightarrow> \<not> is_space c"
  by (auto simp: is_digit_def is_space_def Let_def)

lemma strip_id: "s \<noteq> [] \<Longrightarrow> \<not> is_space (hd s) \<Longrightarrow> \<not> is_space (last s) \<Longrightarrow> strip s = s"
  by (simp add: strip_def dropWhile_eq_self_iff[THEN iffD2] hd_rev)

lemma clock_parts: "sec div 3600 * 3600 + sec div 60 mod 60 * 60 + sec mod 60 = (sec :: int)"
proof -
  have "sec div 3600 = sec div 60 div 60" by (simp add: zdiv_zmult2_eq[symmetric])
  moreover have "sec div 60 = sec div 60 div 60 * 60 + sec div 60 mod 60" by (rule div_mult_mod_eq[symmetric])
  moreover have "sec = sec div 60 * 60 + sec mod 60" by (rule div_mult_mod_eq[symmetric])
  ultimately show ?thesis by linarith
qed

theorem parse_time_reads_iso_time:
  assumes "valid_time t" and "t mod 1000000 = 0"
  shows "parse_time (iso_time t) = Some t"
proof -
  define sec where "sec = t div 1000000"
  have t: "t = sec * 1000000" unfolding sec_def using div_mult_mod_eq[of t 1000000] assms(2) by linarith
  have b: "0 \<le> sec" "sec < 86400" using assms(1) t by (auto simp: valid_time_def day_us_def)
  define h m s where "h = nat (sec div 3600)" and "m = nat (sec div 60 mod 60)" and "s = nat (sec mod 60)"
  have pos: "0 \<le> sec div 3600" "0 \<le> sec div 60 mod 60" "0 \<le> sec mod 60" using b(1) by (simp_all add: pos_imp_zdiv_nonneg_iff)
  have lt: "sec div 3600 < 24" "sec div 60 mod 60 < 60" "sec mod 60 < 60" using b(2) by (simp_all add: div_less_iff_less_mult)
  have int: "int h = sec div 3600" "int m = sec div 60 mod 60" "int s = sec mod 60"
    unfolding h_def m_def s_def by (rule nat_0_le[OF pos(1)], rule nat_0_le[OF pos(2)], rule nat_0_le[OF pos(3)])
  have small: "h < 24" "m < 60" "s < 60" using int lt by linarith+
  have whole: "int h * 3600 + int m * 60 + int s = sec" unfolding int by (rule clock_parts)
  have iso: "iso_time t = pad_nat 2 h @ '':'' @ pad_nat 2 m @ '':'' @ pad_nat 2 s"
    unfolding iso_time_def Let_def sec_def[symmetric] by (simp add: assms(2) h_def m_def s_def)
  have d: "pad_nat 2 n = [digit (n div 10), digit n]" for n by (simp add: numeral_2_eq_2)
  have "strip (iso_time t) = iso_time t"
    unfolding iso d by (rule strip_id) (simp_all add: is_digit_no_space)
  then have "parse_time (iso_time t) = Some ((int h * 3600 + int m * 60 + int s) * 1000000)"
    using small by (simp add: parse_time_def iso split_on_append[OF pad_no_colon] split_on_word[OF pad_no_colon] time_field_pad)
  then show ?thesis unfolding whole t[symmetric] .
qed

text \<open>Any whole number of the week is read, with or without a fraction of zeros; nothing else is.\<close>

lemma parse_day_range: "parse_day raw = Some d \<Longrightarrow> 1 \<le> d \<and> d \<le> 7"
proof -
  assume "parse_day raw = Some d"
  then obtain x where "find (rounds_to x) [1..7] = Some d" by (auto simp: parse_day_def bind_eq_Some_conv)
  then have "d \<in> set [1..7]" by (metis find_Some_iff_first)
  then show ?thesis by simp
qed

lemma parse_day_examples:
  "parse_day ''3'' = Some 3" "parse_day '' 2.0'' = Some 2" "parse_day ''7e0'' = Some 7" "parse_day ''0.1e1'' = Some 1"
  "parse_day ''8'' = None" "parse_day ''1.5'' = None" "parse_day ''nan'' = None" "parse_day ''Mon'' = None"
  by code_simp+

section \<open>Putting slots right\<close>

text \<open>As \<open>more_slots_apart\<close>, for slots that may also have another lead.\<close>

definition alike :: "rrule_lib \<Rightarrow> database \<Rightarrow> database \<Rightarrow> int \<Rightarrow> master_slot \<Rightarrow> bool" where
  "alike L db db' rid s \<longleftrightarrow> (\<exists>y \<in> set (booked_slots db rid). sl_id y = sl_id s \<and> slot_runs L db y = slot_runs L db' s \<and>
     sl_time_window_start y = sl_time_window_start s \<and> sl_time_window_end y = sl_time_window_end s)"

lemma alike_apart:
  assumes "slots_apart L today db"
    and "\<And>rid s. s \<in> set (booked_slots db' rid) \<Longrightarrow> alike L db db' rid s \<or> slot_fits L today db' rid s"
  shows "slots_apart L today db'"
  unfolding slots_apart_def
proof (intro allI ballI impI)
  fix rid s s' d d'
  assume s: "s \<in> set (booked_slots db' rid)" and s': "s' \<in> set (booked_slots db' rid)" and ne: "sl_id s \<noteq> sl_id s'"
    and d: "today < d" "today < d'" "slot_runs L db' s d" "slot_runs L db' s' d'"
  let ?m = "\<lambda>x y e e'. meets (window_span e (sl_time_window_start x) (sl_time_window_end x))
    (window_span e' (sl_time_window_start y) (sl_time_window_end y))"
  consider (fits) "slot_fits L today db' rid s" | (fits') "slot_fits L today db' rid s'"
    | (old) "alike L db db' rid s" "alike L db db' rid s'"
    using assms(2)[OF s] assms(2)[OF s'] by blast
  then show "\<not> ?m s s' d d'"
  proof cases
    case fits
    then show ?thesis using s' ne d unfolding slot_fits_def by (metis (no_types))
  next
    case fits'
    have "\<not> ?m s' s d' d" using fits' s ne d unfolding slot_fits_def by (metis (no_types))
    then show ?thesis by (simp add: meets_sym)
  next
    case old
    then obtain y y' where y: "y \<in> set (booked_slots db rid)" "y' \<in> set (booked_slots db rid)" "sl_id y \<noteq> sl_id y'"
      "slot_runs L db y d" "slot_runs L db y' d'" "?m y y' d d' = ?m s s' d d'"
      using ne d unfolding alike_def by metis
    then show ?thesis using assms(1) d(1,2) unfolding slots_apart_def by blast
  qed
qed

lemma alike_clear:
  assumes "holds_clear L today db" and "reservations db' = reservations db" and "daily_ledger_rows db' = daily_ledger_rows db"
    and "\<And>rid s. s \<in> set (booked_slots db' rid) \<Longrightarrow> alike L db db' rid s \<or> slot_fits L today db' rid s"
  shows "holds_clear L today db'"
  unfolding holds_clear_def timetable_clear_def
proof (intro ballI impI)
  fix r sp assume r: "r \<in> set (reservations db')" "today \<le> rv_reserved_date r"
    and held: "rv_status r = HELD \<and> rv_mode r \<noteq> SHARED" and sp: "sp \<in> timetable L db' (rv_resource_id r)"
  let ?rid = "rv_resource_id r"
  have days: "days_on db' = days_on db" by (simp add: days_on_def assms(3) fun_eq_iff)
  have clear: "\<not> meets sp (held_span r)" if "sp \<in> timetable L db ?rid"
    using assms(1,2) r held that by (simp add: holds_clear_def timetable_clear_def)
  show "\<not> meets sp (held_span r)"
  proof (cases "sp \<in> day_span ` days_on db ?rid")
    case False
    then obtain s d where s: "s \<in> set (booked_slots db' ?rid)" "slot_runs L db' s d"
      "sp = window_span d (sl_time_window_start s) (sl_time_window_end s)"
      "(d, Some (sl_id s)) \<notin> (\<lambda>r. (dl_target_date r, dl_master_slot_id r)) ` days_on db ?rid"
      using sp days unfolding timetable_def slot_spans_def by auto
    from assms(4)[OF s(1)] show ?thesis
    proof
      assume "alike L db db' ?rid s"
      then obtain y where y: "y \<in> set (booked_slots db ?rid)" "sl_id y = sl_id s" "slot_runs L db y = slot_runs L db' s"
        "sl_time_window_start y = sl_time_window_start s" "sl_time_window_end y = sl_time_window_end s"
        unfolding alike_def by blast
      have "sp \<in> slot_spans L db ?rid" unfolding slot_spans_def using y s(2-4)
        by (intro CollectI exI[of _ y] exI[of _ d]) simp
      then show ?thesis by (intro clear) (simp add: timetable_def)
    next
      assume "slot_fits L today db' ?rid s"
      then show ?thesis using r held s(2,3) unfolding slot_fits_def by blast
    qed
  qed (use clear in \<open>simp add: timetable_def\<close>)
qed

text \<open>One slot given another end, lead and room, after the checks when the class moves.\<close>

definition put_slot :: "int \<Rightarrow> (master_slot \<Rightarrow> master_slot) \<Rightarrow> database \<Rightarrow> database" where
  "put_slot i f db = db\<lparr>structural_master_slots := update_rows (\<lambda>x. sl_id x = i) f (structural_master_slots db)\<rparr>"

definition placed :: "time_of_day \<Rightarrow> string \<Rightarrow> int \<Rightarrow> master_slot \<Rightarrow> master_slot" where
  "placed e lead rid x = x\<lparr>sl_time_window_end := e, sl_primary_lead_id := Some lead, sl_resource_id := Some rid\<rparr>"

lemma placed_simps [simp]:
  "sl_id (placed e l r x) = sl_id x" "sl_rrule (placed e l r x) = sl_rrule x" "sl_dtstart (placed e l r x) = sl_dtstart x"
  "sl_time_window_start (placed e l r x) = sl_time_window_start x" "sl_time_window_end (placed e l r x) = e"
  "sl_activity_id (placed e l r x) = sl_activity_id x" "sl_resource_id (placed e l r x) = Some r"
  "sl_retired_at (placed e l r x) = sl_retired_at x"
  by (simp_all add: placed_def)

lemma placed_counts [simp]:
  "slot_counts db (placed e l r x) = slot_counts db x" "slot_runs L db (placed e l r x) = slot_runs L db x"
  by (simp_all add: slot_counts_def slot_activity_def slot_runs_def slot_cycle_def fun_eq_iff)

lemma placed_slot_rules:
  assumes "timetable_rules L t db" and s: "s \<in> set (structural_master_slots db)"
    and "valid_window (sl_time_window_start s) e"
    and moved: "sl_resource_id s \<noteq> Some rid \<or> sl_time_window_end s \<noteq> e \<Longrightarrow> slot_counts db s \<Longrightarrow> slot_fits L t db rid (placed e lead rid s)"
  shows "timetable_rules L t (put_slot (sl_id s) (placed e lead rid) db)" (is "timetable_rules L t ?db'")
proof -
  have rules: "rows_ok L db" "slots_apart L t db" "holds_clear L t db" using assms(1) by (simp_all add: timetable_rules_def)
  have dist: "x = s" if "x \<in> set (structural_master_slots db)" "sl_id x = sl_id s" for x
    using rules(1) s that by (auto simp: rows_ok_def keys_ok_def distinct_map dest: inj_onD)
  have slots: "structural_master_slots ?db' = map (\<lambda>x. if sl_id x = sl_id s then placed e lead rid x else x) (structural_master_slots db)"
    by (simp add: put_slot_def update_rows_def)
  have same: "slot_counts ?db' = slot_counts db" "slot_runs L ?db' = slot_runs L db" by (simp_all add: put_slot_def)
  have other: "x \<in> set (booked_slots db r) \<and> sl_id x \<noteq> sl_id s \<or> x = placed e lead rid s \<and> r = rid \<and> slot_counts db s"
    if x: "x \<in> set (booked_slots ?db' r)" for r x
  proof -
    obtain y where y: "y \<in> set (structural_master_slots db)" "x = (if sl_id y = sl_id s then placed e lead rid y else y)"
      using x unfolding booked_slots_def slots by auto
    show ?thesis
    proof (cases "sl_id y = sl_id s")
      case True
      then show ?thesis using x y dist[OF y(1)] by (auto simp: booked_slots_def same)
    next
      case False
      then show ?thesis using x y by (auto simp: booked_slots_def same)
    qed
  qed
  have fits: "alike L db ?db' r x \<or> slot_fits L t ?db' r x" if x: "x \<in> set (booked_slots ?db' r)" for r x
    using other[OF x]
  proof
    assume "x \<in> set (booked_slots db r) \<and> sl_id x \<noteq> sl_id s"
    then show ?thesis by (auto simp: alike_def same)
  next
    assume p: "x = placed e lead rid s \<and> r = rid \<and> slot_counts db s"
    show ?thesis
    proof (cases "sl_resource_id s \<noteq> Some rid \<or> sl_time_window_end s \<noteq> e")
      case True
      then have "slot_fits L t db rid (placed e lead rid s)" using moved p by blast
      moreover have "s' \<in> set (booked_slots db rid)"
        if "s' \<in> set (booked_slots ?db' rid)" "sl_id s' \<noteq> sl_id (placed e lead rid s)" for s'
        using other[OF that(1)] that(2) by auto
      moreover have "reservations ?db' = reservations db" by (simp add: put_slot_def)
      ultimately have "slot_fits L t ?db' rid (placed e lead rid s)"
        unfolding slot_fits_def same by metis
      then show ?thesis using p by blast
    next
      case False
      then have "alike L db ?db' r x" unfolding alike_def same using p s by (intro bexI[of _ s]) (auto simp: booked_slots_def)
      then show ?thesis by blast
    qed
  qed
  have "slots_apart L t ?db'" by (rule alike_apart[OF rules(2) fits])
  moreover have "holds_clear L t ?db'" by (rule alike_clear[OF rules(3) _ _ fits]) (simp_all add: put_slot_def)
  moreover have "rows_ok L ?db'"
  proof -
    have "slot_ok L x" if x: "x \<in> set (structural_master_slots ?db')" for x
    proof -
      obtain y where y: "y \<in> set (structural_master_slots db)" "x = (if sl_id y = sl_id s then placed e lead rid y else y)"
        using x unfolding slots by auto
      have "slot_ok L y" using y(1) rules(1) by (simp add: rows_ok_def tables_ok_def)
      then show ?thesis using y dist[OF y(1)] assms(3) by (auto simp: slot_ok_def)
    qed
    moreover have "map sl_id (structural_master_slots ?db') = map sl_id (structural_master_slots db)"
      "map sl_activity_id (structural_master_slots ?db') = map sl_activity_id (structural_master_slots db)"
      by (simp_all add: slots)
    then have "sl_id ` set (structural_master_slots ?db') = sl_id ` set (structural_master_slots db)"
      "sl_activity_id ` set (structural_master_slots ?db') = sl_activity_id ` set (structural_master_slots db)"
      by (metis set_map)+
    then have "keys_ok ?db'" using rules(1) \<open>map sl_id _ = _\<close> by (auto simp: rows_ok_def keys_ok_def put_slot_def)
    moreover have "days_follow_slots ?db'"
      using rules(1) unfolding rows_ok_def days_follow_slots_def slots by (auto simp: put_slot_def)
    ultimately show ?thesis using rules(1) by (simp add: rows_ok_def tables_ok_def) (simp add: put_slot_def)
  qed
  ultimately show ?thesis by (simp add: timetable_rules_def)
qed

section \<open>What the other steps of a row change\<close>

text \<open>The rules are read off five tables.\<close>

lemma timetable_rules_cong:
  assumes "structural_master_slots db' = structural_master_slots db" and "activities db' = activities db"
    and "planning_cycles db' = planning_cycles db" and "daily_ledger_rows db' = daily_ledger_rows db"
    and "reservations db' = reservations db"
  shows "timetable_rules L t db' = timetable_rules L t db"
proof -
  have look: "get_activity_row db' = get_activity_row db" "get_cycle_row db' = get_cycle_row db"
    by (simp_all add: get_activity_row_def get_cycle_row_def fun_eq_iff assms)
  have same: "slot_counts db' = slot_counts db" "slot_runs L db' = slot_runs L db"
    using counts_runs_same[of db' _ db] look by (auto simp: fun_eq_iff)
  have booked: "booked_slots db' = booked_slots db" by (simp add: booked_slots_def same fun_eq_iff assms)
  have "timetable L db' = timetable L db"
    by (simp add: timetable_def slot_spans_def days_on_def booked same fun_eq_iff assms)
  then show ?thesis
    by (simp add: timetable_rules_def rows_ok_def tables_ok_def keys_ok_def days_follow_slots_def slots_apart_def
        holds_clear_def timetable_clear_def booked same assms)
qed

lemma retitled_rules:
  assumes "timetable_rules L t db" and "\<And>a. ac_id (f a) = ac_id a \<and> ac_cycle_id (f a) = ac_cycle_id a \<and> ac_retired_at (f a) = ac_retired_at a"
  shows "timetable_rules L t (db\<lparr>activities := update_rows P f (activities db)\<rparr>)" (is "timetable_rules L t ?db'")
proof -
  have rows: "rows_ok L db" using assms(1) by (simp add: timetable_rules_def)
  have cyc: "get_cycle_row ?db' = get_cycle_row db" by (simp add: get_cycle_row_def fun_eq_iff)
  have act: "get_activity_row ?db' i = map_option (\<lambda>x. if P x then f x else x) (get_activity_row db i)" for i
    by (simp add: get_activity_row_def find_update_rows assms(2))
  have counts: "slot_counts ?db' s = slot_counts db s" for s
    by (cases "get_activity_row db (sl_activity_id s)") (simp_all add: slot_counts_def slot_activity_def act cyc assms(2))
  have runs: "slot_runs L ?db' s = slot_runs L db s" for s
    by (cases "get_activity_row db (sl_activity_id s)")
      (simp_all add: slot_runs_def slot_cycle_def slot_activity_def act cyc assms(2) fun_eq_iff)
  have "only_less L db ?db'"
    by (rule withdrawn_only_less[where ids = "{}"]) (simp_all add: counts runs)
  moreover have "rows_ok L ?db'"
    by (rule rows_ok_fewer_days[OF rows, where P = "\<lambda>_. True"]) (simp_all add: map_update_rows_id assms(2))
  ultimately show ?thesis by (rule only_less_rules[OF assms(1)])
qed

section \<open>The loop over the rows\<close>

text \<open>
  What holds between two rows: the rules, the cycle as it was, an activity behind every code that is
  in the cycle, and a slot behind every key that has it. Ids are primary keys.
\<close>

definition import_inv :: "rrule_lib \<Rightarrow> date \<Rightarrow> planning_cycle option \<Rightarrow> int \<Rightarrow> import_state \<Rightarrow> bool" where
  "import_inv L t cycle cycle_id st \<longleftrightarrow>
     timetable_rules L t (im_db st) \<and> get_cycle_row (im_db st) cycle_id = cycle \<and>
     distinct (map ac_id (activities (im_db st))) \<and>
     (\<forall>code i. im_offerings st code = Some i \<longrightarrow> (\<exists>a. get_activity_row (im_db st) i = Some a \<and> ac_cycle_id a = cycle_id)) \<and>
     (\<forall>k i. im_slots st k = Some i \<longrightarrow> (\<exists>s. get_slot_row (im_db st) i = Some s \<and> key_of_slot s = k))"

lemma import_invD:
  assumes "import_inv L t cycle cid st"
  shows "timetable_rules L t (im_db st)" and "get_cycle_row (im_db st) cid = cycle"
    and "distinct (map ac_id (activities (im_db st)))"
    and "im_offerings st code = Some i \<Longrightarrow> \<exists>a. get_activity_row (im_db st) i = Some a \<and> ac_cycle_id a = cid"
    and "im_slots st k = Some i \<Longrightarrow> \<exists>s. get_slot_row (im_db st) i = Some s \<and> key_of_slot s = k"
  using assms unfolding import_inv_def by blast+

text \<open>A step that leaves the timetable's tables and the dicts over them alone.\<close>

definition same_timetable :: "import_state \<Rightarrow> import_state \<Rightarrow> bool" where
  "same_timetable st st' \<longleftrightarrow>
     structural_master_slots (im_db st') = structural_master_slots (im_db st) \<and>
     activities (im_db st') = activities (im_db st) \<and> planning_cycles (im_db st') = planning_cycles (im_db st) \<and>
     daily_ledger_rows (im_db st') = daily_ledger_rows (im_db st) \<and> reservations (im_db st') = reservations (im_db st) \<and>
     im_offerings st' = im_offerings st \<and> im_slots st' = im_slots st"

lemma same_timetable_inv: "same_timetable st st' \<Longrightarrow> import_inv L t c cid st \<Longrightarrow> import_inv L t c cid st'"
  using timetable_rules_cong[of "im_db st'" "im_db st" L t]
  by (simp add: same_timetable_def import_inv_def get_cycle_row_def get_activity_row_def get_slot_row_def)

lemma create_member_same: "create_member env row email st = Inr st' \<Longrightarrow> same_timetable st st'"
  by (auto simp: create_member_def Let_def refuse_row_def same_timetable_def split: if_splits option.splits)

lemma update_member_same: "update_member row email m st = Inr st' \<Longrightarrow> same_timetable st st'"
  by (auto simp: update_member_def Let_def refuse_row_def same_timetable_def put_user_def split: if_splits option.splits)

lemma upsert_member_same: "upsert_member env row st = Inr st' \<Longrightarrow> same_timetable st st'"
  by (auto simp: upsert_member_def Let_def create_member_same update_member_same split: option.splits)

lemma upsert_enrollment_same: "same_timetable st (upsert_enrollment aid row st)"
  by (simp add: upsert_enrollment_def Let_def same_timetable_def)

lemma find_room_same: "find_room row st = (rid, st') \<Longrightarrow> same_timetable st st'"
  using get_or_create_room_db[of "row ''room''" "im_db st"]
  by (auto simp: find_room_def same_timetable_def split: option.splits prod.splits)

lemma upsert_offering_inv:
  assumes "import_inv L t cycle cid st" and "upsert_offering cid row st = Inr (aid, st')"
  shows "import_inv L t cycle cid st'"
    and "\<exists>a. get_activity_row (im_db st') aid = Some a \<and> ac_cycle_id a = cid"
proof -
  note inv = import_invD[OF assms(1)]
  let ?db = "im_db st" and ?code = "row ''activity_code''"
  have "import_inv L t cycle cid st' \<and> (\<exists>a. get_activity_row (im_db st') aid = Some a \<and> ac_cycle_id a = cid)"
  proof (cases "im_offerings st ?code")
    case None
    let ?a0 = "\<lparr>ac_id = 0, ac_activity_code = ?code, ac_activity_title = row ''activity_title'',
      ac_unit_code = row ''unit'', ac_cycle_id = cid, ac_retired_at = None\<rparr>"
    obtain c a db1 where new: "get_cycle_row ?db cid = Some c" "insert_activity ?db ?a0 = Inr (a, db1)"
      and st': "aid = ac_id a" "st' = st\<lparr>im_db := db1, im_offerings := (im_offerings st)(?code := Some (ac_id a))\<rparr>"
      using assms(2) None by (auto simp: upsert_offering_def Let_def split: if_splits sum.splits)
    have "ac_cycle_id ?a0 \<in> cy_id ` set (planning_cycles ?db)" using get_cycle_row_Some[OF new(1)] by (auto simp: image_iff)
    note act = insert_activity_rules[OF inv(1) new(2) this]
    have db1: "activities db1 = activities ?db @ [a]" "a = ?a0\<lparr>ac_id := fresh_id (map ac_id (activities ?db))\<rparr>"
      using new(2) by (auto simp: insert_activity_def Let_def split: if_splits)
    have kept: "get_activity_row db1 i = get_activity_row ?db i" if "get_activity_row ?db i \<noteq> None" for i
      using that db1(1) by (auto simp: get_activity_row_def find_append)
    have "distinct (map ac_id (activities db1))"
      using inv(3) fresh_id_notin[of "map ac_id (activities ?db)"] unfolding db1 by simp
    moreover have "get_cycle_row db1 cid = cycle" using act(4) inv(2) by (simp add: get_cycle_row_def)
    moreover have "\<exists>a. get_activity_row db1 i = Some a \<and> ac_cycle_id a = cid"
      if "im_offerings st' code = Some i" for code i
    proof (cases "code = ?code")
      case True
      then show ?thesis using that act(2,3) by (simp add: st')
    next
      case False
      then show ?thesis using that inv(4)[of code i] kept[of i] by (auto simp: st')
    qed
    ultimately show ?thesis using act(1,2,3,5) inv(5) by (auto simp: import_inv_def st' get_slot_row_def)
  next
    case (Some i)
    let ?f = "\<lambda>x. x\<lparr>ac_activity_title := row ''activity_title'', ac_unit_code := row ''unit''\<rparr>"
    let ?db' = "?db\<lparr>activities := update_rows (\<lambda>x. ac_id x = i) ?f (activities ?db)\<rparr>"
    have st': "aid = i" "st' = st\<lparr>im_db := ?db'\<rparr>"
      using assms(2) Some by (auto simp: upsert_offering_def Let_def refuse_row_def split: if_splits option.splits)
    have act: "get_activity_row ?db' j = map_option (\<lambda>x. if ac_id x = i then ?f x else x) (get_activity_row ?db j)" for j
      by (simp add: get_activity_row_def find_update_rows)
    have kept: "\<exists>a. get_activity_row ?db' j = Some a \<and> ac_cycle_id a = cid" if k: "im_offerings st code = Some j" for code j
    proof -
      obtain a where "get_activity_row ?db j = Some a" "ac_cycle_id a = cid" using inv(4)[OF k] by blast
      then show ?thesis by (cases "ac_id a = i") (simp_all add: act)
    qed
    have "timetable_rules L t ?db'" by (rule retitled_rules[OF inv(1)]) simp
    moreover have "distinct (map ac_id (activities ?db'))" using inv(3) by (simp add: map_update_rows_id)
    moreover have "get_cycle_row ?db' cid = cycle" using inv(2) by (simp add: get_cycle_row_def)
    moreover have "get_slot_row ?db' = get_slot_row ?db" by (simp add: get_slot_row_def fun_eq_iff)
    ultimately show ?thesis using kept kept[OF Some] inv(5) unfolding import_inv_def st' by simp
  qed
  then show "import_inv L t cycle cid st'" "\<exists>a. get_activity_row (im_db st') aid = Some a \<and> ac_cycle_id a = cid" by blast+
qed

section \<open>The slot of a row\<close>

text \<open>What the import relies on of dateutil: it reads the seven weekly rules the import writes.\<close>

definition reads_weekly_rules :: "rrule_lib \<Rightarrow> bool" where
  "reads_weekly_rules L \<longleftrightarrow> list_all (\<lambda>d. case weekly_rule d of Inl _ \<Rightarrow> False | Inr rule \<Rightarrow> stored_rule L rule) [1..7]"

lemma window_of_row_ok:
  assumes "window_of_row row = Inr w" and "reads_weekly_rules L"
  shows "valid_window (rw_start w) (rw_end w)" and "stored_rule L (rw_rule w)"
proof -
  obtain d rule a b where w: "parse_day (row ''day_of_week_index'') = Some d" "weekly_rule d = Inr rule"
    "parse_time (row ''time_window_start'') = Some a" "parse_time (row ''time_window_end'') = Some b" "b \<noteq> a"
    "w = \<lparr>rw_day = d, rw_rule = rule, rw_start = a, rw_end = b\<rparr>"
    using assms(1) by (auto simp: window_of_row_def refuse_row_def split: option.splits sum.splits if_splits)
  show "valid_window (rw_start w) (rw_end w)"
    using w(5) parse_time_valid[OF w(3)] parse_time_valid[OF w(4)] by (simp add: w(6) valid_window_def)
  have "d \<in> set [1..7]" using parse_day_range[OF w(1)] by simp
  then have "case weekly_rule d of Inl _ \<Rightarrow> False | Inr rule \<Rightarrow> stored_rule L rule"
    using assms(2) unfolding reads_weekly_rules_def list_all_iff by blast
  then show "stored_rule L (rw_rule w)" by (simp add: w(2,6))
qed

lemma check_room_Inr:
  "check_room env cycle db rid w ds excl code = Inr () \<longleftrightarrow>
   (cycle_is_open cycle \<longrightarrow>
      held_against_slot (env_rrule (ie_app env)) (env_today (ie_app env)) db rid (rw_rule w) ds (rw_start w) (rw_end w) cycle = [] \<and>
      slots_against_slot (env_rrule (ie_app env)) (env_today (ie_app env)) db rid (rw_rule w) ds (rw_start w) (rw_end w) excl cycle = []) \<and>
   days_against_slot (env_rrule (ie_app env)) (env_today (ie_app env)) db rid (rw_rule w) ds (rw_start w) (rw_end w) excl cycle = []"
proof -
  have "refuse_over r xs = Inr () \<longleftrightarrow> xs = []" for r xs by (cases xs) (simp_all add: refuse_over_def refuse_row_def)
  then show ?thesis by (auto simp: check_room_def Let_def result_simps)
qed

text \<open>A slot that passed the checks and counts, fits.\<close>

lemma checked_slot_fits:
  assumes "timetable_rules L t db" and "rrule_lib_ok L" and "slot_ok L s" and "L = env_rrule (ie_app env)" and "t = env_today (ie_app env)"
    and "check_room env (slot_cycle db s) db rid w (sl_dtstart s) excl code = Inr ()"
    and "sl_rrule s = rw_rule w" and "sl_time_window_start s = rw_start w" and "sl_time_window_end s = rw_end w"
    and "slot_counts db s" and "excl = None \<or> excl = Some (sl_id s)"
  shows "slot_fits L t db rid s"
proof (rule checks_fit[where cycle = "slot_cycle db s" and excl = excl])
  show "tables_ok L db" using assms(1) by (simp add: timetable_rules_def rows_ok_def)
  have "cycle_is_open (slot_cycle db s)"
    using assms(10) by (auto simp: slot_counts_def slot_cycle_def cycle_is_open_def split: option.splits)
  then show "held_against_slot L t db rid (sl_rrule s) (sl_dtstart s) (sl_time_window_start s) (sl_time_window_end s) (slot_cycle db s) = []"
    "slots_against_slot L t db rid (sl_rrule s) (sl_dtstart s) (sl_time_window_start s) (sl_time_window_end s) excl (slot_cycle db s) = []"
    using assms(6) unfolding check_room_Inr assms(4,5,7-9) by blast+
qed (use assms in \<open>auto simp: slot_runs_def\<close>)

lemma get_slot_row_Some: "get_slot_row db i = Some s \<Longrightarrow> s \<in> set (structural_master_slots db) \<and> sl_id s = i"
  unfolding get_slot_row_def by (rule find_Some_iff_first)

lemma match_slot_Some:
  assumes "match_slot env cycle aid w row st = Inr (slot, ds)"
  shows "slot = None \<or> (\<exists>i s. slot = Some s \<and> ds = sl_dtstart s \<and> im_slots st (aid, rw_rule w, rw_start w) = Some i \<and>
    get_slot_row (im_db st) i = Some s \<and> sl_retired_at s = None)"
  using assms by (auto simp: match_slot_def refuse_row_def bind_eq_Some_conv split: option.splits sum.splits if_splits)

text \<open>The new slot.\<close>

lemma new_slot_inv:
  assumes inv: "import_inv L t cycle cid st" and "rrule_lib_ok L" and "L = env_rrule (ie_app env)" and "t = env_today (ie_app env)"
    and act: "get_activity_row (im_db st) aid = Some a" "ac_cycle_id a = cid"
    and w: "valid_window (rw_start w) (rw_end w)" "stored_rule L (rw_rule w)"
    and chk: "check_room env cycle (im_db st) rid w ds None code = Inr ()"
    and out: "write_slot env aid w ds rid lead None st = (sid, st')"
  shows "import_inv L t cycle cid st'"
proof -
  note inv' = import_invD[OF inv]
  let ?db = "im_db st" and ?s0 = "imported_slot env aid w ds rid lead"
  let ?i = "fresh_id (map sl_id (structural_master_slots ?db))"
  let ?s = "?s0\<lparr>sl_id := ?i\<rparr>"
  have st': "st' = st\<lparr>im_db := ?db\<lparr>structural_master_slots := structural_master_slots ?db @ [?s]\<rparr>,
      im_slots := (im_slots st)((aid, rw_rule w, rw_start w) := Some ?i)\<rparr>"
    using out by (auto simp: write_slot_def insert_slot_eq Let_def)
  have s0: "sl_rrule ?s0 = rw_rule w" "sl_dtstart ?s0 = ds" "sl_time_window_start ?s0 = rw_start w"
    "sl_time_window_end ?s0 = rw_end w" "sl_activity_id ?s0 = aid" "sl_resource_id ?s0 = Some rid"
    by (simp_all add: imported_slot_def)
  have ok: "slot_ok L ?s0" "slot_ok L ?s" using w by (simp_all add: slot_ok_def s0)
  have cyc: "slot_cycle ?db ?s = cycle" using act inv'(2) by (simp add: slot_cycle_def slot_activity_def s0)
  have "slot_fits L t ?db rid ?s" if "slot_counts ?db ?s0"
  proof (rule checked_slot_fits[OF inv'(1) assms(2) ok(2) assms(3,4), where excl = None and w = w and code = code])
    show "check_room env (slot_cycle ?db ?s) ?db rid w (sl_dtstart ?s) None code = Inr ()" using chk by (simp add: cyc s0)
    show "slot_counts ?db ?s" using that by (simp add: slot_counts_def slot_activity_def)
  qed (simp_all add: s0)
  then have "timetable_rules L t (snd (insert_slot ?db ?s0))"
    using get_activity_row_Some[OF act(1)]
    by (intro insert_slot_rules[OF inv'(1) ok(1)]) (auto simp: s0 insert_slot_eq)
  moreover have "\<exists>s. get_slot_row (im_db st') i = Some s \<and> key_of_slot s = k" if k: "im_slots st' k = Some i" for k i
  proof (cases "k = (aid, rw_rule w, rw_start w)")
    case True
    have "find (\<lambda>s. sl_id s = ?i) (structural_master_slots ?db) = None"
      using fresh_id_notin[of "map sl_id (structural_master_slots ?db)"] by (simp add: find_None_iff) (metis imageI)
    then show ?thesis using k True by (simp add: st' get_slot_row_def find_append key_of_slot_def) (simp add: imported_slot_def)
  next
    case False
    then obtain y where "get_slot_row ?db i = Some y" "key_of_slot y = k" using k inv'(5)[of k i] by (auto simp: st')
    then show ?thesis by (simp add: st' get_slot_row_def find_append)
  qed
  ultimately show ?thesis using inv'(2-4) by (simp add: import_inv_def st' insert_slot_eq)
qed

text \<open>A slot that is there.\<close>

lemma find_put_slot: "get_slot_row (put_slot i f db) j = map_option (\<lambda>x. if sl_id x = i then f x else x) (get_slot_row db j)"
  if "\<And>x. sl_id (f x) = sl_id x"
  by (simp add: get_slot_row_def put_slot_def find_update_rows that)

lemma old_slot_inv:
  assumes inv: "import_inv L t cycle cid st" and "rrule_lib_ok L" and "L = env_rrule (ie_app env)" and "t = env_today (ie_app env)"
    and act: "get_activity_row (im_db st) (sl_activity_id s) = Some a" "ac_cycle_id a = cid"
    and w: "valid_window (rw_start w) (rw_end w)"
    and s: "get_slot_row (im_db st) i = Some s" "sl_rrule s = rw_rule w" "sl_time_window_start s = rw_start w"
    and chk: "moves_the_class (Some s) rid w \<Longrightarrow> check_room env cycle (im_db st) rid w (sl_dtstart s) (Some (sl_id s)) code = Inr ()"
    and out: "write_slot env aid w ds rid lead (Some s) st = (sid, st')"
  shows "import_inv L t cycle cid st'"
proof -
  note inv' = import_invD[OF inv]
  let ?db = "im_db st" and ?f = "placed (rw_end w) lead rid"
  have rows: "rows_ok L ?db" using inv'(1) by (simp add: timetable_rules_def)
  have row: "s \<in> set (structural_master_slots ?db)" "slot_ok L s"
    using get_slot_row_Some[OF s(1)] rows by (simp_all add: rows_ok_def tables_ok_def)
  have ok: "slot_ok L (?f s)" using row(2) w s(3) by (simp add: slot_ok_def)
  have cyc: "slot_cycle ?db (?f s) = cycle" using act inv'(2) by (simp add: slot_cycle_def slot_activity_def)
  have "slot_fits L t ?db rid (?f s)" if moved: "sl_resource_id s \<noteq> Some rid \<or> sl_time_window_end s \<noteq> rw_end w" and cnt: "slot_counts ?db s"
  proof (rule checked_slot_fits[OF inv'(1) assms(2) ok assms(3,4), where excl = "Some (sl_id s)" and w = w and code = code])
    show "check_room env (slot_cycle ?db (?f s)) ?db rid w (sl_dtstart (?f s)) (Some (sl_id s)) code = Inr ()"
      using chk moved by (simp add: cyc moves_the_class_def)
  qed (use cnt s in simp_all)
  then have rules: "timetable_rules L t (put_slot (sl_id s) ?f ?db)"
    using w s(3) by (intro placed_slot_rules[OF inv'(1) row(1)]) simp_all
  have "key_of_slot (?f x) = key_of_slot x" for x by (simp add: key_of_slot_def)
  then have keys: "\<exists>y. get_slot_row (put_slot (sl_id s) ?f ?db) j = Some y \<and> key_of_slot y = k" if k: "im_slots st k = Some j" for k j
  proof -
    obtain y where "get_slot_row ?db j = Some y" "key_of_slot y = k" using inv'(5)[OF k] by blast
    then show ?thesis by (simp add: find_put_slot key_of_slot_def)
  qed
  have "im_db st' = ?db \<or> im_db st' = put_slot (sl_id s) ?f ?db" and dicts: "im_slots st' = im_slots st" "im_offerings st' = im_offerings st"
    using out by (auto simp: write_slot_def put_slot_def placed_def[abs_def] Let_def split: if_splits)
  then show ?thesis
  proof (elim disjE)
    assume "im_db st' = ?db"
    then show ?thesis using inv dicts by (simp add: import_inv_def)
  next
    assume "im_db st' = put_slot (sl_id s) ?f ?db"
    then show ?thesis using inv'(2-4) rules keys dicts by (simp add: import_inv_def) (simp add: put_slot_def)
  qed
qed

lemma upsert_slot_inv:
  assumes inv: "import_inv L t cycle cid st" and lib: "rrule_lib_ok L" "reads_weekly_rules L"
    and env: "L = env_rrule (ie_app env)" "t = env_today (ie_app env)"
    and act: "get_activity_row (im_db st) aid = Some a" "ac_cycle_id a = cid"
    and out: "upsert_slot env cycle aid row st = Inr (sid, st')"
  shows "import_inv L t cycle cid st'"
proof -
  obtain w slot ds rid st1 where w: "window_of_row row = Inr w" and m: "match_slot env cycle aid w row st = Inr (slot, ds)"
    and r: "find_room row st = (rid, st1)"
    and chk: "moves_the_class slot rid w \<Longrightarrow>
      check_room env cycle (im_db st1) rid w ds (map_option sl_id slot) (row ''activity_code'') = Inr ()"
    and wr: "write_slot env aid w ds rid (row ''lead_id'') slot st1 = (sid, st')"
  proof -
    from out obtain w slot ds where w: "window_of_row row = Inr w" "match_slot env cycle aid w row st = Inr (slot, ds)"
      by (auto simp: upsert_slot_def result_simps)
    obtain rid st1 where r: "find_room row st = (rid, st1)" by (cases "find_room row st")
    show thesis by (rule that[OF w r]) (use out w r in \<open>auto simp: upsert_slot_def result_simps split: if_splits\<close>)
  qed
  have same: "same_timetable st st1" by (rule find_room_same[OF r])
  have inv1: "import_inv L t cycle cid st1" by (rule same_timetable_inv[OF same inv])
  have look: "get_activity_row (im_db st1) = get_activity_row (im_db st)" "get_slot_row (im_db st1) = get_slot_row (im_db st)"
    using same by (simp_all add: same_timetable_def get_activity_row_def get_slot_row_def fun_eq_iff)
  note ok = window_of_row_ok[OF w lib(2)]
  from match_slot_Some[OF m] show ?thesis
  proof (elim disjE exE conjE)
    assume none: "slot = None"
    then have "check_room env cycle (im_db st1) rid w ds None (row ''activity_code'') = Inr ()"
      using chk by (simp add: moves_the_class_def)
    from new_slot_inv[OF inv1 lib(1) env _ act(2) ok this wr[unfolded none]] act(1) show ?thesis by (simp add: look)
  next
    fix i s assume s: "slot = Some s" "ds = sl_dtstart s" "im_slots st (aid, rw_rule w, rw_start w) = Some i"
      "get_slot_row (im_db st) i = Some s"
    have key: "key_of_slot s = (aid, rw_rule w, rw_start w)" using import_invD(5)[OF inv s(3)] s(4) by auto
    then have eq: "sl_activity_id s = aid" "sl_rrule s = rw_rule w" "sl_time_window_start s = rw_start w"
      by (simp_all add: key_of_slot_def)
    show ?thesis
    proof (rule old_slot_inv[OF inv1 lib(1) env])
      show "get_activity_row (im_db st1) (sl_activity_id s) = Some a" using act(1) by (simp add: look eq(1))
      show "get_slot_row (im_db st1) i = Some s" using s(4) by (simp add: look)
      show "write_slot env aid w ds rid (row ''lead_id'') (Some s) st1 = (sid, st')" using wr s(1) by simp
      show "check_room env cycle (im_db st1) rid w (sl_dtstart s) (Some (sl_id s)) (row ''activity_code'') = Inr ()"
        if "moves_the_class (Some s) rid w" using chk that s(1,2) by simp
    qed (use act(2) ok(1) eq in simp_all)
  qed
qed

lemma import_row_inv:
  assumes "import_inv L t cycle cid st" and "rrule_lib_ok L" "reads_weekly_rules L"
    and "L = env_rrule (ie_app env)" "t = env_today (ie_app env)"
    and "import_row env cycle cid columns row st = Inr st'"
  shows "import_inv L t cycle cid st'"
proof -
  obtain st1 aid st2 sid st3 where steps: "upsert_member env row st = Inr st1" "upsert_offering cid row st1 = Inr (aid, st2)"
    "upsert_slot env cycle aid row (upsert_enrollment aid row st2) = Inr (sid, st3)"
    and st': "st' = st3\<lparr>im_seen_slots := im_seen_slots st3 @ [sid], im_processed := im_processed st3 + 1\<rparr>"
    using assms(6) by (auto simp: import_row_def refuse_row_def result_simps split: if_splits)
  have inv1: "import_inv L t cycle cid st1" by (rule same_timetable_inv[OF upsert_member_same[OF steps(1)] assms(1)])
  note off = upsert_offering_inv[OF inv1 steps(2)]
  note same = upsert_enrollment_same[of st2 aid row]
  have "get_activity_row (im_db (upsert_enrollment aid row st2)) = get_activity_row (im_db st2)"
    using same by (simp add: same_timetable_def get_activity_row_def fun_eq_iff)
  then obtain a where "get_activity_row (im_db (upsert_enrollment aid row st2)) aid = Some a" "ac_cycle_id a = cid" using off(2) by auto
  from upsert_slot_inv[OF same_timetable_inv[OF same off(1)] assms(2-5) this steps(3)]
  show ?thesis by (simp add: st' import_inv_def)
qed

lemma import_rows_inv:
  assumes "import_inv L t cycle cid st" and "rrule_lib_ok L" "reads_weekly_rules L"
    and "L = env_rrule (ie_app env)" "t = env_today (ie_app env)"
    and "import_rows env cycle cid columns rows st = Inr st'"
  shows "import_inv L t cycle cid st'"
  by (rule fold_result_inv[where P = "import_inv L t cycle cid", OF assms(6)[unfolded import_rows_def] assms(1)])
    (auto simp: import_line_def split: sum.splits intro: import_row_inv[OF _ assms(2-5)])

section \<open>What the import starts from\<close>

lemma fold_inv: "P a \<Longrightarrow> (\<And>x a. x \<in> set xs \<Longrightarrow> P a \<Longrightarrow> P (f x a)) \<Longrightarrow> P (fold f xs a)"
  by (induction xs arbitrary: a) auto

lemma fetch_slots_found:
  assumes "distinct (map sl_id (structural_master_slots db))" and "fetch_slots db ids k = Some i"
  shows "\<exists>s. get_slot_row db i = Some s \<and> key_of_slot s = k"
proof -
  let ?P = "\<lambda>m :: slot_key \<Rightarrow> int option. \<forall>k i. m k = Some i \<longrightarrow> (\<exists>s \<in> set (structural_master_slots db). sl_id s = i \<and> key_of_slot s = k)"
  have "?P (fetch_slots db ids)"
    unfolding fetch_slots_def by (intro fold_inv[of ?P]) (auto simp: set_default_def split: if_splits)
  then obtain s where s: "s \<in> set (structural_master_slots db)" "sl_id s = i" "key_of_slot s = k" using assms(2) by blast
  then have "get_slot_row db i = Some s" using find_by_id[OF assms(1) s(1)] by (simp add: get_slot_row_def)
  with s(3) show ?thesis by blast
qed

lemma fetch_offerings_found:
  assumes "distinct (map ac_id (activities db))" and "map_of (rev (fetch_offerings db cid codes)) code = Some i"
  shows "\<exists>a. get_activity_row db i = Some a \<and> ac_cycle_id a = cid"
proof -
  have "(code, i) \<in> set (fetch_offerings db cid codes)" using map_of_SomeD[OF assms(2)] by simp
  then obtain a where a: "a \<in> set (activities db)" "ac_id a = i" "ac_cycle_id a = cid" by (auto simp: fetch_offerings_def)
  then have "get_activity_row db i = Some a" using find_by_id[OF assms(1) a(1)] by (simp add: get_activity_row_def)
  with a(3) show ?thesis by blast
qed

lemma prefetch_inv:
  assumes "timetable_rules L t db" and "distinct (map ac_id (activities db))"
  shows "import_inv L t (get_cycle_row db cid) cid (prefetch env db accs cid rows)"
proof -
  have "distinct (map sl_id (structural_master_slots db))" using assms(1) by (simp add: timetable_rules_def rows_ok_def keys_ok_def)
  then show ?thesis
    using assms fetch_slots_found[of db] fetch_offerings_found[OF assms(2)]
    unfolding import_inv_def prefetch_def Let_def by simp
qed

section \<open>Past the rows\<close>

lemma fewer_slots_apart:
  assumes "slots_apart L t db" and "structural_master_slots db' = filter P (structural_master_slots db)"
    and "activities db' = activities db" and "planning_cycles db' = planning_cycles db"
  shows "slots_apart L t db'"
proof -
  have look: "get_activity_row db' = get_activity_row db" "get_cycle_row db' = get_cycle_row db"
    by (simp_all add: get_activity_row_def get_cycle_row_def fun_eq_iff assms)
  have same: "slot_counts db' = slot_counts db" "slot_runs L db' = slot_runs L db"
    using counts_runs_same[of db' _ db] look by (auto simp: fun_eq_iff)
  have "set (booked_slots db' rid) \<subseteq> set (booked_slots db rid)" for rid by (auto simp: booked_slots_def same assms(2))
  then show ?thesis using assms(1) unfolding slots_apart_def same by (meson subsetD)
qed

lemma delete_slot_rules:
  assumes "timetable_rules L t db" and "delete_slot env slot db = Inr (removed, detached, db')"
  shows "timetable_rules L t db'"
proof -
  have rows: "rows_ok L db" "keys_ok db" using assms(1) by (simp_all add: timetable_rules_def rows_ok_def)
  have "only_less L db (slot_deleted (set (map dl_id (planned_days env slot db))) (sl_id slot) db)"
    using rows(2) by (rule slot_deleted_only_less) (auto simp: planned_days_def dest: dl_id_inj[OF rows(2)])
  then show ?thesis
    unfolding delete_slot_eq[OF assms(2)] by (rule only_less_rules[OF assms(1) _ slot_deleted_rows_ok[OF rows(1)]])
qed

lemma delete_slot_apart:
  "slots_apart L t db \<Longrightarrow> delete_slot env slot db = Inr (removed, detached, db') \<Longrightarrow> slots_apart L t db'"
  by (drule delete_slot_eq, erule fewer_slots_apart) (simp_all add: slot_deleted_def)

text \<open>A property that deleting a slot keeps, and that does not read the rosters, is kept by the removals.\<close>

lemma remove_orphans_keeps:
  assumes "remove_orphans env cid orph db = Inr (out, db')" and "P db"
    and del: "\<And>slot d n m d'. P d \<Longrightarrow> delete_slot env slot d = Inr (n, m, d') \<Longrightarrow> P d'"
    and ros: "\<And>d x. P d \<Longrightarrow> P (d\<lparr>activity_enrollments := x\<rparr>)"
  shows "P db'"
proof -
  obtain mid where mid: "fold_result (remove_slot env) (fst orph) (nothing_removed, db) = Inr mid"
    "fold_result (remove_enrollment cid) (snd orph) mid = Inr (out, db')"
    using assms(1) by (auto simp: remove_orphans_def result_simps)
  have "P (snd mid)"
    by (rule fold_result_inv[where P = "\<lambda>s. P (snd s)", OF mid(1)])
      (use assms(2) in \<open>auto simp: remove_slot_def split: option.splits sum.splits dest: del\<close>)
  then have "P (snd (out, db'))"
    by (rule fold_result_inv[where P = "\<lambda>s. P (snd s)", OF mid(2)])
      (auto simp: remove_enrollment_def split: option.splits list.splits intro: ros)
  then show ?thesis by simp
qed

lemma finish_import_rules:
  assumes "timetable_rules L t (im_db st)" and "finish_import env cid rm st = Inr (report, db')"
  shows "slots_apart L t db'" and "ir_ledger_rows_updated report = 0 \<Longrightarrow> timetable_rules L t db'"
proof -
  let ?db = "im_db st" and ?moved = "propagate_slot_corrections (ie_app env) (corrected_slots st) (im_db st)"
    and ?orph = "orphans (im_db st) cid (im_units st) (im_seen_slots st) (im_seen_enrollments st)"
  obtain rows out where rows: "flush_days (env_backend (ie_app env)) (co_rows ?moved) (daily_ledger_rows ?db) = Inr rows"
    and rem: "(if rm then remove_orphans (ie_app env) cid ?orph (?db\<lparr>daily_ledger_rows := rows\<rparr>)
      else Inr (nothing_removed, ?db\<lparr>daily_ledger_rows := rows\<rparr>)) = Inr (out, db')"
    and upd: "ir_ledger_rows_updated report = co_updated ?moved"
    using assms(2) by (auto simp: finish_import_def Let_def result_simps split: sum.splits)
  have keeps: "P db'" if "P (?db\<lparr>daily_ledger_rows := rows\<rparr>)"
    "\<And>slot d n m d'. P d \<Longrightarrow> delete_slot (ie_app env) slot d = Inr (n, m, d') \<Longrightarrow> P d'"
    "\<And>d x. P d \<Longrightarrow> P (d\<lparr>activity_enrollments := x\<rparr>)" for P
  proof (cases rm)
    case True
    then have "remove_orphans (ie_app env) cid ?orph (?db\<lparr>daily_ledger_rows := rows\<rparr>) = Inr (out, db')" using rem by simp
    then show ?thesis by (rule remove_orphans_keeps[where P = P]) (fact that)+
  next
    case False
    then show ?thesis using rem that(1) by simp
  qed
  have apart: "slots_apart L t ?db" using assms(1) by (simp add: timetable_rules_def)
  show "slots_apart L t db'"
  proof (rule keeps[where P = "slots_apart L t"])
    show "slots_apart L t (?db\<lparr>daily_ledger_rows := rows\<rparr>)"
      by (rule fewer_slots_apart[OF apart, where P = "\<lambda>_. True"]) simp_all
    show "slots_apart L t (d\<lparr>activity_enrollments := x\<rparr>)" if "slots_apart L t d" for d x
      by (rule fewer_slots_apart[OF that, where P = "\<lambda>_. True"]) simp_all
  qed (rule delete_slot_apart)
  show "timetable_rules L t db'" if "ir_ledger_rows_updated report = 0"
  proof (rule keeps[where P = "timetable_rules L t"])
    have "co_rows ?moved = []" using that upd by (simp add: propagate_slot_corrections_def Let_def)
    then have "rows = daily_ledger_rows ?db" using rows by (simp add: flush_days_def)
    then show "timetable_rules L t (?db\<lparr>daily_ledger_rows := rows\<rparr>)" using assms(1) by simp
    show "timetable_rules L t (d\<lparr>activity_enrollments := x\<rparr>)" if "timetable_rules L t d" for d x
      using that timetable_rules_cong[of "d\<lparr>activity_enrollments := x\<rparr>" d L t] by simp
  qed (rule delete_slot_rules)
qed

section \<open>The import as a whole\<close>

lemma process_cases:
  assumes "process_member_centric_matrix env path csv cid rm sess accs = (ans, sess', accs')"
  obtains e where "ans = Inl e" "committed sess' = committed sess" "accs' = accs"
  | report rows cols st db where "ans = Inr report" "committed sess' = db" "accs' = im_accounts st"
      "import_rows env (get_cycle_row (working sess) cid) cid cols rows (prefetch env (working sess) accs cid rows) = Inr st"
      "finish_import env cid rm st = Inr (report, db)"
proof (cases csv)
  case (Inl e)
  with assms have "ans = Inl (Csv_Parse_Error (replace_all path ''the file'' e))" "sess' = sess" "accs' = accs"
    by (simp_all add: process_member_centric_matrix_def)
  then show ?thesis using that(1) by blast
next
  case (Inr frame)
  let ?rows = "map stripped (cf_rows frame)"
  let ?loop = "import_rows env (get_cycle_row (working sess) cid) cid (cf_columns frame) ?rows (prefetch env (working sess) accs cid ?rows)"
  note call = assms[unfolded process_member_centric_matrix_def Inr sum.case Let_def]
  show ?thesis
  proof (cases "filter (\<lambda>c. c \<notin> set (cf_columns frame)) REQUIRED_COLUMNS = []")
    case False
    then show ?thesis using call that(1) by (simp only: if_True simp_thms prod.inject) blast
  next
    case True
    then have run: "(case ?loop of Inl (line, e) \<Rightarrow> (Inl (Row_Failed line e), db_rollback sess, accs)
       | Inr st \<Rightarrow> (case finish_import env cid rm st of
            Inl e \<Rightarrow> (Inl (Import_Failed e), db_rollback sess, accs)
          | Inr (report, db) \<Rightarrow> (Inr report, db_commit (sess\<lparr>working := db\<rparr>), im_accounts st))) = (ans, sess', accs')"
      using call by (simp only: if_False simp_thms)
    show ?thesis
    proof (cases ?loop)
      case (Inl x)
      then show ?thesis using run that(1) by (cases x) (auto simp: db_rollback_def)
    next
      case loop: (Inr st)
      show ?thesis
      proof (cases "finish_import env cid rm st")
        case (Inl e)
        then show ?thesis using run loop that(1) by (auto simp: db_rollback_def)
      next
        case (Inr y)
        obtain report db where y: "y = (report, db)" by (cases y)
        show ?thesis by (rule that(2)[OF _ _ _ loop Inr[unfolded y]]) (use run loop Inr y in \<open>auto simp: db_commit_def\<close>)
      qed
    qed
  qed
qed

text \<open>A file that is refused leaves the database and the accounts as they were, whatever rows came before the
  one that failed.\<close>

theorem refused_import_changes_nothing:
  "case process_member_centric_matrix env path csv cid rm sess accs of
     (Inl _, sess', accs') \<Rightarrow> committed sess' = committed sess \<and> accs' = accs | (Inr _, _, _) \<Rightarrow> True"
proof -
  obtain ans sess' accs' where p: "process_member_centric_matrix env path csv cid rm sess accs = (ans, sess', accs')"
    by (metis prod_cases3)
  show ?thesis by (rule process_cases[OF p]) (simp_all add: p)
qed

section \<open>Examples\<close>

definition ex_cells :: "string list \<Rightarrow> csv_row" where
  "ex_cells cells = (\<lambda>c. case map_of (zip REQUIRED_COLUMNS cells) c of None \<Rightarrow> [] | Some v \<Rightarrow> v)"

text \<open>A member joins the class of Monday, which moves to another room.\<close>

definition ex_frame :: csv_frame where
  "ex_frame = \<lparr>cf_columns = REQUIRED_COLUMNS, cf_rows = map ex_cells
     [[''bob'', ''Bob'', ''Bob@x.edu'', ''CS1'', ''Computing'', ''CS'', ''1'', ''09:00'', ''10:00'', ''ada'', '' A2 '']]\<rparr>"

definition ex_import_env :: import_env where
  "ex_import_env = \<lparr>ie_app = ex_env, ie_here = Some ''default'', ie_password = (\<lambda>u. ''pw-'' @ u),
     ie_hash_password = (\<lambda>p. ''#'' @ p), ie_feed_token = (\<lambda>u. ''feed-'' @ u)\<rparr>"

definition ex_import :: "csv_frame \<Rightarrow> database \<Rightarrow> (error_log + import_report) \<times> session \<times> account list" where
  "ex_import frame db = process_member_centric_matrix ex_import_env ''/tmp/f.csv'' (Inr frame) 1 False (open_session db) []"

definition ex_rows :: "csv_frame \<Rightarrow> database \<Rightarrow> (nat \<times> import_error) + import_state" where
  "ex_rows frame db = import_rows ex_import_env (get_cycle_row db 1) 1 (cf_columns frame) (map stripped (cf_rows frame))
     (prefetch ex_import_env db [] 1 (map stripped (cf_rows frame)))"

text \<open>The two halves of an import are evaluated one after the other.\<close>

lemma ex_import_halves:
  assumes "filter (\<lambda>c. c \<notin> set (cf_columns frame)) REQUIRED_COLUMNS = []" and "ex_rows frame db = Inr st"
    and "finish_import ex_import_env 1 False st = Inr (report, db')"
  shows "ex_import frame db = (Inr report, open_session db', im_accounts st)"
  using assms unfolding ex_import_def process_member_centric_matrix_def ex_rows_def
  by (simp only: sum.case Let_def if_False simp_thms split_conv) (simp add: db_commit_def open_session_def)

lemma weekly_lib_reads: "reads_weekly_rules weekly_lib"
proof -
  have all: "list_all (\<lambda>d. case weekly_rule d of Inl _ \<Rightarrow> False | Inr r \<Rightarrow> normalize weekly_lib r = Inr r) [1..7]" by code_simp
  show ?thesis unfolding reads_weekly_rules_def
    using all by (auto simp: list_all_iff stored_rule_def split: sum.splits)
qed

text \<open>The second half without removals, in the terms of its parts.\<close>

lemma finish_import_parts:
  assumes "flush_days (env_backend (ie_app env)) (co_rows (propagate_slot_corrections (ie_app env) (corrected_slots st) (im_db st)))
      (daily_ledger_rows (im_db st)) = Inr rows"
    and "unmet_of_seen (ie_app env) (im_db st) (im_seen_slots st) = Inr unmet"
  obtains report where "finish_import env cid False st = Inr (report, (im_db st)\<lparr>daily_ledger_rows := rows\<rparr>)"
    and "ir_rows_ingested report = im_processed st" and "ir_provisioned_credentials report = im_provisioned st"
    and "ir_ledger_rows_updated report = co_updated (propagate_slot_corrections (ie_app env) (corrected_slots st) (im_db st))"
  using assms by (simp add: finish_import_def Let_def)

definition ex_facts :: "import_state \<Rightarrow> bool" where
  "ex_facts st \<longleftrightarrow> im_processed st = 1 \<and> map cd_email_address (im_provisioned st) = [''bob@x.edu''] \<and>
     co_updated (propagate_slot_corrections ex_env (corrected_slots st) (im_db st)) = 0 \<and>
     map sl_resource_id (structural_master_slots (im_db st)) = [Some 2] \<and>
     \<not> isl (flush_days PostgreSQL (co_rows (propagate_slot_corrections ex_env (corrected_slots st) (im_db st)))
        (daily_ledger_rows (im_db st))) \<and>
     \<not> isl (unmet_of_seen ex_env (im_db st) (im_seen_slots st))"

lemma ex_imported: "case_sum (\<lambda>_. False) ex_facts (ex_rows ex_frame ex_db)"
  by code_simp

text \<open>The class was on the timetable before, was retired, and was put on again.\<close>

definition ex_retired_db :: database where
  "ex_retired_db = ex_db\<lparr>structural_master_slots := [ex_slot\<lparr>sl_retired_at := Some 0\<rparr>, ex_slot\<lparr>sl_id := 2\<rparr>]\<rparr>"

definition is_shadowed :: "nat \<times> import_error \<Rightarrow> bool" where
  "is_shadowed e \<longleftrightarrow> e = (2, Value_Error (Slot_Retired ''CS1'' 1 (hour 9)))"

lemma retired_slot_refused: "case_sum is_shadowed (\<lambda>_. False) (ex_rows ex_frame ex_retired_db)"
  by code_simp

section \<open>The timetable after an import\<close>

text \<open>C12: A file is no way around the checks of the timetable routes. From tables that keep the timetable's rules,
  an import that is taken leaves no two slots in service on one room at once on the dates ahead,
  whatever its rows say and whether or not it removes what it does not mention; and where it
  corrected no day already generated, all the rules of the timetable are kept, the bookings and
  the generated days among them.\<close>

theorem import_keeps_the_timetable:
  assumes "rrule_lib_ok (env_rrule (ie_app env))" and "reads_weekly_rules (env_rrule (ie_app env))"
    and "timetable_rules (env_rrule (ie_app env)) (env_today (ie_app env)) (working sess)"
    and "distinct (map ac_id (activities (working sess)))"
    and "process_member_centric_matrix env path csv cid rm sess accs = (Inr report, sess', accs')"
  shows "slots_apart (env_rrule (ie_app env)) (env_today (ie_app env)) (committed sess') \<and>
    (ir_ledger_rows_updated report = 0 \<longrightarrow>
       timetable_rules (env_rrule (ie_app env)) (env_today (ie_app env)) (committed sess'))"
  using process_cases[OF assms(5)]
proof cases
  case (2 report' rows cols st db)
  have "import_inv (env_rrule (ie_app env)) (env_today (ie_app env)) (get_cycle_row (working sess) cid) cid st"
    by (rule import_rows_inv[OF prefetch_inv[OF assms(3,4)] assms(1,2) refl refl 2(4)])
  then have "timetable_rules (env_rrule (ie_app env)) (env_today (ie_app env)) (im_db st)" by (rule import_invD)
  from finish_import_rules[OF this 2(5)] 2(1,2) show ?thesis by simp
qed simp

theorem import_keeps_the_timetable_witness:
  "\<exists>report db accs. ex_import ex_frame ex_db = (Inr report, open_session db, accs) \<and> ir_rows_ingested report = 1 \<and>
     timetable_rules weekly_lib monday db \<and> map sl_resource_id (structural_master_slots db) = [Some 2]"
proof -
  obtain st where st: "ex_rows ex_frame ex_db = Inr st" and f: "ex_facts st"
    using ex_imported by (auto split: sum.splits)
  have env: "ie_app ex_import_env = ex_env" "env_backend ex_env = PostgreSQL" "env_rrule ex_env = weekly_lib" "env_today ex_env = monday"
    by (simp_all add: ex_import_env_def ex_env_def)
  obtain rows unmet where parts:
    "flush_days (env_backend (ie_app ex_import_env)) (co_rows (propagate_slot_corrections (ie_app ex_import_env) (corrected_slots st) (im_db st)))
      (daily_ledger_rows (im_db st)) = Inr rows"
    "unmet_of_seen (ie_app ex_import_env) (im_db st) (im_seen_slots st) = Inr unmet"
    using f unfolding ex_facts_def env isl_def by (meson sum.exhaust)
  obtain report where fin: "finish_import ex_import_env 1 False st = Inr (report, (im_db st)\<lparr>daily_ledger_rows := rows\<rparr>)"
    and rep: "ir_rows_ingested report = im_processed st"
      "ir_ledger_rows_updated report = co_updated (propagate_slot_corrections (ie_app ex_import_env) (corrected_slots st) (im_db st))"
    by (rule finish_import_parts[OF parts])
  have cols: "filter (\<lambda>c. c \<notin> set (cf_columns ex_frame)) REQUIRED_COLUMNS = []" by (simp add: ex_frame_def)
  note run = ex_import_halves[OF cols st fin]
  have lib: "rrule_lib_ok (env_rrule (ie_app ex_import_env))" "reads_weekly_rules (env_rrule (ie_app ex_import_env))"
    "timetable_rules (env_rrule (ie_app ex_import_env)) (env_today (ie_app ex_import_env)) (working (open_session ex_db))"
    using weekly_lib_ok weekly_lib_reads ex_timetable_rules by (simp_all add: env)
  have ids: "distinct (map ac_id (activities (working (open_session ex_db))))" by (simp add: ex_defs)
  have "ir_ledger_rows_updated report = 0" "ir_rows_ingested report = 1" "map sl_resource_id (structural_master_slots (im_db st)) = [Some 2]"
    using f rep by (simp_all add: ex_facts_def env)
  with import_keeps_the_timetable[OF lib ids run[unfolded ex_import_def]] run show ?thesis
    by (intro exI conjI) (assumption | simp add: env)+
qed

end
