(* ===== verification/Spec2Isabelle.thy ===== *)
theory Spec2Isabelle
  imports Conflicts_Props Schedule_Props Location_Props Sessions_Props Idempotency_Props Webhooks_Props Scheduled_Props Guest_Props
    Accounts_Props Ingestion_Props
begin

text \<open>
  Chronos Ledger keeps the timetable of an organization: who teaches or works where and when, which
  rooms and devices are booked, and what each day's ledger says. This development models the
  scheduling core of its backend (\<^verbatim>\<open>src/backend/app\<close>) as executable functions over the tables of
  the database and proves the rules the code is there to keep.

  \<^bold>\<open>How the parts interact.\<close> A planning cycle holds activities, an activity holds weekly slots, and a
  slot has a recurrence rule, a window and perhaps a room. The nightly job lays the days of the
  slots into the daily ledger ahead of time. A reservation books a resource for a window; it is
  refused over what availability reports (the timetable, the generated days, the holds), and it
  takes along what its resource requires. Opening a cycle, making a slot and moving one are
  refused over the holds, the other slots and the days, so that the two directions agree. The
  conflict report reads the same rows afterwards and names what got past the checks.

  \<^bold>\<open>Modelling choices.\<close> A table is a list of rows (\<open>Datamodel\<close>) in the order of its primary key; a
  query is a filter and a sort. A session is the pair of the committed tables and the working copy
  (\<open>App_Env\<close>); a route takes the session and returns its answer and the session it leaves. A raised
  error is a value of a sum type: an \<open>api_error\<close> with its status, code and body, or a \<open>walk_error\<close> that
  also has the exceptions the code does not catch (a refused write, an attribute of a missing row).
  What other transactions commit between a check and a write is a function argument. Dates are
  ordinals, times of day and instants are microseconds, all of them unbounded integers: Python's
  bounds on years are left out. The database's exclusion constraints and unique keys are part of
  the insert functions, under PostgreSQL or SQLite as the environment says. dateutil's expansion of
  a recurrence rule is not under \<^verbatim>\<open>src/\<close>: it is the argument \<open>rrule_lib\<close>, with what the code relies on
  in \<open>rrule_lib_ok\<close> (\<open>Recurrence\<close>); \<open>weekly_lib\<close> is a concrete function that has these properties.

  \<^bold>\<open>The theories.\<close>
  \<^item> \<open>Prelude\<close>: dates, instants and spans, results and their loops, tables.
  \<^item> \<open>Datamodel\<close>: \<^verbatim>\<open>models/db.py\<close>, the tables and enums the core uses.
  \<^item> \<open>Org_Time\<close>: \<^verbatim>\<open>core/time.py\<close> and \<^verbatim>\<open>core/clock.py\<close>; \<open>Py_Strings\<close>: the string functions of Python the
    code uses; \<open>Recurrence\<close>: \<^verbatim>\<open>core/recurrence.py\<close>.
  \<^item> \<open>Availability\<close>, \<open>Pool\<close>, \<open>Availability_Props\<close>: \<^verbatim>\<open>services/availability.py\<close>. The busy intervals are
    exactly the spans that occupy the resource; the checks of a booking and of a slot find exactly
    what overlaps; the peak and the full stretches of a pool are exact.
  \<^item> \<open>App_Env\<close>, \<open>Access\<close>, \<open>Booking_Rules\<close>: the session, the error values, the inserts with their
    constraints, roles and units; the rules of the reservations table as predicates, and the locale
    \<open>walk_invariant\<close> for what a walk over requirements keeps.
  \<^item> \<open>Requirements\<close>, \<open>Requirements_Props\<close>: \<^verbatim>\<open>services/requirements.py\<close>. The walk ends, keeps the
    booking rules, holds distinct resources; saving a requirement keeps the graph acyclic.
  \<^item> \<open>Reservations\<close>, \<open>Reservations_Props\<close>: \<^verbatim>\<open>api/v1/endpoints/resources.py\<close>. A booking keeps the rules, is
    race safe on PostgreSQL, all or nothing, can be replayed; availability and booking agree.
  \<^item> \<open>Ledger_Generator\<close>, \<open>Ledger_Props\<close>: \<^verbatim>\<open>cron/ledger_generator.py\<close>. Filling the horizon writes exactly
    the due days and refines the date by date job; the locale \<open>ledger_writer\<close> is interpreted for both.
  \<^item> \<open>Master_Slot\<close>, \<open>Schedule\<close>, \<open>Timetable_Rules\<close>, \<open>Schedule_Props\<close>: \<^verbatim>\<open>services/master_slot.py\<close>,
    \<^verbatim>\<open>services/resource.py\<close> and the writing routes of \<^verbatim>\<open>api/v1/endpoints/schedule.py\<close>. The timetable as a
    step relation, with the rules every reachable state keeps.
  \<^item> \<open>Conflicts\<close>, \<open>Conflicts_Props\<close>: \<^verbatim>\<open>services/conflicts.py\<close>. The sweep finds each overlapping pair once,
    and reads what availability reads.
  \<^item> \<open>Location\<close>, \<open>Ledger_Routes\<close>, \<open>Location_Props\<close>: \<^verbatim>\<open>services/location_resolver.py\<close> and the ledger's reading
    routes and change of one day in \<^verbatim>\<open>api/v1/endpoints/schedule.py\<close>. Resolving a list of people answers
    each as if asked alone.
  \<^item> \<open>Geo_Fence\<close>, \<open>Attendance\<close>: \<^verbatim>\<open>services/geo_fence.py\<close>, \<^verbatim>\<open>services/reverse_rsvp.py\<close> and
    \<^verbatim>\<open>api/v1/endpoints/attendance.py\<close>. The distance stays between zero and half the great circle, and is
    computed over the reals; marks, absence requests and their decision.
  \<^item> \<open>Sessions\<close>, \<open>Sessions_Props\<close>: \<^verbatim>\<open>core/security.py\<close>, \<^verbatim>\<open>api/v1/endpoints/auth.py\<close>,
    \<^verbatim>\<open>core/rate_limit.py\<close> and \<^verbatim>\<open>cron/refresh_token_cleanup.py\<close>. A step relation of sign-ins, refreshes
    and sign-outs in which no family of refresh tokens ever has two live ones.
  \<^item> \<open>Idempotency\<close>, \<open>Idempotency_Props\<close>: \<^verbatim>\<open>core/idempotency.py\<close>. Under one key at most one request runs
    at a time and after an answer none; a replay is the stored answer of the same request.
  \<^item> \<open>Changes\<close>, \<open>Changes_Props\<close>: \<^verbatim>\<open>api/v1/endpoints/changes.py\<close>. A client that polls with the cursor it was
    given reaches every entry; what the collapsed pages leave out.
  \<^item> \<open>Webhooks\<close>, \<open>Webhook_Routes\<close>, \<open>Webhooks_Props\<close>: \<^verbatim>\<open>services/webhooks.py\<close> and
    \<^verbatim>\<open>api/v1/endpoints/webhooks.py\<close>. Fan-out makes one delivery per change and subscription, the changes
    of one row arrive in order, and every attempt settles within the retries.
  \<^item> \<open>Guest\<close>, \<open>Guest_Props\<close>: \<^verbatim>\<open>api/v1/endpoints/guest.py\<close> and \<^verbatim>\<open>cron/guest_overstay.py\<close>. The code a visitor is
    given finds the visit again, and a stay that ran over is told once.
  \<^item> \<open>Scheduled\<close>, \<open>Scheduled_Props\<close>: \<^verbatim>\<open>cron/scheduled.py\<close> and \<^verbatim>\<open>api/v1/endpoints/clock.py\<close>. Moving the clock
    runs each daily job exactly at its moments, and the ledger does not depend on the steps taken.
  \<^item> \<open>Accounts\<close>, \<open>Admin_Routes\<close>, \<open>Accounts_Props\<close>: \<^verbatim>\<open>api/v1/endpoints/users.py\<close>, \<^verbatim>\<open>core/passwords.py\<close>,
    \<^verbatim>\<open>core/bootstrap.py\<close> and \<^verbatim>\<open>services/organizations.py\<close>, with the routes of API keys, of the audit log, of
    resource classes and of the organization's settings. The line of managers never loops, and an
    account that was deactivated stays out.
  \<^item> \<open>Ingestion\<close>, \<open>Ingestion_Props\<close>: \<^verbatim>\<open>services/ingestion_engine.py\<close> and \<^verbatim>\<open>api/v1/endpoints/ingestion.py\<close>.
    A timetable file goes row by row over the accounts and the tables; what is taken keeps the
    rules of the timetable, and a refused file changes nothing.
  \<^item> \<open>Examples\<close>: the small organization the witnesses evaluate.

  \<^bold>\<open>Parameters.\<close> What is not under \<^verbatim>\<open>src/\<close> is an argument with named hypotheses: dateutil, bcrypt, JWT,
  SHA-256 and HMAC, JSON text, the HTTP client and name resolution of webhooks, the counters of a
  Redis server, random bytes, the frame of strings pandas reads from a timetable file. Each property with such a hypothesis is applied to a concrete
  function by its witness.

  \<^bold>\<open>Bounds and fuel.\<close> Loops are structural or have a termination proof. The walk over requirements is
  cut at the depth the code cuts it at (\<open>MAX_DEPTH\<close>), and the search for a cycle terminates because
  each round visits an owner it had not seen.

  \<^bold>\<open>Not modelled.\<close> Federated identity, the export and import of an organization, calendar feeds, live
  connections, settings and start-up; the client libraries, the frontend and the command line. Log
  lines are values where a job returns them and are left out elsewhere.
\<close>

end
